(* ===== verification/Proof_Level.thy ===== *)
theory Proof_Level
  imports MMM_Prelude
begin

text \<open>
  The fail-closed proof state machine of \<^verbatim>\<open>proof_level.py\<close>: the lifecycle levels of a reused
  source, the table of legal transitions, and the receipt each gated level demands. A run is a
  sequence of transitions the validator accepts; the safety results say what evidence every run to
  a reusable level must have presented.
\<close>

section \<open>Levels\<close>

datatype ProofLevel =
    DISCOVERED
  | LICENSE_VERIFIED
  | PINNED
  | CLOSURE_COMPLETE
  | MATERIALIZED
  | SUBGRAPH_COMPILE_VERIFIED
  | PARTIAL_REUSE
  | COMPILE_VERIFIED
  | INTEGRATION_VERIFIED
  | RUNTIME_BOOT_VERIFIED
  | BEHAVIOR_VERIFIED
  | HOST_VERIFIED
  | FRESH_REQUIRED
  | UNVERIFIED

definition level_members :: "ProofLevel list" where
  "level_members =
     [DISCOVERED, LICENSE_VERIFIED, PINNED, CLOSURE_COMPLETE, MATERIALIZED,
      SUBGRAPH_COMPILE_VERIFIED, PARTIAL_REUSE, COMPILE_VERIFIED, INTEGRATION_VERIFIED,
      RUNTIME_BOOT_VERIFIED, BEHAVIOR_VERIFIED, HOST_VERIFIED, FRESH_REQUIRED, UNVERIFIED]"

fun level_value :: "ProofLevel \<Rightarrow> string" where
  "level_value DISCOVERED = ''DISCOVERED''"
| "level_value LICENSE_VERIFIED = ''LICENSE_VERIFIED''"
| "level_value PINNED = ''PINNED''"
| "level_value CLOSURE_COMPLETE = ''CLOSURE_COMPLETE''"
| "level_value MATERIALIZED = ''MATERIALIZED''"
| "level_value SUBGRAPH_COMPILE_VERIFIED = ''SUBGRAPH_COMPILE_VERIFIED''"
| "level_value PARTIAL_REUSE = ''PARTIAL_REUSE''"
| "level_value COMPILE_VERIFIED = ''COMPILE_VERIFIED''"
| "level_value INTEGRATION_VERIFIED = ''INTEGRATION_VERIFIED''"
| "level_value RUNTIME_BOOT_VERIFIED = ''RUNTIME_BOOT_VERIFIED''"
| "level_value BEHAVIOR_VERIFIED = ''BEHAVIOR_VERIFIED''"
| "level_value HOST_VERIFIED = ''HOST_VERIFIED''"
| "level_value FRESH_REQUIRED = ''FRESH_REQUIRED''"
| "level_value UNVERIFIED = ''UNVERIFIED''"

text \<open>\<open>ProofLevel.from_value\<close>: a member is a string subclass, so a member arrives as its value.\<close>

fun from_value :: "pyval \<Rightarrow> ProofLevel" where
  "from_value (PStr s) =
     (case find (\<lambda>l. level_value l = upper (strip s)) level_members of
        Some l \<Rightarrow> l
      | None \<Rightarrow> UNVERIFIED)"
| "from_value _ = UNVERIFIED"

definition is_verified :: "ProofLevel \<Rightarrow> bool" where
  "is_verified l \<longleftrightarrow> l \<in> {COMPILE_VERIFIED, INTEGRATION_VERIFIED, RUNTIME_BOOT_VERIFIED,
     BEHAVIOR_VERIFIED, HOST_VERIFIED}"

definition is_partial :: "ProofLevel \<Rightarrow> bool" where
  "is_partial l \<longleftrightarrow> l \<in> {PARTIAL_REUSE, SUBGRAPH_COMPILE_VERIFIED}"

definition allows_reuse :: "ProofLevel \<Rightarrow> bool" where
  "allows_reuse l \<longleftrightarrow> is_verified l \<or> is_partial l"

fun legal_transitions :: "ProofLevel \<Rightarrow> ProofLevel list" where
  "legal_transitions DISCOVERED = [LICENSE_VERIFIED, UNVERIFIED, FRESH_REQUIRED]"
| "legal_transitions LICENSE_VERIFIED = [PINNED, UNVERIFIED, FRESH_REQUIRED]"
| "legal_transitions PINNED = [CLOSURE_COMPLETE, MATERIALIZED, UNVERIFIED, FRESH_REQUIRED]"
| "legal_transitions CLOSURE_COMPLETE =
     [MATERIALIZED, SUBGRAPH_COMPILE_VERIFIED, COMPILE_VERIFIED, PARTIAL_REUSE, UNVERIFIED,
      FRESH_REQUIRED]"
| "legal_transitions MATERIALIZED =
     [SUBGRAPH_COMPILE_VERIFIED, COMPILE_VERIFIED, PARTIAL_REUSE, UNVERIFIED, FRESH_REQUIRED]"
| "legal_transitions SUBGRAPH_COMPILE_VERIFIED = [PARTIAL_REUSE, UNVERIFIED, FRESH_REQUIRED]"
| "legal_transitions PARTIAL_REUSE =
     [INTEGRATION_VERIFIED, HOST_VERIFIED, UNVERIFIED, FRESH_REQUIRED]"
| "legal_transitions COMPILE_VERIFIED =
     [INTEGRATION_VERIFIED, RUNTIME_BOOT_VERIFIED, BEHAVIOR_VERIFIED, HOST_VERIFIED, UNVERIFIED,
      FRESH_REQUIRED]"
| "legal_transitions INTEGRATION_VERIFIED =
     [RUNTIME_BOOT_VERIFIED, BEHAVIOR_VERIFIED, HOST_VERIFIED, UNVERIFIED, FRESH_REQUIRED]"
| "legal_transitions RUNTIME_BOOT_VERIFIED =
     [BEHAVIOR_VERIFIED, HOST_VERIFIED, UNVERIFIED, FRESH_REQUIRED]"
| "legal_transitions BEHAVIOR_VERIFIED = [HOST_VERIFIED, UNVERIFIED, FRESH_REQUIRED]"
| "legal_transitions HOST_VERIFIED = [UNVERIFIED, FRESH_REQUIRED]"
| "legal_transitions FRESH_REQUIRED = [UNVERIFIED]"
| "legal_transitions UNVERIFIED = [DISCOVERED, FRESH_REQUIRED]"

section \<open>Receipts\<close>

definition allowed_license_ids :: "string list" where
  "allowed_license_ids =
     [''MIT'', ''Apache-2.0'', ''BSD-2-Clause'', ''BSD-3-Clause'', ''ISC'', ''Zlib'',
      ''Unlicense'', ''CC0-1.0'']"

fun receipt_mapping :: "pyval \<Rightarrow> pydict option" where
  "receipt_mapping (PDict d) = Some d"
| "receipt_mapping _ = None"

definition nonempty_text :: "pydict \<Rightarrow> string \<Rightarrow> bool" where
  "nonempty_text r k \<longleftrightarrow> strip (str_or_empty (dget r k)) \<noteq> []"

definition immutable_commit_sha :: "pydict \<Rightarrow> string \<Rightarrow> bool" where
  "immutable_commit_sha r k \<longleftrightarrow>
     (let s = strip (str_or_empty (dget r k))
      in 40 \<le> length s \<and> length s \<le> 64 \<and> list_all is_lower_hex s)"

definition positive_int :: "pydict \<Rightarrow> string \<Rightarrow> bool" where
  "positive_int r k \<longleftrightarrow> (case dget r k of PInt i \<Rightarrow> 0 < i | _ \<Rightarrow> False)"

text \<open>The keys of the \<open>requirements\<close> dictionary: the levels that are gated by a receipt.\<close>

definition gated :: "ProofLevel \<Rightarrow> bool" where
  "gated dst \<longleftrightarrow> dst \<notin> {DISCOVERED, FRESH_REQUIRED, UNVERIFIED}"

text \<open>The check of the receipt's fields for one destination: the first failing requirement's
  message, or None.\<close>

fun receipt_defect :: "ProofLevel \<Rightarrow> pydict \<Rightarrow> string option" where
  "receipt_defect LICENSE_VERIFIED r =
     (if strip (str_or_empty (dget r ''license'')) \<notin> set allowed_license_ids
      then Some ''INVALID_RECEIPT: LICENSE_VERIFIED requires a reusable source license'' else None)"
| "receipt_defect PINNED r =
     (if \<not> immutable_commit_sha r ''commit_sha''
      then Some ''INVALID_RECEIPT: PINNED requires an immutable 40-64 hex commit_sha'' else None)"
| "receipt_defect CLOSURE_COMPLETE r =
     (if dget r ''closure_complete'' \<noteq> PBool True
      then Some ''INVALID_RECEIPT: CLOSURE_COMPLETE requires closure_complete=true'' else None)"
| "receipt_defect MATERIALIZED r =
     (if \<not> positive_int r ''files''
      then Some ''INVALID_RECEIPT: MATERIALIZED requires files>0'' else None)"
| "receipt_defect SUBGRAPH_COMPILE_VERIFIED r =
     (if \<not> positive_int r ''verified_subgraphs''
      then Some ''INVALID_RECEIPT: SUBGRAPH_COMPILE_VERIFIED requires verified_subgraphs>0''
      else if dget r ''authoritative_compile'' \<noteq> PBool True
      then Some ''INVALID_RECEIPT: SUBGRAPH_COMPILE_VERIFIED requires authoritative compile execution''
      else None)"
| "receipt_defect PARTIAL_REUSE r =
     (if dget r ''partial'' \<noteq> PBool True
      then Some ''INVALID_RECEIPT: PARTIAL_REUSE requires partial=true'' else None)"
| "receipt_defect COMPILE_VERIFIED r =
     (if dget r ''compile_passed'' \<noteq> PBool True
      then Some ''INVALID_RECEIPT: COMPILE_VERIFIED requires compile_passed=true''
      else if dget r ''authoritative_compile'' \<noteq> PBool True
      then Some ''INVALID_RECEIPT: COMPILE_VERIFIED requires authoritative compile execution''
      else None)"
| "receipt_defect INTEGRATION_VERIFIED r =
     (if dget r ''integration_passed'' \<noteq> PBool True
      then Some ''INVALID_RECEIPT: INTEGRATION_VERIFIED requires integration_passed=true'' else None)"
| "receipt_defect RUNTIME_BOOT_VERIFIED r =
     (if dget r ''runtime_boot_passed'' \<noteq> PBool True
      then Some ''INVALID_RECEIPT: RUNTIME_BOOT_VERIFIED requires runtime_boot_passed=true'' else None)"
| "receipt_defect BEHAVIOR_VERIFIED r =
     (if dget r ''acceptance_passed'' \<noteq> PBool True
      then Some ''INVALID_RECEIPT: BEHAVIOR_VERIFIED requires acceptance_passed=true''
      else if \<not> positive_int r ''count''
      then Some ''INVALID_RECEIPT: BEHAVIOR_VERIFIED requires count>0''
      else if dget r ''implementation_bound'' \<noteq> PBool True
      then Some ''INVALID_RECEIPT: BEHAVIOR_VERIFIED requires implementation_bound=true''
      else if dget r ''exact_results'' \<noteq> PBool True
      then Some ''INVALID_RECEIPT: BEHAVIOR_VERIFIED requires exact_results=true''
      else if \<not> nonempty_text r ''test_source_hash''
      then Some ''INVALID_RECEIPT: BEHAVIOR_VERIFIED requires test_source_hash''
      else None)"
| "receipt_defect HOST_VERIFIED r =
     (if dget r ''host_verified'' \<noteq> PBool True
      then Some ''INVALID_RECEIPT: HOST_VERIFIED requires host_verified=true'' else None)"
| "receipt_defect _ r = None"

definition validate_receipt :: "ProofLevel \<Rightarrow> pyval \<Rightarrow> bool \<times> string" where
  "validate_receipt dst receipt =
     (if \<not> gated dst then (True, ''receipt_not_required'')
      else case receipt_mapping receipt of
        None \<Rightarrow> (False, ''MISSING_RECEIPT: transition to '' @ level_value dst
                    @ '' requires an attested proof receipt'')
      | Some data \<Rightarrow>
          (case receipt_defect dst data of
             Some reason \<Rightarrow> (False, reason)
           | None \<Rightarrow> (True, ''receipt_valid'')))"

definition validate_proof_transition :: "pyval \<Rightarrow> pyval \<Rightarrow> pyval \<Rightarrow> bool \<times> string" where
  "validate_proof_transition from_level to_level receipt =
     (let src = from_value from_level; dst = from_value to_level in
      if src = dst then (True, ''identity_transition'')
      else if dst \<notin> set (legal_transitions src)
      then (False, ''ILLEGAL_TRANSITION: cannot jump from '' @ level_value src @ '' to ''
                     @ level_value dst)
      else let (ok, reason) = validate_receipt dst receipt in
        if \<not> ok then (False, reason) else (True, ''transition_valid''))"

section \<open>Runs of accepted transitions\<close>

inductive proof_run :: "ProofLevel \<Rightarrow> (ProofLevel \<times> pyval) list \<Rightarrow> ProofLevel \<Rightarrow> bool"
  for start :: ProofLevel where
  run_nil: "proof_run start [] start"
| run_step: "proof_run start tr a \<Longrightarrow>
     fst (validate_proof_transition (PStr (level_value a)) (PStr (level_value b)) r) \<Longrightarrow>
     proof_run start (tr @ [(b, r)]) b"

inductive_cases proof_run_snocE: "proof_run start (tr @ [(b, r)]) c"

lemma level_members_complete: "l \<in> set level_members"
  by (cases l) (simp_all add: level_members_def)

lemma level_values_parse: "list_all (\<lambda>l. from_value (PStr (level_value l)) = l) level_members"
  by code_simp

declare from_value.simps [simp del]

lemma from_value_level [simp]: "from_value (PStr (level_value l)) = l"
  using level_values_parse level_members_complete[of l] by (simp add: list_all_iff)

lemma transition_step_iff:
  "fst (validate_proof_transition (PStr (level_value a)) (PStr (level_value b)) r) \<longleftrightarrow>
     a = b \<or> (b \<in> set (legal_transitions a) \<and>
       (gated b \<longrightarrow> (\<exists>d. r = PDict d \<and> receipt_defect b d = None)))"
proof -
  have "fst (validate_receipt b r) \<longleftrightarrow>
      (gated b \<longrightarrow> (\<exists>d. r = PDict d \<and> receipt_defect b d = None))"
    by (cases r) (simp_all add: validate_receipt_def split: option.split)
  then show ?thesis
    by (cases "validate_receipt b r") (auto simp: validate_proof_transition_def Let_def)
qed

text \<open>What a receipt attests about the level it was presented for.\<close>

definition attested :: "(ProofLevel \<times> pyval) list \<Rightarrow> ProofLevel \<Rightarrow> bool" where
  "attested tr l \<longleftrightarrow> (\<exists>d. (l, PDict d) \<in> set tr \<and> receipt_defect l d = None)"

lemma attested_snoc [simp]:
  "attested (tr @ [(b, r)]) l \<longleftrightarrow> attested tr l \<or> (l = b \<and> (\<exists>d. r = PDict d \<and> receipt_defect b d = None))"
  by (auto simp: attested_def)

text \<open>The levels past the license gate and past the pin gate.\<close>

definition past_license :: "ProofLevel \<Rightarrow> bool" where
  "past_license l \<longleftrightarrow> l \<notin> {DISCOVERED, FRESH_REQUIRED, UNVERIFIED}"

definition past_pin :: "ProofLevel \<Rightarrow> bool" where
  "past_pin l \<longleftrightarrow> l \<notin> {DISCOVERED, LICENSE_VERIFIED, FRESH_REQUIRED, UNVERIFIED}"

lemma legal_past_license:
  "b \<in> set (legal_transitions a) \<Longrightarrow> past_license b \<Longrightarrow> past_license a \<or> b = LICENSE_VERIFIED"
  by (cases a) (auto simp: past_license_def)

lemma legal_past_pin:
  "b \<in> set (legal_transitions a) \<Longrightarrow> past_pin b \<Longrightarrow> past_pin a \<or> b = PINNED"
  by (cases a) (auto simp: past_pin_def)

lemma proof_run_attested:
  "proof_run start tr l \<Longrightarrow> \<not> past_license start \<Longrightarrow>
     (past_license l \<longrightarrow> attested tr LICENSE_VERIFIED) \<and> (past_pin l \<longrightarrow> attested tr PINNED)"
proof (induction rule: proof_run.induct)
  case run_nil
  then show ?case by (auto simp: past_license_def past_pin_def)
next
  case (run_step tr a b r)
  then have IH: "past_license a \<longrightarrow> attested tr LICENSE_VERIFIED" "past_pin a \<longrightarrow> attested tr PINNED"
    by simp_all
  have gate: "past_license l \<longrightarrow> gated l" "past_pin l \<longrightarrow> gated l" for l
    by (auto simp: past_license_def past_pin_def gated_def)
  from run_step.hyps(2) show ?case
    using IH gate[of b] legal_past_license[of b a] legal_past_pin[of b a]
    by (auto simp: transition_step_iff)
qed

text \<open>A level backed by an executed, authoritative compile.\<close>

definition compile_attested :: "(ProofLevel \<times> pyval) list \<Rightarrow> bool" where
  "compile_attested tr \<longleftrightarrow>
     (\<exists>l d. (l, PDict d) \<in> set tr \<and> dget d ''authoritative_compile'' = PBool True)"

section \<open>Properties\<close>

text \<open>C38. A source that starts as merely discovered reaches a level that permits reuse only through
  a receipt naming an allowed licence and a receipt pinning an immutable commit: no sequence of
  accepted transitions skips either gate.\<close>

theorem reuse_requires_license_and_pin:
  assumes "proof_run DISCOVERED tr l" and "allows_reuse l"
  shows "(\<exists>d. (LICENSE_VERIFIED, PDict d) \<in> set tr \<and>
            strip (str_or_empty (dget d ''license'')) \<in> set allowed_license_ids) \<and>
         (\<exists>d. (PINNED, PDict d) \<in> set tr \<and> immutable_commit_sha d ''commit_sha'')"
proof -
  have "past_license l" "past_pin l"
    using assms(2) by (auto simp: allows_reuse_def is_verified_def is_partial_def
        past_license_def past_pin_def)
  with proof_run_attested[OF assms(1)] have "attested tr LICENSE_VERIFIED" "attested tr PINNED"
    by (auto simp: past_license_def)
  then show ?thesis
    by (auto simp: attested_def split: if_splits)
qed

definition short_trace :: "(ProofLevel \<times> pyval) list" where
  "short_trace =
     [(LICENSE_VERIFIED, PDict [(''license'', PStr ''MIT'')]),
      (PINNED, PDict [(''commit_sha'', PStr (replicate 40 (CHR ''a'')))]),
      (CLOSURE_COMPLETE, PDict [(''closure_complete'', PBool True)]),
      (PARTIAL_REUSE, PDict [(''partial'', PBool True)]),
      (HOST_VERIFIED, PDict [(''host_verified'', PBool True)])]"

lemma license_receipt_ok:
  "receipt_defect LICENSE_VERIFIED [(''license'', PStr ''MIT'')] = None"
  by code_simp

lemma pin_receipt_ok:
  "receipt_defect PINNED [(''commit_sha'', PStr (replicate 40 (CHR ''a'')))] = None"
  by code_simp

lemma short_trace_run: "proof_run DISCOVERED short_trace HOST_VERIFIED"
proof -
  have step: "proof_run DISCOVERED tr a \<Longrightarrow> b \<in> set (legal_transitions a) \<Longrightarrow>
      receipt_defect b d = None \<Longrightarrow> proof_run DISCOVERED (tr @ [(b, PDict d)]) b" for tr a b d
    by (rule run_step) (auto simp: transition_step_iff)
  have "proof_run DISCOVERED [(LICENSE_VERIFIED, PDict [(''license'', PStr ''MIT'')])]
      LICENSE_VERIFIED"
    using step[OF run_nil _ license_receipt_ok] by simp
  from step[OF this _ pin_receipt_ok]
  have 2: "proof_run DISCOVERED (take 2 short_trace) PINNED"
    by (simp add: short_trace_def)
  from step[OF 2, of CLOSURE_COMPLETE "[(''closure_complete'', PBool True)]"]
  have 3: "proof_run DISCOVERED (take 3 short_trace) CLOSURE_COMPLETE"
    by (simp add: short_trace_def dget_def)
  from step[OF 3, of PARTIAL_REUSE "[(''partial'', PBool True)]"]
  have 4: "proof_run DISCOVERED (take 4 short_trace) PARTIAL_REUSE"
    by (simp add: short_trace_def dget_def)
  from step[OF 4, of HOST_VERIFIED "[(''host_verified'', PBool True)]"]
  show ?thesis by (simp add: short_trace_def dget_def)
qed

theorem reuse_requires_license_and_pin_witness:
  "(\<exists>d. (LICENSE_VERIFIED, PDict d) \<in> set short_trace \<and>
      strip (str_or_empty (dget d ''license'')) \<in> set allowed_license_ids) \<and>
   (\<exists>d. (PINNED, PDict d) \<in> set short_trace \<and> immutable_commit_sha d ''commit_sha'')"
  by (rule reuse_requires_license_and_pin[OF short_trace_run])
    (simp add: allows_reuse_def is_verified_def)

text \<open>The documented promise that a verified level is backed by executable build evidence does
  not hold of the transition table: a run exists that reaches \<open>HOST_VERIFIED\<close> from a discovered
  source without any receipt attesting an authoritative compile.\<close>

theorem host_verified_without_compile:
  "\<exists>tr. proof_run DISCOVERED tr HOST_VERIFIED \<and> is_verified HOST_VERIFIED \<and> \<not> compile_attested tr"
proof (intro exI conjI)
  show "proof_run DISCOVERED short_trace HOST_VERIFIED" by (rule short_trace_run)
  show "is_verified HOST_VERIFIED" by (simp add: is_verified_def)
  show "\<not> compile_attested short_trace"
    by (auto simp: compile_attested_def short_trace_def dget_def)
qed

end
