(* ===== verification/Py_Json.thy ===== *)
theory Py_Json
  imports MMM_Prelude
begin

text \<open>
  What the sources use of Python's \<^verbatim>\<open>json\<close> and of \<^verbatim>\<open>int(...)\<close>: the canonical rendering
  \<^verbatim>\<open>json.dumps(value, ensure_ascii=False, sort_keys=True, separators=(",", ":"))\<close> (which is
  \<^verbatim>\<open>canonical_json\<close> of \<^verbatim>\<open>spec.py\<close>) and the conversion of a value to an integer. The hash function and
  the JSON reader are parameters of the model, the fields of the record \<open>runtime\<close>.
\<close>

section \<open>Canonical JSON\<close>

definition json_escape :: "char \<Rightarrow> string" where
  "json_escape c = (let n = (of_char c :: nat) in
     if c = CHR 0x22 \<or> c = CHR 0x5C then [CHR 0x5C, c]
     else if n = 8 then [CHR 0x5C, CHR ''b'']
     else if n = 9 then [CHR 0x5C, CHR ''t'']
     else if n = 10 then [CHR 0x5C, CHR ''n'']
     else if n = 12 then [CHR 0x5C, CHR ''f'']
     else if n = 13 then [CHR 0x5C, CHR ''r'']
     else if n < 32 then CHR 0x5C # ''u00'' @ [hex_digit (n div 16), hex_digit (n mod 16)]
     else [c])"

definition json_string :: "string \<Rightarrow> string" where
  "json_string s = CHR 0x22 # concat (map json_escape s) @ [CHR 0x22]"

definition json_float :: "string \<Rightarrow> string" where
  "json_float r = (if r = ''nan'' then ''NaN'' else if r = ''inf'' then ''Infinity''
     else if r = ''-inf'' then ''-Infinity'' else r)"

function canonical_json :: "pyval \<Rightarrow> string" where
  "canonical_json PNone = ''null''"
| "canonical_json (PBool b) = (if b then ''true'' else ''false'')"
| "canonical_json (PInt i) = show_int i"
| "canonical_json (PFloat r) = json_float r"
| "canonical_json (PStr s) = json_string s"
| "canonical_json (PList xs) = ''['' @ join '','' (map canonical_json xs) @ '']''"
| "canonical_json (PDict d) =
     ''{'' @ join '','' (map (\<lambda>(k, v). json_string k @ '':'' @ canonical_json v) (sort_key fst d)) @ ''}''"
  by pat_completeness auto
termination
  by (relation "measure size") (auto dest: size_mem_list_less size_dict_item_less)

section \<open>Integers\<close>

fun digits_value :: "int \<Rightarrow> string \<Rightarrow> int" where
  "digits_value acc [] = acc"
| "digits_value acc (c # cs) = digits_value (10 * acc + (of_char c - 48)) cs"

definition all_digits :: "string \<Rightarrow> bool" where
  "all_digits s \<longleftrightarrow> s \<noteq> [] \<and> list_all is_digit s"

text \<open>\<open>int(text)\<close>: surrounding white space, one sign, digits with single underscores between them.\<close>

definition parse_int :: "string \<Rightarrow> int option" where
  "parse_int text =
     (let s = strip text;
          neg = (s \<noteq> [] \<and> hd s = CHR ''-'');
          body = (if s \<noteq> [] \<and> (hd s = CHR ''-'' \<or> hd s = CHR ''+'') then tl s else s);
          groups = split_on (CHR ''_'') body
      in if list_all all_digits groups
         then Some ((if neg then -1 else 1) * digits_value 0 (concat groups)) else None)"

text \<open>Truncation of a finite float, read off its repr: the digits before the point, or, for a repr
  with an exponent (at least 16 or negative), the mantissa digits shifted by it.\<close>

definition float_trunc :: "string \<Rightarrow> int" where
  "float_trunc r =
     (let neg = (r \<noteq> [] \<and> hd r = CHR ''-'');
          body = (if neg then tl r else r);
          parts = split_on (CHR ''e'') body;
          mant = split_on (CHR ''.'') (hd parts);
          frac = (case mant of [_, f] \<Rightarrow> f | _ \<Rightarrow> [])
      in (if neg then -1 else 1) *
         (case parts of
            [_] \<Rightarrow> digits_value 0 (hd mant)
          | _ \<Rightarrow> (case parse_int (last parts) of
                    None \<Rightarrow> 0
                  | Some e \<Rightarrow> if e < 0 then 0
                      else digits_value 0 (hd mant @ frac) * 10 ^ nat (e - int (length frac)))))"

definition py_int :: "pyval \<Rightarrow> int result" where
  "py_int v = (case v of
     PInt i \<Rightarrow> Inr i
   | PBool b \<Rightarrow> Inr (if b then 1 else 0)
   | PFloat r \<Rightarrow>
       (if r = ''nan'' then Inl (ValueError ''cannot convert float NaN to integer'')
        else if r = ''inf'' \<or> r = ''-inf'' then Inl (OverflowError ''cannot convert float infinity to integer'')
        else Inr (float_trunc r))
   | PStr s \<Rightarrow> (case parse_int s of Some i \<Rightarrow> Inr i
       | None \<Rightarrow> Inl (ValueError ''invalid literal for int() with base 10''))
   | _ \<Rightarrow> Inl (TypeError ''int() argument must be a string or a number''))"

definition or_zero :: "pyval \<Rightarrow> pyval" where
  "or_zero v = (if truthy v then v else PInt 0)"

section \<open>Parameters of the model\<close>

text \<open>\<open>sha256_hex\<close> is the hexadecimal digest of a string's UTF-8 bytes; \<open>json_loads\<close> the JSON reader,
  None where it raises; \<open>code_digest\<close> the digest of the marshalled byte code of a verifier function.\<close>

record runtime =
  sha256_hex :: "string \<Rightarrow> string"
  json_loads :: "string \<Rightarrow> pyval option"
  code_digest :: "string \<Rightarrow> string"

definition sha256_of :: "runtime \<Rightarrow> string \<Rightarrow> string" where
  "sha256_of rt s = ''sha256:'' @ sha256_hex rt s"

definition hash_json :: "runtime \<Rightarrow> pyval \<Rightarrow> string" where
  "hash_json rt v = sha256_of rt (canonical_json v)"

lemma sha256_of_nonempty [simp]: "sha256_of rt s \<noteq> []"
  by (simp add: sha256_of_def)

lemma startswith_sha256_of [simp]: "startswith (sha256_of rt s) ''sha256:''"
  unfolding sha256_of_def by (rule startswith_append)

end
