(* ===== verification/Verifier_Receipts.thy ===== *)
theory Verifier_Receipts
  imports Py_Json
begin

text \<open>
  Completion evidence of durable work nodes (\<^verbatim>\<open>verifier_receipt_truth_contract.py\<close>): which facts a
  receipt must carry for its stage before a node may become SUCCEEDED, the fingerprint that binds a
  receipt to the verifier, its configuration and the exact input, and the two entry points the
  ledger calls: \<open>decorate_receipt\<close> when a receipt is stored and \<open>assert_receipt_reusable\<close> whenever a
  stored one is read.
\<close>

section \<open>Evidence per stage\<close>

definition evidence_key :: string where
  "evidence_key = ''_mmm_completion_evidence''"

fun as_mapping :: "pyval \<Rightarrow> pydict" where
  "as_mapping (PDict d) = d"
| "as_mapping _ = []"

definition vr_error :: "string \<Rightarrow> pyerr" where
  "vr_error code = VerifierReceiptTruthError code"

definition command_is_full_gradle_build :: "pydict \<Rightarrow> bool" where
  "command_is_full_gradle_build item \<longleftrightarrow>
     (if \<not> py_eq_scalar (dget item ''exit_code'') (PInt 0) \<or> dget item ''timed_out'' = PBool True
      then False
      else if str_or_empty (dget item ''name'') \<notin> {''build'', ''clean_build'', ''incremental_build''}
      then False
      else case dget item ''command'' of
        PList argv \<Rightarrow> list_ex (\<lambda>a. py_str a = ''build'') argv
      | _ \<Rightarrow> False)"

definition commands_passed :: "pydict \<Rightarrow> bool" where
  "commands_passed build \<longleftrightarrow>
     (case dget build ''commands'' of
        PList items \<Rightarrow> list_ex (\<lambda>i. is_mapping i \<and> command_is_full_gradle_build (as_mapping i)) items
      | _ \<Rightarrow> False)"

text \<open>\<open>type(checks) is not int or checks <= 0\<close> negated.\<close>

fun positive_checks :: "pyval \<Rightarrow> bool" where
  "positive_checks (PInt i) = (0 < i)"
| "positive_checks _ = False"

definition runtime_evidence :: "pydict \<Rightarrow> pydict result" where
  "runtime_evidence receipt =
     (let runtime = as_mapping (dget receipt ''runtime'');
          playtest = as_mapping (dget receipt ''playtest'');
          visual = as_mapping (dget receipt ''visual'');
          server = as_mapping (dget runtime ''server'');
          client = as_mapping (dget runtime ''client'') in
      rbind (require (dget server ''server_running'' = PBool True)
        (vr_error ''VERIFIER_RECEIPT_MISSING: runtime PASS requires a running verified server.'')) (\<lambda>_.
      rbind (require (\<not> (client \<noteq> [] \<and> dget client ''client_running'' \<noteq> PBool True))
        (vr_error ''VERIFIER_RECEIPT_MISSING: runtime client receipt is present but not running.'')) (\<lambda>_.
      rbind (require (dget playtest ''status'' = PStr ''PASS'')
        (vr_error ''VERIFIER_RECEIPT_MISSING: runtime PASS requires an executed assertion-bearing playtest.'')) (\<lambda>_.
      rbind (py_int (or_zero (dget playtest ''interaction_count''))) (\<lambda>interactions.
      rbind (require (0 < interactions)
        (vr_error ''VERIFIER_RECEIPT_MISSING: runtime PASS requires an executed assertion-bearing playtest.'')) (\<lambda>_.
      rbind (py_int (or_zero (dget playtest ''assertion_count''))) (\<lambda>assertions.
      rbind (require (0 < assertions)
        (vr_error ''VERIFIER_RECEIPT_MISSING: runtime PASS requires an executed assertion-bearing playtest.'')) (\<lambda>_.
      rbind (require (dget visual ''status'' = PStr ''PASS'')
        (vr_error ''VERIFIER_RECEIPT_MISSING: runtime PASS requires visual verification when declared complete.'')) (\<lambda>_.
      Inr [(''verifier'', PStr ''runtime_playtest_visual''),
           (''server_running'', PBool True),
           (''client_verified'', PBool (client \<noteq> [])),
           (''interaction_count'', PInt interactions),
           (''assertion_count'', PInt assertions)])))))))))"

definition validation_evidence :: "string \<Rightarrow> string \<Rightarrow> pydict \<Rightarrow> pydict result" where
  "validation_evidence stage node_id receipt =
     (let status = upper (strip (str_or_empty (dget receipt ''status''))) in
      rbind (require (status \<in> {''PASS'', ''NOT_REQUIRED''})
        (vr_error ''VERIFIER_RECEIPT_STATUS_INVALID'')) (\<lambda>_.
      if stage \<in> {''validate:source'', ''validate:source-final''} then
        (let checks = dget receipt ''checks_run'';
             manifest = str_or_empty (dget receipt ''project_manifest'') in
         rbind (require (positive_checks checks \<and> manifest \<noteq> [])
           (vr_error ''VERIFIER_RECEIPT_MISSING: source validation requires positive checks_run and project_manifest.'')) (\<lambda>_.
         Inr [(''verifier'', PStr ''source_validator''), (''checks_run'', checks),
              (''project_manifest'', PStr manifest)]))
      else if stage = ''validate:jar'' then
        (let checks = dget receipt ''checks_run'';
             jar_sha = str_or_empty (dget receipt ''jar_sha256'') in
         rbind (require (positive_checks checks \<and> startswith jar_sha ''sha256:'')
           (vr_error ''VERIFIER_RECEIPT_MISSING: JAR validation requires checks_run and jar_sha256.'')) (\<lambda>_.
         Inr [(''verifier'', PStr ''jar_validator''), (''checks_run'', checks),
              (''artifact_sha256'', PStr jar_sha)]))
      else if stage = ''validate:quality'' then
        (let receipt_id = str_or_empty (dget receipt ''receipt_id'');
             receipt_sha = str_or_empty (dget receipt ''receipt_sha256'');
             dimension_id = str_or_empty (dget receipt ''dimension_id'') in
         rbind (require (receipt_id \<noteq> [] \<and> dimension_id \<noteq> [] \<and> startswith receipt_sha ''sha256:'')
           (vr_error ''VERIFIER_RECEIPT_MISSING: quality validation requires dimension/receipt identity and hash.'')) (\<lambda>_.
         Inr [(''verifier'', PStr ''quality_contract''), (''dimension_id'', PStr dimension_id),
              (''receipt_id'', PStr receipt_id), (''receipt_sha256'', PStr receipt_sha)]))
      else if stage = ''validate:runtime'' then
        (if status = ''NOT_REQUIRED''
         then Inr [(''verifier'', PStr ''runtime_policy''), (''status'', PStr ''NOT_REQUIRED'')]
         else runtime_evidence receipt)
      else Inl (vr_error ''VERIFIER_RECEIPT_UNSUPPORTED_STAGE'')))"

definition build_evidence :: "string \<Rightarrow> pydict \<Rightarrow> pydict result" where
  "build_evidence node_id receipt =
     rbind (require (node_id = ''build-project'') (vr_error ''VERIFIER_RECEIPT_UNSUPPORTED_BUILD_NODE'')) (\<lambda>_.
     let build = as_mapping (dget receipt ''build'');
         final = as_mapping (dget receipt ''final_build_receipt'');
         artifact = as_mapping (dget build ''artifact_receipt'') in
     rbind (require (dget build ''status'' = PStr ''PASS'' \<and> commands_passed build)
       (vr_error ''VERIFIER_RECEIPT_MISSING: build success requires a passing full Gradle command receipt.'')) (\<lambda>_.
     rbind (require (dget final ''status'' = PStr ''PASS'' \<and> dget final ''production_jar'' = PStr ''PASS'')
       (vr_error ''VERIFIER_RECEIPT_MISSING: build success requires final production-JAR attestation.'')) (\<lambda>_.
     let artifact_sha = (if truthy (dget artifact ''sha256'') then py_str (dget artifact ''sha256'')
                         else str_or_empty (dget final ''artifact_sha256'')) in
     rbind (require (startswith artifact_sha ''sha256:'')
       (vr_error ''VERIFIER_RECEIPT_MISSING: build success requires a SHA-256 artifact identity.'')) (\<lambda>_.
     Inr [(''verifier'', PStr ''gradle_and_final_artifact''),
          (''artifact_sha256'', PStr artifact_sha),
          (''toolchain_attested'', PBool (dget final ''toolchain_attested'' = PBool True))]))))"

fun is_bool :: "pyval \<Rightarrow> bool" where
  "is_bool (PBool b) = True"
| "is_bool _ = False"

definition blank_gate :: "pyval \<Rightarrow> bool" where
  "blank_gate g \<longleftrightarrow> (case g of PStr s \<Rightarrow> strip s = [] | _ \<Rightarrow> True)"

definition package_evidence :: "string \<Rightarrow> pydict \<Rightarrow> pydict result" where
  "package_evidence node_id receipt =
     (if node_id = ''package-build-artifact'' then
        (let bundle = strip (str_or_empty (dget receipt ''build_bundle_zip''));
             release_ready = dget receipt ''release_ready'';
             unresolved = dget receipt ''unresolved_gates'';
             gates = (case unresolved of PList gs \<Rightarrow> gs | _ \<Rightarrow> []) in
         rbind (require (\<not> (upper (str_or_empty (dget receipt ''status'')) \<noteq> ''PASS''
             \<or> bundle = [] \<or> \<not> is_bool release_ready \<or> \<not> is_list unresolved
             \<or> list_ex blank_gate gates \<or> (truthy release_ready \<and> gates \<noteq> [])))
           (vr_error ''VERIFIER_RECEIPT_MISSING: build artifact package requires PASS, a bundle path, a boolean release decision, and consistent unresolved gates.'')) (\<lambda>_.
         Inr [(''verifier'', PStr ''package_phase''), (''status'', PStr ''PASS''),
              (''build_bundle_zip'', PStr bundle), (''release_ready'', release_ready),
              (''unresolved_gates'', PList gates)]))
      else if node_id \<noteq> ''package-release''
      then Inl (vr_error ''VERIFIER_RECEIPT_UNSUPPORTED_PACKAGE_NODE'')
      else
        (let release_zip = str_or_empty (dget receipt ''release_zip'') in
         rbind (require (upper (str_or_empty (dget receipt ''status'')) = ''PASS'' \<and> release_zip \<noteq> [])
           (vr_error ''VERIFIER_RECEIPT_MISSING: release package success requires an explicit release artifact path.'')) (\<lambda>_.
         Inr [(''verifier'', PStr ''release_package''), (''release_zip'', PStr release_zip)])))"

definition verifier_implementation_hash :: "runtime \<Rightarrow> string \<Rightarrow> string result" where
  "verifier_implementation_hash rt verifier =
     rbind (if verifier \<in> {''source_validator'', ''jar_validator'', ''quality_contract'',
               ''runtime_policy'', ''runtime_playtest_visual''} then Inr ''_validation_evidence''
            else if verifier = ''gradle_and_final_artifact'' then Inr ''_build_evidence''
            else if verifier \<in> {''package_phase'', ''release_package''} then Inr ''_package_evidence''
            else Inl (vr_error ''VERIFIER_ID_UNKNOWN'')) (\<lambda>function.
     Inr (hash_json rt (PDict
       [(''contract'', PStr ''mmm/verifier-reuse-contract-v1''), (''verifier'', PStr verifier),
        (''implementation_code_hash'', PStr (''sha256:'' @ code_digest rt function))])))"

definition stage_evidence :: "string \<Rightarrow> string \<Rightarrow> pydict \<Rightarrow> pydict result" where
  "stage_evidence stage node_id receipt =
     (if startswith stage ''generate:''
      then Inr [(''completion_scope'', PStr ''phase_only''), (''verifier'', PNone)]
      else if startswith stage ''validate:''
      then rbind (validation_evidence stage node_id receipt)
             (\<lambda>e. Inr ((''completion_scope'', PStr ''verified_stage'') # e))
      else if stage = ''build''
      then rbind (build_evidence node_id receipt)
             (\<lambda>e. Inr ((''completion_scope'', PStr ''verified_stage'') # e))
      else if startswith stage ''package''
      then rbind (package_evidence node_id receipt)
             (\<lambda>e. Inr ((''completion_scope'', PStr ''packaging_stage'') # e))
      else Inr [(''completion_scope'', PStr ''phase_only''), (''verifier'', PNone)])"

section \<open>Fingerprints\<close>

text \<open>The row dictionary the ledger passes: node id, stage, input hash and payload.\<close>

record work_row =
  row_node_id :: string
  row_stage :: string
  row_input_hash :: string
  row_payload :: pyval

definition completion_evidence :: "runtime \<Rightarrow> work_row \<Rightarrow> pydict \<Rightarrow> pydict result" where
  "completion_evidence rt row receipt =
     rbind (stage_evidence (row_stage row) (row_node_id row) receipt) (\<lambda>evidence.
     let base = [(''schema_version'', PStr ''mmm/work-completion-evidence-v2''),
                 (''node_id'', PStr (row_node_id row)), (''stage'', PStr (row_stage row)),
                 (''input_hash'', PStr (row_input_hash row))] @ evidence;
         verifier = dget evidence ''verifier'' in
     if truthy verifier then
       (case (if row_payload row = PNone then PDict [] else row_payload row) of
          PDict payload \<Rightarrow>
            rbind (verifier_implementation_hash rt (py_str verifier)) (\<lambda>version.
            Inr (base @
              [(''verifier_input_hash'', PStr (row_input_hash row)),
               (''verifier_version_hash'', PStr version),
               (''verifier_config_hash'', PStr (hash_json rt
                  (PDict [(''stage'', PStr (row_stage row)), (''payload'', PDict payload)])))]))
        | _ \<Rightarrow> Inl (vr_error ''VERIFIER_CONFIG_INVALID''))
     else Inr base)"

definition reuse_required :: "string list" where
  "reuse_required = [''schema_version'', ''completion_scope'', ''verifier'', ''verifier_input_hash'',
     ''verifier_version_hash'', ''verifier_config_hash'']"

definition assert_reusable :: "runtime \<Rightarrow> string \<Rightarrow> pydict \<Rightarrow> pydict \<Rightarrow> unit result" where
  "assert_reusable rt node_id expected existing =
     rbind (require (\<not> (dget existing ''input_hash'' \<noteq> dget expected ''input_hash''
         \<or> dget existing ''stage'' \<noteq> dget expected ''stage''))
       (vr_error ''VERIFIER_RECEIPT_STALE: carries mismatched completion evidence.'')) (\<lambda>_.
     if dget expected ''verifier'' = PNone then Inr ()
     else require (\<not> (list_ex (\<lambda>k. dget existing k \<noteq> dget expected k) reuse_required
         \<or> hash_json rt (PDict existing) \<noteq> hash_json rt (PDict expected)))
       (vr_error ''VERIFIER_RECEIPT_STALE: verifier identity, version, configuration, inputs, or attested facts changed.''))"

definition validate_arguments :: "work_row \<Rightarrow> pyval \<Rightarrow> (string \<times> pydict) result" where
  "validate_arguments row receipt =
     (case receipt of
        PDict d \<Rightarrow>
          (if row_input_hash row = [] then Inl (vr_error ''VERIFIER_INPUT_HASH_MISSING'')
           else Inr (row_node_id row, d))
      | _ \<Rightarrow> Inl (vr_error ''VERIFIER_RECEIPT_INVALID''))"

definition decorate_receipt :: "runtime \<Rightarrow> work_row \<Rightarrow> pyval \<Rightarrow> pydict result" where
  "decorate_receipt rt row receipt =
     rbind (validate_arguments row receipt) (\<lambda>(node_id, r).
     rbind (completion_evidence rt row r) (\<lambda>expected.
     let existing = dget r evidence_key in
     if existing \<noteq> PNone
     then rbind (assert_reusable rt node_id expected (as_mapping existing)) (\<lambda>_. Inr r)
     else if dget expected ''verifier'' = PNone then Inr r
     else Inr (AList.update evidence_key (PDict expected) r)))"

definition assert_receipt_reusable :: "runtime \<Rightarrow> work_row \<Rightarrow> pyval \<Rightarrow> pydict result" where
  "assert_receipt_reusable rt row receipt =
     rbind (validate_arguments row receipt) (\<lambda>(node_id, r).
     rbind (completion_evidence rt row r) (\<lambda>expected.
     let existing = dget r evidence_key in
     if existing = PNone
     then (if dget expected ''verifier'' \<noteq> PNone
           then Inl (vr_error ''VERIFIER_RECEIPT_STALE: lacks verifier reuse fingerprints.'')
           else Inr r)
     else rbind (assert_reusable rt node_id expected (as_mapping existing)) (\<lambda>_. Inr r)))"

section \<open>Laws\<close>

lemma dget_update_same [simp]: "dget (AList.update k v d) k = v"
  by (simp add: dget_def)

lemma dget_update_other: "k \<noteq> k' \<Longrightarrow> dget (AList.update k v d) k' = dget d k'"
  by (simp add: dget_def)

lemma dget_append: "dget (d @ e) k = (if has_key d k then dget d k else dget e k)"
  by (auto simp: dget_def has_key_map_of map_add_def split: option.splits)

lemma dget_fingerprint_other:
  "k \<noteq> evidence_key \<Longrightarrow> dget (AList.update evidence_key v r) k = dget r k"
  by (simp add: dget_update_other)

lemma evidence_keys_other:
  "''status'' \<noteq> evidence_key" "''runtime'' \<noteq> evidence_key" "''playtest'' \<noteq> evidence_key"
  "''visual'' \<noteq> evidence_key" "''checks_run'' \<noteq> evidence_key" "''project_manifest'' \<noteq> evidence_key"
  "''jar_sha256'' \<noteq> evidence_key" "''receipt_id'' \<noteq> evidence_key" "''receipt_sha256'' \<noteq> evidence_key"
  "''dimension_id'' \<noteq> evidence_key" "''build'' \<noteq> evidence_key" "''final_build_receipt'' \<noteq> evidence_key"
  "''build_bundle_zip'' \<noteq> evidence_key" "''release_ready'' \<noteq> evidence_key"
  "''unresolved_gates'' \<noteq> evidence_key" "''release_zip'' \<noteq> evidence_key"
  by (simp_all add: evidence_key_def)

lemmas fingerprint_frame = dget_fingerprint_other evidence_keys_other

lemma evidence_ignores_fingerprint:
  "runtime_evidence (AList.update evidence_key v r) = runtime_evidence r"
  "validation_evidence stage n (AList.update evidence_key v r) = validation_evidence stage n r"
  "build_evidence n (AList.update evidence_key v r) = build_evidence n r"
  "package_evidence n (AList.update evidence_key v r) = package_evidence n r"
proof -
  show 1: "runtime_evidence (AList.update evidence_key v r) = runtime_evidence r"
    unfolding runtime_evidence_def by (simp only: fingerprint_frame not_False_eq_True simp_thms)
  show "validation_evidence stage n (AList.update evidence_key v r) = validation_evidence stage n r"
    unfolding validation_evidence_def by (simp only: fingerprint_frame 1 not_False_eq_True simp_thms)
  show "build_evidence n (AList.update evidence_key v r) = build_evidence n r"
    unfolding build_evidence_def by (simp only: fingerprint_frame not_False_eq_True simp_thms)
  show "package_evidence n (AList.update evidence_key v r) = package_evidence n r"
    unfolding package_evidence_def by (simp only: fingerprint_frame not_False_eq_True simp_thms)
qed

lemma stage_evidence_ignores_fingerprint [simp]:
  "stage_evidence stage n (AList.update evidence_key v r) = stage_evidence stage n r"
  unfolding stage_evidence_def by (simp only: evidence_ignores_fingerprint)

lemma completion_evidence_ignores_fingerprint [simp]:
  "completion_evidence rt row (AList.update evidence_key v r) = completion_evidence rt row r"
  by (simp add: completion_evidence_def)

lemma assert_reusable_refl [simp]: "assert_reusable rt n e e = Inr ()"
  by (simp add: assert_reusable_def list_ex_iff)

lemma validate_arguments_Inr [simp]:
  "validate_arguments row receipt = Inr (n, r) \<longleftrightarrow>
     receipt = PDict r \<and> row_input_hash row \<noteq> [] \<and> n = row_node_id row"
  by (auto simp: validate_arguments_def split: pyval.splits)

lemma completion_evidence_input_hash:
  "completion_evidence rt row r = Inr e \<Longrightarrow> dget e ''input_hash'' = PStr (row_input_hash row)"
  by (auto simp: completion_evidence_def Let_def dget_def split: if_splits pyval.splits)

text \<open>Storing and reading agree: both run the same check, and a fresh fingerprint passes it.\<close>

lemma assert_receipt_reusable_Inr_iff:
  "assert_receipt_reusable rt row receipt = Inr r' \<longleftrightarrow>
     (\<exists>r e. receipt = PDict r \<and> row_input_hash row \<noteq> [] \<and> completion_evidence rt row r = Inr e \<and>
        r' = r \<and>
        (if dget r evidence_key = PNone then dget e ''verifier'' = PNone
         else assert_reusable rt (row_node_id row) e (as_mapping (dget r evidence_key)) = Inr ()))"
proof (cases "\<exists>r. receipt = PDict r \<and> row_input_hash row \<noteq> []")
  case True
  then obtain r where r: "receipt = PDict r" "row_input_hash row \<noteq> []" by blast
  then show ?thesis
    by (cases "completion_evidence rt row r")
      (simp_all add: assert_receipt_reusable_def validate_arguments_def Let_def, auto)
next
  case False
  then show ?thesis
    by (cases receipt) (auto simp: assert_receipt_reusable_def validate_arguments_def)
qed

lemma decorate_receipt_Inr_iff:
  "decorate_receipt rt row receipt = Inr r' \<longleftrightarrow>
     (\<exists>r e. receipt = PDict r \<and> row_input_hash row \<noteq> [] \<and> completion_evidence rt row r = Inr e \<and>
        (if dget r evidence_key = PNone
         then r' = (if dget e ''verifier'' = PNone then r
                    else AList.update evidence_key (PDict e) r)
         else r' = r \<and> assert_reusable rt (row_node_id row) e (as_mapping (dget r evidence_key)) = Inr ()))"
proof (cases "\<exists>r. receipt = PDict r \<and> row_input_hash row \<noteq> []")
  case True
  then obtain r where r: "receipt = PDict r" "row_input_hash row \<noteq> []" by blast
  then show ?thesis
    by (cases "completion_evidence rt row r")
      (simp_all add: decorate_receipt_def validate_arguments_def Let_def, auto)
next
  case False
  then show ?thesis
    by (cases receipt) (auto simp: decorate_receipt_def validate_arguments_def)
qed

section \<open>Properties\<close>

text \<open>A receipt the ledger accepts for storage is accepted by every later read of the same work
  row: decorating never produces a receipt that the reuse check then calls stale.\<close>

theorem decorated_receipt_is_reusable:
  assumes "decorate_receipt rt row receipt = Inr stored"
  shows "assert_receipt_reusable rt row (PDict stored) = Inr stored"
proof -
  from assms obtain r e where "receipt = PDict r" "row_input_hash row \<noteq> []"
    and e: "completion_evidence rt row r = Inr e"
    and stored: "if dget r evidence_key = PNone
      then stored = (if dget e ''verifier'' = PNone then r else AList.update evidence_key (PDict e) r)
      else stored = r \<and> assert_reusable rt (row_node_id row) e (as_mapping (dget r evidence_key)) = Inr ()"
    by (auto simp: decorate_receipt_Inr_iff)
  then have "completion_evidence rt row stored = Inr e" by (simp split: if_splits)
  with \<open>row_input_hash row \<noteq> []\<close> stored show ?thesis
    by (auto simp: assert_receipt_reusable_Inr_iff split: if_splits)
qed

definition toy_runtime :: runtime where
  "toy_runtime = \<lparr>sha256_hex = (\<lambda>s. s), json_loads = (\<lambda>s. if s = ''{}'' then Some (PDict []) else None),
     code_digest = (\<lambda>f. f)\<rparr>"

definition jar_row :: work_row where
  "jar_row = \<lparr>row_node_id = ''validate-jar'', row_stage = ''validate:jar'', row_input_hash = ''sha256:in'',
     row_payload = PDict []\<rparr>"

definition jar_receipt :: pydict where
  "jar_receipt = [(''status'', PStr ''PASS''), (''checks_run'', PInt 3), (''jar_sha256'', PStr ''sha256:ab'')]"

definition jar_stored :: pydict where
  "jar_stored = (case decorate_receipt toy_runtime jar_row (PDict jar_receipt) of
     Inr r \<Rightarrow> r | Inl _ \<Rightarrow> [])"

lemma jar_stored_ok: "decorate_receipt toy_runtime jar_row (PDict jar_receipt) = Inr jar_stored"
  by code_simp

theorem decorated_receipt_is_reusable_witness:
  "assert_receipt_reusable toy_runtime jar_row (PDict jar_stored) = Inr jar_stored"
  by (rule decorated_receipt_is_reusable[OF jar_stored_ok])

text \<open>Completion evidence is bound to one input: a fingerprinted receipt that passes the reuse
  check for a row fails it for every row with another input hash.\<close>

theorem receipt_never_reused_for_other_input:
  assumes "assert_receipt_reusable rt row (PDict r) = Inr r" and "dget r evidence_key \<noteq> PNone"
    and "row_input_hash row' \<noteq> row_input_hash row"
  shows "\<exists>err. assert_receipt_reusable rt row' (PDict r) = Inl err"
proof (rule ccontr)
  assume "\<nexists>err. assert_receipt_reusable rt row' (PDict r) = Inl err"
  then obtain q where "assert_receipt_reusable rt row' (PDict r) = Inr q"
    by (cases "assert_receipt_reusable rt row' (PDict r)") auto
  with assms(1,2) have
    "dget (as_mapping (dget r evidence_key)) ''input_hash'' = PStr (row_input_hash row)"
    "dget (as_mapping (dget r evidence_key)) ''input_hash'' = PStr (row_input_hash row')"
    by (auto simp: assert_receipt_reusable_Inr_iff assert_reusable_def
        dest!: completion_evidence_input_hash)
  with assms(3) show False by simp
qed

theorem receipt_never_reused_for_other_input_witness:
  "\<exists>err. assert_receipt_reusable toy_runtime (jar_row\<lparr>row_input_hash := ''sha256:other''\<rparr>)
     (PDict jar_stored) = Inl err"
proof (rule receipt_never_reused_for_other_input)
  show "assert_receipt_reusable toy_runtime jar_row (PDict jar_stored) = Inr jar_stored" by code_simp
  show "dget jar_stored evidence_key \<noteq> PNone" by code_simp
  show "row_input_hash (jar_row\<lparr>row_input_hash := ''sha256:other''\<rparr>) \<noteq> row_input_hash jar_row"
    by (simp add: jar_row_def)
qed


definition build_row :: work_row where
  "build_row = \<lparr>row_node_id = ''build-project'', row_stage = ''build'', row_input_hash = ''sha256:in'',
     row_payload = PDict []\<rparr>"

definition build_receipt :: pydict where
  "build_receipt =
     [(''build'', PDict [(''status'', PStr ''PASS''), (''commands'', PList [PDict [(''exit_code'', PInt 0),
         (''name'', PStr ''build''), (''command'', PList [PStr ''gradlew'', PStr ''build''])]])]),
      (''final_build_receipt'', PDict [(''status'', PStr ''PASS''), (''production_jar'', PStr ''PASS''),
         (''artifact_sha256'', PStr ''sha256:ab'')])]"

lemma build_receipt_accepted:
  "\<exists>stored. decorate_receipt toy_runtime build_row (PDict build_receipt) = Inr stored"
proof -
  have "isl (decorate_receipt toy_runtime build_row (PDict build_receipt)) = False" by code_simp
  then show ?thesis by (cases "decorate_receipt toy_runtime build_row (PDict build_receipt)") auto
qed


end
