(* ===== verification/Work_Ledger.thy ===== *)
theory Work_Ledger
  imports Complex_Main Verifier_Receipts
begin

text \<open>
  The durable work ledger (\<open>DurableWorkLedger\<close> of \<^verbatim>\<open>work_graph.py\<close>, with the read boundary of
  \<^verbatim>\<open>work_graph_receipt_read.py\<close>): the SQLite tables as a record, and every operation of the class as a
  function on it. An operation returns the ledger that is committed and either its result or the
  exception it raises, so an operation that commits and then raises is visible as such. SQLite runs
  each operation as one transaction; a run of several processes is therefore a sequence of these
  functions. The time of a call is its argument \<open>now\<close>.
\<close>

section \<open>Tables\<close>

datatype WorkState = PENDING | RUNNING | INPUT_REQUIRED | SUCCEEDED | FAILED | CANCELLED

fun work_state_value :: "WorkState \<Rightarrow> string" where
  "work_state_value PENDING = ''pending''"
| "work_state_value RUNNING = ''running''"
| "work_state_value INPUT_REQUIRED = ''input_required''"
| "work_state_value SUCCEEDED = ''succeeded''"
| "work_state_value FAILED = ''failed''"
| "work_state_value CANCELLED = ''cancelled''"

record WorkNode =
  wn_id :: string
  wn_stage :: string
  wn_input_hash :: string
  wn_dependencies :: "string list"
  wn_payload :: pydict
  wn_resource_class :: string

record WorkGraphPlan =
  plan_schema_version :: string
  plan_proposal_hash :: string
  plan_graph_hash :: string
  plan_module_count :: nat
  plan_nodes :: "WorkNode list"

record task =
  t_stage :: string
  t_input_hash :: string
  t_payload_json :: string
  t_state :: WorkState
  t_attempt :: nat
  t_lease_owner :: "string option"
  t_lease_until :: "rat option"
  t_output_hash :: "string option"
  t_receipt_json :: "string option"
  t_receipt_hash :: "string option"
  t_error :: "string option"
  t_updated_at :: rat

record checkpoint =
  c_stage :: string
  c_input_hash :: string
  c_state :: WorkState
  c_attempt :: nat
  c_output_hash :: "string option"
  c_receipt_json :: "string option"
  c_receipt_hash :: "string option"
  c_error :: "string option"
  c_updated_at :: rat

record ledger =
  metadata :: "(string \<times> string) list"
  tasks :: "(string \<times> task) list"
  edges :: "(string \<times> string) list"
  checkpoints :: "(string \<times> checkpoint) list"
  proposal_hash :: string
  graph_hash :: string

type_synonym 'a outcome = "ledger \<times> 'a result"

text \<open>\<open>UPDATE tasks SET f WHERE P\<close> and \<open>UPDATE checkpoints SET f WHERE P\<close>.\<close>

definition update_tasks :: "(string \<Rightarrow> task \<Rightarrow> bool) \<Rightarrow> (task \<Rightarrow> task) \<Rightarrow> ledger \<Rightarrow> ledger" where
  "update_tasks P f L = L\<lparr>tasks := map (\<lambda>(n, t). (n, if P n t then f t else t)) (tasks L)\<rparr>"

definition update_checkpoints ::
    "(string \<Rightarrow> checkpoint \<Rightarrow> bool) \<Rightarrow> (checkpoint \<Rightarrow> checkpoint) \<Rightarrow> ledger \<Rightarrow> ledger" where
  "update_checkpoints P f L =
     L\<lparr>checkpoints := map (\<lambda>(n, c). (n, if P n c then f c else c)) (checkpoints L)\<rparr>"

definition meta :: "ledger \<Rightarrow> string \<Rightarrow> string" where
  "meta L k = (case map_of (metadata L) k of None \<Rightarrow> [] | Some v \<Rightarrow> v)"

definition set_meta :: "string \<Rightarrow> string \<Rightarrow> ledger \<Rightarrow> ledger" where
  "set_meta k v L = L\<lparr>metadata := AList.update k v (metadata L)\<rparr>"

abbreviation task_of :: "ledger \<Rightarrow> string \<Rightarrow> task option" where
  "task_of L n \<equiv> map_of (tasks L) n"

definition unknown_node :: pyerr where
  "unknown_node = WorkGraphError ''Unknown work node''"

definition clip :: "string \<Rightarrow> string" where
  "clip s = take 16384 s"

section \<open>Invalidation\<close>

text \<open>The recursive query \<open>affected\<close>: a queue of rows, each new row added once (\<open>UNION\<close>).\<close>

function affected_loop :: "(string \<times> string) list \<Rightarrow> string list \<Rightarrow> string list \<Rightarrow> string list" where
  "affected_loop E [] seen = seen"
| "affected_loop E (x # queue) seen =
     (let new = fromkeys (filter (\<lambda>n. n \<notin> set seen) (map fst (filter (\<lambda>(n, d). d = x) E)))
      in affected_loop E (queue @ new) (seen @ new))"
  by pat_completeness auto
termination
proof (relation "measures [\<lambda>(E, q, seen). card (fst ` set E - set seen), \<lambda>(E, q, seen). length q]")
  fix E :: "(string \<times> string) list" and x :: string and queue seen new
  assume new: "new = fromkeys (filter (\<lambda>n. n \<notin> set seen) (map fst (filter (\<lambda>(n, d). d = x) E)))"
  show "((E, queue @ new, seen @ new), (E, x # queue, seen)) \<in>
      measures [\<lambda>(E, q, seen). card (fst ` set E - set seen), \<lambda>(E, q, seen). length q]"
  proof (cases "new = []")
    case True
    then show ?thesis by simp
  next
    case False
    then obtain n where n: "n \<in> set new" by (meson list.set_sel(1))
    with new have "n \<in> fst ` set E - set seen" by force
    with n have "fst ` set E - set (seen @ new) \<subset> fst ` set E - set seen" by auto
    then have "card (fst ` set E - set (seen @ new)) < card (fst ` set E - set seen)"
      by (intro psubset_card_mono) auto
    then show ?thesis by simp
  qed
qed simp

definition affected :: "(string \<times> string) list \<Rightarrow> string list \<Rightarrow> string list" where
  "affected E seeds = affected_loop E seeds seeds"

definition reset_task :: "rat \<Rightarrow> task \<Rightarrow> task" where
  "reset_task now t = t\<lparr>t_state := PENDING, t_output_hash := None, t_receipt_json := None,
     t_receipt_hash := None, t_error := None, t_lease_owner := None, t_lease_until := None,
     t_updated_at := now\<rparr>"

definition invalidate_many :: "rat \<Rightarrow> string list \<Rightarrow> ledger \<Rightarrow> ledger \<times> string list" where
  "invalidate_many now ns L =
     (let seeds = filter (\<lambda>n. n \<in> set ns) (keys (tasks L));
          aff = sort (affected (edges L) seeds)
      in if aff = [] then (L, [])
         else (update_tasks (\<lambda>n _. n \<in> set aff) (reset_task now) L, aff))"

section \<open>Receipts\<close>

definition receipt_hash_of :: "runtime \<Rightarrow> string \<Rightarrow> string result" where
  "receipt_hash_of rt receipt =
     (case json_loads rt receipt of
        None \<Rightarrow> Inl (WorkGraphError ''Stored work receipt is not valid JSON.'')
      | Some v \<Rightarrow> Inr (hash_json rt v))"

definition verified_receipt_digest :: "runtime \<Rightarrow> string option \<Rightarrow> string option" where
  "verified_receipt_digest rt receipt =
     (case receipt of
        None \<Rightarrow> None
      | Some s \<Rightarrow> if s = [] then None
          else (case receipt_hash_of rt s of Inl _ \<Rightarrow> None | Inr h \<Rightarrow> Some h))"

definition or_empty :: "string option \<Rightarrow> string" where
  "or_empty s = (case s of None \<Rightarrow> [] | Some v \<Rightarrow> v)"

text \<open>The digest test shared by the verification of stored receipts and the read boundary: a stored
  receipt hash must equal the recomputed one; without a receipt hash the output hash must.\<close>

definition digest_matches :: "string \<Rightarrow> string option \<Rightarrow> string option \<Rightarrow> bool" where
  "digest_matches digest rhash ohash \<longleftrightarrow>
     (if or_empty rhash \<noteq> [] then or_empty rhash = digest else or_empty ohash = digest)"

datatype receipt_state = NotSucceeded | InvalidReceipt | ValidReceipt | LegacyReceipt

fun caught :: "pyerr \<Rightarrow> bool" where
  "caught (VerifierReceiptTruthError _) = True"
| "caught (ValueError _) = True"
| "caught (TypeError _) = True"
| "caught _ = False"

definition row_of_task :: "string \<Rightarrow> task \<Rightarrow> pyval \<Rightarrow> work_row" where
  "row_of_task n t payload = \<lparr>row_node_id = n, row_stage = t_stage t, row_input_hash = t_input_hash t,
     row_payload = payload\<rparr>"

text \<open>The reuse check of a stored row: \<open>True\<close> when it passes, \<open>False\<close> when it raises an exception the
  callers catch; any other exception propagates.\<close>

definition stored_receipt_reusable :: "runtime \<Rightarrow> string \<Rightarrow> task \<Rightarrow> bool result" where
  "stored_receipt_reusable rt n t =
     (case (json_loads rt (t_payload_json t), json_loads rt (or_empty (t_receipt_json t))) of
        (Some payload, Some receipt) \<Rightarrow>
          (case assert_receipt_reusable rt (row_of_task n t payload) receipt of
             Inr _ \<Rightarrow> Inr True
           | Inl e \<Rightarrow> if caught e then Inr False else Inl e)
      | _ \<Rightarrow> Inr False)"

definition receipt_status :: "runtime \<Rightarrow> string \<Rightarrow> task \<Rightarrow> receipt_state result" where
  "receipt_status rt n t =
     (if t_state t \<noteq> SUCCEEDED then Inr NotSucceeded
      else case verified_receipt_digest rt (t_receipt_json t) of
        None \<Rightarrow> Inr InvalidReceipt
      | Some digest \<Rightarrow>
          if \<not> digest_matches digest (t_receipt_hash t) (t_output_hash t) then Inr InvalidReceipt
          else rbind (stored_receipt_reusable rt n t) (\<lambda>ok.
            if \<not> ok then Inr InvalidReceipt
            else if or_empty (t_receipt_hash t) \<noteq> [] then Inr ValidReceipt
            else Inr LegacyReceipt))"

definition select_task :: "string \<Rightarrow> ledger \<Rightarrow> (string \<times> task) outcome" where
  "select_task n L = (L, case task_of L n of None \<Rightarrow> Inl unknown_node | Some t \<Rightarrow> Inr (n, t))"

definition set_receipt_hash :: "string \<Rightarrow> string option \<Rightarrow> ledger \<Rightarrow> ledger" where
  "set_receipt_hash n h L = update_tasks (\<lambda>m _. m = n) (\<lambda>t. t\<lparr>t_receipt_hash := h\<rparr>) L"

definition verified_task_row :: "runtime \<Rightarrow> rat \<Rightarrow> string \<Rightarrow> ledger \<Rightarrow> (string \<times> task) outcome" where
  "verified_task_row rt now n L =
     (case task_of L n of
        None \<Rightarrow> (L, Inl unknown_node)
      | Some t \<Rightarrow>
          (case receipt_status rt n t of
             Inl e \<Rightarrow> (L, Inl e)
           | Inr InvalidReceipt \<Rightarrow> select_task n (fst (invalidate_many now [n] L))
           | Inr LegacyReceipt \<Rightarrow>
               select_task n (set_receipt_hash n (verified_receipt_digest rt (t_receipt_json t)) L)
           | Inr _ \<Rightarrow> (L, Inr (n, t))))"

record task_view =
  v_node_id :: string
  v_task :: task
  v_payload :: pyval
  v_receipt :: pyval
  v_dependencies :: "string list"

definition loads_or_raise :: "runtime \<Rightarrow> string \<Rightarrow> pyval result" where
  "loads_or_raise rt s = (case json_loads rt s of
     None \<Rightarrow> Inl (ValueError ''JSONDecodeError'') | Some v \<Rightarrow> Inr v)"

definition dependencies_of :: "ledger \<Rightarrow> string \<Rightarrow> string list" where
  "dependencies_of L n = sort (map snd (filter (\<lambda>(m, d). m = n) (edges L)))"

definition view_of :: "runtime \<Rightarrow> ledger \<Rightarrow> string \<times> task \<Rightarrow> task_view result" where
  "view_of rt L row = (case row of (n, t) \<Rightarrow>
     rbind (loads_or_raise rt (t_payload_json t)) (\<lambda>payload.
     rbind (if or_empty (t_receipt_json t) = [] then Inr PNone
            else loads_or_raise rt (or_empty (t_receipt_json t))) (\<lambda>receipt.
     Inr \<lparr>v_node_id = n, v_task = t, v_payload = payload, v_receipt = receipt,
          v_dependencies = dependencies_of L n\<rparr>)))"

definition task_read :: "runtime \<Rightarrow> rat \<Rightarrow> string \<Rightarrow> ledger \<Rightarrow> task_view outcome" where
  "task_read rt now n L =
     (let (L', row) = verified_task_row rt now n L in (L', rbind row (view_of rt L')))"

end
