(* ===== verification/Ledger_Tasks.thy ===== *)
theory Ledger_Tasks
  imports Work_Ledger
begin

text \<open>
  The operations of \<open>DurableWorkLedger\<close> on task rows (\<^verbatim>\<open>work_graph.py\<close>). An operation that changes
  rows is a transaction followed, where the code does so, by \<open>self.task(node_id)\<close>, the read boundary
  \<^const>\<open>task_read\<close>; the transaction is a definition of its own because another process may commit between
  the two. \<open>succeed\<close> and \<open>fail\<close> read the row before their guarded update opens the transaction, so their
  read and their write are separate definitions too.
\<close>

section \<open>Starting a task\<close>

text \<open>The dependencies of a node whose row exists and has not succeeded.\<close>

definition blockers :: "ledger \<Rightarrow> string \<Rightarrow> (string \<times> WorkState) list" where
  "blockers L n = sort_key fst (concat (map (\<lambda>(m, d). if m \<noteq> n then [] else
     (case task_of L d of None \<Rightarrow> []
      | Some t \<Rightarrow> if t_state t \<noteq> SUCCEEDED then [(d, t_state t)] else [])) (edges L)))"

definition start_task :: "rat \<Rightarrow> string \<Rightarrow> rat option \<Rightarrow> task \<Rightarrow> task" where
  "start_task now owner until t = t\<lparr>t_state := RUNNING, t_attempt := t_attempt t + 1,
     t_lease_owner := Some owner, t_lease_until := until, t_error := None, t_updated_at := now\<rparr>"

definition begin_txn :: "rat \<Rightarrow> string \<Rightarrow> string \<Rightarrow> ledger \<Rightarrow> unit outcome" where
  "begin_txn now n worker L =
     (case task_of L n of
        None \<Rightarrow> (L, Inl unknown_node)
      | Some t \<Rightarrow>
          if t_state t = SUCCEEDED then (L, Inr ())
          else if blockers L n \<noteq> [] then (L, Inl (WorkGraphError ''Work node has incomplete dependencies''))
          else (update_tasks (\<lambda>m _. m = n) (start_task now worker None) L, Inr ()))"

definition and_task :: "runtime \<Rightarrow> rat \<Rightarrow> string \<Rightarrow> unit outcome \<Rightarrow> task_view outcome" where
  "and_task rt now n out = (case out of (L, Inl e) \<Rightarrow> (L, Inl e) | (L, Inr _) \<Rightarrow> task_read rt now n L)"

definition begin_task :: "runtime \<Rightarrow> rat \<Rightarrow> string \<Rightarrow> string \<Rightarrow> ledger \<Rightarrow> task_view outcome" where
  "begin_task rt now n worker L = and_task rt now n (begin_txn now n worker L)"

section \<open>Claiming a ready task\<close>

definition release_expired :: "rat \<Rightarrow> task \<Rightarrow> task" where
  "release_expired now t = t\<lparr>t_state := PENDING, t_lease_owner := None, t_lease_until := None,
     t_error := Some ''expired worker lease'', t_updated_at := now\<rparr>"

definition lease_expired :: "rat \<Rightarrow> task \<Rightarrow> bool" where
  "lease_expired now t \<longleftrightarrow> t_state t = RUNNING \<and>
     (case t_lease_until t of None \<Rightarrow> False | Some u \<Rightarrow> u < now)"

definition ready :: "ledger \<Rightarrow> string \<Rightarrow> task \<Rightarrow> bool" where
  "ready L n t \<longleftrightarrow> t_state t = PENDING \<and> blockers L n = []"

definition in_stages :: "string list \<Rightarrow> task \<Rightarrow> bool" where
  "in_stages stages t \<longleftrightarrow> stages = [] \<or> t_stage t \<in> set stages"

definition ready_nodes :: "string list \<Rightarrow> ledger \<Rightarrow> string list" where
  "ready_nodes stages L =
     sort (map fst (filter (\<lambda>(n, t). ready L n t \<and> in_stages stages t) (tasks L)))"

text \<open>The transaction of \<open>claim_ready\<close> for a worker other than the orchestrator: the node claimed.\<close>

definition claim_txn :: "rat \<Rightarrow> string \<Rightarrow> string list \<Rightarrow> int \<Rightarrow> ledger \<Rightarrow> ledger \<times> string option" where
  "claim_txn now worker stages lease_seconds L =
     (let L1 = update_tasks (\<lambda>_ t. lease_expired now t) (release_expired now) L
      in case ready_nodes stages L1 of
           [] \<Rightarrow> (L1, None)
         | n # _ \<Rightarrow> (update_tasks (\<lambda>m _. m = n)
               (start_task now worker (Some (now + of_int lease_seconds))) L1, Some n))"

section \<open>Finishing a task\<close>

record success =
  s_digest :: string
  s_receipt_json :: string
  s_receipt_hash :: string

text \<open>The read half of \<open>succeed\<close>: what is to be written, or None when the same success is already
  stored.\<close>

definition succeed_read :: "runtime \<Rightarrow> string \<Rightarrow> pyval \<Rightarrow> string \<Rightarrow> ledger \<Rightarrow> success option result" where
  "succeed_read rt n receipt output_hash L =
     (case task_of L n of
        None \<Rightarrow> Inl unknown_node
      | Some t \<Rightarrow>
          if t_state t \<notin> {RUNNING, SUCCEEDED} then Inl (WorkGraphError ''Work node cannot succeed from state'')
          else rbind (loads_or_raise rt (t_payload_json t)) (\<lambda>payload.
            rbind (decorate_receipt rt (row_of_task n t payload) receipt) (\<lambda>verified.
            (let receipt_json = canonical_json (PDict verified)
             in rbind (receipt_hash_of rt receipt_json) (\<lambda>receipt_hash.
               (let digest = (if output_hash \<noteq> [] then output_hash else receipt_hash)
                in if t_state t = SUCCEEDED then
                     (if or_empty (t_output_hash t) = digest \<and> or_empty (t_receipt_json t) = receipt_json
                         \<and> or_empty (t_receipt_hash t) = receipt_hash
                      then Inr None
                      else Inl (WorkGraphError ''Work node already succeeded with a different receipt''))
                   else Inr (Some \<lparr>s_digest = digest, s_receipt_json = receipt_json,
                     s_receipt_hash = receipt_hash\<rparr>)))))))"

definition store_success :: "rat \<Rightarrow> success \<Rightarrow> task \<Rightarrow> task" where
  "store_success now s t = t\<lparr>t_state := SUCCEEDED, t_output_hash := Some (s_digest s),
     t_receipt_json := Some (s_receipt_json s), t_receipt_hash := Some (s_receipt_hash s),
     t_lease_owner := None, t_lease_until := None, t_error := None, t_updated_at := now\<rparr>"

definition has_state :: "ledger \<Rightarrow> string \<Rightarrow> WorkState \<Rightarrow> bool" where
  "has_state L n s \<longleftrightarrow> (case task_of L n of None \<Rightarrow> False | Some t \<Rightarrow> t_state t = s)"

definition succeed_write :: "rat \<Rightarrow> string \<Rightarrow> success \<Rightarrow> ledger \<Rightarrow> unit outcome" where
  "succeed_write now n s L =
     (if has_state L n RUNNING
      then (update_tasks (\<lambda>m t. m = n \<and> t_state t = RUNNING) (store_success now s) L, Inr ())
      else (L, Inl (WorkGraphError ''Work node changed while succeeding'')))"

definition succeed_task ::
    "runtime \<Rightarrow> rat \<Rightarrow> string \<Rightarrow> pyval \<Rightarrow> string \<Rightarrow> ledger \<Rightarrow> task_view outcome" where
  "succeed_task rt now n receipt output_hash L =
     (case succeed_read rt n receipt output_hash L of
        Inl e \<Rightarrow> (L, Inl e)
      | Inr None \<Rightarrow> task_read rt now n L
      | Inr (Some s) \<Rightarrow> and_task rt now n (succeed_write now n s L))"

text \<open>The read half of \<open>fail\<close>: the state the update is guarded with, or None when there is nothing to
  write.\<close>

definition fail_read :: "string \<Rightarrow> bool \<Rightarrow> ledger \<Rightarrow> WorkState option result" where
  "fail_read n input_required L =
     (case task_of L n of
        None \<Rightarrow> Inl unknown_node
      | Some t \<Rightarrow>
          if t_state t = CANCELLED then Inr None
          else if input_required \<and> t_state t = INPUT_REQUIRED then Inr None
          else if t_state t \<notin> {RUNNING} \<union> (if input_required then {PENDING} else {})
            then Inl (WorkGraphError ''Work node cannot fail from state'')
          else Inr (Some (t_state t)))"

definition stop_task :: "rat \<Rightarrow> WorkState \<Rightarrow> string \<Rightarrow> task \<Rightarrow> task" where
  "stop_task now target error t = t\<lparr>t_state := target, t_error := Some (clip error),
     t_lease_owner := None, t_lease_until := None, t_updated_at := now\<rparr>"

definition fail_write :: "rat \<Rightarrow> string \<Rightarrow> string \<Rightarrow> bool \<Rightarrow> WorkState \<Rightarrow> ledger \<Rightarrow> unit outcome" where
  "fail_write now n error input_required source L =
     (if has_state L n source
      then (update_tasks (\<lambda>m t. m = n \<and> t_state t = source)
              (stop_task now (if input_required then INPUT_REQUIRED else FAILED) error) L, Inr ())
      else (L, Inl (WorkGraphError ''Work node changed while failing'')))"

definition fail_task ::
    "runtime \<Rightarrow> rat \<Rightarrow> string \<Rightarrow> string \<Rightarrow> bool \<Rightarrow> ledger \<Rightarrow> task_view outcome" where
  "fail_task rt now n error input_required L =
     (case fail_read n input_required L of
        Inl e \<Rightarrow> (L, Inl e)
      | Inr None \<Rightarrow> task_read rt now n L
      | Inr (Some source) \<Rightarrow> and_task rt now n (fail_write now n error input_required source L))"

section \<open>Retry, cancellation, resumption, invalidation\<close>

definition retry_read :: "string \<Rightarrow> ledger \<Rightarrow> unit result" where
  "retry_read n L =
     (case task_of L n of
        None \<Rightarrow> Inl unknown_node
      | Some t \<Rightarrow> require (t_state t \<in> {FAILED, INPUT_REQUIRED, CANCELLED})
          (WorkGraphError ''Only stopped work can be retried''))"

definition rearm_task :: "rat \<Rightarrow> task \<Rightarrow> task" where
  "rearm_task now t = t\<lparr>t_state := PENDING, t_error := None, t_lease_owner := None,
     t_lease_until := None, t_updated_at := now\<rparr>"

definition retry_write :: "rat \<Rightarrow> string \<Rightarrow> ledger \<Rightarrow> ledger" where
  "retry_write now n L = update_tasks (\<lambda>m _. m = n) (rearm_task now) L"

definition retry_task :: "runtime \<Rightarrow> rat \<Rightarrow> string \<Rightarrow> ledger \<Rightarrow> task_view outcome" where
  "retry_task rt now n L =
     (case retry_read n L of
        Inl e \<Rightarrow> (L, Inl e)
      | Inr _ \<Rightarrow> task_read rt now n (retry_write now n L))"

definition cancel_txn :: "rat \<Rightarrow> string \<Rightarrow> string \<Rightarrow> ledger \<Rightarrow> ledger" where
  "cancel_txn now n reason L =
     update_tasks (\<lambda>m t. m = n \<and> t_state t \<noteq> SUCCEEDED) (stop_task now CANCELLED reason) L"

definition cancel_task :: "runtime \<Rightarrow> rat \<Rightarrow> string \<Rightarrow> string \<Rightarrow> ledger \<Rightarrow> task_view outcome" where
  "cancel_task rt now n reason L = task_read rt now n (cancel_txn now n reason L)"

definition cancel_message :: "string \<Rightarrow> string" where
  "cancel_message reason = (if strip reason \<noteq> [] then strip reason else ''cancelled by user'')"

definition cancel_run_txn :: "rat \<Rightarrow> string \<Rightarrow> ledger \<Rightarrow> ledger" where
  "cancel_run_txn now reason L =
     (let message = cancel_message reason
      in update_checkpoints (\<lambda>_ c. c_state c \<noteq> SUCCEEDED)
           (\<lambda>c. c\<lparr>c_state := CANCELLED, c_error := Some (clip message), c_updated_at := now\<rparr>)
         (update_tasks (\<lambda>_ t. t_state t \<noteq> SUCCEEDED) (stop_task now CANCELLED message)
         (set_meta ''cancel_requested'' (clip message) L)))"

definition delete_meta :: "string \<Rightarrow> ledger \<Rightarrow> ledger" where
  "delete_meta k L = L\<lparr>metadata := AList.delete k (metadata L)\<rparr>"

definition resume_run_txn :: "rat \<Rightarrow> ledger \<Rightarrow> ledger" where
  "resume_run_txn now L =
     update_checkpoints (\<lambda>_ c. c_state c = CANCELLED)
       (\<lambda>c. c\<lparr>c_state := FAILED, c_error := None, c_updated_at := now\<rparr>)
     (update_tasks (\<lambda>_ t. t_state t = CANCELLED)
       (\<lambda>t. t\<lparr>t_state := PENDING, t_error := None, t_updated_at := now\<rparr>)
     (delete_meta ''cancel_requested'' L))"

definition raise_if_cancelled :: "ledger \<Rightarrow> unit result" where
  "raise_if_cancelled L = require (meta L ''cancel_requested'' = []) (WorkGraphError ''Production run is cancelled'')"

definition invalidate :: "rat \<Rightarrow> string \<Rightarrow> ledger \<Rightarrow> ledger \<times> string list" where
  "invalidate now n L = invalidate_many now [n] L"

definition cached_receipt ::
    "runtime \<Rightarrow> rat \<Rightarrow> string \<Rightarrow> string option \<Rightarrow> ledger \<Rightarrow> pyval option outcome" where
  "cached_receipt rt now n input_hash L =
     (if task_of L n = None then (L, Inr None)
      else case verified_task_row rt now n L of
        (L', Inl e) \<Rightarrow> (L', Inl e)
      | (L', Inr (_, t)) \<Rightarrow> (L',
          if t_state t \<noteq> SUCCEEDED then Inr None
          else if (case input_hash of None \<Rightarrow> False | Some h \<Rightarrow> t_input_hash t \<noteq> h) then Inr None
          else if or_empty (t_receipt_json t) = [] then Inr (Some (PDict []))
          else rbind (loads_or_raise rt (or_empty (t_receipt_json t))) (\<lambda>v. Inr (Some v))))"

end
