(* ===== verification/Ledger_Sync.thy ===== *)
theory Ledger_Sync
  imports Ledger_Tasks
begin

text \<open>
  Opening a ledger, synchronising it with a work plan, paging through its rows and its summary
  (\<open>open_existing\<close>, \<open>_initialize\<close>, \<open>_verify_stored_receipts\<close>, \<open>sync_plan\<close>, \<open>tasks\<close>, \<open>summary\<close> of
  \<^verbatim>\<open>work_graph.py\<close> and \<open>verified_task_page\<close> of \<^verbatim>\<open>work_graph_receipt_read.py\<close>).
\<close>

section \<open>Opening\<close>

text \<open>One iteration of the loop over succeeded task rows: the corrupt nodes so far and the ledger.\<close>

definition verify_row ::
    "runtime \<Rightarrow> string list \<times> ledger \<Rightarrow> string \<times> task \<Rightarrow> (string list \<times> ledger) result" where
  "verify_row rt acc row = (case (acc, row) of ((corrupt, L), (n, t)) \<Rightarrow>
     (case verified_receipt_digest rt (t_receipt_json t) of
        None \<Rightarrow> Inr (corrupt @ [n], L)
      | Some digest \<Rightarrow>
          if \<not> digest_matches digest (t_receipt_hash t) (t_output_hash t) then Inr (corrupt @ [n], L)
          else rbind (stored_receipt_reusable rt n t) (\<lambda>ok.
            if \<not> ok then Inr (corrupt @ [n], L)
            else if or_empty (t_receipt_hash t) = [] then Inr (corrupt, set_receipt_hash n (Some digest) L)
            else Inr (corrupt, L))))"

definition checkpoint_valid :: "runtime \<Rightarrow> checkpoint \<Rightarrow> bool" where
  "checkpoint_valid rt c \<longleftrightarrow>
     (case verified_receipt_digest rt (c_receipt_json c) of
        None \<Rightarrow> False
      | Some digest \<Rightarrow> digest_matches digest (c_receipt_hash c) (c_output_hash c))"

definition drop_checkpoint :: "rat \<Rightarrow> string \<Rightarrow> checkpoint \<Rightarrow> checkpoint" where
  "drop_checkpoint now error c = c\<lparr>c_state := FAILED, c_output_hash := None, c_receipt_json := None,
     c_receipt_hash := None, c_error := Some error, c_updated_at := now\<rparr>"

definition integrity_error :: string where
  "integrity_error = ''Stored checkpoint receipt failed integrity verification.''"

definition verify_checkpoint :: "runtime \<Rightarrow> rat \<Rightarrow> checkpoint \<Rightarrow> checkpoint" where
  "verify_checkpoint rt now c =
     (if \<not> checkpoint_valid rt c then drop_checkpoint now integrity_error c
      else if or_empty (c_receipt_hash c) = []
        then c\<lparr>c_receipt_hash := verified_receipt_digest rt (c_receipt_json c)\<rparr>
      else c)"

definition verify_stored_receipts :: "runtime \<Rightarrow> rat \<Rightarrow> ledger \<Rightarrow> ledger result" where
  "verify_stored_receipts rt now L =
     rbind (foldM (verify_row rt) ([], L) (filter (\<lambda>(n, t). t_state t = SUCCEEDED) (tasks L)))
       (\<lambda>(corrupt, L1). Inr
         (update_checkpoints (\<lambda>_ c. c_state c = SUCCEEDED) (verify_checkpoint rt now)
           (fst (invalidate_many now corrupt L1))))"

definition ledger_schema_version :: string where
  "ledger_schema_version = ''mmm/durable-work-ledger-v1''"

definition empty_ledger :: ledger where
  "empty_ledger = \<lparr>metadata = [], tasks = [], edges = [], checkpoints = [], proposal_hash = [], graph_hash = []\<rparr>"

text \<open>The constructor on the database found at the path (\<^const>\<open>empty_ledger\<close> for a new file).\<close>

definition initialize :: "runtime \<Rightarrow> rat \<Rightarrow> string \<Rightarrow> string \<Rightarrow> ledger \<Rightarrow> unit outcome" where
  "initialize rt now phash ghash L =
     (if meta L ''schema_version'' \<noteq> [] \<and> meta L ''schema_version'' \<noteq> ledger_schema_version
        then (L, Inl (WorkGraphError ''Unsupported durable work ledger schema.''))
      else if meta L ''proposal_hash'' \<noteq> [] \<and> meta L ''proposal_hash'' \<noteq> phash
        then (L, Inl (WorkGraphError ''Existing run belongs to a different approved proposal.''))
      else
        (let L1 = set_meta ''proposal_hash'' phash (set_meta ''schema_version'' ledger_schema_version
                    (L\<lparr>proposal_hash := phash, graph_hash := ghash\<rparr>));
             L2 = (if ghash \<noteq> [] \<and> map_of (metadata L1) ''graph_hash'' = None
                   then set_meta ''graph_hash'' ghash L1 else L1)
         in case verify_stored_receipts rt now L2 of
              Inl e \<Rightarrow> (L, Inl e)
            | Inr L3 \<Rightarrow> (L3, Inr ())))"

definition open_existing :: "runtime \<Rightarrow> rat \<Rightarrow> ledger \<Rightarrow> unit outcome" where
  "open_existing rt now L =
     (if meta L ''proposal_hash'' = [] then (L, Inl (WorkGraphError ''Work ledger has no proposal hash.''))
      else initialize rt now (meta L ''proposal_hash'') (meta L ''graph_hash'') L)"

section \<open>Synchronising with a plan\<close>

definition node_ids :: "WorkGraphPlan \<Rightarrow> string list" where
  "node_ids plan = map wn_id (plan_nodes plan)"

definition desired_edges :: "WorkGraphPlan \<Rightarrow> (string \<times> string) list" where
  "desired_edges plan = concat (map (\<lambda>node. map (Pair (wn_id node)) (wn_dependencies node)) (plan_nodes plan))"

definition missing_dependencies :: "WorkGraphPlan \<Rightarrow> string list" where
  "missing_dependencies plan = sorted_set (filter (\<lambda>d. d \<notin> set (node_ids plan)) (map snd (desired_edges plan)))"

definition new_task :: "rat \<Rightarrow> WorkNode \<Rightarrow> task" where
  "new_task now node = \<lparr>t_stage = wn_stage node, t_input_hash = wn_input_hash node,
     t_payload_json = canonical_json (PDict (wn_payload node)), t_state = PENDING, t_attempt = 0,
     t_lease_owner = None, t_lease_until = None, t_output_hash = None, t_receipt_json = None,
     t_receipt_hash = None, t_error = None, t_updated_at = now\<rparr>"

definition desired_node :: "WorkGraphPlan \<Rightarrow> string \<Rightarrow> WorkNode option" where
  "desired_node plan n = map_of (map (\<lambda>node. (wn_id node, node)) (plan_nodes plan)) n"

definition refresh_task :: "WorkGraphPlan \<Rightarrow> string \<Rightarrow> task \<Rightarrow> task" where
  "refresh_task plan n t =
     (case desired_node plan n of
        None \<Rightarrow> t
      | Some node \<Rightarrow> t\<lparr>t_stage := wn_stage node, t_input_hash := wn_input_hash node,
          t_payload_json := canonical_json (PDict (wn_payload node))\<rparr>)"

definition changed_nodes :: "WorkGraphPlan \<Rightarrow> ledger \<Rightarrow> string list" where
  "changed_nodes plan L = sort (map wn_id (filter (\<lambda>node.
     case task_of L (wn_id node) of None \<Rightarrow> False | Some t \<Rightarrow> t_input_hash t \<noteq> wn_input_hash node)
     (plan_nodes plan)))"

definition pruned_nodes :: "WorkGraphPlan \<Rightarrow> ledger \<Rightarrow> string list" where
  "pruned_nodes plan L = sort (filter (\<lambda>n. n \<notin> set (node_ids plan)) (keys (tasks L)))"

record sync_receipt =
  sy_graph_hash :: string
  sy_previous_graph_hash :: string
  sy_node_count :: nat
  sy_invalidated_nodes :: "string list"
  sy_pruned_nodes :: "string list"

definition merge_tasks :: "rat \<Rightarrow> WorkGraphPlan \<Rightarrow> ledger \<Rightarrow> (string \<times> task) list" where
  "merge_tasks now plan L =
     map (\<lambda>(n, t). (n, refresh_task plan n t))
       (filter (\<lambda>(n, t). n \<in> set (node_ids plan)) (tasks L)
        @ map (\<lambda>node. (wn_id node, new_task now node))
            (filter (\<lambda>node. wn_id node \<notin> set (keys (tasks L))) (plan_nodes plan)))"

definition sync_txn :: "rat \<Rightarrow> WorkGraphPlan \<Rightarrow> ledger \<Rightarrow> ledger" where
  "sync_txn now plan L =
     (let changed = changed_nodes plan L;
          L1 = L\<lparr>tasks := merge_tasks now plan L, edges := desired_edges plan\<rparr>;
          aff = affected (edges L1) changed;
          L2 = update_tasks (\<lambda>n _. n \<in> set aff) (reset_task now) L1
      in (set_meta ''module_count'' (show_nat (plan_module_count plan))
           (set_meta ''graph_hash'' (plan_graph_hash plan) L2))\<lparr>graph_hash := plan_graph_hash plan\<rparr>)"

definition sync_plan :: "rat \<Rightarrow> WorkGraphPlan \<Rightarrow> ledger \<Rightarrow> sync_receipt outcome" where
  "sync_plan now plan L =
     (if plan_proposal_hash plan \<noteq> proposal_hash L
        then (L, Inl (WorkGraphError ''Work graph proposal does not match the ledger.''))
      else if \<not> distinct (node_ids plan)
        then (L, Inl (WorkGraphError ''Work graph contains duplicate node identifiers.''))
      else if missing_dependencies plan \<noteq> []
        then (L, Inl (WorkGraphError ''Production work graph contains unknown dependencies''))
      else if \<not> distinct (desired_edges plan)
        then (L, Inl (IntegrityError ''UNIQUE constraint failed: desired_edges''))
      else (sync_txn now plan L, Inr \<lparr>sy_graph_hash = plan_graph_hash plan,
        sy_previous_graph_hash = meta L ''graph_hash'', sy_node_count = length (plan_nodes plan),
        sy_invalidated_nodes = changed_nodes plan L, sy_pruned_nodes = pruned_nodes plan L\<rparr>))"

section \<open>Paging and summary\<close>

definition classify_row ::
    "runtime \<Rightarrow> string list \<times> (string \<times> string) list \<Rightarrow> string \<times> task
     \<Rightarrow> (string list \<times> (string \<times> string) list) result" where
  "classify_row rt acc row = (case (acc, row) of ((corrupted, legacy), (n, t)) \<Rightarrow>
     rbind (receipt_status rt n t) (\<lambda>status.
       case status of
         InvalidReceipt \<Rightarrow> Inr (corrupted @ [n], legacy)
       | LegacyReceipt \<Rightarrow>
           (case verified_receipt_digest rt (t_receipt_json t) of
              None \<Rightarrow> Inr (corrupted, legacy)
            | Some digest \<Rightarrow> Inr (corrupted, legacy @ [(digest, n)]))
       | _ \<Rightarrow> Inr (corrupted, legacy)))"

definition store_legacy_hash :: "string list \<Rightarrow> string \<times> string \<Rightarrow> ledger \<Rightarrow> ledger" where
  "store_legacy_hash corrupted row L = (case row of (digest, n) \<Rightarrow>
     if n \<in> set corrupted then L
     else update_tasks (\<lambda>m t. m = n \<and> t_state t = SUCCEEDED) (\<lambda>t. t\<lparr>t_receipt_hash := Some digest\<rparr>) L)"

definition verified_task_page ::
    "runtime \<Rightarrow> rat \<Rightarrow> (ledger \<Rightarrow> (string \<times> task) list) \<Rightarrow> ledger \<Rightarrow> (string \<times> task) list outcome" where
  "verified_task_page rt now reread L =
     (case foldM (classify_row rt) ([], []) (reread L) of
        Inl e \<Rightarrow> (L, Inl e)
      | Inr (corrupted, legacy) \<Rightarrow>
          if corrupted = [] \<and> legacy = [] then (L, Inr (reread L))
          else (let L' = fold (store_legacy_hash corrupted) legacy (fst (invalidate_many now corrupted L))
                in (L', Inr (reread L'))))"

definition page_query :: "string \<Rightarrow> nat \<Rightarrow> WorkState option \<Rightarrow> ledger \<Rightarrow> (string \<times> task) list" where
  "page_query cursor limit state L =
     take (limit + 1) (sort_key fst (filter (\<lambda>(n, t). cursor < n \<and>
       (case state of None \<Rightarrow> True | Some s \<Rightarrow> t_state t = s)) (tasks L)))"

record task_page =
  p_tasks :: "task_view list"
  p_next_cursor :: string

definition tasks_page ::
    "runtime \<Rightarrow> rat \<Rightarrow> string \<Rightarrow> int \<Rightarrow> WorkState option \<Rightarrow> ledger \<Rightarrow> task_page outcome" where
  "tasks_page rt now cursor limit state L =
     (if \<not> (1 \<le> limit \<and> limit \<le> 1000)
        then (L, Inl (WorkGraphError ''Task page size must be between 1 and 1000.''))
      else case verified_task_page rt now (page_query cursor (nat limit) state) L of
        (L', Inl e) \<Rightarrow> (L', Inl e)
      | (L', Inr rows) \<Rightarrow> (L',
          (let page_rows = take (nat limit) rows
           in rbind (mapM (view_of rt L') page_rows) (\<lambda>page.
             Inr \<lparr>p_tasks = page, p_next_cursor =
               (if int (length rows) > limit then fst (last page_rows) else [])\<rparr>))))"

record ledger_summary =
  su_proposal_hash :: string
  su_graph_hash :: string
  su_module_count :: int
  su_task_count :: nat
  su_counts :: "(WorkState \<times> nat) list"
  su_checkpoint_counts :: "(WorkState \<times> nat) list"
  su_cancel_requested :: "string option"
  su_completed :: nat

definition work_states :: "WorkState list" where
  "work_states = [PENDING, RUNNING, INPUT_REQUIRED, SUCCEEDED, FAILED, CANCELLED]"

definition count_states :: "WorkState list \<Rightarrow> (WorkState \<times> nat) list" where
  "count_states ss = filter (\<lambda>(_, k). k > 0) (map (\<lambda>s. (s, count_list ss s)) work_states)"

text \<open>\<open>summary\<close>; the returned \<open>progress\<close> is the rounded quotient of \<open>su_completed\<close> and \<open>su_task_count\<close>.\<close>

definition summary :: "ledger \<Rightarrow> ledger_summary result" where
  "summary L =
     (let counts = count_states (map (t_state \<circ> snd) (tasks L));
          cancel = meta L ''cancel_requested'';
          modules = meta L ''module_count''
      in rbind (py_int (PStr (if modules \<noteq> [] then modules else ''0''))) (\<lambda>k.
         Inr \<lparr>su_proposal_hash = proposal_hash L, su_graph_hash = meta L ''graph_hash'',
           su_module_count = k, su_task_count = sum_list (map snd counts), su_counts = counts,
           su_checkpoint_counts = count_states (map (c_state \<circ> snd) (checkpoints L)),
           su_cancel_requested = (if cancel \<noteq> [] then Some cancel else None),
           su_completed = (case map_of counts SUCCEEDED of None \<Rightarrow> 0 | Some k \<Rightarrow> k)\<rparr>))"

definition cancel_run :: "rat \<Rightarrow> string \<Rightarrow> ledger \<Rightarrow> ledger_summary outcome" where
  "cancel_run now reason L = (let L' = cancel_run_txn now reason L in (L', summary L'))"

definition resume_run :: "rat \<Rightarrow> ledger \<Rightarrow> ledger_summary outcome" where
  "resume_run now L = (let L' = resume_run_txn now L in (L', summary L'))"

end
