(* ===== verification/Ledger_Checkpoints.thy ===== *)
theory Ledger_Checkpoints
  imports Ledger_Sync
begin

text \<open>
  The named checkpoints of the ledger (\<open>begin_checkpoint\<close>, \<open>succeed_checkpoint\<close>, \<open>fail_checkpoint\<close>,
  \<open>invalidate_checkpoint\<close>, \<open>cached_checkpoint\<close>), the read boundary \<open>verified_checkpoint_row\<close>, and the two
  drivers \<open>run_checkpoint\<close> and \<open>run_named_checkpoint\<close> that execute an action at most once per input.
  The action, its encoder and its decoder are arguments: an action is a function on the ledger that
  returns a value or raises.
\<close>

section \<open>Operations\<close>

abbreviation checkpoint_of :: "ledger \<Rightarrow> string \<Rightarrow> checkpoint option" where
  "checkpoint_of L cid \<equiv> map_of (checkpoints L) cid"

definition verified_checkpoint_row :: "runtime \<Rightarrow> rat \<Rightarrow> string \<Rightarrow> ledger \<Rightarrow> ledger \<times> checkpoint option" where
  "verified_checkpoint_row rt now cid L =
     (case checkpoint_of L cid of
        None \<Rightarrow> (L, None)
      | Some c \<Rightarrow>
          if c_state c \<noteq> SUCCEEDED then (L, Some c)
          else if \<not> checkpoint_valid rt c then
            (update_checkpoints (\<lambda>m d. m = cid \<and> c_state d = SUCCEEDED)
               (drop_checkpoint (of_int \<lfloor>now\<rfloor>) integrity_error) L, None)
          else if or_empty (c_receipt_hash c) = [] then
            (update_checkpoints (\<lambda>m d. m = cid \<and> c_state d = SUCCEEDED)
               (\<lambda>d. d\<lparr>c_receipt_hash := verified_receipt_digest rt (c_receipt_json c)\<rparr>) L, Some c)
          else (L, Some c))"

definition cached_checkpoint ::
    "runtime \<Rightarrow> rat \<Rightarrow> string \<Rightarrow> string \<Rightarrow> ledger \<Rightarrow> pyval option outcome" where
  "cached_checkpoint rt now cid input_hash L =
     (case verified_checkpoint_row rt now cid L of
        (L', None) \<Rightarrow> (L', Inr None)
      | (L', Some c) \<Rightarrow> (L',
          if c_state c \<noteq> SUCCEEDED \<or> c_input_hash c \<noteq> input_hash then Inr None
          else if or_empty (c_receipt_json c) = [] then Inr (Some (PDict []))
          else rbind (loads_or_raise rt (or_empty (c_receipt_json c))) (\<lambda>v. Inr (Some v))))"

definition new_checkpoint :: "rat \<Rightarrow> string \<Rightarrow> string \<Rightarrow> checkpoint" where
  "new_checkpoint now stage input_hash = \<lparr>c_stage = stage, c_input_hash = input_hash, c_state = RUNNING,
     c_attempt = 1, c_output_hash = None, c_receipt_json = None, c_receipt_hash = None, c_error = None,
     c_updated_at = now\<rparr>"

definition start_checkpoint :: "rat \<Rightarrow> string \<Rightarrow> string \<Rightarrow> checkpoint \<Rightarrow> checkpoint" where
  "start_checkpoint now stage input_hash c = c\<lparr>c_stage := stage, c_input_hash := input_hash,
     c_state := RUNNING, c_attempt := c_attempt c + 1, c_receipt_json := None, c_receipt_hash := None,
     c_output_hash := None, c_error := None, c_updated_at := now\<rparr>"

definition begin_checkpoint_guard :: "string \<Rightarrow> checkpoint \<Rightarrow> unit result" where
  "begin_checkpoint_guard input_hash c =
     (if c_input_hash c = input_hash then
        (if c_state c = SUCCEEDED then Inl (WorkGraphError ''Checkpoint already succeeded for this input'')
         else if c_state c = RUNNING then Inl (WorkGraphError ''Checkpoint is already running'')
         else if c_state c = CANCELLED
           then Inl (WorkGraphError ''Checkpoint is cancelled and requires explicit retry'')
         else Inr ())
      else if c_state c = RUNNING
        then Inl (WorkGraphError ''Checkpoint input changed while another attempt is running'')
      else Inr ())"

definition begin_checkpoint :: "rat \<Rightarrow> string \<Rightarrow> string \<Rightarrow> string \<Rightarrow> ledger \<Rightarrow> unit outcome" where
  "begin_checkpoint now cid stage input_hash L =
     (case checkpoint_of L cid of
        None \<Rightarrow> (L\<lparr>checkpoints := checkpoints L @ [(cid, new_checkpoint now stage input_hash)]\<rparr>, Inr ())
      | Some c \<Rightarrow>
          (case begin_checkpoint_guard input_hash c of
             Inl e \<Rightarrow> (L, Inl e)
           | Inr _ \<Rightarrow> (update_checkpoints (\<lambda>m d. m = cid \<and> c_state d = c_state c \<and> c_input_hash d = c_input_hash c)
               (start_checkpoint now stage input_hash) L, Inr ())))"

definition running_for :: "ledger \<Rightarrow> string \<Rightarrow> string \<Rightarrow> bool" where
  "running_for L cid input_hash \<longleftrightarrow>
     (case checkpoint_of L cid of None \<Rightarrow> False | Some c \<Rightarrow> c_input_hash c = input_hash \<and> c_state c = RUNNING)"

definition succeed_checkpoint :: "runtime \<Rightarrow> rat \<Rightarrow> string \<Rightarrow> string \<Rightarrow> pydict \<Rightarrow> ledger \<Rightarrow> unit outcome" where
  "succeed_checkpoint rt now cid input_hash receipt L =
     (let rendered = canonical_json (PDict receipt)
      in case receipt_hash_of rt rendered of
           Inl e \<Rightarrow> (L, Inl e)
         | Inr h \<Rightarrow>
             if running_for L cid input_hash then
               (update_checkpoints (\<lambda>m c. m = cid \<and> c_input_hash c = input_hash \<and> c_state c = RUNNING)
                  (\<lambda>c. c\<lparr>c_state := SUCCEEDED, c_receipt_json := Some rendered, c_receipt_hash := Some h,
                     c_output_hash := Some h, c_error := None, c_updated_at := now\<rparr>) L, Inr ())
             else (L, Inl (WorkGraphError ''Checkpoint changed while running'')))"

definition fail_checkpoint :: "rat \<Rightarrow> string \<Rightarrow> string \<Rightarrow> string \<Rightarrow> ledger \<Rightarrow> unit outcome" where
  "fail_checkpoint now cid input_hash error L =
     (case checkpoint_of L cid of
        None \<Rightarrow> (L, Inl (WorkGraphError ''Unknown checkpoint''))
      | Some c \<Rightarrow>
          if c_input_hash c \<noteq> input_hash then (L, Inl (WorkGraphError ''Checkpoint input changed while running''))
          else if c_state c = CANCELLED then (L, Inr ())
          else if c_state c \<noteq> RUNNING then (L, Inl (WorkGraphError ''Checkpoint cannot fail from state''))
          else (update_checkpoints (\<lambda>m d. m = cid \<and> c_input_hash d = input_hash \<and> c_state d = RUNNING)
                  (\<lambda>d. d\<lparr>c_state := FAILED, c_error := Some (clip error), c_updated_at := now\<rparr>) L, Inr ()))"

definition invalidate_checkpoint :: "rat \<Rightarrow> string \<Rightarrow> string \<Rightarrow> string \<Rightarrow> ledger \<Rightarrow> bool outcome" where
  "invalidate_checkpoint now cid input_hash reason L =
     (case checkpoint_of L cid of
        None \<Rightarrow> (L, Inl (WorkGraphError ''Unknown checkpoint''))
      | Some c \<Rightarrow>
          if c_input_hash c \<noteq> input_hash then (L, Inr False)
          else if c_state c \<noteq> SUCCEEDED then (L, Inr False)
          else (update_checkpoints (\<lambda>m d. m = cid \<and> c_input_hash d = input_hash \<and> c_state d = SUCCEEDED)
                  (drop_checkpoint now (clip reason)) L, Inr True))"

section \<open>Drivers\<close>

text \<open>The text \<open>type(exc).__name__: exc\<close> stored with a failure.\<close>

fun exc_text :: "pyerr \<Rightarrow> string" where
  "exc_text (ValueError m) = ''ValueError: '' @ m"
| "exc_text (KeyError m) = ''KeyError: '' @ m"
| "exc_text (TypeError m) = ''TypeError: '' @ m"
| "exc_text (IndexError m) = ''IndexError: '' @ m"
| "exc_text (AttributeError m) = ''AttributeError: '' @ m"
| "exc_text (OverflowError m) = ''OverflowError: '' @ m"
| "exc_text (IntegrityError m) = ''IntegrityError: '' @ m"
| "exc_text (WorkGraphError m) = ''WorkGraphError: '' @ m"
| "exc_text (VerifierReceiptTruthError m) = ''VerifierReceiptTruthError: '' @ m"
| "exc_text (PortConnectionError m) = ''PortConnectionError: '' @ m"
| "exc_text (MappingError m) = ''MappingError: '' @ m"
| "exc_text (ModelExecutionCancelled m) = ''ModelExecutionCancelled: '' @ m"
| "exc_text (ActionError m) = ''ActionError: '' @ m"

text \<open>Sequencing of ledger operations, and \<open>except Exception as exc: handler; raise\<close>.\<close>

definition obind :: "'a outcome \<Rightarrow> ('a \<Rightarrow> ledger \<Rightarrow> 'b outcome) \<Rightarrow> 'b outcome" where
  "obind out f = (case out of (L, Inl e) \<Rightarrow> (L, Inl e) | (L, Inr x) \<Rightarrow> f x L)"

definition on_error :: "'a outcome \<Rightarrow> (pyerr \<Rightarrow> ledger \<Rightarrow> 'b outcome) \<Rightarrow> 'a outcome" where
  "on_error out handler = (case out of
     (L, Inr x) \<Rightarrow> (L, Inr x)
   | (L, Inl e) \<Rightarrow> (case handler e L of (L', Inl e') \<Rightarrow> (L', Inl e') | (L', Inr _) \<Rightarrow> (L', Inl e)))"

definition run_checkpoint ::
    "runtime \<Rightarrow> rat \<Rightarrow> string \<Rightarrow> (ledger \<Rightarrow> 'a outcome) \<Rightarrow> ('a \<Rightarrow> pydict result) \<Rightarrow> (pyval \<Rightarrow> 'a result)
     \<Rightarrow> string \<Rightarrow> ledger \<Rightarrow> 'a outcome" where
  "run_checkpoint rt now n action encode decode worker L =
     obind (L, raise_if_cancelled L) (\<lambda>_ L.
     obind (cached_receipt rt now n None L) (\<lambda>cached L.
     case cached of
       Some v \<Rightarrow> (L, decode v)
     | None \<Rightarrow>
         obind (begin_task rt now n worker L) (\<lambda>_ L.
         on_error
           (obind (action L) (\<lambda>v L.
            obind (L, encode v) (\<lambda>receipt L.
            obind (succeed_task rt now n (PDict receipt) [] L) (\<lambda>_ L. (L, Inr v)))))
           (\<lambda>e L. fail_task rt now n (exc_text e) False L))))"

definition stale_cache_reason :: string where
  "stale_cache_reason = ''cached checkpoint output failed validation''"

definition run_named_checkpoint ::
    "runtime \<Rightarrow> rat \<Rightarrow> string \<Rightarrow> string \<Rightarrow> pyval \<Rightarrow> (ledger \<Rightarrow> 'a outcome) \<Rightarrow> ('a \<Rightarrow> pydict result)
     \<Rightarrow> (pyval \<Rightarrow> 'a result) \<Rightarrow> ('a \<Rightarrow> bool result) option \<Rightarrow> ledger \<Rightarrow> 'a outcome" where
  "run_named_checkpoint rt now cid stage input_value action encode decode validate_cached L =
     obind (L, raise_if_cancelled L) (\<lambda>_ L.
     (let input_hash = hash_json rt input_value;
          execute = (\<lambda>L.
            obind (begin_checkpoint now cid stage input_hash L) (\<lambda>_ L.
            on_error
              (obind (action L) (\<lambda>v L.
               obind (L, encode v) (\<lambda>receipt L.
               obind (succeed_checkpoint rt now cid input_hash receipt L) (\<lambda>_ L. (L, Inr v)))))
              (\<lambda>e L. fail_checkpoint now cid input_hash (exc_text e) L)))
      in obind (cached_checkpoint rt now cid input_hash L) (\<lambda>cached L.
         case cached of
           None \<Rightarrow> execute L
         | Some v \<Rightarrow>
             obind (L, decode v) (\<lambda>decoded L.
             obind (L, case validate_cached of None \<Rightarrow> Inr True | Some check \<Rightarrow> check decoded) (\<lambda>valid L.
             if valid then (L, Inr decoded)
             else obind (invalidate_checkpoint now cid input_hash stale_cache_reason L) (\<lambda>_ L. execute L))))))"

end
