(* ===== verification/Scheduler.thy ===== *)
theory Scheduler
  imports Ledger_Sync "HOL-Library.Product_Lexorder"
begin

text \<open>
  The admission of generation work (\<^verbatim>\<open>scheduler_parallel_safety_contract.py\<close>) and the claim-fenced
  publication of its results (\<^verbatim>\<open>scheduler_claim_fencing_contract.py\<close>). What the functions read from the
  process is the record \<open>scheduler_env\<close>: the environment variable \<open>MMM_CPU_IO_WORKERS\<close>, \<open>os.cpu_count()\<close>,
  the capacity table, the lease owner kept on the ledger object, the process id and a fresh UUID, the
  shared GPU flag, and SQLite's \<open>json_extract(payload_json, '$.resource_class')\<close> (None for NULL).
\<close>

section \<open>Lanes and capacities\<close>

record scheduler_env =
  env_cpu_io_workers :: pyval
  env_os_cpu_count :: pyval
  env_resource_capacities :: "(string \<times> int) list"
  env_lease_owner :: string
  env_pid :: int
  env_uuid_hex :: string
  env_shared_local_gpu :: bool
  env_json_resource_class :: "string \<Rightarrow> string option"

definition orchestrator_worker :: string where
  "orchestrator_worker = ''mmm-orchestrator''"

definition resource_capacities :: "(string \<times> int) list" where
  "resource_capacities = [(''llm'', 1), (''image_gpu'', 1), (''commit'', 1)]"

definition resource_priority :: "(string \<times> nat) list" where
  "resource_priority = [(''llm'', 0), (''image_gpu'', 1), (''cpu_io'', 2), (''commit'', 3)]"

definition serial_cpu_stages :: "string list" where
  "serial_cpu_stages = [''generate:content'', ''generate:system'', ''generate:entity'', ''generate:host'']"

definition positive_int_of :: "pyval \<Rightarrow> int option" where
  "positive_int_of v = (case parse_int (strip (py_str v)) of
     None \<Rightarrow> None | Some i \<Rightarrow> if i > 0 then Some i else None)"

definition recommended_cpu_io_workers :: "scheduler_env \<Rightarrow> pyval \<Rightarrow> int" where
  "recommended_cpu_io_workers env cpu_count =
     (case positive_int_of (env_cpu_io_workers env) of
        Some explicit \<Rightarrow> explicit
      | None \<Rightarrow>
          (let logical = (case positive_int_of cpu_count of Some k \<Rightarrow> k
             | None \<Rightarrow> (case positive_int_of (env_os_cpu_count env) of Some k \<Rightarrow> k | None \<Rightarrow> 2))
           in if logical \<le> 2 then logical else logical - 1))"

definition capacities :: "scheduler_env \<Rightarrow> (string \<times> int) list" where
  "capacities env =
     fold (\<lambda>(lane, c) d. AList.update lane c d) (env_resource_capacities env)
       [(''cpu_io'', recommended_cpu_io_workers env PNone)]"

text \<open>The lane of a row, \<open>_resource_sql\<close>.\<close>

definition resource_class_of :: "scheduler_env \<Rightarrow> task \<Rightarrow> string" where
  "resource_class_of env t =
     (let c = (case env_json_resource_class env (t_payload_json t) of None \<Rightarrow> ''cpu_io'' | Some s \<Rightarrow> s)
      in if c \<in> {''llm'', ''image_gpu'', ''commit''} then c else ''cpu_io'')"

definition orchestrator_owner :: "scheduler_env \<Rightarrow> string" where
  "orchestrator_owner env =
     (if env_lease_owner env \<noteq> [] then env_lease_owner env
      else orchestrator_worker @ '':'' @ show_int (env_pid env) @ '':'' @ env_uuid_hex env)"

text \<open>\<open>stage LIKE 'generate:%'\<close>; SQLite's LIKE ignores the case of ASCII letters.\<close>

definition like_generate :: "task \<Rightarrow> bool" where
  "like_generate t \<longleftrightarrow> startswith (lower (t_stage t)) ''generate:''"

section \<open>Renewal\<close>

definition owned_by :: "string \<Rightarrow> task \<Rightarrow> bool" where
  "owned_by owner t \<longleftrightarrow> t_lease_owner t = Some owner"

definition lease_between :: "rat \<Rightarrow> rat option \<Rightarrow> task \<Rightarrow> bool" where
  "lease_between lo hi t \<longleftrightarrow> (case t_lease_until t of None \<Rightarrow> False
     | Some u \<Rightarrow> lo \<le> u \<and> (case hi of None \<Rightarrow> True | Some h \<Rightarrow> u \<le> h))"

definition expired_owned :: "string \<Rightarrow> rat \<Rightarrow> ledger \<Rightarrow> bool" where
  "expired_owned owner now L \<longleftrightarrow>
     list_ex (\<lambda>(n, t). lease_expired now t \<and> owned_by owner t \<and> like_generate t) (tasks L)"

definition renew_lease :: "rat \<Rightarrow> int \<Rightarrow> task \<Rightarrow> task" where
  "renew_lease now lease_seconds t = t\<lparr>t_lease_until := Some (now + of_int lease_seconds), t_updated_at := now\<rparr>"

definition lease_lost :: pyerr where
  "lease_lost = WorkGraphError ''Current orchestrator lease expired while its local worker may still be active''"

definition renewable :: "string \<Rightarrow> rat \<Rightarrow> task \<Rightarrow> bool" where
  "renewable owner now t \<longleftrightarrow> t_state t = RUNNING \<and> owned_by owner t \<and> lease_between now None t \<and> like_generate t"

definition renew_orchestrator_claims :: "scheduler_env \<Rightarrow> rat \<Rightarrow> int \<Rightarrow> ledger \<Rightarrow> nat outcome" where
  "renew_orchestrator_claims env now lease_seconds L =
     (if lease_seconds < 1 then (L, Inl (WorkGraphError ''lease_seconds must be positive.''))
      else (let owner = orchestrator_owner env
        in if expired_owned owner now L then (L, Inl lease_lost)
           else (update_tasks (\<lambda>_ t. renewable owner now t) (renew_lease now lease_seconds) L,
                 Inr (length (filter (\<lambda>(n, t). renewable owner now t) (tasks L))))))"

section \<open>Admission\<close>

definition lane_capacities :: "scheduler_env \<Rightarrow> (string \<times> int) list" where
  "lane_capacities env = map (\<lambda>(lane, c). (lane, max 1 c)) (capacities env)"

definition running_in :: "scheduler_env \<Rightarrow> ledger \<Rightarrow> string \<Rightarrow> nat" where
  "running_in env L lane = length (filter (\<lambda>(n, t). t_state t = RUNNING \<and> like_generate t \<and>
     resource_class_of env t = lane) (tasks L))"

definition free_lanes :: "scheduler_env \<Rightarrow> ledger \<Rightarrow> string list" where
  "free_lanes env L =
     (let free = map fst (filter (\<lambda>(lane, c). int (running_in env L lane) < c) (lane_capacities env));
          free1 = (if env_shared_local_gpu env \<and> running_in env L ''image_gpu'' > 0
                   then filter (\<lambda>l. l \<noteq> ''llm'') free else free)
      in if env_shared_local_gpu env \<and> running_in env L ''llm'' > 0
         then filter (\<lambda>l. l \<noteq> ''image_gpu'') free1 else free1)"

definition stage_busy :: "ledger \<Rightarrow> string \<Rightarrow> bool" where
  "stage_busy L stage \<longleftrightarrow> stage \<in> set serial_cpu_stages \<and>
     list_ex (\<lambda>(n, t). t_state t = RUNNING \<and> t_stage t = stage) (tasks L)"

definition admissible :: "scheduler_env \<Rightarrow> string list \<Rightarrow> ledger \<Rightarrow> string \<Rightarrow> task \<Rightarrow> bool" where
  "admissible env stages L n t \<longleftrightarrow> ready L n t \<and> \<not> stage_busy L (t_stage t) \<and> in_stages stages t \<and>
     resource_class_of env t \<in> set (free_lanes env L)"

text \<open>The rows of rank 1: the least node of every lane.\<close>

definition ranked :: "scheduler_env \<Rightarrow> string list \<Rightarrow> ledger \<Rightarrow> (string \<times> string) list" where
  "ranked env stages L =
     (let rows = map (\<lambda>(n, t). (n, resource_class_of env t)) (filter (\<lambda>(n, t). admissible env stages L n t) (tasks L))
      in filter (\<lambda>(n, c). \<forall>(n', c') \<in> set rows. c' = c \<longrightarrow> n \<le> n') rows)"

definition claim_key :: "scheduler_env \<Rightarrow> ledger \<Rightarrow> string \<times> string \<Rightarrow> rat \<times> nat \<times> string" where
  "claim_key env L row = (case row of (n, c) \<Rightarrow>
     (of_nat (running_in env L c) / of_int (case map_of (lane_capacities env) c of None \<Rightarrow> 1 | Some k \<Rightarrow> k),
      (case map_of resource_priority c of None \<Rightarrow> 9 | Some p \<Rightarrow> p), n))"

definition ready_node_id :: "scheduler_env \<Rightarrow> string list \<Rightarrow> ledger \<Rightarrow> string option" where
  "ready_node_id env stages L =
     (case sort_key (claim_key env L) (ranked env stages L) of [] \<Rightarrow> None | (n, _) # _ \<Rightarrow> Some n)"

definition renew_before :: "rat \<Rightarrow> int \<Rightarrow> rat" where
  "renew_before now lease_seconds = now + max 1 (of_int lease_seconds * (1 / 2))"

definition maintenance_due :: "string \<Rightarrow> rat \<Rightarrow> int \<Rightarrow> ledger \<Rightarrow> bool" where
  "maintenance_due owner now lease_seconds L \<longleftrightarrow>
     list_ex (\<lambda>(n, t). lease_expired now t \<or>
       (t_state t = RUNNING \<and> owned_by owner t \<and> lease_between now (Some (renew_before now lease_seconds)) t)) (tasks L)"

definition renew_near_expiry :: "string \<Rightarrow> rat \<Rightarrow> int \<Rightarrow> ledger \<Rightarrow> ledger" where
  "renew_near_expiry owner now lease_seconds =
     update_tasks (\<lambda>_ t. t_state t = RUNNING \<and> owned_by owner t \<and>
       lease_between now (Some (renew_before now lease_seconds)) t) (renew_lease now lease_seconds)"

definition release_foreign :: "string \<Rightarrow> rat \<Rightarrow> ledger \<Rightarrow> ledger" where
  "release_foreign owner now =
     update_tasks (\<lambda>_ t. lease_expired now t \<and> \<not> owned_by owner t) (release_expired now)"

text \<open>The write transaction of \<open>claim_orchestrator_ready\<close>, entered at time \<open>now\<close>.\<close>

definition claim_orchestrator_txn ::
    "scheduler_env \<Rightarrow> rat \<Rightarrow> string list \<Rightarrow> int \<Rightarrow> ledger \<Rightarrow> string option outcome" where
  "claim_orchestrator_txn env now stages lease_seconds L =
     (let owner = orchestrator_owner env
      in if expired_owned owner now L then (L, Inl lease_lost)
         else (let L2 = release_foreign owner now (renew_near_expiry owner now lease_seconds L)
           in case ready_node_id env stages L2 of
                None \<Rightarrow> (L2, Inr None)
              | Some n \<Rightarrow>
                  if has_state L2 n PENDING then
                    (update_tasks (\<lambda>m t. m = n \<and> t_state t = PENDING)
                       (start_task now owner (Some (now + of_int lease_seconds))) L2, Inr (Some n))
                  else (L2, Inr None)))"

text \<open>The check before it, at time \<open>before\<close>, that there is work for the transaction.\<close>

definition claim_needed :: "scheduler_env \<Rightarrow> rat \<Rightarrow> int \<Rightarrow> ledger \<Rightarrow> bool" where
  "claim_needed env before lease_seconds L \<longleftrightarrow>
     maintenance_due (orchestrator_owner env) before lease_seconds L \<or>
     list_ex (\<lambda>(n, t). t_state t = PENDING) (tasks L)"

definition view_claim :: "runtime \<Rightarrow> rat \<Rightarrow> string option outcome \<Rightarrow> task_view option outcome" where
  "view_claim rt now out = (case out of
     (L, Inl e) \<Rightarrow> (L, Inl e)
   | (L, Inr None) \<Rightarrow> (L, Inr None)
   | (L, Inr (Some n)) \<Rightarrow> (let (L', v) = task_read rt now n L in (L', rbind v (\<lambda>v. Inr (Some v)))))"

definition claim_orchestrator_ready ::
    "runtime \<Rightarrow> scheduler_env \<Rightarrow> rat \<Rightarrow> rat \<Rightarrow> string list \<Rightarrow> int \<Rightarrow> ledger \<Rightarrow> task_view option outcome" where
  "claim_orchestrator_ready rt env before now stages lease_seconds L =
     (if lease_seconds < 1 then (L, Inl (WorkGraphError ''lease_seconds must be positive.''))
      else if \<not> claim_needed env before lease_seconds L then (L, Inr None)
      else view_claim rt now (claim_orchestrator_txn env now stages lease_seconds L))"

definition claim_ready ::
    "runtime \<Rightarrow> scheduler_env \<Rightarrow> rat \<Rightarrow> rat \<Rightarrow> string \<Rightarrow> string list \<Rightarrow> int \<Rightarrow> ledger \<Rightarrow> task_view option outcome" where
  "claim_ready rt env before now worker stages lease_seconds L =
     (if strip worker = [] then (L, Inl (WorkGraphError ''worker_id must not be empty.''))
      else if lease_seconds < 1 then (L, Inl (WorkGraphError ''lease_seconds must be positive.''))
      else if worker = orchestrator_worker
        then claim_orchestrator_ready rt env before now stages lease_seconds L
      else view_claim rt now (let (L', n) = claim_txn now worker stages lease_seconds L in (L', Inr n)))"

section \<open>Fenced publication\<close>

definition snapshot_claim :: "runtime \<Rightarrow> rat \<Rightarrow> string \<Rightarrow> ledger \<Rightarrow> (nat \<times> string) outcome" where
  "snapshot_claim rt now n L =
     (let (L', v) = task_read rt now n L
      in (L', rbind v (\<lambda>v. let t = v_task v in
           if t_state t \<noteq> RUNNING
             then Inl (WorkGraphError ''Work node is not running while capturing its claim'')
           else if t_attempt t < 1 then Inl (WorkGraphError ''Work node has an invalid running attempt.'')
           else if or_empty (t_lease_owner t) = [] then Inl (WorkGraphError ''Work node has no running owner.'')
           else Inr (t_attempt t, or_empty (t_lease_owner t)))))"

definition claim_current :: "nat \<Rightarrow> string \<Rightarrow> task \<Rightarrow> bool" where
  "claim_current attempt owner t \<longleftrightarrow> t_state t = RUNNING \<and> t_attempt t = attempt \<and> owned_by owner t"

definition fenced_fail :: "rat \<Rightarrow> string \<Rightarrow> nat \<Rightarrow> string \<Rightarrow> string \<Rightarrow> ledger \<Rightarrow> ledger" where
  "fenced_fail now n attempt owner error L =
     update_tasks (\<lambda>m t. m = n \<and> claim_current attempt owner t) (stop_task now FAILED error) L"

definition claim_held :: "string \<Rightarrow> nat \<Rightarrow> string \<Rightarrow> ledger \<Rightarrow> bool" where
  "claim_held n attempt owner L \<longleftrightarrow>
     (case task_of L n of None \<Rightarrow> False | Some t \<Rightarrow> claim_current attempt owner t)"

definition stale_claim :: pyerr where
  "stale_claim = WorkGraphError ''Stale worker claim rejected''"

definition publish_success :: "rat \<Rightarrow> string \<Rightarrow> string \<Rightarrow> task \<Rightarrow> task" where
  "publish_success now digest rendered t = t\<lparr>t_state := SUCCEEDED, t_output_hash := Some digest,
     t_receipt_json := Some rendered, t_lease_owner := None, t_lease_until := None, t_error := None,
     t_updated_at := now\<rparr>"

text \<open>The write transaction of \<open>_commit_success\<close>.\<close>

definition commit_write :: "runtime \<Rightarrow> rat \<Rightarrow> string \<Rightarrow> pyval \<Rightarrow> nat \<Rightarrow> string \<Rightarrow> ledger \<Rightarrow> unit outcome" where
  "commit_write rt now n receipt attempt owner L =
     (let rendered = canonical_json receipt; digest = sha256_of rt rendered
      in if \<not> claim_held n attempt owner L then (L, Inl stale_claim)
         else (update_tasks (\<lambda>m t. m = n \<and> claim_current attempt owner t)
                 (publish_success now digest rendered) L, Inr ()))"

text \<open>The whole of \<open>_commit_success\<close>. The refresh of the shared index, which runs between the two reads
  of the row and does not touch the ledger, is the argument \<open>refresh\<close>: its outcome on the receipt.\<close>

definition commit_success ::
    "runtime \<Rightarrow> rat \<Rightarrow> (pyval \<Rightarrow> unit result) \<Rightarrow> string \<Rightarrow> pyval \<Rightarrow> nat \<Rightarrow> string \<Rightarrow> ledger \<Rightarrow> unit outcome" where
  "commit_success rt now refresh n receipt attempt owner L =
     (if \<not> claim_held n attempt owner L then (L, Inl stale_claim)
      else case refresh receipt of
        Inl e \<Rightarrow> (L, Inl e)
      | Inr _ \<Rightarrow> commit_write rt now n receipt attempt owner L)"

end
