(* ===== verification/Ledger_Invariant.thy ===== *)
theory Ledger_Invariant
  imports Ledger_Checkpoints Scheduler
begin

text \<open>
  The invariant of the work ledger and its preservation by every transaction of the ledger, of the
  checkpoints and of the scheduler. The heart is one lemma about \<^const>\<open>update_tasks\<close>: an update keeps
  the invariant when it keeps rows well formed, keeps succeeded rows succeeded and activates a row only
  when nothing blocks it; invalidation is the other case, a reset of a set closed under dependents.
\<close>

section \<open>Generic facts on the tables\<close>

lemma map_of_map_snd:
  "map_of (map (\<lambda>(n, t). (n, g n t)) xs) k = map_option (g k) (map_of xs k)"
  by (induction xs) auto

lemma task_of_update_tasks [simp]:
  "task_of (update_tasks P f L) n = map_option (\<lambda>t. if P n t then f t else t) (task_of L n)"
  by (simp add: update_tasks_def map_of_map_snd)

lemma update_tasks_frame [simp]:
  "keys (tasks (update_tasks P f L)) = keys (tasks L)"
  "fst ` set (tasks (update_tasks P f L)) = fst ` set (tasks L)"
  "edges (update_tasks P f L) = edges L"
  "checkpoints (update_tasks P f L) = checkpoints L"
  "metadata (update_tasks P f L) = metadata L"
  "proposal_hash (update_tasks P f L) = proposal_hash L"
  by (force simp: update_tasks_def comp_def case_prod_beta)+

lemma checkpoint_of_update_checkpoints [simp]:
  "checkpoint_of (update_checkpoints P f L) n = map_option (\<lambda>c. if P n c then f c else c) (checkpoint_of L n)"
  by (simp add: update_checkpoints_def map_of_map_snd)

lemma update_checkpoints_frame [simp]:
  "keys (checkpoints (update_checkpoints P f L)) = keys (checkpoints L)"
  "edges (update_checkpoints P f L) = edges L"
  "tasks (update_checkpoints P f L) = tasks L"
  "metadata (update_checkpoints P f L) = metadata L"
  by (simp_all add: update_checkpoints_def comp_def case_prod_beta)

lemma set_meta_frame [simp]:
  "tasks (set_meta k v L) = tasks L" "edges (set_meta k v L) = edges L"
  "checkpoints (set_meta k v L) = checkpoints L" "tasks (delete_meta k L) = tasks L"
  "edges (delete_meta k L) = edges L" "checkpoints (delete_meta k L) = checkpoints L"
  by (simp_all add: set_meta_def delete_meta_def)

lemma meta_set_meta [simp]: "meta (set_meta k v L) k' = (if k' = k then v else meta L k')"
  by (simp add: meta_def set_meta_def)

lemma meta_update_tasks [simp]: "meta (update_tasks P f L) k = meta L k"
  by (simp add: meta_def)

section \<open>The recursive query\<close>

lemma set_affected_loop_subset:
  "set q \<subseteq> set seen \<Longrightarrow> set (affected_loop E q seen) \<subseteq> {n. \<exists>s \<in> set seen. (n, s) \<in> (set E)\<^sup>*}"
proof (induction E q seen rule: affected_loop.induct)
  case (1 E seen)
  then show ?case by auto
next
  case (2 E x queue seen)
  define new where "new = fromkeys (filter (\<lambda>n. n \<notin> set seen) (map fst (filter (\<lambda>(n, d). d = x) E)))"
  have new: "set new \<subseteq> {n. (n, x) \<in> set E}" by (auto simp: new_def)
  have "set (affected_loop E (queue @ new) (seen @ new)) \<subseteq>
      {n. \<exists>s \<in> set (seen @ new). (n, s) \<in> (set E)\<^sup>*}"
    using "2.IH"[OF new_def] "2.prems" by auto
  also have "\<dots> \<subseteq> {n. \<exists>s \<in> set seen. (n, s) \<in> (set E)\<^sup>*}"
    using new "2.prems" by (auto intro: rtrancl_into_rtrancl)
  finally show ?case by (simp add: new_def Let_def)
qed

lemma affected_loop_closed:
  assumes "\<forall>(n, d) \<in> set E. d \<in> set seen \<longrightarrow> d \<in> set q \<or> n \<in> set seen" and "set q \<subseteq> set seen"
  shows "set seen \<subseteq> set (affected_loop E q seen) \<and>
    (\<forall>(n, d) \<in> set E. d \<in> set (affected_loop E q seen) \<longrightarrow> n \<in> set (affected_loop E q seen))"
  using assms
proof (induction E q seen rule: affected_loop.induct)
  case (1 E seen)
  then show ?case by auto
next
  case (2 E x queue seen)
  define new where "new = fromkeys (filter (\<lambda>n. n \<notin> set seen) (map fst (filter (\<lambda>(n, d). d = x) E)))"
  have new: "n \<in> set new \<longleftrightarrow> n \<notin> set seen \<and> (n, x) \<in> set E" for n by (force simp: new_def)
  have "\<forall>(n, d) \<in> set E. d \<in> set (seen @ new) \<longrightarrow> d \<in> set (queue @ new) \<or> n \<in> set (seen @ new)"
    using "2.prems"(1) by (auto simp: new)
  moreover have "set (queue @ new) \<subseteq> set (seen @ new)" using "2.prems"(2) by auto
  ultimately show ?case using "2.IH"[OF new_def] by (simp add: new_def Let_def)
qed

lemma affected_closed:
  "(n, d) \<in> set E \<Longrightarrow> d \<in> set (affected E seeds) \<Longrightarrow> n \<in> set (affected E seeds)"
  using affected_loop_closed[of E seeds seeds] by (auto simp: affected_def)

lemma seeds_affected: "set seeds \<subseteq> set (affected E seeds)"
  using affected_loop_closed[of E seeds seeds] by (auto simp: affected_def)

lemma set_affected: "set (affected E seeds) = {n. \<exists>s \<in> set seeds. (n, s) \<in> (set E)\<^sup>*}"
proof
  show "set (affected E seeds) \<subseteq> {n. \<exists>s \<in> set seeds. (n, s) \<in> (set E)\<^sup>*}"
    using set_affected_loop_subset[of seeds seeds E] by (simp add: affected_def)
  have "n \<in> set (affected E seeds)" if "(n, s) \<in> (set E)\<^sup>*" "s \<in> set seeds" for n s
    using that by (induction rule: converse_rtrancl_induct) (use seeds_affected affected_closed in blast)+
  then show "{n. \<exists>s \<in> set seeds. (n, s) \<in> (set E)\<^sup>*} \<subseteq> set (affected E seeds)" by auto
qed

lemma affected_Nil [simp]: "affected E [] = []"
  by (simp add: affected_def)

section \<open>The invariant\<close>

definition active :: "WorkState \<Rightarrow> bool" where
  "active s \<longleftrightarrow> s = RUNNING \<or> s = SUCCEEDED"

definition row_ok :: "task \<Rightarrow> bool" where
  "row_ok t \<longleftrightarrow> (t_lease_owner t \<noteq> None \<longleftrightarrow> t_state t = RUNNING) \<and>
     (t_lease_until t \<noteq> None \<longrightarrow> t_state t = RUNNING) \<and>
     (t_receipt_json t \<noteq> None \<longleftrightarrow> t_state t = SUCCEEDED) \<and>
     (t_output_hash t \<noteq> None \<longleftrightarrow> t_state t = SUCCEEDED) \<and>
     (t_receipt_hash t \<noteq> None \<longrightarrow> t_state t = SUCCEEDED) \<and>
     (active (t_state t) \<longrightarrow> t_attempt t > 0)"

definition checkpoint_ok :: "checkpoint \<Rightarrow> bool" where
  "checkpoint_ok c \<longleftrightarrow> (c_receipt_json c \<noteq> None \<longleftrightarrow> c_state c = SUCCEEDED) \<and> c_receipt_json c \<noteq> Some [] \<and>
     (c_output_hash c \<noteq> None \<longleftrightarrow> c_state c = SUCCEEDED) \<and>
     (c_receipt_hash c \<noteq> None \<longrightarrow> c_state c = SUCCEEDED) \<and> c_attempt c > 0"

definition deps_ok :: "ledger \<Rightarrow> bool" where
  "deps_ok L \<longleftrightarrow> (\<forall>(n, d) \<in> set (edges L). \<forall>t. task_of L n = Some t \<longrightarrow> active (t_state t) \<longrightarrow>
     has_state L d SUCCEEDED)"

definition ledger_inv :: "ledger \<Rightarrow> bool" where
  "ledger_inv L \<longleftrightarrow> distinct (keys (tasks L)) \<and> distinct (keys (checkpoints L)) \<and>
     set (edges L) \<subseteq> set (keys (tasks L)) \<times> set (keys (tasks L)) \<and>
     (\<forall>n t. task_of L n = Some t \<longrightarrow> row_ok t) \<and>
     (\<forall>n c. checkpoint_of L n = Some c \<longrightarrow> checkpoint_ok c) \<and> deps_ok L"

lemma has_state_iff: "has_state L n s \<longleftrightarrow> (\<exists>t. task_of L n = Some t \<and> t_state t = s)"
  by (auto simp: has_state_def split: option.splits)

lemma has_state_update_tasks:
  "has_state (update_tasks P f L) n s \<longleftrightarrow>
     (\<exists>t. task_of L n = Some t \<and> t_state (if P n t then f t else t) = s)"
  by (auto simp: has_state_iff)

lemma edge_task:
  assumes "ledger_inv L" "(n, d) \<in> set (edges L)"
  shows "\<exists>t. task_of L d = Some t" and "\<exists>t. task_of L n = Some t"
proof -
  from assms have "d \<in> set (keys (tasks L))" "n \<in> set (keys (tasks L))" by (auto simp: ledger_inv_def)
  then show "\<exists>t. task_of L d = Some t" "\<exists>t. task_of L n = Some t" by (simp_all only: map_of_keys_Some)
qed

lemma blockers_Nil_iff:
  "blockers L n = [] \<longleftrightarrow> (\<forall>d t. (n, d) \<in> set (edges L) \<longrightarrow> task_of L d = Some t \<longrightarrow> t_state t = SUCCEEDED)"
proof -
  have "blockers L n = [] \<longleftrightarrow> set (blockers L n) = {}" by simp
  also have "\<dots> \<longleftrightarrow> (\<forall>d t. (n, d) \<in> set (edges L) \<longrightarrow> task_of L d = Some t \<longrightarrow> t_state t = SUCCEEDED)"
    by (force simp: blockers_def split: option.splits if_splits)
  finally show ?thesis .
qed

lemma blockers_Nil_deps:
  "ledger_inv L \<Longrightarrow> blockers L n = [] \<Longrightarrow> (n, d) \<in> set (edges L) \<Longrightarrow> has_state L d SUCCEEDED"
  using edge_task(1)[of L n d] by (auto simp: blockers_Nil_iff has_state_iff)

lemma inv_update_tasks:
  assumes inv: "ledger_inv L"
    and row: "\<And>n t. task_of L n = Some t \<Longrightarrow> P n t \<Longrightarrow> row_ok t \<Longrightarrow> row_ok (f t)"
    and stay: "\<And>n t. task_of L n = Some t \<Longrightarrow> P n t \<Longrightarrow> t_state t = SUCCEEDED \<Longrightarrow> t_state (f t) = SUCCEEDED"
    and enter: "\<And>n t. task_of L n = Some t \<Longrightarrow> P n t \<Longrightarrow> active (t_state (f t)) \<Longrightarrow>
      active (t_state t) \<or> blockers L n = []"
  shows "ledger_inv (update_tasks P f L)"
proof -
  have "deps_ok (update_tasks P f L)"
    unfolding deps_ok_def
  proof (intro ballI, clarify)
    fix n d t
    assume e: "(n, d) \<in> set (edges (update_tasks P f L))"
      and t: "task_of (update_tasks P f L) n = Some t" and a: "active (t_state t)"
    from t obtain t0 where t0: "task_of L n = Some t0" "t = (if P n t0 then f t0 else t0)" by auto
    with a enter have "active (t_state t0) \<or> blockers L n = []" by (auto split: if_splits)
    with inv t0(1) e have "has_state L d SUCCEEDED"
      by (auto simp: ledger_inv_def deps_ok_def intro: blockers_Nil_deps[OF inv])
    then obtain u where "task_of L d = Some u" "t_state u = SUCCEEDED" by (auto simp: has_state_iff)
    with stay show "has_state (update_tasks P f L) d SUCCEEDED" by (simp add: has_state_update_tasks)
  qed
  with inv row show ?thesis by (auto simp: ledger_inv_def)
qed

lemma state_reset_task [simp]: "t_state (reset_task now t) = PENDING"
  by (simp add: reset_task_def)

lemma row_ok_reset_task [simp]: "row_ok (reset_task now t)"
  by (simp add: row_ok_def reset_task_def active_def)

lemma inv_reset_closed:
  assumes inv: "ledger_inv L" and closed: "\<And>n d. (n, d) \<in> set (edges L) \<Longrightarrow> d \<in> A \<Longrightarrow> n \<in> A"
  shows "ledger_inv (update_tasks (\<lambda>n _. n \<in> A) (reset_task now) L)"
proof -
  have "deps_ok (update_tasks (\<lambda>n _. n \<in> A) (reset_task now) L)"
    unfolding deps_ok_def
  proof (intro ballI, clarify)
    fix n d t
    assume e: "(n, d) \<in> set (edges (update_tasks (\<lambda>n _. n \<in> A) (reset_task now) L))"
      and t: "task_of (update_tasks (\<lambda>n _. n \<in> A) (reset_task now) L) n = Some t" and a: "active (t_state t)"
    from t obtain t0 where t0: "task_of L n = Some t0" "t = (if n \<in> A then reset_task now t0 else t0)" by auto
    with a have n: "n \<notin> A" "task_of L n = Some t" by (auto simp: active_def split: if_splits)
    with e closed have "d \<notin> A" by auto
    moreover have "has_state L d SUCCEEDED" using inv e n a by (auto simp: ledger_inv_def deps_ok_def)
    ultimately show "has_state (update_tasks (\<lambda>n _. n \<in> A) (reset_task now) L) d SUCCEEDED"
      by (auto simp: has_state_iff)
  qed
  with inv show ?thesis by (auto simp: ledger_inv_def)
qed

text \<open>The invariant reads the task, edge and checkpoint tables only.\<close>

lemma ledger_inv_cong:
  "tasks L = tasks L' \<Longrightarrow> edges L = edges L' \<Longrightarrow> checkpoints L = checkpoints L' \<Longrightarrow> ledger_inv L = ledger_inv L'"
  by (simp add: ledger_inv_def deps_ok_def has_state_def)

lemma inv_meta [simp]:
  "ledger_inv (set_meta k v L) = ledger_inv L" "ledger_inv (delete_meta k L) = ledger_inv L"
  "ledger_inv (L\<lparr>proposal_hash := p\<rparr>) = ledger_inv L" "ledger_inv (L\<lparr>graph_hash := g\<rparr>) = ledger_inv L"
  by (rule ledger_inv_cong; simp)+

lemma inv_update_checkpoints:
  assumes "ledger_inv L" and "\<And>n c. checkpoint_of L n = Some c \<Longrightarrow> P n c \<Longrightarrow> checkpoint_ok c \<Longrightarrow> checkpoint_ok (f c)"
  shows "ledger_inv (update_checkpoints P f L)"
  using assms by (auto simp: ledger_inv_def deps_ok_def has_state_def)

section \<open>The transactions keep it\<close>

text \<open>The row transformers.\<close>

lemma state_of_transformers [simp]:
  "t_state (start_task now w u t) = RUNNING" "t_state (release_expired now t) = PENDING"
  "t_state (store_success now s t) = SUCCEEDED" "t_state (stop_task now target e t) = target"
  "t_state (rearm_task now t) = PENDING" "t_state (renew_lease now ls t) = t_state t"
  "t_state (publish_success now d r t) = SUCCEEDED" "t_state (t\<lparr>t_receipt_hash := h\<rparr>) = t_state t"
  by (simp_all add: start_task_def release_expired_def store_success_def stop_task_def rearm_task_def
      renew_lease_def publish_success_def)

lemma row_ok_transformers:
  "row_ok t \<Longrightarrow> t_state t \<noteq> SUCCEEDED \<Longrightarrow> row_ok (start_task now w u t)"
  "row_ok t \<Longrightarrow> t_state t \<noteq> SUCCEEDED \<Longrightarrow> row_ok (release_expired now t)"
  "row_ok t \<Longrightarrow> t_state t = RUNNING \<Longrightarrow> row_ok (store_success now s t)"
  "row_ok t \<Longrightarrow> t_state t \<noteq> SUCCEEDED \<Longrightarrow> \<not> active target \<Longrightarrow> row_ok (stop_task now target e t)"
  "row_ok t \<Longrightarrow> t_state t \<noteq> SUCCEEDED \<Longrightarrow> row_ok (rearm_task now t)"
  "row_ok t \<Longrightarrow> t_state t = RUNNING \<Longrightarrow> row_ok (renew_lease now ls t)"
  "row_ok t \<Longrightarrow> t_state t = RUNNING \<Longrightarrow> row_ok (publish_success now d r t)"
  "row_ok t \<Longrightarrow> t_state t = SUCCEEDED \<Longrightarrow> row_ok (t\<lparr>t_receipt_hash := h\<rparr>)"
  by (auto simp: row_ok_def active_def start_task_def release_expired_def store_success_def
      stop_task_def rearm_task_def renew_lease_def publish_success_def)

lemma row_ok_resume: "row_ok t \<Longrightarrow> t_state t = CANCELLED \<Longrightarrow>
    row_ok (t\<lparr>t_state := PENDING, t_error := None, t_updated_at := now\<rparr>)"
  by (auto simp: row_ok_def active_def)

text \<open>Updates that only stop or release rows that have not succeeded.\<close>

lemma inv_deactivate:
  assumes "ledger_inv L"
    and "\<And>n t. P n t \<Longrightarrow> t_state t \<noteq> SUCCEEDED"
    and "\<And>n t. P n t \<Longrightarrow> row_ok t \<Longrightarrow> row_ok (f t)"
    and "\<And>n t. P n t \<Longrightarrow> \<not> active (t_state (f t))"
  shows "ledger_inv (update_tasks P f L)"
  using assms by (intro inv_update_tasks) blast+

lemma inv_invalidate_many [step_inv]: "ledger_inv L \<Longrightarrow> ledger_inv (fst (invalidate_many now ns L))"
  by (auto simp: invalidate_many_def Let_def intro: inv_reset_closed affected_closed)

lemma inv_begin_txn [step_inv]: "ledger_inv L \<Longrightarrow> ledger_inv (fst (begin_txn now n w L))"
  by (auto simp: begin_txn_def split: option.splits
      intro!: inv_update_tasks row_ok_transformers)

lemma inv_release_expired [step_inv]:
  "ledger_inv L \<Longrightarrow> (\<And>n t. P n t \<Longrightarrow> t_state t = RUNNING) \<Longrightarrow> ledger_inv (update_tasks P (release_expired now) L)"
  by (rule inv_deactivate) (auto simp: active_def intro!: row_ok_transformers)

lemma ready_nodes_ready:
  "n \<in> set (ready_nodes stages L) \<Longrightarrow> distinct (keys (tasks L)) \<Longrightarrow>
     \<exists>t. task_of L n = Some t \<and> t_state t = PENDING \<and> blockers L n = [] \<and> in_stages stages t"
  by (auto simp: ready_nodes_def ready_def)

lemma inv_start_ready:
  assumes "ledger_inv L" "task_of L n = Some t" "t_state t = PENDING" "blockers L n = []"
  shows "ledger_inv (update_tasks (\<lambda>m _. m = n) (start_task now w u) L)"
    and "ledger_inv (update_tasks (\<lambda>m t. m = n \<and> t_state t = PENDING) (start_task now w u) L)"
  using assms by (auto intro!: inv_update_tasks row_ok_transformers)

lemma inv_claim_txn [step_inv]: "ledger_inv L \<Longrightarrow> ledger_inv (fst (claim_txn now w stages ls L))"
proof -
  define L1 where "L1 = update_tasks (\<lambda>_ t. lease_expired now t) (release_expired now) L"
  assume "ledger_inv L"
  then have inv: "ledger_inv L1"
    unfolding L1_def by (rule inv_release_expired) (simp add: lease_expired_def)
  show ?thesis
  proof (cases "ready_nodes stages L1")
    case Nil
    with inv show ?thesis by (simp add: claim_txn_def L1_def[symmetric])
  next
    case (Cons n ns)
    with inv obtain t where "task_of L1 n = Some t" "t_state t = PENDING" "blockers L1 n = []"
      using ready_nodes_ready[of n stages L1] by (auto simp: ledger_inv_def)
    with inv Cons show ?thesis by (simp add: claim_txn_def L1_def[symmetric] inv_start_ready)
  qed
qed

lemma inv_succeed_write [step_inv]: "ledger_inv L \<Longrightarrow> ledger_inv (fst (succeed_write now n s L))"
  by (auto simp: succeed_write_def active_def intro!: inv_update_tasks row_ok_transformers)

lemma fail_read_source: "fail_read n ir L = Inr (Some source) \<Longrightarrow> source = RUNNING \<or> source = PENDING"
  by (auto simp: fail_read_def split: option.splits if_splits)

lemma inv_fail_write [step_inv]:
  "ledger_inv L \<Longrightarrow> source \<noteq> SUCCEEDED \<Longrightarrow> ledger_inv (fst (fail_write now n e ir source L))"
  by (auto simp: fail_write_def active_def intro!: inv_deactivate row_ok_transformers)

lemma inv_retry [step_inv]:
  "ledger_inv L \<Longrightarrow> retry_read n L = Inr () \<Longrightarrow> ledger_inv (retry_write now n L)"
  by (auto simp: retry_read_def retry_write_def active_def split: option.splits
      intro!: inv_update_tasks row_ok_transformers)

lemma inv_cancel_txn [step_inv]: "ledger_inv L \<Longrightarrow> ledger_inv (cancel_txn now n r L)"
  by (auto simp: cancel_txn_def active_def intro!: inv_deactivate row_ok_transformers)

lemma checkpoint_ok_cancel:
  "checkpoint_ok c \<Longrightarrow> c_state c \<noteq> SUCCEEDED \<Longrightarrow> s \<noteq> SUCCEEDED \<Longrightarrow>
     checkpoint_ok (c\<lparr>c_state := s, c_error := e, c_updated_at := now\<rparr>)"
  by (auto simp: checkpoint_ok_def)

lemma inv_cancel_run_txn [step_inv]: "ledger_inv L \<Longrightarrow> ledger_inv (cancel_run_txn now r L)"
  by (auto simp: cancel_run_txn_def Let_def active_def
      intro!: inv_update_checkpoints checkpoint_ok_cancel inv_deactivate row_ok_transformers)

lemma inv_resume_run_txn [step_inv]: "ledger_inv L \<Longrightarrow> ledger_inv (resume_run_txn now L)"
  by (auto simp: resume_run_txn_def active_def
      intro!: inv_update_checkpoints checkpoint_ok_cancel inv_deactivate row_ok_resume)

lemma inv_set_succeeded_hash:
  "ledger_inv L \<Longrightarrow> (\<And>n t. task_of L n = Some t \<Longrightarrow> P n t \<Longrightarrow> t_state t = SUCCEEDED) \<Longrightarrow>
     ledger_inv (update_tasks P (\<lambda>t. t\<lparr>t_receipt_hash := h\<rparr>) L)"
  by (rule inv_update_tasks) (auto simp: active_def intro!: row_ok_transformers)

lemma receipt_status_legacy: "receipt_status rt n t = Inr LegacyReceipt \<Longrightarrow> t_state t = SUCCEEDED"
  by (auto simp: receipt_status_def split: if_splits option.splits)

lemma inv_verified_task_row [step_inv]:
  "ledger_inv L \<Longrightarrow> ledger_inv (fst (verified_task_row rt now n L))"
  by (auto simp: verified_task_row_def select_task_def set_receipt_hash_def
      split: option.splits sum.splits receipt_state.splits
      intro!: inv_set_succeeded_hash inv_invalidate_many dest!: receipt_status_legacy)

lemma inv_task_read [step_inv]: "ledger_inv L \<Longrightarrow> ledger_inv (fst (task_read rt now n L))"
  using inv_verified_task_row[of L rt now n] by (simp add: task_read_def case_prod_beta)

lemma inv_cached_receipt [step_inv]: "ledger_inv L \<Longrightarrow> ledger_inv (fst (cached_receipt rt now n ih L))"
  using inv_verified_task_row[of L rt now n]
  by (auto simp: cached_receipt_def split: prod.splits sum.splits)

lemma inv_store_legacy_hash: "ledger_inv L \<Longrightarrow> ledger_inv (store_legacy_hash corrupted row L)"
  by (auto simp: store_legacy_hash_def split: prod.splits intro!: inv_set_succeeded_hash)

lemma inv_verified_task_page [step_inv]:
  "ledger_inv L \<Longrightarrow> ledger_inv (fst (verified_task_page rt now q L))"
proof -
  assume inv: "ledger_inv L"
  have "ledger_inv (fold (store_legacy_hash corrupted) legacy L')" if "ledger_inv L'" for corrupted legacy L'
    using that by (induction legacy arbitrary: L') (auto intro: inv_store_legacy_hash)
  with inv show ?thesis
    by (auto simp: verified_task_page_def Let_def split: sum.splits intro: inv_invalidate_many)
qed

lemma inv_tasks_page [step_inv]: "ledger_inv L \<Longrightarrow> ledger_inv (fst (tasks_page rt now c l s L))"
  using inv_verified_task_page[of L rt now "page_query c (nat l) s"]
  by (auto simp: tasks_page_def split: prod.splits sum.splits)

lemma inv_verify_row:
  assumes "verify_row rt (corrupt, L) (n, t) = Inr (corrupt', L')" "ledger_inv L"
    and "has_state L n SUCCEEDED"
  shows "ledger_inv L'"
  using assms
  by (auto simp: verify_row_def set_receipt_hash_def has_state_iff
      split: option.splits if_splits intro!: inv_set_succeeded_hash)

lemma verify_row_states:
  assumes "verify_row rt (corrupt, L) (n, t) = Inr (corrupt', L')"
  shows "has_state L' m s = has_state L m s"
  using assms
  by (auto simp: verify_row_def set_receipt_hash_def has_state_update_tasks has_state_iff
      split: option.splits if_splits)

lemma verify_rows_inv:
  assumes "foldM (verify_row rt) ([], L) (filter (\<lambda>(n, t). t_state t = SUCCEEDED) (tasks L)) = Inr (corrupt, L')"
    and inv: "ledger_inv L"
  shows "ledger_inv L' \<and> (\<forall>m s. has_state L' m s = has_state L m s)"
proof -
  let ?P = "\<lambda>acc. ledger_inv (snd acc) \<and> (\<forall>m s. has_state (snd acc) m s = has_state L m s)"
  have "?P (corrupt, L')"
  proof (rule foldM_invariant[where P = ?P, OF assms(1)])
    show "?P ([], L)" using inv by simp
    fix a row b
    assume a: "?P a" and row: "row \<in> set (filter (\<lambda>(n, t). t_state t = SUCCEEDED) (tasks L))"
      and b: "verify_row rt a row = Inr b"
    obtain c La n t c' Lb where eq: "a = (c, La)" "row = (n, t)" "b = (c', Lb)"
      by (metis surj_pair)
    from row inv eq have "has_state L n SUCCEEDED" by (auto simp: has_state_iff ledger_inv_def)
    with a b eq show "?P b" using inv_verify_row[of rt c La n t c' Lb] verify_row_states[of rt c La n t c' Lb]
      by simp
  qed
  then show ?thesis by simp
qed

lemma checkpoint_ok_drop [simp]: "checkpoint_ok c \<Longrightarrow> checkpoint_ok (drop_checkpoint now e c)"
  by (auto simp: checkpoint_ok_def drop_checkpoint_def)

lemma checkpoint_ok_hash:
  "checkpoint_ok c \<Longrightarrow> c_state c = SUCCEEDED \<Longrightarrow> checkpoint_ok (c\<lparr>c_receipt_hash := h\<rparr>)"
  by (auto simp: checkpoint_ok_def)

lemma checkpoint_ok_verify: "checkpoint_ok c \<Longrightarrow> c_state c = SUCCEEDED \<Longrightarrow> checkpoint_ok (verify_checkpoint rt now c)"
  by (simp add: verify_checkpoint_def checkpoint_ok_hash)

lemma inv_verify_stored_receipts [step_inv]:
  "ledger_inv L \<Longrightarrow> verify_stored_receipts rt now L = Inr L' \<Longrightarrow> ledger_inv L'"
  by (auto simp: verify_stored_receipts_def
      intro!: inv_update_checkpoints inv_invalidate_many checkpoint_ok_verify dest: verify_rows_inv)

lemma inv_initialize [step_inv]: "ledger_inv L \<Longrightarrow> ledger_inv (fst (initialize rt now p g L))"
proof -
  assume inv: "ledger_inv L"
  define L1 where "L1 = set_meta ''proposal_hash'' p (set_meta ''schema_version'' ledger_schema_version
    (L\<lparr>proposal_hash := p, graph_hash := g\<rparr>))"
  define L2 where "L2 = (if g \<noteq> [] \<and> map_of (metadata L1) ''graph_hash'' = None
    then set_meta ''graph_hash'' g L1 else L1)"
  have "ledger_inv L2" using inv by (simp add: L2_def L1_def)
  then have "ledger_inv (fst (case verify_stored_receipts rt now L2 of
      Inl e \<Rightarrow> (L, Inl e :: unit result) | Inr L3 \<Rightarrow> (L3, Inr ())))"
    using inv by (auto split: sum.splits intro: inv_verify_stored_receipts)
  then show ?thesis using inv unfolding initialize_def Let_def L1_def L2_def by simp
qed

lemma inv_open_existing [step_inv]: "ledger_inv L \<Longrightarrow> ledger_inv (fst (open_existing rt now L))"
  by (simp add: open_existing_def inv_initialize)

lemma inv_empty_ledger [simp]: "ledger_inv empty_ledger"
  by (simp add: ledger_inv_def empty_ledger_def deps_ok_def)

text \<open>Checkpoints.\<close>

lemma inv_verified_checkpoint_row [step_inv]:
  "ledger_inv L \<Longrightarrow> ledger_inv (fst (verified_checkpoint_row rt now cid L))"
  by (auto simp: verified_checkpoint_row_def split: option.splits
      intro!: inv_update_checkpoints checkpoint_ok_hash)

lemma inv_cached_checkpoint [step_inv]: "ledger_inv L \<Longrightarrow> ledger_inv (fst (cached_checkpoint rt now cid ih L))"
  using inv_verified_checkpoint_row[of L rt now cid]
  by (auto simp: cached_checkpoint_def split: prod.splits option.splits)

lemma deps_ok_checkpoints [simp]: "deps_ok (L\<lparr>checkpoints := x\<rparr>) = deps_ok L"
  by (simp add: deps_ok_def has_state_def)

lemma inv_insert_checkpoint:
  assumes "ledger_inv L" "checkpoint_of L cid = None" "checkpoint_ok c"
  shows "ledger_inv (L\<lparr>checkpoints := checkpoints L @ [(cid, c)]\<rparr>)"
proof -
  have "cid \<notin> set (keys (checkpoints L))" using assms(2) by (simp add: map_of_eq_None_iff)
  then show ?thesis using assms(1,3)
    by (auto simp: ledger_inv_def map_add_def split: option.splits if_splits)
qed

lemma inv_begin_checkpoint [step_inv]: "ledger_inv L \<Longrightarrow> ledger_inv (fst (begin_checkpoint now cid st ih L))"
proof (cases "checkpoint_of L cid")
  case None
  assume inv: "ledger_inv L"
  have "checkpoint_ok (new_checkpoint now st ih)" by (simp add: checkpoint_ok_def new_checkpoint_def)
  with None inv have "ledger_inv (L\<lparr>checkpoints := checkpoints L @ [(cid, new_checkpoint now st ih)]\<rparr>)"
    by (intro inv_insert_checkpoint)
  moreover have "fst (begin_checkpoint now cid st ih L) = L\<lparr>checkpoints := checkpoints L @ [(cid, new_checkpoint now st ih)]\<rparr>"
    unfolding begin_checkpoint_def None by simp
  ultimately show ?thesis by simp
next
  case (Some c)
  assume inv: "ledger_inv L"
  have "checkpoint_ok d \<Longrightarrow> checkpoint_ok (start_checkpoint now st ih d)" for d
    by (simp add: checkpoint_ok_def start_checkpoint_def)
  with Some inv show ?thesis
    by (auto simp: begin_checkpoint_def split: sum.splits intro!: inv_update_checkpoints)
qed

lemma inv_succeed_checkpoint [step_inv]:
  "ledger_inv L \<Longrightarrow> ledger_inv (fst (succeed_checkpoint rt now cid ih r L))"
  by (auto simp: succeed_checkpoint_def Let_def checkpoint_ok_def split: sum.splits intro!: inv_update_checkpoints)

lemma inv_fail_checkpoint [step_inv]: "ledger_inv L \<Longrightarrow> ledger_inv (fst (fail_checkpoint now cid ih e L))"
  by (auto simp: fail_checkpoint_def split: option.splits intro!: inv_update_checkpoints checkpoint_ok_cancel)

lemma inv_invalidate_checkpoint [step_inv]:
  "ledger_inv L \<Longrightarrow> ledger_inv (fst (invalidate_checkpoint now cid ih r L))"
  by (auto simp: invalidate_checkpoint_def split: option.splits intro!: inv_update_checkpoints)

text \<open>The scheduler.\<close>

lemma inv_renew:
  "ledger_inv L \<Longrightarrow> (\<And>n t. P n t \<Longrightarrow> t_state t = RUNNING) \<Longrightarrow> ledger_inv (update_tasks P (renew_lease now ls) L)"
  by (rule inv_update_tasks) (auto simp: active_def intro!: row_ok_transformers)

lemma inv_renew_orchestrator_claims [step_inv]:
  "ledger_inv L \<Longrightarrow> ledger_inv (fst (renew_orchestrator_claims env now ls L))"
  by (auto simp: renew_orchestrator_claims_def Let_def renewable_def intro!: inv_renew)

lemma ready_node_id_admissible:
  assumes "ready_node_id env stages L = Some n" and "distinct (keys (tasks L))"
  shows "\<exists>t. task_of L n = Some t \<and> admissible env stages L n t"
proof -
  from assms(1) obtain c rest where "sort_key (claim_key env L) (ranked env stages L) = (n, c) # rest"
    by (auto simp: ready_node_id_def split: list.splits)
  then have "(n, c) \<in> set (ranked env stages L)" by (metis list.set_intros(1) set_sort)
  with assms(2) show ?thesis by (auto simp: ranked_def Let_def)
qed

lemma inv_maintenance:
  "ledger_inv L \<Longrightarrow> ledger_inv (release_foreign owner now (renew_near_expiry owner now ls L))"
  unfolding release_foreign_def renew_near_expiry_def
  by (intro inv_release_expired inv_renew) (auto simp: lease_expired_def)

lemma inv_claim_orchestrator_txn [step_inv]:
  assumes "ledger_inv L"
  shows "ledger_inv (fst (claim_orchestrator_txn env now stages ls L))"
proof -
  define owner where "owner = orchestrator_owner env"
  define L2 where "L2 = release_foreign owner now (renew_near_expiry owner now ls L)"
  have inv: "ledger_inv L2" unfolding L2_def by (rule inv_maintenance) fact
  have "ledger_inv (update_tasks (\<lambda>m t. m = n \<and> t_state t = PENDING) (start_task now owner u) L2)"
    if "ready_node_id env stages L2 = Some n" for n u
  proof -
    from inv that obtain t where "task_of L2 n = Some t" "admissible env stages L2 n t"
      using ready_node_id_admissible[of env stages L2 n] by (auto simp: ledger_inv_def)
    then show ?thesis by (intro inv_start_ready(2)[OF inv]) (auto simp: admissible_def ready_def)
  qed
  with inv assms show ?thesis
    by (auto simp: claim_orchestrator_txn_def Let_def L2_def owner_def split: option.splits)
qed

lemma inv_fenced_fail [step_inv]: "ledger_inv L \<Longrightarrow> ledger_inv (fenced_fail now n a ow e L)"
  by (auto simp: fenced_fail_def claim_current_def active_def intro!: inv_deactivate row_ok_transformers)

lemma inv_commit_write [step_inv]: "ledger_inv L \<Longrightarrow> ledger_inv (fst (commit_write rt now n r a ow L))"
  by (auto simp: commit_write_def Let_def claim_current_def active_def intro!: inv_update_tasks row_ok_transformers)

end
