(* ===== verification/Transition_System.thy ===== *)
theory Transition_System
  imports MMM_Prelude
begin

text \<open>
  The contract between a component's step relation and its properties: a locale for an inductive
  invariant of a transition system, and one for a quantity that no step lets fall. The components
  interpret them on their own step relations and take the statements over whole runs from here.
\<close>

locale invariant_system =
  fixes init :: "'s \<Rightarrow> bool" and step :: "'s \<Rightarrow> 's \<Rightarrow> bool" and inv :: "'s \<Rightarrow> bool"
  assumes init_inv: "init s \<Longrightarrow> inv s"
    and step_inv: "inv s \<Longrightarrow> step s t \<Longrightarrow> inv t"
begin

lemma run_keeps_inv: "step\<^sup>*\<^sup>* s t \<Longrightarrow> inv s \<Longrightarrow> inv t"
  by (induction rule: rtranclp_induct) (auto intro: step_inv)

lemma reachable_inv: "init s \<Longrightarrow> step\<^sup>*\<^sup>* s t \<Longrightarrow> inv t"
  using run_keeps_inv init_inv by blast

end

locale stable_system = invariant_system +
  fixes guard :: "'s \<Rightarrow> bool" and stable :: "'s \<Rightarrow> bool"
  assumes step_stable: "inv s \<Longrightarrow> stable s \<Longrightarrow> step s t \<Longrightarrow> guard t \<Longrightarrow> stable t"
begin

text \<open>A fact that every guarded step keeps holds at the end of every run through guarded states.\<close>

lemma guarded_run_keeps_stable:
  "(\<lambda>x y. step x y \<and> guard y)\<^sup>*\<^sup>* s t \<Longrightarrow> inv s \<Longrightarrow> stable s \<Longrightarrow> inv t \<and> stable t"
  by (induction rule: rtranclp_induct) (auto intro: step_inv step_stable)

end

end
