(* ===== verification/Ledger_Steps.thy ===== *)
theory Ledger_Steps
  imports Ledger_Invariant Transition_System
begin

text \<open>
  The ledger as a transition system: one rule per transaction of the ledger, its checkpoints and the
  scheduler, in any order and from any number of workers. The invariant holds in every reachable
  ledger, attempts never fall, and the properties of invalidation and synchronisation are stated
  against the dependency relation.
\<close>

section \<open>Synchronisation\<close>

text \<open>A plan is compatible with a ledger when a node with an unchanged input hash has no dependency that
  the ledger does not know; the input hash of a node built by the planner covers its dependencies.\<close>

definition sync_compatible :: "WorkGraphPlan \<Rightarrow> ledger \<Rightarrow> bool" where
  "sync_compatible plan L \<longleftrightarrow> (\<forall>node \<in> set (plan_nodes plan). \<forall>t. task_of L (wn_id node) = Some t \<longrightarrow>
     t_input_hash t = wn_input_hash node \<longrightarrow>
     (\<forall>d \<in> set (wn_dependencies node). (wn_id node, d) \<in> set (edges L)))"

definition sync_accepts :: "WorkGraphPlan \<Rightarrow> ledger \<Rightarrow> bool" where
  "sync_accepts plan L \<longleftrightarrow> plan_proposal_hash plan = proposal_hash L \<and> distinct (node_ids plan) \<and>
     missing_dependencies plan = [] \<and> distinct (desired_edges plan)"

lemma sync_plan_cases:
  "sync_plan now plan L = (if sync_accepts plan L then (sync_txn now plan L, snd (sync_plan now plan L))
     else (L, snd (sync_plan now plan L)))"
  "(\<exists>r. snd (sync_plan now plan L) = Inr r) \<longleftrightarrow> sync_accepts plan L"
  by (auto simp: sync_plan_def sync_accepts_def)

lemma desired_node_Some:
  "desired_node plan n = Some node \<Longrightarrow> node \<in> set (plan_nodes plan) \<and> wn_id node = n"
  by (auto simp: desired_node_def dest!: map_of_SomeD)

lemma desired_node_self:
  "distinct (node_ids plan) \<Longrightarrow> node \<in> set (plan_nodes plan) \<Longrightarrow> desired_node plan (wn_id node) = Some node"
  unfolding desired_node_def by (rule map_of_is_SomeI) (auto simp: node_ids_def comp_def)

lemma desired_node_None: "desired_node plan n = None \<longleftrightarrow> n \<notin> set (node_ids plan)"
  by (auto simp: desired_node_def node_ids_def map_of_eq_None_iff image_iff)

lemma mem_desired_edges:
  "(n, d) \<in> set (desired_edges plan) \<longleftrightarrow> (\<exists>node \<in> set (plan_nodes plan). wn_id node = n \<and> d \<in> set (wn_dependencies node))"
  by (auto simp: desired_edges_def)

lemma edges_in_nodes:
  "missing_dependencies plan = [] \<Longrightarrow> (n, d) \<in> set (desired_edges plan) \<Longrightarrow> d \<in> set (node_ids plan) \<and> n \<in> set (node_ids plan)"
proof -
  assume "missing_dependencies plan = []" and e: "(n, d) \<in> set (desired_edges plan)"
  then have "set (missing_dependencies plan) = {}" by simp
  then have "snd ` set (desired_edges plan) \<subseteq> set (node_ids plan)"
    unfolding missing_dependencies_def set_sorted_set by auto
  with e have "d \<in> set (node_ids plan)" by force
  moreover have "n \<in> set (node_ids plan)" using e by (auto simp: mem_desired_edges node_ids_def)
  ultimately show ?thesis ..
qed

lemma keys_merge_tasks:
  "keys (merge_tasks now plan L) = filter (\<lambda>n. n \<in> set (node_ids plan)) (keys (tasks L))
     @ filter (\<lambda>n. n \<notin> set (keys (tasks L))) (node_ids plan)"
  by (simp add: merge_tasks_def node_ids_def comp_def case_prod_unfold filter_map)

lemma set_keys_merge_tasks: "set (keys (merge_tasks now plan L)) = set (node_ids plan)"
  unfolding keys_merge_tasks by auto

lemma distinct_keys_merge_tasks:
  "distinct (keys (tasks L)) \<Longrightarrow> distinct (node_ids plan) \<Longrightarrow> distinct (keys (merge_tasks now plan L))"
  unfolding keys_merge_tasks by auto

lemma map_of_filter_key: "map_of (filter (\<lambda>(n, t). P n) xs) k = (if P k then map_of xs k else None)"
  by (induction xs) auto

lemma merge_tasks_lookup:
  assumes "distinct (node_ids plan)" "desired_node plan n = Some node"
  shows "map_of (merge_tasks now plan L) n =
    Some (refresh_task plan n (case task_of L n of None \<Rightarrow> new_task now node | Some t \<Rightarrow> t))"
proof -
  have n: "n \<in> set (node_ids plan)" using assms(2) desired_node_None[of plan n] by auto
  have *: "map_of (map (\<lambda>node. (wn_id node, new_task now node))
      (filter (\<lambda>node. wn_id node \<notin> set (keys (tasks L))) (plan_nodes plan))) n
    = Some (new_task now node)" if "n \<notin> set (keys (tasks L))"
    using assms desired_node_Some[OF assms(2)] that
    by (intro map_of_is_SomeI) (auto simp: node_ids_def comp_def distinct_map_filter)
  show ?thesis
  proof (cases "task_of L n")
    case None
    then have k: "n \<notin> set (keys (tasks L))" by (simp add: map_of_eq_None_iff)
    show ?thesis using None *[OF k]
      unfolding merge_tasks_def map_of_map_snd by (simp add: map_of_filter_key map_add_def)
  next
    case (Some t)
    then have k: "n \<in> set (keys (tasks L))" by (auto simp only: map_of_keys_Some)
    have "map_of (map (\<lambda>node. (wn_id node, new_task now node))
      (filter (\<lambda>node. wn_id node \<notin> set (keys (tasks L))) (plan_nodes plan))) n = None"
      using k unfolding map_of_eq_None_iff by (simp add: image_iff) blast
    then show ?thesis using Some n
      unfolding merge_tasks_def map_of_map_snd by (simp add: map_of_filter_key map_add_def)
  qed
qed

lemma state_refresh_task [simp]:
  "t_state (refresh_task plan n t) = t_state t" "t_attempt (refresh_task plan n t) = t_attempt t"
  "t_lease_owner (refresh_task plan n t) = t_lease_owner t"
  by (simp_all add: refresh_task_def split: option.splits)

lemma row_ok_refresh [simp]: "row_ok (refresh_task plan n t) = row_ok t"
  by (simp add: row_ok_def refresh_task_def split: option.splits)

lemma row_ok_new_task [simp]: "row_ok (new_task now node)"
  by (simp add: row_ok_def new_task_def active_def)

lemma state_new_task [simp]: "t_state (new_task now node) = PENDING"
  by (simp add: new_task_def)

definition synced :: "rat \<Rightarrow> WorkGraphPlan \<Rightarrow> ledger \<Rightarrow> string \<Rightarrow> task option" where
  "synced now plan L n =
     (case desired_node plan n of
        None \<Rightarrow> None
      | Some node \<Rightarrow>
          (let t = refresh_task plan n (case task_of L n of None \<Rightarrow> new_task now node | Some t \<Rightarrow> t)
           in Some (if n \<in> set (affected (desired_edges plan) (changed_nodes plan L)) then reset_task now t else t)))"

lemma sync_txn_frame [simp]:
  "edges (sync_txn now plan L) = desired_edges plan"
  "checkpoints (sync_txn now plan L) = checkpoints L"
  "keys (tasks (sync_txn now plan L)) = keys (merge_tasks now plan L)"
  by (simp_all add: sync_txn_def Let_def)

lemma task_of_sync_txn:
  assumes "distinct (node_ids plan)"
  shows "task_of (sync_txn now plan L) n = synced now plan L n"
proof (cases "desired_node plan n")
  case None
  then have "n \<notin> set (keys (merge_tasks now plan L))" by (simp only: set_keys_merge_tasks desired_node_None) simp
  then have "map_of (merge_tasks now plan L) n = None" by (simp add: map_of_eq_None_iff)
  with None show ?thesis by (simp add: sync_txn_def Let_def synced_def)
next
  case (Some node)
  with merge_tasks_lookup[OF assms Some] show ?thesis by (simp add: sync_txn_def Let_def synced_def)
qed

lemma changed_nodes_iff:
  "distinct (node_ids plan) \<Longrightarrow> desired_node plan n = Some node \<Longrightarrow> task_of L n = Some t \<Longrightarrow>
     n \<in> set (changed_nodes plan L) \<longleftrightarrow> t_input_hash t \<noteq> wn_input_hash node"
proof -
  assume d: "distinct (node_ids plan)" and n: "desired_node plan n = Some node" and t: "task_of L n = Some t"
  have "n \<in> set (changed_nodes plan L) \<longleftrightarrow> (\<exists>v \<in> set (plan_nodes plan). wn_id v = n \<and> t_input_hash t \<noteq> wn_input_hash v)"
    using t by (auto simp: changed_nodes_def)
  also have "\<dots> \<longleftrightarrow> t_input_hash t \<noteq> wn_input_hash node"
    using desired_node_Some[OF n] desired_node_self[OF d] n by (metis option.inject)
  finally show ?thesis .
qed

lemma inv_sync_txn [step_inv]:
  assumes inv: "ledger_inv L" and acc: "sync_accepts plan L" and comp: "sync_compatible plan L"
  shows "ledger_inv (sync_txn now plan L)"
proof -
  let ?S = "sync_txn now plan L" and ?aff = "affected (desired_edges plan) (changed_nodes plan L)"
  from acc have d: "distinct (node_ids plan)" and m: "missing_dependencies plan = []"
    by (auto simp: sync_accepts_def)
  have "deps_ok ?S"
    unfolding deps_ok_def
  proof (intro ballI, clarify)
    fix n e t
    assume e: "(n, e) \<in> set (edges ?S)" and t: "task_of ?S n = Some t" and act: "active (t_state t)"
    from t obtain node where node: "desired_node plan n = Some node"
      by (auto simp: task_of_sync_txn[OF d] synced_def split: option.splits)
    from t act node have na: "n \<notin> set ?aff" and "task_of L n \<noteq> None"
      by (auto simp: task_of_sync_txn[OF d] synced_def Let_def active_def split: if_splits option.splits)
    then obtain t0 where t0: "task_of L n = Some t0" "t_state t0 = t_state t"
      using t node by (auto simp: task_of_sync_txn[OF d] synced_def Let_def)
    have "n \<notin> set (changed_nodes plan L)" using na seeds_affected by blast
    then have h: "t_input_hash t0 = wn_input_hash node" using changed_nodes_iff[OF d node t0(1)] by simp
    have "e \<in> set (wn_dependencies node)"
      using e desired_node_self[OF d] node by (fastforce simp: mem_desired_edges)
    then have "(n, e) \<in> set (edges L)"
      using comp h t0 desired_node_Some[OF node] by (auto simp: sync_compatible_def)
    then have "has_state L e SUCCEEDED" using inv t0 act by (auto simp: ledger_inv_def deps_ok_def)
    then obtain u where u: "task_of L e = Some u" "t_state u = SUCCEEDED" by (auto simp: has_state_iff)
    have "e \<notin> set ?aff" using na e affected_closed[of n e "desired_edges plan"] by auto
    moreover have "desired_node plan e \<noteq> None" using edges_in_nodes[OF m] e by (auto simp: desired_node_None)
    ultimately show "has_state ?S e SUCCEEDED"
      using u by (auto simp: has_state_iff task_of_sync_txn[OF d] synced_def Let_def)
  qed
  moreover have "row_ok t" if "task_of ?S n = Some t" for n t
    using that inv by (auto simp: task_of_sync_txn[OF d] synced_def Let_def ledger_inv_def
        split: option.splits if_splits)
  moreover have "distinct (keys (tasks ?S))"
    using inv d unfolding sync_txn_frame by (intro distinct_keys_merge_tasks) (auto simp: ledger_inv_def)
  moreover have "set (edges ?S) \<subseteq> set (keys (tasks ?S)) \<times> set (keys (tasks ?S))"
    unfolding sync_txn_frame set_keys_merge_tasks using edges_in_nodes[OF m] by auto
  ultimately show ?thesis using inv unfolding ledger_inv_def by (simp only: sync_txn_frame) blast
qed

section \<open>Steps\<close>

inductive ledger_step :: "runtime \<Rightarrow> ledger \<Rightarrow> ledger \<Rightarrow> bool" for rt where
  step_initialize: "ledger_step rt L (fst (initialize rt now phash ghash L))"
| step_open: "ledger_step rt L (fst (open_existing rt now L))"
| step_verify: "verify_stored_receipts rt now L = Inr L' \<Longrightarrow> ledger_step rt L L'"
| step_sync: "sync_compatible plan L \<Longrightarrow> ledger_step rt L (fst (sync_plan now plan L))"
| step_begin: "ledger_step rt L (fst (begin_txn now n worker L))"
| step_claim: "ledger_step rt L (fst (claim_txn now worker stages lease_seconds L))"
| step_claim_orchestrator: "ledger_step rt L (fst (claim_orchestrator_txn env now stages lease_seconds L))"
| step_renew: "ledger_step rt L (fst (renew_orchestrator_claims env now lease_seconds L))"
| step_succeed: "ledger_step rt L (fst (succeed_write now n s L))"
| step_fail: "fail_read n input_required L0 = Inr (Some source) \<Longrightarrow>
    ledger_step rt L (fst (fail_write now n error input_required source L))"
| step_retry: "retry_read n L = Inr () \<Longrightarrow> ledger_step rt L (retry_write now n L)"
| step_cancel: "ledger_step rt L (cancel_txn now n reason L)"
| step_cancel_run: "ledger_step rt L (cancel_run_txn now reason L)"
| step_resume_run: "ledger_step rt L (resume_run_txn now L)"
| step_invalidate: "ledger_step rt L (fst (invalidate now n L))"
| step_task: "ledger_step rt L (fst (task_read rt now n L))"
| step_tasks: "ledger_step rt L (fst (tasks_page rt now cursor limit state L))"
| step_cached_receipt: "ledger_step rt L (fst (cached_receipt rt now n input_hash L))"
| step_cached_checkpoint: "ledger_step rt L (fst (cached_checkpoint rt now cid ih L))"
| step_begin_checkpoint: "ledger_step rt L (fst (begin_checkpoint now cid stage ih L))"
| step_succeed_checkpoint: "ledger_step rt L (fst (succeed_checkpoint rt now cid ih receipt L))"
| step_fail_checkpoint: "ledger_step rt L (fst (fail_checkpoint now cid ih error L))"
| step_invalidate_checkpoint: "ledger_step rt L (fst (invalidate_checkpoint now cid ih reason L))"
| step_fenced_fail: "ledger_step rt L (fenced_fail now n attempt owner error L)"
| step_commit: "ledger_step rt L (fst (commit_write rt now n value attempt owner L))"

lemma inv_sync_plan [step_inv]:
  "ledger_inv L \<Longrightarrow> sync_compatible plan L \<Longrightarrow> ledger_inv (fst (sync_plan now plan L))"
  by (subst sync_plan_cases(1)) (simp add: inv_sync_txn)

lemma ledger_step_inv: "ledger_step rt L L' \<Longrightarrow> ledger_inv L \<Longrightarrow> ledger_inv L'"
proof (induction rule: ledger_step.induct)
  case (step_fail n ir L0 source L now e)
  then show ?case using fail_read_source[of n ir L0 source] by (auto intro: inv_fail_write)
qed (auto simp: invalidate_def intro: step_inv)

definition opened :: "runtime \<Rightarrow> ledger \<Rightarrow> bool" where
  "opened rt L \<longleftrightarrow> (\<exists>now phash ghash. initialize rt now phash ghash empty_ledger = (L, Inr ()))"

interpretation ledger_system: invariant_system "opened rt" "ledger_step rt" ledger_inv for rt
proof unfold_locales
  show "ledger_inv L" if "opened rt L" for L
    using that inv_initialize[OF inv_empty_ledger] by (auto simp: opened_def) (metis fst_conv)
  show "ledger_inv L'" if "ledger_inv L" "ledger_step rt L L'" for L L'
    using that ledger_step_inv by blast
qed

end
