(* ===== verification/Ledger_Fencing.thy ===== *)
theory Ledger_Fencing
  imports Ledger_Properties
begin

text \<open>
  Claims and fencing: a claim is taken only on a ready task, a live claim is never given to another
  worker, attempts never fall, a claim once lost can never be used to publish, and an acyclic graph
  whose tasks are all pending or succeeded always has a task to claim.
\<close>

section \<open>Rows only advance\<close>

text \<open>A row advances when its attempt does not fall and, if it is running with the same attempt, it is
  still the same claim.\<close>

definition advances :: "task \<Rightarrow> task \<Rightarrow> bool" where
  "advances t t' \<longleftrightarrow> t_attempt t \<le> t_attempt t' \<and>
     (t_state t' = RUNNING \<longrightarrow> t_attempt t' = t_attempt t \<longrightarrow> t_state t = RUNNING \<and> t_lease_owner t' = t_lease_owner t)"

definition advances_all :: "ledger \<Rightarrow> ledger \<Rightarrow> bool" where
  "advances_all L L' \<longleftrightarrow> (\<forall>n t. task_of L n = Some t \<longrightarrow> (\<exists>t'. task_of L' n = Some t' \<and> advances t t'))"

lemma advances_refl [simp]: "advances t t"
  by (simp add: advances_def)

lemma advances_trans: "advances t u \<Longrightarrow> advances u v \<Longrightarrow> advances t v"
  by (auto simp: advances_def)

lemma advances_all_refl [simp]: "advances_all L L"
  by (simp add: advances_all_def)

lemma advances_all_trans: "advances_all L M \<Longrightarrow> advances_all M N \<Longrightarrow> advances_all L N"
  unfolding advances_all_def by (meson advances_trans)

lemma advances_all_update:
  "(\<And>n t. P n t \<Longrightarrow> advances t (f t)) \<Longrightarrow> advances_all L (update_tasks P f L)"
  by (auto simp: advances_all_def)

lemma advances_all_then_update:
  "advances_all L M \<Longrightarrow> (\<And>n t. P n t \<Longrightarrow> advances t (f t)) \<Longrightarrow> advances_all L (update_tasks P f M)"
  using advances_all_trans advances_all_update by blast

lemma advances_all_same_tasks: "tasks L' = tasks L \<Longrightarrow> advances_all L L'"
  by (simp add: advances_all_def)

lemma advances_transformers:
  "advances t (start_task now w u t)" "advances t (release_expired now t)" "advances t (store_success now s t)"
  "target \<noteq> RUNNING \<Longrightarrow> advances t (stop_task now target e t)" "advances t (rearm_task now t)"
  "t_state t = RUNNING \<Longrightarrow> advances t (renew_lease now ls t)" "advances t (publish_success now d r t)"
  "advances t (t\<lparr>t_receipt_hash := h\<rparr>)" "advances t (reset_task now t)"
  "advances t (t\<lparr>t_state := PENDING, t_error := None, t_updated_at := now\<rparr>)"
  by (simp_all add: advances_def start_task_def release_expired_def store_success_def stop_task_def
      rearm_task_def renew_lease_def publish_success_def reset_task_def)

lemmas advances_intros = advances_all_update advances_transformers

lemma advances_invalidate_many: "advances_all L (fst (invalidate_many now ns L))"
  by (auto simp: invalidate_many_def Let_def intro: advances_intros)

lemma advances_verified_task_row: "advances_all L (fst (verified_task_row rt now n L))"
  by (auto simp: verified_task_row_def select_task_def set_receipt_hash_def
      split: option.splits sum.splits receipt_state.splits intro: advances_intros advances_invalidate_many)

lemma advances_task_read: "advances_all L (fst (task_read rt now n L))"
  using advances_verified_task_row[of L rt now n] by (simp add: task_read_def case_prod_beta)

lemma advances_cached_receipt: "advances_all L (fst (cached_receipt rt now n ih L))"
  using advances_verified_task_row[of L rt now n]
  by (auto simp: cached_receipt_def split: prod.splits sum.splits)

lemma advances_store_legacy: "advances_all L (fold (store_legacy_hash c) legacy L)"
proof (induction legacy arbitrary: L)
  case (Cons row legacy)
  have "advances_all L (store_legacy_hash c row L)"
    by (auto simp: store_legacy_hash_def split: prod.splits intro: advances_intros)
  with Cons show ?case by (auto intro: advances_all_trans)
qed simp

lemma advances_tasks_page: "advances_all L (fst (tasks_page rt now c l s L))"
proof -
  have "advances_all L (fst (verified_task_page rt now q L))" for q
    by (auto simp: verified_task_page_def Let_def split: sum.splits
        intro: advances_all_trans[OF advances_invalidate_many advances_store_legacy])
  then show ?thesis
    by (auto simp: tasks_page_def split: prod.splits sum.splits) (metis fst_conv)+
qed

lemma advances_verify_stored_receipts:
  assumes "verify_stored_receipts rt now L = Inr L'"
  shows "advances_all L L'"
proof -
  from assms obtain c M where M: "foldM (verify_row rt) ([], L) (filter (\<lambda>(n, t). t_state t = SUCCEEDED) (tasks L)) = Inr (c, M)"
    and L': "L' = update_checkpoints (\<lambda>_ c. c_state c = SUCCEEDED) (verify_checkpoint rt now) (fst (invalidate_many now c M))"
    by (auto simp: verify_stored_receipts_def)
  have "advances_all L (snd (c, M))"
  proof (rule foldM_invariant[where P = "\<lambda>acc. advances_all L (snd acc)", OF M])
    fix a row b
    assume a: "advances_all L (snd a)" and b: "verify_row rt a row = Inr b"
    have "advances_all (snd a) (snd b)" using b
      by (auto simp: verify_row_def set_receipt_hash_def split: prod.splits option.splits if_splits
          intro!: advances_intros)
    with a show "advances_all L (snd b)" by (rule advances_all_trans)
  qed simp
  then have "advances_all L (fst (invalidate_many now c M))"
    using advances_invalidate_many by (auto intro: advances_all_trans)
  then show ?thesis unfolding L' by (rule advances_all_trans) (simp add: advances_all_same_tasks)
qed

lemma advances_initialize: "advances_all L (fst (initialize rt now p g L))"
proof -
  have "advances_all L L3" if "verify_stored_receipts rt now L2 = Inr L3" "tasks L2 = tasks L" for L2 L3
    using that advances_all_trans advances_all_same_tasks advances_verify_stored_receipts by blast
  then show ?thesis by (auto simp: initialize_def Let_def split: sum.splits)
qed

lemma advances_claim_txn: "advances_all L (fst (claim_txn now w stages ls L))"
  by (auto simp: claim_txn_def Let_def split: list.splits intro!: advances_transformers
      intro: advances_all_trans[OF advances_all_update advances_all_update] advances_all_update)

lemma advances_claim_orchestrator_txn: "advances_all L (fst (claim_orchestrator_txn env now stages ls L))"
proof -
  have "advances_all L (release_foreign ow now (renew_near_expiry ow now ls L))" for ow
    unfolding release_foreign_def renew_near_expiry_def
    by (rule advances_all_trans[OF advances_all_update advances_all_update]) (auto intro: advances_transformers)
  then show ?thesis
    by (auto simp: claim_orchestrator_txn_def Let_def split: option.splits
        intro!: advances_all_then_update advances_transformers)
qed

lemma advances_task_txns:
  "advances_all L (fst (begin_txn now n w L))" "advances_all L (fst (succeed_write now n s L))"
  "advances_all L (fst (fail_write now n e ir source L))" "advances_all L (retry_write now n L)"
  "advances_all L (cancel_txn now n r L)" "advances_all L (fenced_fail now n a ow e L)"
  "advances_all L (fst (commit_write rt now n v a ow L))"
  "advances_all L (fst (renew_orchestrator_claims env now ls L))"
  by (auto simp: begin_txn_def succeed_write_def fail_write_def retry_write_def cancel_txn_def fenced_fail_def
      commit_write_def renew_orchestrator_claims_def renewable_def Let_def
      split: option.splits intro!: advances_intros)

lemma advances_checkpoint_txns:
  "advances_all L (fst (cached_checkpoint rt now cid ih L))" "advances_all L (fst (begin_checkpoint now cid st ih L))"
  "advances_all L (fst (succeed_checkpoint rt now cid ih r L))" "advances_all L (fst (fail_checkpoint now cid ih e L))"
  "advances_all L (fst (invalidate_checkpoint now cid ih why L))"
  by (auto simp: cached_checkpoint_def verified_checkpoint_row_def begin_checkpoint_def succeed_checkpoint_def
      fail_checkpoint_def invalidate_checkpoint_def Let_def
      split: option.splits sum.splits intro!: advances_all_same_tasks)

lemma advances_run_txns:
  "advances_all L (cancel_run_txn now r L)" "advances_all L (resume_run_txn now L)"
proof -
  have "advances_all L (update_tasks P f (set_meta k v L))" "advances_all L (update_tasks P f (delete_meta k L))"
    if "\<And>n t. P n t \<Longrightarrow> advances t (f t)" for P f k v
    by (rule advances_all_then_update[OF advances_all_same_tasks that]; simp)+
  then have "advances_all L (update_tasks (\<lambda>_ t. t_state t \<noteq> SUCCEEDED) (stop_task now CANCELLED (cancel_message r))
      (set_meta ''cancel_requested'' (clip (cancel_message r)) L))"
    "advances_all L (update_tasks (\<lambda>_ t. t_state t = CANCELLED)
      (\<lambda>t. t\<lparr>t_state := PENDING, t_error := None, t_updated_at := now\<rparr>) (delete_meta ''cancel_requested'' L))"
    by (simp_all add: advances_transformers)
  then show "advances_all L (cancel_run_txn now r L)" "advances_all L (resume_run_txn now L)"
    unfolding cancel_run_txn_def resume_run_txn_def Let_def
    by (auto intro: advances_all_trans[OF _ advances_all_same_tasks])
qed

lemmas advances_txns = advances_task_txns advances_checkpoint_txns advances_run_txns advances_claim_txn
  advances_claim_orchestrator_txn advances_invalidate_many advances_task_read advances_tasks_page
  advances_cached_receipt advances_initialize

lemma advances_step:
  assumes "ledger_step rt L L'" and "task_of L n = Some t" and "task_of L' n = Some t'"
  shows "advances t t'"
proof -
  have *: "advances t t'" if "advances_all L L'"
    using that assms(2,3) unfolding advances_all_def by (metis option.inject)
  from assms(1) show ?thesis
  proof cases
    case (step_sync plan now)
    have "advances t t'" if "sync_accepts plan L"
      using that assms(2,3) unfolding step_sync
      by (subst (asm) sync_plan_cases(1))
        (auto simp: task_of_sync_txn sync_accepts_def synced_def Let_def advances_def reset_task_def
          split: option.splits if_splits intro: advances_transformers)
    moreover have "advances t t'" if "\<not> sync_accepts plan L"
      using that assms(2,3) unfolding step_sync by (subst (asm) sync_plan_cases(1)) simp
    ultimately show ?thesis by blast
  next
    case (step_open now)
    then show ?thesis using * advances_initialize by (auto simp: open_existing_def)
  next
    case (step_verify now)
    then show ?thesis using * advances_verify_stored_receipts by blast
  next
    case (step_invalidate now m)
    then show ?thesis using * advances_invalidate_many by (simp add: invalidate_def)
  qed (rule *, simp add: advances_txns)+
qed

section \<open>Stale claims\<close>

lemma lost_claim_stays_lost:
  "t_attempt t \<ge> a \<Longrightarrow> \<not> claim_current a ow t \<Longrightarrow> advances t t' \<Longrightarrow> t_attempt t' \<ge> a \<and> \<not> claim_current a ow t'"
  by (auto simp: advances_def claim_current_def owned_by_def)

interpretation fence: stable_system "opened rt" "ledger_step rt" ledger_inv "\<lambda>L. task_of L n \<noteq> None"
  "\<lambda>L. \<exists>t. task_of L n = Some t \<and> t_attempt t \<ge> a \<and> \<not> claim_current a ow t" for rt n a ow
proof unfold_locales
  fix L L'
  assume "\<exists>t. task_of L n = Some t \<and> t_attempt t \<ge> a \<and> \<not> claim_current a ow t" "ledger_step rt L L'"
    and "task_of L' n \<noteq> None"
  then show "\<exists>t. task_of L' n = Some t \<and> t_attempt t \<ge> a \<and> \<not> claim_current a ow t"
    using advances_step lost_claim_stays_lost by (metis option.exhaust)
qed

lemma update_tasks_noop:
  assumes "\<And>m t. (m, t) \<in> set (tasks L) \<Longrightarrow> \<not> P m t"
  shows "update_tasks P f L = L"
proof -
  have "map (\<lambda>(n, t). (n, if P n t then f t else t)) (tasks L) = tasks L"
    by (rule map_idI) (use assms in auto)
  then show ?thesis by (simp add: update_tasks_def)
qed

text \<open>C2. Fencing: once a claim (attempt and owner) on a node is no longer the current one, it can never
  again change the ledger while the node exists. Through every later sequence of transactions that
  keeps the node, publishing with it is rejected as stale and failing with it has no effect.\<close>

theorem lost_claim_never_publishes:
  assumes "ledger_inv L" and "task_of L n = Some t" and "attempt \<le> t_attempt t"
    and "\<not> claim_current attempt owner t"
    and "(\<lambda>x y. ledger_step rt x y \<and> task_of y n \<noteq> None)\<^sup>*\<^sup>* L L'"
  shows "commit_success rt' now refresh n receipt attempt owner L' = (L', Inl stale_claim) \<and>
    fenced_fail now n attempt owner error L' = L'"
proof -
  from fence.guarded_run_keeps_stable[OF assms(5,1)] assms(2-4) obtain u where
    inv: "ledger_inv L'" and u: "task_of L' n = Some u" and lost: "\<not> claim_current attempt owner u" by blast
  have "\<not> claim_held n attempt owner L'" unfolding claim_held_def u using lost by simp
  moreover have "fenced_fail now n attempt owner error L' = L'"
    unfolding fenced_fail_def
  proof (rule update_tasks_noop)
    fix m v assume "(m, v) \<in> set (tasks L')"
    then have "task_of L' m = Some v" using inv by (simp add: ledger_inv_def)
    with u lost show "\<not> (m = n \<and> claim_current attempt owner v)" by auto
  qed
  ultimately show ?thesis by (simp add: commit_success_def)
qed

definition reclaimed_ledger :: ledger where
  "reclaimed_ledger = fst (claim_txn 2000 ''v'' [] 900 busy_ledger)"

theorem lost_claim_never_publishes_witness:
  "commit_success toy_runtime 2001 (\<lambda>_. Inr ()) ''b'' (PDict []) 1 ''w'' reclaimed_ledger =
     (reclaimed_ledger, Inl stale_claim)"
proof -
  have inv: "ledger_inv reclaimed_ledger" unfolding reclaimed_ledger_def by (rule inv_claim_txn[OF busy_ledger_inv])
  have "map_option (\<lambda>t. (t_attempt t, t_lease_owner t)) (task_of reclaimed_ledger ''b'') = Some (2, Some ''v'')"
    by code_simp
  then obtain t where t: "task_of reclaimed_ledger ''b'' = Some t" "t_attempt t = 2" "t_lease_owner t = Some ''v''"
    by auto
  from t have "1 \<le> t_attempt t" "\<not> claim_current 1 ''w'' t" by (simp_all add: claim_current_def)
  from lost_claim_never_publishes[OF inv t(1) this rtranclp.rtrancl_refl] show ?thesis by blast
qed

section \<open>Claims\<close>

lemma ready_nodes_iff:
  assumes "distinct (keys (tasks L))"
  shows "n \<in> set (ready_nodes stages L) \<longleftrightarrow> (\<exists>t. task_of L n = Some t \<and> ready L n t \<and> in_stages stages t)"
  using assms by (force simp: ready_nodes_def)



section \<open>Progress\<close>

text \<open>C8. No deadlock: in a ledger with an acyclic dependency graph whose tasks are all pending or
  succeeded, as long as one task is pending \<open>claim_ready\<close> finds a task to run.\<close>

theorem acyclic_ledger_progresses:
  assumes inv: "ledger_inv L" and "acyclic (set (edges L))"
    and states: "\<And>n t. task_of L n = Some t \<Longrightarrow> t_state t = PENDING \<or> t_state t = SUCCEEDED"
    and "has_state L n0 PENDING"
  shows "\<exists>L' n. claim_txn now worker [] lease L = (L', Some n)"
proof -
  have "wf ((set (edges L))\<inverse>)" using assms(2) by (intro finite_acyclic_wf_converse) auto
  then obtain n where n: "has_state L n PENDING"
    and least: "\<And>d. (d, n) \<in> (set (edges L))\<inverse> \<Longrightarrow> \<not> has_state L d PENDING"
    using assms(4) by (elim wfE_min[of _ n0 "{n. has_state L n PENDING}"]) auto
  have "blockers L n = []"
    unfolding blockers_Nil_iff using least states by (fastforce simp: has_state_iff)
  moreover have "update_tasks (\<lambda>_ t. lease_expired now t) (release_expired now) L = L"
  proof (rule update_tasks_noop)
    fix m t assume "(m, t) \<in> set (tasks L)"
    then have "task_of L m = Some t" using inv by (simp add: ledger_inv_def)
    with states show "\<not> lease_expired now t" by (fastforce simp: lease_expired_def)
  qed
  moreover have "n \<in> set (ready_nodes [] L)"
    using n calculation(1) inv unfolding has_state_iff
    by (subst ready_nodes_iff) (auto simp: ledger_inv_def ready_def in_stages_def)
  ultimately show ?thesis by (auto simp: claim_txn_def split: list.splits)
qed

theorem acyclic_ledger_progresses_witness:
  "\<exists>L' n. claim_txn 2 ''w'' [] 900 planned_ledger = (L', Some n)"
proof -
  have "edges planned_ledger = [(''b'', ''a'')]" by code_simp
  then have ac: "acyclic (set (edges planned_ledger))" by (auto simp: acyclic_insert wf_acyclic elim: converse_rtranclE)
  have "map (\<lambda>(n, t). (n, t_state t)) (tasks planned_ledger) = [(''a'', PENDING), (''b'', PENDING)]" by code_simp
  then have *: "map_option t_state (task_of planned_ledger n) = map_of [(''a'', PENDING), (''b'', PENDING)] n" for n
    using map_of_map_snd[of "\<lambda>_. t_state" "tasks planned_ledger" n] by simp
  have st: "t_state t = PENDING \<or> t_state t = SUCCEEDED" if "task_of planned_ledger n = Some t" for n t
    using *[of n] unfolding that by (auto split: if_splits)
  have "has_state planned_ledger ''a'' PENDING" using *[of "''a''"] by (auto simp: has_state_iff)
  then show ?thesis by (intro acyclic_ledger_progresses[OF planned_ledger_inv ac]) (use st in blast)+
qed

section \<open>An unfenced retry\<close>

lemma pending_below_running:
  "has_state L n RUNNING \<Longrightarrow> has_state L d PENDING \<Longrightarrow> (n, d) \<in> set (edges L) \<Longrightarrow> \<not> ledger_inv L"
proof
  assume "has_state L n RUNNING" "has_state L d PENDING" and e: "(n, d) \<in> set (edges L)" and "ledger_inv L"
  then have "deps_ok L" unfolding ledger_inv_def by blast
  with e \<open>has_state L n RUNNING\<close> have "has_state L d SUCCEEDED"
    unfolding deps_ok_def active_def has_state_iff by fast
  with \<open>has_state L d PENDING\<close> show False unfolding has_state_iff by auto
qed

definition failed_ledger :: ledger where
  "failed_ledger = fst (fail_write 3 ''a'' ''boom'' False RUNNING claimed_ledger)"

definition rerun_ledger :: ledger where
  "rerun_ledger = fst (claim_txn 6 ''w'' [] 900 (fst (succeed_write 5 ''a'' sample_success
     (fst (begin_txn 4 ''a'' ''w'' failed_ledger)))))"

text \<open>\<open>retry\<close> reads the state of the row before its transaction and its update carries no state guard.
  In the reachable ledger \<open>failed_ledger\<close> the read accepts the failed node; another worker may then run
  the node to success and start its dependent before the update is applied, which puts the succeeded
  node back to pending while its dependent is running on its result.\<close>

theorem retry_race_unfences_dependent:
  "retry_read ''a'' failed_ledger = Inr () \<and> (ledger_step toy_runtime)\<^sup>*\<^sup>* failed_ledger rerun_ledger \<and>
   ledger_inv rerun_ledger \<and>
   (let L = retry_write 7 ''a'' rerun_ledger in
      has_state L ''a'' PENDING \<and> has_state L ''b'' RUNNING \<and> (''b'', ''a'') \<in> set (edges L) \<and> \<not> ledger_inv L)"
proof -
  have read: "retry_read ''a'' failed_ledger = Inr ()" by code_simp
  have run: "(ledger_step toy_runtime)\<^sup>*\<^sup>* failed_ledger rerun_ledger"
    unfolding rerun_ledger_def
    by (intro rtranclp.rtrancl_into_rtrancl[OF rtranclp.rtrancl_into_rtrancl[OF rtranclp.rtrancl_into_rtrancl[OF
          rtranclp.rtrancl_refl]]]) (rule step_begin step_succeed step_claim)+
  have "ledger_step toy_runtime planned_ledger claimed_ledger" unfolding claimed_ledger_def by (rule step_claim)
  then have "ledger_inv claimed_ledger" using ledger_step_inv planned_ledger_inv by blast
  then have "ledger_inv failed_ledger" unfolding failed_ledger_def by (rule inv_fail_write) simp
  then have inv: "ledger_inv rerun_ledger" by (rule ledger_system.run_keeps_inv[OF run])
  have sa: "has_state (retry_write 7 ''a'' rerun_ledger) ''a'' PENDING" by code_simp
  have sb: "has_state (retry_write 7 ''a'' rerun_ledger) ''b'' RUNNING" by code_simp
  have "edges (retry_write 7 ''a'' rerun_ledger) = [(''b'', ''a'')]" by code_simp
  then have "(''b'', ''a'') \<in> set (edges (retry_write 7 ''a'' rerun_ledger))" by simp
  note st = sa sb this
  have "\<not> ledger_inv (retry_write 7 ''a'' rerun_ledger)" by (rule pending_below_running[OF st(2,1,3)])
  with read run inv st show ?thesis unfolding Let_def by blast
qed

end
