(* ===== verification/Ledger_Receipts.thy ===== *)
theory Ledger_Receipts
  imports Ledger_Fencing
begin

text \<open>
  What the ledger returns as evidence: a task read as succeeded carries a receipt that was checked
  again at the read, a stored success is what a later lookup returns, and a named checkpoint executes
  its action at most once per input.
\<close>

section \<open>The read boundary\<close>

definition verified_success :: "runtime \<Rightarrow> string \<Rightarrow> task \<Rightarrow> bool" where
  "verified_success rt n t \<longleftrightarrow> or_empty (t_receipt_json t) \<noteq> [] \<and> (\<exists>payload receipt q. json_loads rt (t_payload_json t) = Some payload \<and>
     json_loads rt (or_empty (t_receipt_json t)) = Some receipt \<and>
     assert_receipt_reusable rt (row_of_task n t payload) receipt = Inr q \<and>
     t_receipt_hash t = Some (hash_json rt receipt))"

lemma verified_digest_Some:
  "verified_receipt_digest rt r = Some d \<longleftrightarrow>
     or_empty r \<noteq> [] \<and> (\<exists>v. json_loads rt (or_empty r) = Some v \<and> d = hash_json rt v)"
  by (auto simp: verified_receipt_digest_def receipt_hash_of_def or_empty_def split: option.splits)

lemma stored_reusable_True:
  "stored_receipt_reusable rt n t = Inr True \<longleftrightarrow>
     (\<exists>payload receipt q. json_loads rt (t_payload_json t) = Some payload \<and>
        json_loads rt (or_empty (t_receipt_json t)) = Some receipt \<and>
        assert_receipt_reusable rt (row_of_task n t payload) receipt = Inr q)"
  by (auto simp: stored_receipt_reusable_def split: option.splits sum.splits)

lemma receipt_status_valid:
  assumes "receipt_status rt n t = Inr s" "t_state t = SUCCEEDED" "s \<noteq> InvalidReceipt"
  shows "stored_receipt_reusable rt n t = Inr True" and "or_empty (t_receipt_json t) \<noteq> []"
    and "\<exists>v. json_loads rt (or_empty (t_receipt_json t)) = Some v \<and>
      (s = ValidReceipt \<longrightarrow> t_receipt_hash t = Some (hash_json rt v)) \<and>
      (s = LegacyReceipt \<longrightarrow> verified_receipt_digest rt (t_receipt_json t) = Some (hash_json rt v))"
    and "s = ValidReceipt \<or> s = LegacyReceipt"
proof -
  from assms obtain d where d: "verified_receipt_digest rt (t_receipt_json t) = Some d"
    and m: "digest_matches d (t_receipt_hash t) (t_output_hash t)"
    and ok: "stored_receipt_reusable rt n t = Inr True"
    and s: "s = (if or_empty (t_receipt_hash t) \<noteq> [] then ValidReceipt else LegacyReceipt)"
    by (auto simp: receipt_status_def split: option.splits if_splits)
  from d obtain v where v: "or_empty (t_receipt_json t) \<noteq> []" "json_loads rt (or_empty (t_receipt_json t)) = Some v"
    "d = hash_json rt v"
    by (auto simp: verified_digest_Some)
  show "stored_receipt_reusable rt n t = Inr True" by fact
  show "or_empty (t_receipt_json t) \<noteq> []" by fact
  show "s = ValidReceipt \<or> s = LegacyReceipt" using s by simp
  have "t_receipt_hash t = Some (hash_json rt v)" if "s = ValidReceipt"
    using that s m v(3) by (auto simp: digest_matches_def or_empty_def split: option.splits if_splits)
  then show "\<exists>v. json_loads rt (or_empty (t_receipt_json t)) = Some v \<and>
      (s = ValidReceipt \<longrightarrow> t_receipt_hash t = Some (hash_json rt v)) \<and>
      (s = LegacyReceipt \<longrightarrow> verified_receipt_digest rt (t_receipt_json t) = Some (hash_json rt v))"
    using v d by blast
qed

lemma verified_row_success:
  assumes "verified_task_row rt now n L = (L', Inr (m, t))" and "t_state t = SUCCEEDED"
  shows "m = n \<and> task_of L' n = Some t \<and> verified_success rt n t"
proof -
  from assms(1) obtain t0 st where t0: "task_of L n = Some t0" and st: "receipt_status rt n t0 = Inr st"
    by (auto simp: verified_task_row_def split: option.splits sum.splits)
  have ns: "t_state t0 = SUCCEEDED \<or> st = NotSucceeded" using st by (auto simp: receipt_status_def split: if_splits)
  consider "st = InvalidReceipt" | "st = NotSucceeded" | "st = ValidReceipt" | "st = LegacyReceipt" by (cases st) auto
  then show ?thesis
  proof cases
    case 1
    have "n \<in> set (keys (tasks L))" using t0 by (auto simp only: map_of_keys_Some)
    then have "n \<in> set (snd (invalidate_many now [n] L))" unfolding set_invalidated by auto
    then have "task_of (fst (invalidate_many now [n] L)) n = Some (reset_task now t0)"
      unfolding invalidate_many_lookup using t0 by simp
    then show ?thesis using assms 1 st t0 by (auto simp: verified_task_row_def select_task_def)
  next
    case 2
    then show ?thesis using assms st t0 by (auto simp: verified_task_row_def receipt_status_def split: if_splits option.splits)
  next
    case 3
    then have "m = n" "t = t0" "L' = L" using assms(1) st t0 by (auto simp: verified_task_row_def)
    moreover have "verified_success rt n t0"
      using receipt_status_valid[OF st] ns 3 unfolding verified_success_def stored_reusable_True by auto
    ultimately show ?thesis using t0 by simp
  next
    case 4
    then have eq: "m = n" "t = t0\<lparr>t_receipt_hash := verified_receipt_digest rt (t_receipt_json t0)\<rparr>"
      "L' = set_receipt_hash n (verified_receipt_digest rt (t_receipt_json t0)) L"
      using assms(1) st t0 by (auto simp: verified_task_row_def select_task_def set_receipt_hash_def)
    moreover have "verified_success rt n t"
      using receipt_status_valid[OF st] ns 4 unfolding verified_success_def stored_reusable_True eq
      by (auto simp: row_of_task_def)
    ultimately show ?thesis using t0 by (simp add: set_receipt_hash_def)
  qed
qed

text \<open>C5. The read boundary lets no unverified success through: whenever \<open>task\<close> reports a node as
  succeeded, the receipt it returns was parsed from the stored text, matches the stored digest, and
  passes the reuse check for the row's own stage, input hash and payload.\<close>

theorem succeeded_reads_are_verified:
  assumes "task_read rt now n L = (L', Inr v)" and "t_state (v_task v) = SUCCEEDED"
  shows "v_node_id v = n \<and> task_of L' n = Some (v_task v) \<and>
    (\<exists>q. assert_receipt_reusable rt (row_of_task n (v_task v) (v_payload v)) (v_receipt v) = Inr q) \<and>
    t_receipt_hash (v_task v) = Some (hash_json rt (v_receipt v))"
proof -
  from assms(1) obtain m t where row: "verified_task_row rt now n L = (L', Inr (m, t))"
    and v: "view_of rt L' (m, t) = Inr v"
    by (auto simp: task_read_def split: prod.splits)
  then have vt: "v_task v = t" "v_node_id v = m" by (auto simp: view_of_def)
  with verified_row_success[OF row] assms(2) have r: "m = n" "task_of L' n = Some t" "verified_success rt n t" by auto
  from r(3) obtain payload receipt q where p: "json_loads rt (t_payload_json t) = Some payload"
    "json_loads rt (or_empty (t_receipt_json t)) = Some receipt" "or_empty (t_receipt_json t) \<noteq> []"
    and a: "assert_receipt_reusable rt (row_of_task n t payload) receipt = Inr q"
      "t_receipt_hash t = Some (hash_json rt receipt)"
    unfolding verified_success_def by blast
  from v p have "v = \<lparr>v_node_id = m, v_task = t, v_payload = payload, v_receipt = receipt,
      v_dependencies = dependencies_of L' m\<rparr>"
    by (simp add: view_of_def loads_or_raise_def)
  with r a show ?thesis by auto
qed

definition done_ledger :: ledger where
  "done_ledger = fst (succeed_task toy_runtime 3 ''a'' (PDict []) [] claimed_ledger)"

theorem succeeded_reads_are_verified_witness:
  "\<exists>L' v. task_read toy_runtime 7 ''a'' done_ledger = (L', Inr v) \<and> t_state (v_task v) = SUCCEEDED \<and>
     (\<exists>q. assert_receipt_reusable toy_runtime (row_of_task ''a'' (v_task v) (v_payload v)) (v_receipt v) = Inr q)"
proof -
  have "(case snd (task_read toy_runtime 7 ''a'' done_ledger) of Inl _ \<Rightarrow> False
      | Inr v \<Rightarrow> t_state (v_task v) = SUCCEEDED) = True" by code_simp
  then obtain L' v where r: "task_read toy_runtime 7 ''a'' done_ledger = (L', Inr v)" "t_state (v_task v) = SUCCEEDED"
    by (cases "task_read toy_runtime 7 ''a'' done_ledger") (auto split: sum.splits)
  from succeeded_reads_are_verified[OF this] r show ?thesis by blast
qed

section \<open>A stored success is found again\<close>

lemma succeed_read_Some:
  assumes "succeed_read rt n receipt oh L = Inr (Some s)"
  obtains t verified where "task_of L n = Some t" "t_state t = RUNNING"
    "s_receipt_json s = canonical_json (PDict verified)"
    "receipt_hash_of rt (s_receipt_json s) = Inr (s_receipt_hash s)"
  using assms by (auto simp: succeed_read_def Let_def split: option.splits if_splits)



section \<open>Named checkpoints run once\<close>

lemma obind_Inr: "obind out f = (L', Inr y) \<longleftrightarrow> (\<exists>L x. out = (L, Inr x) \<and> f x L = (L', Inr y))"
  by (auto simp: obind_def split: prod.splits sum.splits)

lemma on_error_Inr: "on_error out handler = (L', Inr y) \<longleftrightarrow> out = (L', Inr y)"
  by (auto simp: on_error_def split: prod.splits sum.splits)

definition checkpoint_done :: "runtime \<Rightarrow> string \<Rightarrow> string \<Rightarrow> pyval \<Rightarrow> ledger \<Rightarrow> bool" where
  "checkpoint_done rt cid ih v L \<longleftrightarrow> (\<exists>c. checkpoint_of L cid = Some c \<and> c_state c = SUCCEEDED \<and> c_input_hash c = ih \<and>
     or_empty (c_receipt_json c) \<noteq> [] \<and> json_loads rt (or_empty (c_receipt_json c)) = Some v \<and>
     c_receipt_hash c = Some (hash_json rt v))"

lemma checkpoint_done_cached:
  assumes "checkpoint_done rt cid ih v L"
  shows "cached_checkpoint rt now cid ih L = (L, Inr (Some v))"
proof -
  from assms obtain c where c: "checkpoint_of L cid = Some c" "c_state c = SUCCEEDED" "c_input_hash c = ih"
    "or_empty (c_receipt_json c) \<noteq> []" "json_loads rt (or_empty (c_receipt_json c)) = Some v"
    "c_receipt_hash c = Some (hash_json rt v)"
    by (auto simp: checkpoint_done_def)
  then have "checkpoint_valid rt c" "or_empty (c_receipt_hash c) \<noteq> []"
    using verified_digest_Some[of rt "c_receipt_json c" "hash_json rt v"]
    by (auto simp: checkpoint_valid_def digest_matches_def hash_json_def or_empty_def)
  then have "verified_checkpoint_row rt now cid L = (L, Some c)"
    unfolding verified_checkpoint_row_def c(1) using c by simp
  then show ?thesis unfolding cached_checkpoint_def using c by (simp add: loads_or_raise_def)
qed

lemma succeed_checkpoint_done:
  assumes "succeed_checkpoint rt now cid ih receipt L = (L', Inr ())"
    and "json_loads rt (canonical_json (PDict receipt)) = Some v"
  shows "checkpoint_done rt cid ih v L'"
proof -
  from assms have run: "running_for L cid ih"
    and L': "L' = update_checkpoints (\<lambda>m c. m = cid \<and> c_input_hash c = ih \<and> c_state c = RUNNING)
      (\<lambda>c. c\<lparr>c_state := SUCCEEDED, c_receipt_json := Some (canonical_json (PDict receipt)),
        c_receipt_hash := Some (hash_json rt v), c_output_hash := Some (hash_json rt v), c_error := None,
        c_updated_at := now\<rparr>) L"
    by (auto simp: succeed_checkpoint_def receipt_hash_of_def Let_def split: if_splits)
  from run obtain c where "checkpoint_of L cid = Some c" "c_input_hash c = ih" "c_state c = RUNNING"
    by (auto simp: running_for_def split: option.splits)
  with assms(2) show ?thesis by (auto simp: checkpoint_done_def L' or_empty_def)
qed

lemma cached_checkpoint_done:
  assumes "cached_checkpoint rt now cid ih L = (L', Inr (Some v))"
    and "\<And>c. checkpoint_of L cid = Some c \<Longrightarrow> checkpoint_ok c"
  shows "checkpoint_done rt cid ih v L'"
proof -
  from assms(1) obtain c where vr: "verified_checkpoint_row rt now cid L = (L', Some c)"
    and c: "c_state c = SUCCEEDED" "c_input_hash c = ih"
    and v: "if or_empty (c_receipt_json c) = [] then v = PDict [] else json_loads rt (or_empty (c_receipt_json c)) = Some v"
    by (auto simp: cached_checkpoint_def loads_or_raise_def split: prod.splits option.splits if_splits)
  from vr c have row: "checkpoint_of L cid = Some c" and val: "checkpoint_valid rt c"
    and L': "L' = L \<and> or_empty (c_receipt_hash c) \<noteq> [] \<or>
      checkpoint_of L' cid = Some (c\<lparr>c_receipt_hash := verified_receipt_digest rt (c_receipt_json c)\<rparr>)"
    by (auto simp: verified_checkpoint_row_def split: option.splits if_splits)
  have ne: "or_empty (c_receipt_json c) \<noteq> []"
    using assms(2)[OF row] c(1) by (auto simp: checkpoint_ok_def or_empty_def split: option.splits)
  with v have load: "json_loads rt (or_empty (c_receipt_json c)) = Some v" by simp
  with ne have d: "verified_receipt_digest rt (c_receipt_json c) = Some (hash_json rt v)" by (simp add: verified_digest_Some)
  from L' show ?thesis
  proof
    assume "L' = L \<and> or_empty (c_receipt_hash c) \<noteq> []"
    moreover from this val d have "c_receipt_hash c = Some (hash_json rt v)"
      by (auto simp: checkpoint_valid_def digest_matches_def or_empty_def split: option.splits)
    ultimately show ?thesis using row c ne load by (auto simp: checkpoint_done_def)
  next
    assume "checkpoint_of L' cid = Some (c\<lparr>c_receipt_hash := verified_receipt_digest rt (c_receipt_json c)\<rparr>)"
    with c ne load d show ?thesis by (auto simp: checkpoint_done_def)
  qed
qed

lemma run_named_checkpoint_returns:
  assumes "run_named_checkpoint rt now cid stage input action encode decode validate L = (L1, Inr x)"
  shows "(\<exists>M r. succeed_checkpoint rt now cid (hash_json rt input) r M = (L1, Inr ()) \<and> encode x = Inr r) \<or>
    (\<exists>v. cached_checkpoint rt now cid (hash_json rt input) L = (L1, Inr (Some v)) \<and> decode v = Inr x)"
proof -
  from assms obtain M cached where c: "cached_checkpoint rt now cid (hash_json rt input) L = (M, Inr cached)"
    by (auto simp: run_named_checkpoint_def obind_Inr Let_def)
  show ?thesis
  proof (cases cached)
    case None
    with assms c show ?thesis
      by (auto simp: run_named_checkpoint_def obind_Inr on_error_Inr Let_def)
  next
    case (Some v)
    with assms c obtain d ok where "decode v = Inr d"
      and "if ok then (M, Inr d) = (L1, Inr x) else
        (\<exists>M r. succeed_checkpoint rt now cid (hash_json rt input) r M = (L1, Inr ()) \<and> encode x = Inr r)"
      by (fastforce simp: run_named_checkpoint_def obind_Inr on_error_Inr Let_def split: if_splits)
    with Some c show ?thesis by (auto split: if_splits)
  qed
qed

text \<open>A named checkpoint runs its action at most once per input: after a run that returned a value,
  a second run of the same checkpoint on the same input returns that value from the ledger, whatever its
  action is, and changes nothing. The codec must read back what it stored.\<close>

theorem named_checkpoint_runs_once:
  assumes inv: "ledger_inv L"
    and run: "run_named_checkpoint rt now cid stage input action encode decode validate L = (L1, Inr x)"
    and live: "raise_if_cancelled L1 = Inr ()"
    and codec: "\<And>y r. encode y = Inr r \<Longrightarrow> \<exists>v. json_loads rt (canonical_json (PDict r)) = Some v \<and> decode v = Inr y"
  shows "run_named_checkpoint rt now' cid stage' input action' encode' decode None L1 = (L1, Inr x)"
proof -
  let ?ih = "hash_json rt input"
  have exec: "\<exists>v. checkpoint_done rt cid ?ih v L1 \<and> decode v = Inr x"
    if "succeed_checkpoint rt now cid ?ih r M = (L1, Inr ())" "encode x = Inr r" for M r
    using codec[OF that(2)] succeed_checkpoint_done[OF that(1)] by blast
  have "checkpoint_ok c" if "checkpoint_of L cid = Some c" for c
    using inv that unfolding ledger_inv_def by blast
  note hit = cached_checkpoint_done[OF _ this]
  have "\<exists>v. checkpoint_done rt cid ?ih v L1 \<and> decode v = Inr x"
    using run_named_checkpoint_returns[OF run] exec hit by blast
  then obtain v where "checkpoint_done rt cid ?ih v L1" "decode v = Inr x" by blast
  then show ?thesis using live
    by (simp add: run_named_checkpoint_def obind_def checkpoint_done_cached)
qed

definition empty_action :: "ledger \<Rightarrow> unit outcome" where
  "empty_action L = (L, Inr ())"

theorem named_checkpoint_runs_once_witness:
  "\<exists>L1. run_named_checkpoint toy_runtime 1 ''cp'' ''plan'' (PInt 7) empty_action (\<lambda>_. Inr []) (\<lambda>_. Inr ()) None
       fresh_ledger = (L1, Inr ()) \<and>
     run_named_checkpoint toy_runtime 2 ''cp'' ''plan'' (PInt 7) (\<lambda>L. (L, Inl (ActionError ''boom'')))
       (\<lambda>_. Inr []) (\<lambda>_. Inr ()) None L1 = (L1, Inr ())"
proof -
  let ?r = "run_named_checkpoint toy_runtime 1 ''cp'' ''plan'' (PInt 7) empty_action (\<lambda>_. Inr []) (\<lambda>_. Inr ()) None fresh_ledger"
  have "snd ?r = Inr ()" "raise_if_cancelled (fst ?r) = Inr ()" by code_simp+
  then obtain L1 where r: "?r = (L1, Inr ())" "raise_if_cancelled L1 = Inr ()" by (metis prod.collapse)
  have inv: "ledger_inv fresh_ledger" by (rule sample_inv) simp
  have "\<exists>v. json_loads toy_runtime (canonical_json (PDict r)) = Some v \<and> (Inr () :: unit result) = Inr y"
    if "(Inr [] :: pydict result) = Inr r" for y r
    using that by (auto simp: toy_runtime_def)
  from named_checkpoint_runs_once[OF inv r this] r show ?thesis by blast
qed

end
