(* ===== verification/Scheduler_Properties.thy ===== *)
theory Scheduler_Properties
  imports Ledger_Fencing
begin

text \<open>
  Admission control of the orchestrator: lanes never exceed their capacity, the serial stages run one
  task at a time, the text and image lanes exclude each other on a shared GPU, and a claim is refused
  only when no ready task fits.
\<close>

section \<open>Admission\<close>

definition running_set :: "scheduler_env \<Rightarrow> ledger \<Rightarrow> string \<Rightarrow> string set" where
  "running_set env L lane = {n. \<exists>t. task_of L n = Some t \<and> t_state t = RUNNING \<and> like_generate t \<and>
     resource_class_of env t = lane}"

lemma running_in_card:
  assumes "distinct (keys (tasks L))"
  shows "running_in env L lane = card (running_set env L lane)"
proof -
  let ?F = "filter (\<lambda>(n, t). t_state t = RUNNING \<and> like_generate t \<and> resource_class_of env t = lane) (tasks L)"
  have "running_set env L lane = set (keys ?F)"
    using assms by (force simp: running_set_def)
  moreover have "distinct (keys ?F)" using assms by (rule distinct_map_filter)
  then have "card (set (keys ?F)) = length ?F" using distinct_card by fastforce
  ultimately show ?thesis by (simp add: running_in_def)
qed

lemma finite_running_set [simp]: "finite (running_set env L lane)"
  by (rule finite_subset[of _ "dom (map_of (tasks L))"]) (auto simp: running_set_def finite_dom_map_of)

definition admission_ok :: "scheduler_env \<Rightarrow> ledger \<Rightarrow> bool" where
  "admission_ok env L \<longleftrightarrow>
     (\<forall>lane c. (lane, c) \<in> set (lane_capacities env) \<longrightarrow> int (running_in env L lane) \<le> c) \<and>
     (\<forall>s \<in> set serial_cpu_stages. \<forall>m n t u. task_of L m = Some t \<longrightarrow> task_of L n = Some u \<longrightarrow>
        t_state t = RUNNING \<longrightarrow> t_state u = RUNNING \<longrightarrow> t_stage t = s \<longrightarrow> t_stage u = s \<longrightarrow> m = n) \<and>
     (env_shared_local_gpu env \<longrightarrow> running_in env L ''llm'' = 0 \<or> running_in env L ''image_gpu'' = 0)"

text \<open>A ledger with fewer running rows is admissible when the larger one is.\<close>

definition runs_within :: "ledger \<Rightarrow> ledger \<Rightarrow> bool" where
  "runs_within L' L \<longleftrightarrow> (\<forall>n t'. task_of L' n = Some t' \<longrightarrow> t_state t' = RUNNING \<longrightarrow>
     (\<exists>t. task_of L n = Some t \<and> t_state t = RUNNING \<and> t_stage t = t_stage t' \<and> t_payload_json t = t_payload_json t'))"

lemma runs_within_update:
  assumes "\<And>n t. P n t \<Longrightarrow> t_state (f t) = RUNNING \<Longrightarrow>
    t_state t = RUNNING \<and> t_stage (f t) = t_stage t \<and> t_payload_json (f t) = t_payload_json t"
  shows "runs_within (update_tasks P f L) L"
  using assms by (fastforce simp: runs_within_def split: if_splits)

lemma runs_within_trans: "runs_within N M \<Longrightarrow> runs_within M L \<Longrightarrow> runs_within N L"
  unfolding runs_within_def by metis

lemma running_in_mono:
  assumes "runs_within L' L" "distinct (keys (tasks L))" "distinct (keys (tasks L'))"
  shows "running_in env L' lane \<le> running_in env L lane"
proof -
  have "running_set env L' lane \<subseteq> running_set env L lane"
    using assms(1) by (fastforce simp: running_set_def runs_within_def like_generate_def resource_class_of_def)
  then show ?thesis using assms(2,3) by (simp add: running_in_card card_mono)
qed

lemma admission_mono:
  assumes "runs_within L' L" "admission_ok env L" "ledger_inv L" "ledger_inv L'"
  shows "admission_ok env L'"
proof -
  have le: "running_in env L' lane \<le> running_in env L lane" for lane
    by (rule running_in_mono[OF assms(1)]) (use assms(3,4) in \<open>simp_all add: ledger_inv_def\<close>)
  have "int (running_in env L' lane) \<le> c" if "(lane, c) \<in> set (lane_capacities env)" for lane c
    using assms(2) le[of lane] that unfolding admission_ok_def by (meson of_nat_mono order_trans)
  moreover have "env_shared_local_gpu env \<longrightarrow> running_in env L' ''llm'' = 0 \<or> running_in env L' ''image_gpu'' = 0"
    using assms(2) le[of "''llm''"] le[of "''image_gpu''"] by (auto simp: admission_ok_def)
  moreover have "m = n" if "s \<in> set serial_cpu_stages" "task_of L' m = Some t" "task_of L' n = Some u"
    "t_state t = RUNNING" "t_state u = RUNNING" "t_stage t = s" "t_stage u = s" for s m n t u
  proof -
    from that assms(1) obtain t0 u0 where "task_of L m = Some t0" "t_state t0 = RUNNING" "t_stage t0 = s"
      "task_of L n = Some u0" "t_state u0 = RUNNING" "t_stage u0 = s"
      unfolding runs_within_def by metis
    with assms(2) that(1) show ?thesis unfolding admission_ok_def by blast
  qed
  ultimately show ?thesis unfolding admission_ok_def by blast
qed

lemma free_lane_room:
  "lane \<in> set (free_lanes env L) \<Longrightarrow> \<exists>c. (lane, c) \<in> set (lane_capacities env) \<and> int (running_in env L lane) < c"
  by (auto simp: free_lanes_def Let_def split: if_splits)

lemma lane_of_map: "distinct (keys d) \<Longrightarrow> (k, v) \<in> set d \<Longrightarrow> (k, w) \<in> set d \<Longrightarrow> v = w"
  by (meson eq_key_imp_eq_value)

lemma distinct_lane_capacities: "distinct (keys (lane_capacities env))"
proof -
  have "distinct (keys (fold (\<lambda>(lane, c) d. AList.update lane c d) xs d))" if "distinct (keys d)"
    for xs and d :: "(string \<times> int) list"
    using that by (induction xs arbitrary: d) (auto simp: case_prod_beta)
  then have "distinct (keys (capacities env))" by (simp add: capacities_def)
  then show ?thesis by (simp add: lane_capacities_def comp_def case_prod_beta)
qed

lemma gpu_lane_exclusive:
  assumes "env_shared_local_gpu env"
  shows "''llm'' \<in> set (free_lanes env L) \<Longrightarrow> running_in env L ''image_gpu'' = 0"
    and "''image_gpu'' \<in> set (free_lanes env L) \<Longrightarrow> running_in env L ''llm'' = 0"
  using assms by (auto simp: free_lanes_def Let_def split: if_splits)

text \<open>Starting one admissible task.\<close>

lemma start_keeps_admission:
  assumes inv: "ledger_inv L" and ok: "admission_ok env L"
    and t: "task_of L n = Some t" and adm: "admissible env stages L n t"
    and L': "L' = update_tasks (\<lambda>m t. m = n \<and> t_state t = PENDING) (start_task now owner u) L"
  shows "admission_ok env L'"
proof -
  let ?lane = "resource_class_of env t"
  have pend: "t_state t = PENDING" using adm by (simp add: admissible_def ready_def)
  have row: "task_of L' m = (if m = n then Some (start_task now owner u t) else task_of L m)" for m
    using t pend by (auto simp: L' map_option_case split: option.splits)
  have d: "distinct (keys (tasks L))" "distinct (keys (tasks L'))" using inv by (simp_all add: ledger_inv_def L')
  have same: "resource_class_of env (start_task now owner u t) = ?lane" "t_stage (start_task now owner u t) = t_stage t"
    by (simp_all add: resource_class_of_def start_task_def)
  have grow: "running_in env L' lane \<le> running_in env L lane + (if lane = ?lane then 1 else 0)" for lane
  proof -
    have "running_set env L' lane \<subseteq> (if lane = ?lane then insert n else id) (running_set env L lane)"
      using same t by (auto simp: running_set_def row split: if_splits)
    then have "card (running_set env L' lane) \<le> card ((if lane = ?lane then insert n else id) (running_set env L lane))"
      by (intro card_mono) auto
    also have "\<dots> \<le> card (running_set env L lane) + (if lane = ?lane then 1 else 0)"
      by (simp add: card_insert_if)
    finally show ?thesis using d by (simp add: running_in_card)
  qed
  have free: "?lane \<in> set (free_lanes env L)" and idle: "\<not> stage_busy L (t_stage t)"
    using adm by (simp_all add: admissible_def)
  have "int (running_in env L' lane) \<le> c" if lc: "(lane, c) \<in> set (lane_capacities env)" for lane c
  proof (cases "lane = ?lane")
    case True
    with free_lane_room[OF free] lc distinct_lane_capacities have "int (running_in env L lane) < c"
      by (auto dest: lane_of_map)
    with grow[of lane] True show ?thesis by simp
  next
    case False
    with grow[of lane] have "running_in env L' lane \<le> running_in env L lane" by simp
    moreover have "int (running_in env L lane) \<le> c" using ok lc by (auto simp: admission_ok_def)
    ultimately show ?thesis by linarith
  qed
  moreover have "running_in env L' ''llm'' = 0 \<or> running_in env L' ''image_gpu'' = 0" if g: "env_shared_local_gpu env"
  proof -
    have "running_in env L ''llm'' = 0 \<or> running_in env L ''image_gpu'' = 0" using ok g by (simp add: admission_ok_def)
    then show ?thesis
      using grow[of "''llm''"] grow[of "''image_gpu''"] gpu_lane_exclusive[OF g, of L] free
      by (cases "?lane = ''llm''"; cases "?lane = ''image_gpu''") auto
  qed
  moreover have "m = k" if s: "s \<in> set serial_cpu_stages" and m: "task_of L' m = Some v" "t_state v = RUNNING" "t_stage v = s"
    and k: "task_of L' k = Some w" "t_state w = RUNNING" "t_stage w = s" for s m k v w
  proof -
    have no: "t_stage t \<noteq> s" if "task_of L x = Some y" "t_state y = RUNNING" "t_stage y = s" for x y
    proof
      assume "t_stage t = s"
      moreover have "(x, y) \<in> set (tasks L)" using that(1) by (rule map_of_SomeD)
      ultimately have "stage_busy L (t_stage t)" using that s by (auto simp: stage_busy_def list_ex_iff)
      with idle show False by simp
    qed
    show ?thesis using m k same ok s no unfolding row admission_ok_def
      by (auto split: if_splits)
  qed
  ultimately show ?thesis unfolding admission_ok_def by blast
qed

text \<open>Renewals and releases start nothing.\<close>

lemma stage_payload_frame:
  "t_stage (renew_lease now ls t) = t_stage t" "t_payload_json (renew_lease now ls t) = t_payload_json t"
  "t_stage (t\<lparr>t_receipt_hash := h\<rparr>) = t_stage t"
  by (simp_all add: renew_lease_def)

lemma maintenance_within: "runs_within (release_foreign ow now (renew_near_expiry ow now ls L)) L"
  unfolding release_foreign_def renew_near_expiry_def
  by (rule runs_within_trans[OF runs_within_update runs_within_update]) (auto simp: stage_payload_frame)

lemma claim_keeps_admission:
  assumes inv: "ledger_inv L" and ok: "admission_ok env L"
  shows "admission_ok env (fst (claim_orchestrator_txn env now stages ls L))"
proof -
  define owner where "owner = orchestrator_owner env"
  define L2 where "L2 = release_foreign owner now (renew_near_expiry owner now ls L)"
  have inv2: "ledger_inv L2" unfolding L2_def by (rule inv_maintenance[OF inv])
  have ok2: "admission_ok env L2" by (rule admission_mono[OF _ ok inv inv2]) (simp add: L2_def maintenance_within)
  have "admission_ok env (update_tasks (\<lambda>m t. m = n \<and> t_state t = PENDING) (start_task now owner u) L2)"
    if "ready_node_id env stages L2 = Some n" for n u
  proof -
    have "distinct (keys (tasks L2))" using inv2 by (simp add: ledger_inv_def)
    from ready_node_id_admissible[OF that this] show ?thesis
      by (auto intro: start_keeps_admission[OF inv2 ok2])
  qed
  then show ?thesis using ok ok2
    by (auto simp: claim_orchestrator_txn_def Let_def L2_def owner_def split: option.splits)
qed

text \<open>A generation phase: one orchestrator claims, renews, publishes, fails and reads.\<close>

inductive generation_step :: "runtime \<Rightarrow> scheduler_env \<Rightarrow> ledger \<Rightarrow> ledger \<Rightarrow> bool" for rt env where
  gen_claim: "generation_step rt env L (fst (claim_orchestrator_txn env now stages lease_seconds L))"
| gen_renew: "generation_step rt env L (fst (renew_orchestrator_claims env now lease_seconds L))"
| gen_commit: "generation_step rt env L (fst (commit_write rt now n receipt attempt owner L))"
| gen_fail: "generation_step rt env L (fenced_fail now n attempt owner error L)"
| gen_task: "generation_step rt env L (fst (task_read rt now n L))"
| gen_cancel_run: "generation_step rt env L (cancel_run_txn now reason L)"

lemma invalidate_within: "runs_within (fst (invalidate_many now ns L)) L"
proof -
  have "runs_within L L" by (simp add: runs_within_def)
  then show ?thesis by (auto simp: invalidate_many_def Let_def intro!: runs_within_update)
qed

lemma task_read_within: "runs_within (fst (task_read rt now n L)) L"
proof -
  have "runs_within L L" by (simp add: runs_within_def)
  moreover have "runs_within (set_receipt_hash n h L) L" for h
    unfolding set_receipt_hash_def by (rule runs_within_update) simp
  ultimately have "runs_within (fst (verified_task_row rt now n L)) L"
    by (auto simp: verified_task_row_def select_task_def invalidate_within
        split: option.splits sum.splits receipt_state.splits)
  then show ?thesis by (simp add: task_read_def case_prod_beta)
qed

lemma generation_step_within:
  "runs_within (fst (renew_orchestrator_claims env now ls L)) L"
  "runs_within (fst (commit_write rt now n r a ow L)) L"
  "runs_within (fenced_fail now n a ow e L) L"
  "runs_within (cancel_run_txn now why L) L"
proof -
  have refl: "runs_within L L" by (simp add: runs_within_def)
  show "runs_within (fst (renew_orchestrator_claims env now ls L)) L"
    using refl by (auto simp: renew_orchestrator_claims_def Let_def renewable_def stage_payload_frame intro!: runs_within_update)
  show "runs_within (fst (commit_write rt now n r a ow L)) L"
    using refl by (auto simp: commit_write_def Let_def intro!: runs_within_update)
  show "runs_within (fenced_fail now n a ow e L) L"
    unfolding fenced_fail_def by (rule runs_within_update) simp
  have "runs_within (update_tasks (\<lambda>_ t. t_state t \<noteq> SUCCEEDED) (stop_task now CANCELLED (cancel_message why))
      (set_meta k v L)) (set_meta k v L)" for k v
    by (rule runs_within_update) simp
  then show "runs_within (cancel_run_txn now why L) L"
    by (simp add: cancel_run_txn_def Let_def runs_within_def)
qed

lemma generation_step_inv:
  assumes "generation_step rt env L L'" "ledger_inv L" "admission_ok env L"
  shows "ledger_inv L' \<and> admission_ok env L'"
proof -
  have inv: "ledger_inv L'" using assms(1,2) by cases (auto intro: step_inv)
  moreover have "admission_ok env L'" if "runs_within L' L"
    using admission_mono[OF that assms(3,2) inv] .
  ultimately show ?thesis using assms
    by (auto elim!: generation_step.cases intro: claim_keeps_admission task_read_within generation_step_within)
qed

interpretation generation: invariant_system "\<lambda>L. ledger_inv L \<and> admission_ok env L" "generation_step rt env"
  "\<lambda>L. ledger_inv L \<and> admission_ok env L" for rt env
  using generation_step_inv by unfold_locales blast+

text \<open>C4. Admission control: through any sequence of claims, renewals, publications, failures, reads and
  cancellations of a generation phase, no lane runs more tasks than its capacity, no two tasks of one
  serial stage run at the same time, and with a shared local GPU the text and image lanes are never
  both busy.\<close>

theorem generation_respects_admission:
  assumes "ledger_inv L" and "admission_ok env L" and "(generation_step rt env)\<^sup>*\<^sup>* L L'"
  shows "(\<forall>lane c. map_of (lane_capacities env) lane = Some c \<longrightarrow> int (running_in env L' lane) \<le> c) \<and>
    (\<forall>m n t u. task_of L' m = Some t \<longrightarrow> task_of L' n = Some u \<longrightarrow> t_state t = RUNNING \<longrightarrow> t_state u = RUNNING \<longrightarrow>
       t_stage t = t_stage u \<longrightarrow> t_stage t \<in> set serial_cpu_stages \<longrightarrow> m = n) \<and>
    (env_shared_local_gpu env \<longrightarrow> running_in env L' ''llm'' = 0 \<or> running_in env L' ''image_gpu'' = 0)"
proof -
  have "admission_ok env L'" using generation.run_keeps_inv[OF assms(3)] assms(1,2) by blast
  then have caps: "\<forall>lane c. (lane, c) \<in> set (lane_capacities env) \<longrightarrow> int (running_in env L' lane) \<le> c"
    and ser: "\<And>s m n t u. s \<in> set serial_cpu_stages \<Longrightarrow> task_of L' m = Some t \<Longrightarrow> task_of L' n = Some u \<Longrightarrow>
        t_state t = RUNNING \<Longrightarrow> t_state u = RUNNING \<Longrightarrow> t_stage t = s \<Longrightarrow> t_stage u = s \<Longrightarrow> m = n"
    and gpu: "env_shared_local_gpu env \<longrightarrow> running_in env L' ''llm'' = 0 \<or> running_in env L' ''image_gpu'' = 0"
    unfolding admission_ok_def by (blast, blast, elim conjE)
  show ?thesis
  proof (intro conjI allI impI)
    fix lane c assume "map_of (lane_capacities env) lane = Some c"
    with caps show "int (running_in env L' lane) \<le> c" by (blast dest: map_of_SomeD)
  next
    fix m n t u
    assume "task_of L' m = Some t" "task_of L' n = Some u" "t_state t = RUNNING" "t_state u = RUNNING"
      "t_stage t = t_stage u" "t_stage t \<in> set serial_cpu_stages"
    with ser[of "t_stage u" m t n u] show "m = n" by simp
  qed (rule gpu[rule_format])
qed

definition sample_env :: scheduler_env where
  "sample_env = \<lparr>env_cpu_io_workers = PNone, env_os_cpu_count = PInt 4, env_resource_capacities = resource_capacities,
     env_lease_owner = [], env_pid = 7, env_uuid_hex = ''u'', env_shared_local_gpu = True,
     env_json_resource_class = (\<lambda>_. Some ''llm'')\<rparr>"

theorem generation_respects_admission_witness:
  "int (running_in sample_env (fst (claim_orchestrator_txn sample_env 2 [] 900 planned_ledger)) ''llm'') \<le> 1"
proof -
  have "map (\<lambda>(n, t). t_state t) (tasks planned_ledger) = [PENDING, PENDING]" by code_simp
  then have idle: "t_state t \<noteq> RUNNING" if "task_of planned_ledger n = Some t" for n t
    using map_of_SomeD[OF that] by (force simp: map_eq_Cons_conv)
  have "map (\<lambda>(lane, c). (lane, int (running_in sample_env planned_ledger lane) \<le> c)) (lane_capacities sample_env) =
    [(''cpu_io'', True), (''llm'', True), (''image_gpu'', True), (''commit'', True)]" by code_simp
  then have "\<forall>(lane, c) \<in> set (lane_capacities sample_env). int (running_in sample_env planned_ledger lane) \<le> c"
    by (auto simp: map_eq_Cons_conv)
  moreover have "running_in sample_env planned_ledger ''llm'' = 0" by code_simp
  ultimately have ok: "admission_ok sample_env planned_ledger"
    using idle unfolding admission_ok_def by blast
  have "map_of (lane_capacities sample_env) ''llm'' = Some 1" by code_simp
  moreover have "generation_step toy_runtime sample_env planned_ledger
      (fst (claim_orchestrator_txn sample_env 2 [] 900 planned_ledger))" by (rule gen_claim)
  ultimately show ?thesis
    using generation_respects_admission[OF planned_ledger_inv ok r_into_rtranclp] by blast
qed

section \<open>Work conservation\<close>

text \<open>A claim is refused only when nothing fits: if after lease maintenance some pending task has all
  dependencies succeeded, an idle serial stage and a free lane, the orchestrator claims a task, and the
  claimed one satisfies all of these.\<close>

theorem orchestrator_claim_complete:
  assumes "distinct (keys (tasks L))" and "task_of L m = Some u" and "admissible env stages L m u"
  shows "\<exists>n t. ready_node_id env stages L = Some n \<and> task_of L n = Some t \<and> admissible env stages L n t"
proof -
  define rows where "rows = map (\<lambda>(n, t). (n, resource_class_of env t)) (filter (\<lambda>(n, t). admissible env stages L n t) (tasks L))"
  let ?lane = "resource_class_of env u"
  let ?A = "{n. (n, ?lane) \<in> set rows}"
  have ranked: "ranked env stages L = filter (\<lambda>(n, c). \<forall>(n', c') \<in> set rows. c' = c \<longrightarrow> n \<le> n') rows"
    by (simp add: ranked_def rows_def Let_def)
  have m: "m \<in> ?A" using assms(2,3) map_of_SomeD[OF assms(2)] by (force simp: rows_def)
  have fin: "finite ?A" by (rule finite_subset[of _ "fst ` set rows"]) force+
  have "(Min ?A, ?lane) \<in> set rows" using Min_in[OF fin] m by blast
  moreover have "Min ?A \<le> n'" if "(n', ?lane) \<in> set rows" for n' using Min_le[OF fin] that by blast
  ultimately have "(Min ?A, ?lane) \<in> set (ranked env stages L)" unfolding ranked by auto
  then have "ranked env stages L \<noteq> []" by auto
  then have "sort_key (claim_key env L) (ranked env stages L) \<noteq> []" by simp
  then obtain row rest where "sort_key (claim_key env L) (ranked env stages L) = row # rest"
    by (meson neq_Nil_conv)
  then obtain n where "ready_node_id env stages L = Some n"
    by (cases row) (simp add: ready_node_id_def)
  with ready_node_id_admissible[OF this assms(1)] show ?thesis by blast
qed

theorem orchestrator_claim_complete_witness:
  "\<exists>n. ready_node_id sample_env [] planned_ledger = Some n"
proof -
  have "map_option (admissible sample_env [] planned_ledger ''a'') (task_of planned_ledger ''a'') = Some True" by code_simp
  then obtain u where u: "task_of planned_ledger ''a'' = Some u" "admissible sample_env [] planned_ledger ''a'' u" by auto
  have d: "distinct (keys (tasks planned_ledger))" using planned_ledger_inv by (simp add: ledger_inv_def)
  from orchestrator_claim_complete[OF d u] show ?thesis by blast
qed

end
