(* ===== verification/Py_Text.thy ===== *)
theory Py_Text
  imports Py_Json
begin

text \<open>
  The text formats of specifications: the regular expressions of \<^verbatim>\<open>spec.py\<close>, \<^verbatim>\<open>spec_identity.py\<close> and
  \<^verbatim>\<open>target_contract.py\<close> as functions, and what the sources use of \<open>urllib.parse.urlparse\<close>, the scheme and the host
  name of an address.
\<close>

section \<open>Character classes and patterns\<close>

definition is_alnum :: "char \<Rightarrow> bool" where
  "is_alnum c \<longleftrightarrow> is_lower_az c \<or> is_upper_az c \<or> is_digit c"

definition id_char :: "char \<Rightarrow> bool" where
  "id_char c \<longleftrightarrow> is_lower_az c \<or> is_digit c \<or> c = CHR ''_''"

text \<open>\<^verbatim>\<open>^[a-z][a-z0-9_]{1,63}$\<close>\<close>

definition SPEC_ID_match :: "string \<Rightarrow> bool" where
  "SPEC_ID_match s \<longleftrightarrow> (case s of [] \<Rightarrow> False | c # cs \<Rightarrow> is_lower_az c \<and> 1 \<le> length cs \<and> length cs \<le> 63 \<and> list_all id_char cs)"

text \<open>\<^verbatim>\<open>^[a-z][a-z0-9_]*(\.[a-z][a-z0-9_]*)+$\<close>\<close>

definition PACKAGE_match :: "string \<Rightarrow> bool" where
  "PACKAGE_match s \<longleftrightarrow> (let parts = split_on (CHR ''.'') s in
     2 \<le> length parts \<and> list_all (\<lambda>p. case p of [] \<Rightarrow> False | c # cs \<Rightarrow> is_lower_az c \<and> list_all id_char cs) parts)"

definition is_hex :: "char \<Rightarrow> bool" where
  "is_hex c \<longleftrightarrow> is_lower_hex (lower_char c) \<and> (of_char c :: nat) < 128"

text \<open>\<^verbatim>\<open>^#[0-9a-fA-F]{6}$\<close>\<close>

definition HEX_COLOR_match :: "string \<Rightarrow> bool" where
  "HEX_COLOR_match s \<longleftrightarrow> length s = 7 \<and> hd s = CHR ''#'' \<and> list_all is_hex (tl s)"

definition hex64_match :: "string \<Rightarrow> bool" where
  "hex64_match s \<longleftrightarrow> length s = 64 \<and> list_all is_lower_hex s"

text \<open>\<^verbatim>\<open>^sha256:[0-9a-f]{64}$\<close>\<close>

definition SHA256_match :: "string \<Rightarrow> bool" where
  "SHA256_match s \<longleftrightarrow> startswith s ''sha256:'' \<and> hex64_match (drop 7 s)"

text \<open>\<^verbatim>\<open>^[A-Za-z0-9][A-Za-z0-9._+:-]*$\<close>\<close>

definition PLATFORM_TOKEN_match :: "string \<Rightarrow> bool" where
  "PLATFORM_TOKEN_match s \<longleftrightarrow> (case s of [] \<Rightarrow> False
     | c # cs \<Rightarrow> is_alnum c \<and> list_all (\<lambda>d. is_alnum d \<or> d \<in> set ''._+:-'') cs)"

text \<open>The longest run of the form \<^verbatim>\<open>\d+(\.\d+)*\<close> at the start of a text, as its groups, and the rest.\<close>

function dotted :: "string \<Rightarrow> string list \<times> string" where
  "dotted s =
     (let ds = takeWhile is_digit s; rest = dropWhile is_digit s in
      if ds = [] then ([], s)
      else (case rest of
          c # d # tail \<Rightarrow>
            if c = CHR ''.'' \<and> is_digit d then (case dotted (d # tail) of (gs, r) \<Rightarrow> (ds # gs, r)) else ([ds], rest)
        | _ \<Rightarrow> ([ds], rest)))"
  by pat_completeness auto
termination
proof (relation "measure length", simp)
  fix s ds rest :: string and c l d tail
  assume a: "ds = takeWhile is_digit s" "rest = dropWhile is_digit s" "rest = c # l" "l = d # tail"
  then have "c # d # tail = dropWhile is_digit s" by simp
  then have "length (c # d # tail) \<le> length s" by (metis length_dropWhile_le)
  then show "(d # tail, s) \<in> measure length" by simp
qed

declare dotted.simps [simp del]

text \<open>\<^verbatim>\<open>(?:[-+][A-Za-z0-9._-]+)?$\<close>\<close>

definition version_suffix :: "string \<Rightarrow> bool" where
  "version_suffix s \<longleftrightarrow> (case s of [] \<Rightarrow> True
     | c # cs \<Rightarrow> (c = CHR ''-'' \<or> c = CHR ''+'') \<and> cs \<noteq> [] \<and> list_all (\<lambda>d. is_alnum d \<or> d \<in> set ''._-'') cs)"

text \<open>\<^verbatim>\<open>\d+\.\d+\.\d+(?:[-+][A-Za-z0-9._-]+)?\<close>\<close>

definition SEMVER_match :: "string \<Rightarrow> bool" where
  "SEMVER_match s \<longleftrightarrow> (case dotted s of (gs, rest) \<Rightarrow> length gs = 3 \<and> version_suffix rest)"

text \<open>\<^verbatim>\<open>^(\d+(?:\.\d+){1,2})\+\<close>: the text of the group.\<close>

definition mapping_version :: "string \<Rightarrow> string option" where
  "mapping_version s = (case dotted s of (gs, rest) \<Rightarrow>
     if length gs \<in> {2, 3} \<and> rest \<noteq> [] \<and> hd rest = CHR ''+'' then Some (join ''.'' gs) else None)"

text \<open>\<^verbatim>\<open>\+(\d+(?:\.\d+){1,2})$\<close>, searched for; the dollar sign also matches before a final line feed.\<close>

definition api_version :: "string \<Rightarrow> string option" where
  "api_version s =
     (let t = (if s \<noteq> [] \<and> last s = CHR 0x0A then butlast s else s) in
      if CHR ''+'' \<notin> set t then None
      else (case dotted (last (split_on (CHR ''+'') t)) of (gs, rest) \<Rightarrow>
        if length gs \<in> {2, 3} \<and> rest = [] then Some (join ''.'' gs) else None))"

text \<open>\<open>p in s\<close> on strings.\<close>

fun contains :: "string \<Rightarrow> string \<Rightarrow> bool" where
  "contains [] p \<longleftrightarrow> p = []"
| "contains (c # s) p \<longleftrightarrow> startswith (c # s) p \<or> contains s p"

text \<open>\<open>re.findall\<close> of runs of the characters of a class.\<close>

fun find_runs :: "(char \<Rightarrow> bool) \<Rightarrow> string \<Rightarrow> string \<Rightarrow> string list" where
  "find_runs P run [] = (if run = [] then [] else [run])"
| "find_runs P run (c # s) = (if P c then find_runs P (run @ [c]) s else (if run = [] then [] else [run]) @ find_runs P [] s)"

text \<open>\<open>x == y\<close> on values of any type: dictionaries are equal up to the order of their keys.\<close>

function py_eq :: "pyval \<Rightarrow> pyval \<Rightarrow> bool" where
  "py_eq a b = (case (a, b) of
     (PList xs, PList ys) \<Rightarrow> length xs = length ys \<and> list_all (\<lambda>(x, y). py_eq x y) (zip xs ys)
   | (PDict d, PDict e) \<Rightarrow> length d = length e \<and>
       list_all (\<lambda>(k, v). case map_of e k of None \<Rightarrow> False | Some w \<Rightarrow> py_eq v w) d
   | _ \<Rightarrow> py_eq_scalar a b)"
  by pat_completeness auto
termination
  by (relation "measure (size \<circ> fst)") (auto dest!: set_zip_leftD size_mem_list_less size_dict_item_less)

declare py_eq.simps [simp del]

section \<open>Addresses\<close>

definition scheme_char :: "char \<Rightarrow> bool" where
  "scheme_char c \<longleftrightarrow> is_alnum c \<or> c \<in> set ''+-.''"

text \<open>The part after the last occurrence of a character, the whole text without one.\<close>

definition after_last :: "char \<Rightarrow> string \<Rightarrow> string" where
  "after_last c s = last (split_on c s)"

definition url_hostname :: "string \<Rightarrow> string option" where
  "url_hostname netloc =
     (let host = takeWhile (\<lambda>c. c \<noteq> CHR '':'') (after_last (CHR ''@'') netloc) in
      if host = [] then None
      else Some (lower (takeWhile (\<lambda>c. c \<noteq> CHR ''%'') host) @ dropWhile (\<lambda>c. c \<noteq> CHR ''%'') host))"

text \<open>Scheme and host name. A bracketed host is an IP literal or an error; both are raised here, since no source
  accepts an IP literal.\<close>

definition urlparse :: "string \<Rightarrow> (string \<times> string option) result" where
  "urlparse raw =
     (let url = filter (\<lambda>c. c \<notin> {CHR 0x09, CHR 0x0A, CHR 0x0D}) (dropWhile (\<lambda>c. (of_char c :: nat) \<le> 32) raw);
          prefix = takeWhile (\<lambda>c. c \<noteq> CHR '':'') url;
          has_scheme = (prefix \<noteq> [] \<and> length prefix < length url \<and> (is_lower_az (hd url) \<or> is_upper_az (hd url)) \<and> list_all scheme_char prefix);
          scheme = (if has_scheme then lower prefix else []);
          rest = (if has_scheme then drop (length prefix + 1) url else url);
          netloc = (if startswith rest ''//'' then takeWhile (\<lambda>c. c \<notin> set ''/?#'') (drop 2 rest) else [])
      in if CHR ''['' \<in> set netloc \<or> CHR '']'' \<in> set netloc then Inl (ValueError ''Invalid IPv6 URL'')
         else Inr (scheme, url_hostname netloc))"

definition https_host :: "string list \<Rightarrow> string \<Rightarrow> bool result" where
  "https_host hosts url = rbind (urlparse url) (\<lambda>(scheme, host). Inr (scheme = ''https'' \<and> host \<in> Some ` set hosts))"

end
