(* ===== verification/Target_Contract.thy ===== *)
theory Target_Contract
  imports Py_Text
begin

text \<open>
  The semantics of target coordinates (\<^verbatim>\<open>target_contract.py\<close>): which Minecraft versions use native names, whether
  mappings apply, the least Java version, and the checks of a provider's receipt. A receipt is a mapping of values;
  \<open>TargetContract\<close> is the mapping of its fields, in their order. Conversion of more digits than Python's limit is
  not modelled.
\<close>

section \<open>Versions\<close>

definition target_error :: "string \<Rightarrow> pyerr" where
  "target_error msg = ValueError msg"

definition text_of :: "pyval \<Rightarrow> string" where
  "text_of v = (if v = PNone then [] else strip (py_str v))"

definition minecraft_version_tuple :: "pyval \<Rightarrow> int list result" where
  "minecraft_version_tuple v = (case dotted (text_of v) of (gs, rest) \<Rightarrow>
     if length gs \<in> {2, 3} \<and> version_suffix rest then Inr (map (digits_value 0) gs)
     else Inl (target_error ''TARGET_MINECRAFT_VERSION''))"

text \<open>\<open>version[:2] >= (26, 1)\<close>: tuples compare like lists.\<close>

definition native_version :: "int list \<Rightarrow> bool" where
  "native_version version \<longleftrightarrow> take 2 version \<ge> [26, 1]"

definition uses_native_names :: "pyval \<Rightarrow> bool result" where
  "uses_native_names v = rbind (minecraft_version_tuple v) (\<lambda>version. Inr (native_version version))"

definition mappings_applicable :: "pyval \<Rightarrow> bool result" where
  "mappings_applicable v = rbind (uses_native_names v) (\<lambda>native. Inr (\<not> native))"

definition minimum_java_major :: "pyval \<Rightarrow> int option result" where
  "minimum_java_major v = rbind (minecraft_version_tuple v) (\<lambda>version. Inr
     (if native_version version then Some 25
      else if version \<noteq> [] \<and> hd version = 1 \<and> take 3 (version @ replicate (3 - length version) 0) \<ge> [1, 20, 5] then Some 21
      else None))"

section \<open>Coordinates\<close>

text \<open>The mapping aliases of a receipt must agree.\<close>

definition mapping_aliases :: "pydict \<Rightarrow> string list" where
  "mapping_aliases target =
     (case dget target ''mappings'' of PNone \<Rightarrow> [] | PDict m \<Rightarrow> [text_of (dget m ''version'')] | raw \<Rightarrow> [text_of raw])
     @ map (\<lambda>k. text_of (dget target k)) (filter (has_key target) [''mappings_version'', ''yarn_mappings''])"

definition mapping_value :: "pydict \<Rightarrow> string result" where
  "mapping_value target =
     (let values = mapping_aliases target in
      if 1 < card (set values) then Inl (target_error ''TARGET_MAPPINGS_ALIAS'')
      else Inr (case values of [] \<Rightarrow> [] | v # _ \<Rightarrow> v))"

record TargetCoordinates =
  co_minecraft_version :: string
  co_loader :: string
  co_mappings :: string
  co_mappings_applicable :: bool
  co_naming_regime :: string
  co_minimum_java_major :: "int option"

definition validate_target_coordinates :: "pyval \<Rightarrow> pyval \<Rightarrow> string \<Rightarrow> pyval \<Rightarrow> TargetCoordinates result" where
  "validate_target_coordinates minecraft_version loader mappings declared =
     (let version = text_of minecraft_version; loader_id = casefold (text_of loader); mapping = strip mappings in
      if version = [] then Inl (target_error ''TARGET_MINECRAFT_VERSION'')
      else if loader_id = [] then Inl (target_error ''TARGET_LOADER'')
      else rbind (mappings_applicable (PStr version)) (\<lambda>applicable.
        if declared \<noteq> PNone \<and> declared \<noteq> PBool applicable then Inl (target_error ''TARGET_MAPPINGS_APPLICABLE'')
        else if applicable \<and> mapping = [] then Inl (target_error ''TARGET_MAPPINGS_REQUIRED'')
        else if \<not> applicable \<and> mapping \<noteq> [] then Inl (target_error ''TARGET_MAPPINGS_INAPPLICABLE'')
        else rbind (minimum_java_major (PStr version)) (\<lambda>java.
          Inr \<lparr>co_minecraft_version = version, co_loader = loader_id, co_mappings = mapping, co_mappings_applicable = applicable,
               co_naming_regime = (if applicable then ''mapped_obfuscated'' else ''native_unobfuscated''),
               co_minimum_java_major = java\<rparr>)))"

definition declared_applicability :: "pydict \<Rightarrow> pyval" where
  "declared_applicability target =
     (let top = (if has_key target ''mappings_applicable'' then dget target ''mappings_applicable'' else PNone) in
      case dget target ''naming_regime'' of
        PDict regime \<Rightarrow> if has_key regime ''mappings_applicable'' then dget regime ''mappings_applicable'' else top
      | _ \<Rightarrow> top)"

definition target_coordinates_from_mapping :: "pydict \<Rightarrow> TargetCoordinates result" where
  "target_coordinates_from_mapping target =
     rbind (mapping_value target) (\<lambda>mapping.
     validate_target_coordinates (dget target ''minecraft_version'') (dget target ''loader'') mapping (declared_applicability target))"

definition mapping_kinds :: "pydict \<Rightarrow> string list" where
  "mapping_kinds target =
     (case dget target ''mappings'' of PDict m \<Rightarrow> if has_key m ''kind'' then [casefold (text_of (dget m ''kind''))] else [] | _ \<Rightarrow> [])
     @ (if has_key target ''mappings_kind'' then [casefold (text_of (dget target ''mappings_kind''))] else [])"

definition target_symbol_namespace :: "pydict \<Rightarrow> string result" where
  "target_symbol_namespace target =
     rbind (target_coordinates_from_mapping target) (\<lambda>co.
     (let kinds = mapping_kinds target; kind = (case kinds of [] \<Rightarrow> [] | k # _ \<Rightarrow> k) in
      if 1 < card (set kinds) then Inl (target_error ''TARGET_MAPPINGS_ALIAS'')
      else if \<not> co_mappings_applicable co then
        (if kind \<noteq> [] then Inl (target_error ''TARGET_MAPPINGS_INAPPLICABLE'') else Inr ''OFFICIAL'')
      else (case map_of [(''mojang'', ''OFFICIAL''), (''yarn'', ''NAMED'')] kind of
          None \<Rightarrow> Inl (target_error ''TARGET_MAPPINGS_KIND'')
        | Some namespace \<Rightarrow>
            if kind = ''mojang'' \<and> co_mappings co \<noteq> ''mojang'' then Inl (target_error ''Mojang mappings must use canonical mappings_version='')
            else Inr namespace)))"

section \<open>Complete targets\<close>

definition BASE_REQUIRED_TARGET_FIELDS :: "string list" where
  "BASE_REQUIRED_TARGET_FIELDS = [''minecraft_version'', ''loader'', ''java_version'', ''fabric_loader'', ''fabric_api'', ''fabric_loom'',
     ''gradle'', ''gradle_sha256'', ''data_pack_version'', ''resource_pack_version'', ''resource_pack_format'', ''release_metadata_url'']"

definition LEGACY_MAPPING_FIELDS :: "string list" where
  "LEGACY_MAPPING_FIELDS = [''mappings_kind'', ''mappings_version'']"

definition is_unresolved_value :: "pyval \<Rightarrow> bool" where
  "is_unresolved_value v \<longleftrightarrow> text_of v = [] \<or> casefold (text_of v) = ''unresolved''"

definition required_target_fields :: "pydict \<Rightarrow> string list result" where
  "required_target_fields co =
     (let version = dget co ''minecraft_version'' in
      if is_unresolved_value version then Inr BASE_REQUIRED_TARGET_FIELDS
      else rbind (mappings_applicable version) (\<lambda>required. Inr (BASE_REQUIRED_TARGET_FIELDS @ (if required then LEGACY_MAPPING_FIELDS else []))))"

text \<open>\<^verbatim>\<open>[0-9]+(?:\.[0-9]+)?\<close>\<close>

definition pack_version_match :: "string \<Rightarrow> bool" where
  "pack_version_match s \<longleftrightarrow> (case dotted s of (gs, rest) \<Rightarrow> length gs \<in> {1, 2} \<and> rest = [])"

definition release_prefixes :: "string list" where
  "release_prefixes = [''https://www.minecraft.net/'', ''https://feedback.minecraft.net/'', ''https://piston-meta.mojang.com/'',
     ''https://launcher.mojang.com/'']"

text \<open>\<open>java.isdigit()\<close>; the superscript digits of Latin-1 also satisfy it, and \<open>int\<close> then raises.\<close>

definition java_too_old :: "int option \<Rightarrow> string \<Rightarrow> bool" where
  "java_too_old minimum java = (case minimum of None \<Rightarrow> False | Some m \<Rightarrow> \<not> all_digits java \<or> digits_value 0 java < m)"

definition complete_mappings :: "pydict \<Rightarrow> TargetCoordinates \<Rightarrow> pydict option result" where
  "complete_mappings co canonical =
     (if \<not> co_mappings_applicable canonical then Inr None
      else (let kind = casefold (text_of (dget co ''mappings_kind'')); version = text_of (dget co ''mappings_version'') in
        if kind \<notin> {''mojang'', ''yarn''} then Inl (target_error ''TARGET_MAPPINGS_KIND'')
        else if co_mappings canonical \<noteq> version then Inl (target_error ''TARGET_MAPPINGS_ALIAS'')
        else if kind = ''mojang'' \<and> version \<noteq> ''mojang'' then Inl (target_error ''Mojang mappings must use canonical mappings_version='')
        else Inr (Some [(''kind'', PStr kind), (''version'', PStr (co_mappings canonical))])))"

definition pack_checks :: "pydict \<Rightarrow> int result" where
  "pack_checks co =
     (let data_pack = text_of (dget co ''data_pack_version''); resource_pack = text_of (dget co ''resource_pack_version'') in
      if \<not> hex64_match (casefold (text_of (dget co ''gradle_sha256''))) then Inl (target_error ''TARGET_GRADLE_RECEIPT'')
      else if \<not> pack_version_match data_pack then Inl (target_error ''TARGET_DATA_PACK_VERSION'')
      else if \<not> pack_version_match resource_pack then Inl (target_error ''TARGET_RESOURCE_PACK_VERSION'')
      else (case dget co ''resource_pack_format'' of
          PInt fmt \<Rightarrow>
            if fmt \<le> 0 then Inl (target_error ''TARGET_RESOURCE_PACK_FORMAT'')
            else if fmt \<noteq> digits_value 0 (hd (split_on (CHR ''.'') resource_pack)) then Inl (target_error ''TARGET_RESOURCE_PACK_FORMAT'')
            else if \<not> list_ex (startswith (text_of (dget co ''release_metadata_url''))) release_prefixes
              then Inl (target_error ''TARGET_PACK_PROVENANCE'')
            else Inr fmt
        | _ \<Rightarrow> Inl (target_error ''TARGET_RESOURCE_PACK_FORMAT'')))"

definition without :: "string list \<Rightarrow> pydict \<Rightarrow> pydict" where
  "without ks d = filter (\<lambda>(k, _). k \<notin> set ks) d"

definition naming_regime_dict :: "string \<Rightarrow> bool \<Rightarrow> pyval \<Rightarrow> pyval" where
  "naming_regime_dict kind applicable version =
     PDict [(''kind'', PStr kind), (''mappings_applicable'', PBool applicable), (''minecraft_version'', version)]"

definition validate_complete_target :: "pydict \<Rightarrow> pydict result" where
  "validate_complete_target co =
     rbind (required_target_fields co) (\<lambda>required.
     if list_ex (\<lambda>f. is_unresolved_value (dget co f)) required then Inl (target_error ''TARGET_GROUNDING_INCOMPLETE'')
     else rbind (target_coordinates_from_mapping co) (\<lambda>canonical.
     if java_too_old (co_minimum_java_major canonical) (text_of (dget co ''java_version'')) then Inl (target_error ''requires Java'')
     else rbind (complete_mappings co canonical) (\<lambda>receipt.
     rbind (pack_checks co) (\<lambda>fmt.
       (let base = (case receipt of
              None \<Rightarrow> without (LEGACY_MAPPING_FIELDS @ [''yarn_mappings'', ''mappings'']) co
            | Some m \<Rightarrow> AList.update ''mappings'' (PDict m) co) in
        Inr (fold (\<lambda>(k, v) d. AList.update k v d)
          [(''naming_regime'', naming_regime_dict (co_naming_regime canonical) (co_mappings_applicable canonical) (PStr (co_minecraft_version canonical))),
           (''pack_versions'', PDict [(''data'', PStr (text_of (dget co ''data_pack_version''))),
              (''resource'', PStr (text_of (dget co ''resource_pack_version''))), (''resource_major'', PInt fmt)]),
           (''target_schema_version'', PStr ''3'')] base))))))"

section \<open>Target contracts\<close>

definition TARGET_FIELDS :: "string list" where
  "TARGET_FIELDS = [''adapter_id'', ''edition'', ''loader'', ''minecraft_version'', ''java_version'', ''yarn_mappings'', ''mappings_kind'',
     ''mappings_version'', ''fabric_loader'', ''fabric_api'', ''fabric_loom'', ''gradle'', ''gradle_sha256'', ''data_pack_version'',
     ''resource_pack_version'', ''resource_pack_format'', ''release_metadata_url'', ''source_api_family'', ''deterministic_module_kinds'',
     ''host_facts_json'']"

definition validate_contract :: "pydict \<Rightarrow> unit result" where
  "validate_contract c =
     rbind (validate_complete_target c) (\<lambda>_.
     if list_ex (\<lambda>f. is_unresolved_value (dget c f)) [''adapter_id'', ''edition'', ''source_api_family'']
     then Inl (target_error ''TARGET_PROVIDER: missing'') else Inr ())"

definition gradle_distribution_url :: "string \<Rightarrow> string" where
  "gradle_distribution_url gradle = ''https://services.gradle.org/distributions/gradle-'' @ gradle @ ''-bin.zip''"

text \<open>\<open>public_dict\<close>; the frozen set of kinds is the sorted list of its elements already.\<close>

definition public_dict :: "pydict \<Rightarrow> pydict result" where
  "public_dict c =
     rbind (validate_contract c) (\<lambda>_.
     rbind (mappings_applicable (dget c ''minecraft_version'')) (\<lambda>applicable.
       (let v = AList.update ''gradle_distribution_url'' (PStr (gradle_distribution_url (py_str (dget c ''gradle'')))) c;
            v' = (if applicable then AList.update ''mappings'' (PDict [(''kind'', dget c ''mappings_kind''), (''version'', dget c ''mappings_version'')]) v
                  else without [''yarn_mappings'', ''mappings_kind'', ''mappings_version''] v) in
        Inr (v' @ [(''naming_regime'', naming_regime_dict (if applicable then ''mapped_obfuscated'' else ''native_unobfuscated'') applicable
                      (dget c ''minecraft_version'')),
                   (''pack_versions'', PDict [(''data'', dget c ''data_pack_version''), (''resource'', dget c ''resource_pack_version''),
                      (''resource_major'', dget c ''resource_pack_format'')])]))))"

text \<open>The elements of \<open>frozenset(value)\<close> in order, for a value whose elements are strings.\<close>

definition frozen_strings :: "pyval \<Rightarrow> pyval result" where
  "frozen_strings v = (case v of
     PList xs \<Rightarrow> rbind (mapM (\<lambda>x. case x of PStr s \<Rightarrow> Inr s | _ \<Rightarrow> Inl (TypeError ''unhashable or unordered element'')) xs)
       (\<lambda>ss. Inr (PList (map PStr (sorted_set ss))))
   | PStr s \<Rightarrow> Inr (PList (map PStr (sorted_set (map (\<lambda>c. [c]) s))))
   | PDict d \<Rightarrow> Inr (PList (map PStr (sorted_set (keys d))))
   | _ \<Rightarrow> Inl (TypeError ''object is not iterable''))"

definition setdefault :: "string \<Rightarrow> pyval \<Rightarrow> pydict \<Rightarrow> pydict" where
  "setdefault k v d = (if has_key d k then d else d @ [(k, v)])"

definition contract_fields :: "pydict \<Rightarrow> pydict result" where
  "contract_fields raw =
     (if list_ex (\<lambda>f. f \<noteq> ''host_facts_json'' \<and> \<not> has_key raw f) TARGET_FIELDS then Inl (target_error ''TARGET_RECEIPT: incomplete provider receipt'')
      else Inr (map (\<lambda>f. (f, if has_key raw f then dget raw f else PStr [])) TARGET_FIELDS))"

definition target_contract_from_mapping :: "pydict \<Rightarrow> pydict result" where
  "target_contract_from_mapping value =
     rbind (target_coordinates_from_mapping value) (\<lambda>co.
     (let raw0 = map (\<lambda>f. (f, dget value f)) (filter (has_key value) TARGET_FIELDS);
          kind = (case dget value ''mappings'' of
              PDict m \<Rightarrow> if has_key m ''kind'' then dget m ''kind'' else PStr []
            | _ \<Rightarrow> if has_key value ''mappings_kind'' then dget value ''mappings_kind'' else PStr []);
          raw1 = setdefault ''yarn_mappings'' (PStr (co_mappings co)) (setdefault ''mappings_version'' (PStr (co_mappings co))
            (setdefault ''mappings_kind'' kind raw0)) in
      rbind (frozen_strings (if has_key raw1 ''deterministic_module_kinds'' then dget raw1 ''deterministic_module_kinds'' else PList [])) (\<lambda>kinds.
      rbind (contract_fields (AList.update ''deterministic_module_kinds'' kinds raw1)) (\<lambda>contract.
      rbind (validate_contract contract) (\<lambda>_.
      rbind (public_dict contract) (\<lambda>canonical.
      if list_ex (\<lambda>k. has_key value k \<and> \<not> py_eq (dget value k) (dget canonical k)) [''naming_regime'', ''pack_versions'', ''mappings'']
      then Inl (target_error ''TARGET_RECEIPT: contradictory'') else Inr contract))))))"

end
