(* ===== verification/Evidence_Catalog.thy ===== *)
theory Evidence_Catalog
  imports Py_Text
begin

text \<open>
  The trusted evidence of a proposal (\<^verbatim>\<open>knowledge.py\<close>, \<open>EvidenceSource\<close> of \<^verbatim>\<open>spec.py\<close>): a catalogue of official
  sources owned by the code, the check that a proposal cites exactly such sources, their snapshot hash, and the
  selection of sources for a query.
\<close>

section \<open>Sources\<close>

record EvidenceSource =
  es_source_id :: string
  es_title :: string
  es_url :: string
  es_authority :: string
  es_version_scope :: string
  es_verified_on :: string
  es_trust_tier :: string
  es_retrieval_policy :: string
  es_record_sha256 :: string

definition asdict_source :: "EvidenceSource \<Rightarrow> pydict" where
  "asdict_source s = [(''source_id'', PStr (es_source_id s)), (''title'', PStr (es_title s)), (''url'', PStr (es_url s)),
     (''authority'', PStr (es_authority s)), (''version_scope'', PStr (es_version_scope s)), (''verified_on'', PStr (es_verified_on s)),
     (''trust_tier'', PStr (es_trust_tier s)), (''retrieval_policy'', PStr (es_retrieval_policy s)),
     (''record_sha256'', PStr (es_record_sha256 s))]"

definition OFFICIAL_EVIDENCE_HOSTS :: "string list" where
  "OFFICIAL_EVIDENCE_HOSTS = [''docs.fabricmc.net'', ''fabricmc.net'', ''maven.fabricmc.net'', ''meta.fabricmc.net'']"

record CatalogRecord =
  cr_source_id :: string
  cr_title :: string
  cr_url :: string
  cr_authority :: string
  cr_version_scope :: string
  cr_verified_on :: string
  cr_minecraft_versions :: "string list"
  cr_topics :: "string list"

definition catalog_record :: "string \<Rightarrow> string \<Rightarrow> string \<Rightarrow> string \<Rightarrow> string \<Rightarrow> string list \<Rightarrow> CatalogRecord" where
  "catalog_record i t u a v topics = \<lparr>cr_source_id = i, cr_title = t, cr_url = u, cr_authority = a, cr_version_scope = v,
     cr_verified_on = ''2026-08-12'', cr_minecraft_versions = [''*''], cr_topics = topics\<rparr>"

definition CATALOG_RECORDS :: "CatalogRecord list" where
  "CATALOG_RECORDS = [
     catalog_record ''fabric-project-creation'' ''Fabric Documentation - Creating a Project''
       ''https://docs.fabricmc.net/develop/getting-started/creating-a-project'' ''Fabric official documentation''
       ''Version-selected Fabric documentation; exact coordinates are frozen by the live platform receipt''
       [''project'', ''structure'', ''version'', ''fabric'', ''loom'', ''gradle''],
     catalog_record ''fabric-building'' ''Fabric Documentation - Building a Mod''
       ''https://docs.fabricmc.net/develop/getting-started/building-a-mod'' ''Fabric official documentation''
       ''Version-selected Gradle/JAR guidance'' [''build'', ''gradle'', ''jar'', ''artifact'', ''fabric''],
     catalog_record ''fabric-data-generation'' ''Fabric Documentation - Data Generation Setup''
       ''https://docs.fabricmc.net/develop/data-generation/setup'' ''Fabric official documentation''
       ''Version-selected data-generation guidance'' [''data'', ''generation'', ''recipe'', ''model'', ''loot'', ''tag'', ''resource''],
     catalog_record ''fabric-automatic-testing'' ''Fabric Documentation - Automated Testing''
       ''https://docs.fabricmc.net/develop/automatic-testing'' ''Fabric official documentation''
       ''Version-selected GameTest guidance'' [''test'', ''gametest'', ''entity'', ''runtime'', ''server''],
     catalog_record ''fabric-mod-json'' ''Fabric Documentation - fabric.mod.json''
       ''https://docs.fabricmc.net/develop/loader/fabric-mod-json'' ''Fabric official documentation''
       ''Fabric Loader metadata contract for the selected documentation version''
       [''metadata'', ''fabric.mod.json'', ''loader'', ''entrypoint'', ''dependency''],
     catalog_record ''fabric-develop-live'' ''Fabric Develop - Latest Versions''
       ''https://fabricmc.net/develop/'' ''Fabric official website''
       ''Live recommended Loader, Loom and Fabric API coordinates'' [''version'', ''loader'', ''loom'', ''fabric'', ''api'', ''latest''],
     catalog_record ''fabric-meta'' ''Fabric Meta API''
       ''https://meta.fabricmc.net/'' ''Fabric official API''
       ''Live game, loader and mapping metadata'' [''version'', ''loader'', ''mapping'', ''metadata'', ''api''],
     catalog_record ''fabric-api-maven'' ''Fabric API Maven repository''
       ''https://maven.fabricmc.net/net/fabricmc/fabric-api/fabric-api/'' ''Fabric official Maven repository''
       ''Live Fabric API artifacts for the selected Minecraft target'' [''dependency'', ''maven'', ''fabric'', ''api'', ''artifact'', ''version'']]"

definition applies :: "CatalogRecord \<Rightarrow> string option \<Rightarrow> bool" where
  "applies r version = (case version of
     None \<Rightarrow> ''*'' \<in> set (cr_minecraft_versions r)
   | Some v \<Rightarrow> ''*'' \<in> set (cr_minecraft_versions r) \<or> v \<in> set (cr_minecraft_versions r))"

definition record_payload :: "CatalogRecord \<Rightarrow> pydict" where
  "record_payload r = [(''source_id'', PStr (cr_source_id r)), (''title'', PStr (cr_title r)), (''url'', PStr (cr_url r)),
     (''authority'', PStr (cr_authority r)), (''version_scope'', PStr (cr_version_scope r)), (''verified_on'', PStr (cr_verified_on r)),
     (''minecraft_versions'', PList (map PStr (cr_minecraft_versions r))), (''topics'', PList (map PStr (cr_topics r))),
     (''trust_tier'', PStr ''official_primary''), (''retrieval_policy'', PStr ''data_only'')]"

definition record_sha256 :: "runtime \<Rightarrow> CatalogRecord \<Rightarrow> string" where
  "record_sha256 rt r = hash_json rt (PDict (record_payload r))"

definition as_evidence :: "runtime \<Rightarrow> CatalogRecord \<Rightarrow> EvidenceSource" where
  "as_evidence rt r = \<lparr>es_source_id = cr_source_id r, es_title = cr_title r, es_url = cr_url r, es_authority = cr_authority r,
     es_version_scope = cr_version_scope r, es_verified_on = cr_verified_on r, es_trust_tier = ''official_primary'',
     es_retrieval_policy = ''data_only'', es_record_sha256 = record_sha256 rt r\<rparr>"

definition evidence_catalog_for_version :: "runtime \<Rightarrow> string \<Rightarrow> EvidenceSource list result" where
  "evidence_catalog_for_version rt minecraft_version =
     (let version = strip minecraft_version; sources = map (as_evidence rt) (filter (\<lambda>r. applies r (Some version)) CATALOG_RECORDS) in
      if version = [] then Inl (SpecValidationError ''Minecraft version is required for target-bound evidence selection.'')
      else if sources = [] then Inl (SpecValidationError ''No official evidence applies.'')
      else Inr sources)"

definition target_neutral_evidence_catalog :: "runtime \<Rightarrow> EvidenceSource list result" where
  "target_neutral_evidence_catalog rt =
     (let sources = map (as_evidence rt) (filter (\<lambda>r. applies r None) CATALOG_RECORDS) in
      if sources = [] then Inl (SpecValidationError ''No target-neutral official evidence is configured.'') else Inr sources)"

definition trusted_by_id :: "string \<Rightarrow> CatalogRecord option" where
  "trusted_by_id i = map_of (rev (map (\<lambda>r. (cr_source_id r, r)) CATALOG_RECORDS)) i"

section \<open>Selection\<close>

definition term_char :: "char \<Rightarrow> bool" where
  "term_char c \<longleftrightarrow> is_lower_az c \<or> is_digit c \<or> c \<in> set ''_.-''"

definition search_terms :: "string \<Rightarrow> string list" where
  "search_terms s = find_runs term_char [] (lower s)"

text \<open>\<open>AuthoritativeEvidenceRetriever.search\<close> with an integer limit.\<close>

definition rank_of :: "string list \<Rightarrow> CatalogRecord \<Rightarrow> int" where
  "rank_of terms r = - int (card (set terms \<inter> set (cr_topics r @ search_terms (cr_title r))))"

definition search_evidence :: "runtime \<Rightarrow> string \<Rightarrow> string option \<Rightarrow> int \<Rightarrow> EvidenceSource list result" where
  "search_evidence rt query version limit =
     (let available = filter (\<lambda>r. applies r version) CATALOG_RECORDS; terms = search_terms query in
      if limit < 1 then Inl (SpecValidationError ''Evidence search limit must be a positive integer.'')
      else if available = [] then Inr []
      else Inr (take (min (nat limit) (length available))
        (map (as_evidence rt) (sort_key (rank_of terms) (sort_key cr_source_id available)))))"

section \<open>Trust\<close>

definition trusted_source :: "runtime \<Rightarrow> string option \<Rightarrow> string list \<Rightarrow> EvidenceSource \<Rightarrow> string list result" where
  "trusted_source rt version seen s =
     (if es_source_id s \<in> set seen then Inl (SpecValidationError ''Duplicate evidence source'')
      else rbind (https_host OFFICIAL_EVIDENCE_HOSTS (es_url s)) (\<lambda>official.
        if \<not> official then Inl (SpecValidationError ''Evidence source host is not on the official allowlist'')
        else if es_retrieval_policy s \<noteq> ''data_only'' then Inl (SpecValidationError ''Retrieved evidence must use the data_only policy.'')
        else if es_trust_tier s \<noteq> ''official_primary'' then Inl (SpecValidationError ''Evidence is not in the official_primary trust tier.'')
        else (case trusted_by_id (es_source_id s) of
            None \<Rightarrow> Inl (SpecValidationError ''Evidence source is not an exact code-owned official record'')
          | Some r \<Rightarrow>
              if s \<noteq> as_evidence rt r then Inl (SpecValidationError ''Evidence source is not an exact code-owned official record'')
              else if version \<noteq> None \<and> \<not> applies r version then Inl (SpecValidationError ''Evidence does not apply'')
              else Inr (es_source_id s # seen))))"

definition validate_trusted_evidence :: "runtime \<Rightarrow> EvidenceSource list \<Rightarrow> string option \<Rightarrow> unit result" where
  "validate_trusted_evidence rt sources version =
     (if sources = [] then Inl (SpecValidationError ''At least one authoritative evidence source is required.'')
      else rbind (foldM (trusted_source rt version) [] sources) (\<lambda>_. Inr ()))"

definition evidence_snapshot_hash :: "runtime \<Rightarrow> EvidenceSource list \<Rightarrow> string result" where
  "evidence_snapshot_hash rt sources =
     rbind (validate_trusted_evidence rt sources None) (\<lambda>_.
     Inr (hash_json rt (PList (map (\<lambda>s. PDict (asdict_source s)) (sort_key es_source_id sources)))))"

section \<open>Evidence of a target\<close>

text \<open>The loop over the ranked sources: a source whose identifier is taken is not replaced, and the loop stops once
  enough are selected.\<close>

fun add_ranked :: "nat \<Rightarrow> (string \<times> EvidenceSource) list \<Rightarrow> EvidenceSource list \<Rightarrow> (string \<times> EvidenceSource) list" where
  "add_ranked n selected [] = selected"
| "add_ranked n selected (s # ranked) =
     (let selected' = (if es_source_id s \<in> set (keys selected) then selected else selected @ [(es_source_id s, s)]) in
      if n \<le> length selected' then selected' else add_ranked n selected' ranked)"

definition ranked_core_plus_topical ::
    "runtime \<Rightarrow> string \<Rightarrow> EvidenceSource list \<Rightarrow> string option \<Rightarrow> string list \<Rightarrow> nat \<Rightarrow> EvidenceSource list result" where
  "ranked_core_plus_topical rt query catalog version core_ids max_sources =
     (let core = foldl (\<lambda>d s. AList.update (es_source_id s) s d) [] (filter (\<lambda>s. es_source_id s \<in> set core_ids) catalog) in
      rbind (search_evidence rt query version (int (length catalog))) (\<lambda>ranked.
      Inr (map snd (sort_key fst (add_ranked (min max_sources (length catalog)) core ranked)))))"

definition CORE_IDS :: "string list" where
  "CORE_IDS = [''fabric-project-creation'', ''fabric-building'', ''fabric-mod-json'', ''fabric-meta'', ''fabric-api-maven'']"

definition evidence_for_target :: "runtime \<Rightarrow> string option \<Rightarrow> string \<Rightarrow> EvidenceSource list result" where
  "evidence_for_target rt query minecraft_version =
     rbind (evidence_catalog_for_version rt minecraft_version) (\<lambda>catalog.
     case query of
       None \<Rightarrow> Inr catalog
     | Some q \<Rightarrow>
         rbind (ranked_core_plus_topical rt q catalog (Some minecraft_version) CORE_IDS 6) (\<lambda>sources.
         rbind (validate_trusted_evidence rt sources (Some minecraft_version)) (\<lambda>_. Inr sources)))"

definition evidence_for_mvp :: "runtime \<Rightarrow> string option \<Rightarrow> EvidenceSource list result" where
  "evidence_for_mvp rt query =
     rbind (target_neutral_evidence_catalog rt) (\<lambda>catalog.
     case query of None \<Rightarrow> Inr catalog | Some q \<Rightarrow> search_evidence rt q None (int (min (length catalog) 4)))"

end
