(* ===== verification/Backend_Contract.thy ===== *)
theory Backend_Contract
  imports Py_Json
begin

text \<open>
  The reviewed production backends (\<^verbatim>\<open>platform_backend_contract.py\<close>) and the operational resource
  policy (\<^verbatim>\<open>scale_policy.py\<close>). A frozenset of strings is a HOL set; the tables keep the order of the
  source.
\<close>

section \<open>Tables\<close>

definition EXTENDED_CONTENT_KINDS :: "string list" where
  "EXTENDED_CONTENT_KINDS = [''item'', ''block'', ''tool'', ''weapon'', ''armor'', ''food'', ''crop'', ''machine'',
     ''block_entity'', ''effect'', ''enchantment'', ''command'', ''recipe'', ''advancement'', ''loot'', ''tag'']"

definition SYSTEM_KIND_TO_PACK :: "(string \<times> string) list" where
  "SYSTEM_KIND_TO_PACK = [(''quest'', ''quest-system''), (''class'', ''class-skill-system''),
     (''skill'', ''class-skill-system''), (''economy'', ''economy-shop''), (''shop'', ''economy-shop''),
     (''gui'', ''gui-networking''), (''networking'', ''gui-networking''), (''party'', ''party-guild''),
     (''guild'', ''party-guild'')]"

definition SYSTEM_PACK_KINDS :: "(string \<times> string list) list" where
  "SYSTEM_PACK_KINDS = [(''quest-system'', [''quest'']), (''class-skill-system'', [''class'', ''skill'']),
     (''economy-shop'', [''economy'', ''shop'']), (''gui-networking'', [''gui'', ''networking'']),
     (''party-guild'', [''party'', ''guild''])]"

definition ENTITY_PIPELINE_KINDS :: "string list" where
  "ENTITY_PIPELINE_KINDS = [''entity'', ''boss'', ''npc'']"

definition DEFAULT_GECKOLIB_VERSION :: string where
  "DEFAULT_GECKOLIB_VERSION = ''4.8.2''"

definition LOCAL_AI_SIDECAR_INTEGRATION_TYPE :: string where
  "LOCAL_AI_SIDECAR_INTEGRATION_TYPE = ''mmm_local_ai_sidecar''"

definition RESEARCH_SHARD_INTEGRATION_TYPE :: string where
  "RESEARCH_SHARD_INTEGRATION_TYPE = ''mmm_research_shard''"

definition NATIVE_PRODUCTION_STAGE_BY_KIND :: "(string \<times> string) list" where
  "NATIVE_PRODUCTION_STAGE_BY_KIND =
     map (\<lambda>k. (k, ''content'')) EXTENDED_CONTENT_KINDS
     @ map (\<lambda>k. (k, ''system'')) (keys SYSTEM_KIND_TO_PACK)
     @ map (\<lambda>k. (k, ''entity'')) ENTITY_PIPELINE_KINDS @ [(''typed_host'', ''host'')]"

definition NATIVE_INTEGRATION_STAGE_BY_TYPE :: "(string \<times> string) list" where
  "NATIVE_INTEGRATION_STAGE_BY_TYPE = [(LOCAL_AI_SIDECAR_INTEGRATION_TYPE, ''content''),
     (RESEARCH_SHARD_INTEGRATION_TYPE, ''content'')]"

section \<open>Routes and capabilities\<close>

definition native_production_stage :: "string \<Rightarrow> pydict \<Rightarrow> string option" where
  "native_production_stage kind config =
     (let normalized = strip kind
      in case map_of NATIVE_PRODUCTION_STAGE_BY_KIND normalized of
           Some stage \<Rightarrow> Some stage
         | None \<Rightarrow>
             if normalized \<noteq> ''integration'' then None
             else map_of NATIVE_INTEGRATION_STAGE_BY_TYPE (strip (str_or_empty (dget config ''integration_type''))))"

definition native_production_route_available :: "string \<Rightarrow> pydict \<Rightarrow> bool" where
  "native_production_route_available kind config \<longleftrightarrow> native_production_stage kind config \<noteq> None"

text \<open>The strings a value yields when it is iterated over and each element passed to \<open>str\<close>.\<close>

fun iter_strs :: "pyval \<Rightarrow> string list result" where
  "iter_strs (PList xs) = Inr (map py_str xs)"
| "iter_strs (PStr s) = Inr (map (\<lambda>c. [c]) s)"
| "iter_strs (PDict d) = Inr (keys d)"
| "iter_strs _ = Inl (TypeError ''object is not iterable'')"

definition normalize_capabilities :: "pyval \<Rightarrow> string set result" where
  "normalize_capabilities values =
     (if values = PNone then Inr {}
      else rbind (iter_strs values) (\<lambda>xs. Inr (set (filter (\<lambda>s. s \<noteq> []) (map strip xs)))))"

text \<open>A target is a mapping; an adapter object is the mapping of its attributes.\<close>

definition attr_or_empty :: "pydict \<Rightarrow> string \<Rightarrow> pyval \<Rightarrow> pyval" where
  "attr_or_empty target key dflt = (if has_key target key then dget target key else dflt)"

definition deterministic_backend_capabilities :: "pydict \<Rightarrow> string set result" where
  "deterministic_backend_capabilities target =
     normalize_capabilities (attr_or_empty target ''deterministic_module_kinds'' (PList []))"

definition host_facts_invalid :: "string \<Rightarrow> pyerr" where
  "host_facts_invalid why = ValueError (''TARGET_HOST_FACTS_INVALID: '' @ why)"

fun add_capability :: "string set \<Rightarrow> string \<times> pyval \<Rightarrow> string set result" where
  "add_capability acc (name, supported) =
     (case supported of
        PBool b \<Rightarrow> Inr (if b \<and> strip name \<noteq> [] then insert (strip name) acc else acc)
      | _ \<Rightarrow> Inl (host_facts_invalid ''capability must be boolean''))"

definition target_semantic_capabilities :: "runtime \<Rightarrow> pydict \<Rightarrow> string set result" where
  "target_semantic_capabilities rt target =
     rbind (normalize_capabilities (attr_or_empty target ''deterministic_module_kinds'' (PList []))) (\<lambda>base.
     (let raw = strip (str_or_empty (attr_or_empty target ''host_facts_json'' (PStr [])))
      in if raw = [] then Inr base
         else case json_loads rt raw of
           None \<Rightarrow> Inl (host_facts_invalid ''host_facts_json is not valid JSON'')
         | Some (PDict facts) \<Rightarrow>
             (case attr_or_empty facts ''capabilities'' (PDict []) of
                PDict caps \<Rightarrow> foldM add_capability base caps
              | _ \<Rightarrow> Inl (host_facts_invalid ''capabilities must be an object''))
         | Some _ \<Rightarrow> Inl (host_facts_invalid ''host_facts_json must contain an object'')))"

definition effective_target_backend_capabilities :: "pydict \<Rightarrow> string set result" where
  "effective_target_backend_capabilities target = deterministic_backend_capabilities target"

definition system_pack_capabilities :: "string \<Rightarrow> string set" where
  "system_pack_capabilities pack_id =
     (let normalized = strip pack_id
      in case map_of SYSTEM_PACK_KINDS normalized of
           None \<Rightarrow> {}
         | Some semantic \<Rightarrow> set (semantic @ [''system-pack:'' @ normalized]))"

definition geckolib_entity_capabilities :: "string \<Rightarrow> string set" where
  "geckolib_entity_capabilities version =
     (let normalized = strip version
      in if normalized = [] then {}
         else {''entity'', ''geckolib:entity'', ''geckolib:version:'' @ normalized})"

definition production_module_backend_capabilities :: "string \<Rightarrow> string set" where
  "production_module_backend_capabilities kind =
     (let normalized = strip kind
      in if normalized \<in> set EXTENDED_CONTENT_KINDS then {normalized}
         else case map_of SYSTEM_KIND_TO_PACK normalized of
           Some pack_id \<Rightarrow> system_pack_capabilities pack_id
         | None \<Rightarrow> if normalized \<in> set ENTITY_PIPELINE_KINDS
             then geckolib_entity_capabilities DEFAULT_GECKOLIB_VERSION else {})"

definition missing_production_backend_capabilities :: "pyval \<Rightarrow> string \<Rightarrow> string set result" where
  "missing_production_backend_capabilities available kind =
     (let required = production_module_backend_capabilities kind
      in if required = {} then Inr {}
         else rbind (normalize_capabilities available) (\<lambda>caps. Inr (required - caps)))"

definition production_backend_is_supported :: "pyval \<Rightarrow> string \<Rightarrow> bool result" where
  "production_backend_is_supported available kind =
     (if production_module_backend_capabilities kind = {} then Inr False
      else rbind (missing_production_backend_capabilities available kind) (\<lambda>missing. Inr (missing = {})))"

definition bootstrap_content_capabilities :: "string \<Rightarrow> bool \<Rightarrow> string set" where
  "bootstrap_content_capabilities kind recipe =
     (let normalized = strip kind
      in if normalized = ''item'' then (if recipe then {''item'', ''recipe''} else {''item''})
         else if normalized = ''block''
           then (if recipe then {''block'', ''loot'', ''tag'', ''recipe''} else {''block'', ''loot'', ''tag''})
         else {})"

definition bootstrap_boss_capabilities :: "string set" where
  "bootstrap_boss_capabilities = {''boss'', ''item'', ''loot''}"

definition supported_extended_content_kinds :: "pyval \<Rightarrow> string set result" where
  "supported_extended_content_kinds available =
     rbind (normalize_capabilities available) (\<lambda>caps. Inr (set (filter (\<lambda>k. k \<in> caps) EXTENDED_CONTENT_KINDS)))"

section \<open>Scale policy\<close>

record ScalePolicy =
  java_shard_size :: int
  entity_shard_size :: int
  function_shard_size :: int
  world_placements_per_tick :: int
  model_context_bytes :: int
  mcp_page_bytes :: int
  max_patch_bytes :: int
  max_single_file_bytes :: int
  max_texture_dimension :: int
  repair_attempts :: int
  nbt_piece_axis :: int
  nbt_piece_volume :: int
  gradle_min_heap_mb :: int
  gradle_max_heap_mb :: int
  runtime_min_heap_mb :: int
  runtime_max_heap_mb :: int

definition env_int :: "(string \<Rightarrow> string option) \<Rightarrow> string \<Rightarrow> int \<Rightarrow> int result" where
  "env_int env name dflt =
     rbind (case env name of
              None \<Rightarrow> Inr dflt
            | Some raw \<Rightarrow> if strip raw = [] then Inr dflt else py_int (PStr raw)) (\<lambda>v.
     if v < 1 then Inl (ValueError ''must be >= minimum'') else Inr v)"

definition positive_fields :: "ScalePolicy \<Rightarrow> int list" where
  "positive_fields p = [java_shard_size p, entity_shard_size p, function_shard_size p,
     world_placements_per_tick p, model_context_bytes p, mcp_page_bytes p, max_patch_bytes p,
     max_single_file_bytes p, max_texture_dimension p, repair_attempts p, nbt_piece_axis p,
     nbt_piece_volume p, gradle_min_heap_mb p, gradle_max_heap_mb p, runtime_min_heap_mb p,
     runtime_max_heap_mb p]"

definition validate_policy :: "ScalePolicy \<Rightarrow> unit result" where
  "validate_policy p =
     (if list_ex (\<lambda>v. v < 1) (positive_fields p) then Inl (ValueError ''must be a positive integer'')
      else if gradle_min_heap_mb p > gradle_max_heap_mb p
        then Inl (ValueError ''Gradle minimum heap exceeds maximum heap'')
      else if runtime_min_heap_mb p > runtime_max_heap_mb p
        then Inl (ValueError ''Runtime minimum heap exceeds maximum heap'')
      else if nbt_piece_axis p > 48 then Inl (ValueError ''nbt_piece_axis may not exceed 48'')
      else if nbt_piece_axis p ^ 3 > nbt_piece_volume p
        then Inl (ValueError ''nbt_piece_axis creates pieces larger than nbt_piece_volume'')
      else Inr ())"

definition from_environment :: "(string \<Rightarrow> string option) \<Rightarrow> ScalePolicy result" where
  "from_environment env =
     rbind (mapM (\<lambda>(name, dflt). env_int env name dflt)
       [(''MMM_JAVA_SHARD_SIZE'', 48), (''MMM_ENTITY_SHARD_SIZE'', 24), (''MMM_FUNCTION_SHARD_SIZE'', 128),
        (''MMM_WORLD_PLACEMENTS_PER_TICK'', 4), (''MMM_MODEL_CONTEXT_BYTES'', 1500000),
        (''MMM_MCP_PAGE_BYTES'', 256 * 1024), (''MMM_MAX_PATCH_BYTES'', 32 * 1024 * 1024),
        (''MMM_MAX_SINGLE_FILE_BYTES'', 64 * 1024 * 1024), (''MMM_MAX_TEXTURE_DIMENSION'', 8192),
        (''MMM_REPAIR_ATTEMPTS'', 8), (''MMM_NBT_PIECE_AXIS'', 32), (''MMM_NBT_PIECE_VOLUME'', 32768),
        (''MMM_GRADLE_MIN_HEAP_MB'', 2048), (''MMM_GRADLE_MAX_HEAP_MB'', 12288),
        (''MMM_RUNTIME_MIN_HEAP_MB'', 3072), (''MMM_RUNTIME_MAX_HEAP_MB'', 16384)]) (\<lambda>vs.
     (let p = \<lparr>java_shard_size = vs ! 0, entity_shard_size = vs ! 1, function_shard_size = vs ! 2,
          world_placements_per_tick = vs ! 3, model_context_bytes = vs ! 4, mcp_page_bytes = vs ! 5,
          max_patch_bytes = vs ! 6, max_single_file_bytes = vs ! 7, max_texture_dimension = vs ! 8,
          repair_attempts = vs ! 9, nbt_piece_axis = vs ! 10, nbt_piece_volume = vs ! 11,
          gradle_min_heap_mb = vs ! 12, gradle_max_heap_mb = vs ! 13, runtime_min_heap_mb = vs ! 14,
          runtime_max_heap_mb = vs ! 15\<rparr>
      in rbind (validate_policy p) (\<lambda>_. Inr p)))"

definition gradle_heap_mb :: "ScalePolicy \<Rightarrow> int \<Rightarrow> int \<Rightarrow> int" where
  "gradle_heap_mb p module_count source_file_count =
     max (gradle_min_heap_mb p) (min (gradle_max_heap_mb p)
       (gradle_min_heap_mb p + module_count * 6 + source_file_count * 2))"

definition runtime_heap_mb :: "ScalePolicy \<Rightarrow> int \<Rightarrow> int \<Rightarrow> int \<Rightarrow> int" where
  "runtime_heap_mb p module_count entity_count structure_count =
     max (runtime_min_heap_mb p) (min (runtime_max_heap_mb p)
       (runtime_min_heap_mb p + module_count * 3 + entity_count * 24 + structure_count * 16))"

section \<open>Properties\<close>

lemma stage_table_checked:
  "list_all (\<lambda>(k, s). k = ''typed_host'' \<or>
     (production_module_backend_capabilities k \<noteq> {} \<and> [] \<notin> production_module_backend_capabilities k \<and>
      (s = ''content'' \<or> s = ''system'' \<longrightarrow> k \<in> production_module_backend_capabilities k)))
     NATIVE_PRODUCTION_STAGE_BY_KIND"
  by code_simp

lemma normalize_capabilities_list:
  "normalize_capabilities (PList caps) = Inr ({strip (py_str c) | c. c \<in> set caps} - {[]})"
  by (auto simp: normalize_capabilities_def)

text \<open>Every native route is guarded by reviewed capabilities: a kind with a native stage, other than
  the typed host plan, requires at least one capability, a content or system kind requires itself (so
  the table of kinds and the table of packs agree), and the route is supported exactly when the provider
  lists every required capability, up to surrounding white space.\<close>

theorem native_routes_require_capabilities:
  assumes "map_of NATIVE_PRODUCTION_STAGE_BY_KIND kind = Some stage" and "kind \<noteq> ''typed_host''"
  shows "production_module_backend_capabilities kind \<noteq> {} \<and>
    (stage = ''content'' \<or> stage = ''system'' \<longrightarrow> kind \<in> production_module_backend_capabilities kind) \<and>
    (production_backend_is_supported (PList caps) kind = Inr True \<longleftrightarrow>
       production_module_backend_capabilities kind \<subseteq> {strip (py_str c) | c. c \<in> set caps})"
proof -
  from stage_table_checked map_of_SomeD[OF assms(1)] assms(2) have
    "production_module_backend_capabilities kind \<noteq> {}" "[] \<notin> production_module_backend_capabilities kind"
    "stage = ''content'' \<or> stage = ''system'' \<longrightarrow> kind \<in> production_module_backend_capabilities kind"
    by (auto simp: list_all_iff)
  then show ?thesis
    by (auto simp: production_backend_is_supported_def missing_production_backend_capabilities_def Let_def
        normalize_capabilities_list)
qed

theorem native_routes_require_capabilities_witness:
  "\<not> (production_module_backend_capabilities ''quest'' \<subseteq> {strip (py_str c) | c. c \<in> set [PStr ''quest'']})"
proof -
  have "map_of NATIVE_PRODUCTION_STAGE_BY_KIND ''quest'' = Some ''system''" by code_simp
  moreover have "production_backend_is_supported (PList [PStr ''quest'']) ''quest'' = Inr False" by code_simp
  ultimately show ?thesis using native_routes_require_capabilities[of "''quest''" "''system''" "[PStr ''quest'']"] by auto
qed

text \<open>Heap sizing stays inside the policy: for a policy that validates, the Gradle and the runtime heap
  are within their configured bounds for every project size, and they do not shrink as the project
  grows.\<close>

theorem heap_within_policy:
  assumes "validate_policy p = Inr ()"
  shows "gradle_min_heap_mb p \<le> gradle_heap_mb p m s \<and> gradle_heap_mb p m s \<le> gradle_max_heap_mb p \<and>
    runtime_min_heap_mb p \<le> runtime_heap_mb p m e t \<and> runtime_heap_mb p m e t \<le> runtime_max_heap_mb p \<and>
    (m \<le> m' \<longrightarrow> s \<le> s' \<longrightarrow> gradle_heap_mb p m s \<le> gradle_heap_mb p m' s') \<and>
    (m \<le> m' \<longrightarrow> e \<le> e' \<longrightarrow> t \<le> t' \<longrightarrow> runtime_heap_mb p m e t \<le> runtime_heap_mb p m' e' t')"
  using assms by (auto simp: validate_policy_def gradle_heap_mb_def runtime_heap_mb_def split: if_splits)

theorem heap_within_policy_witness:
  "\<exists>p. from_environment (\<lambda>_. None) = Inr p \<and> gradle_heap_mb p 5000 10 \<le> gradle_max_heap_mb p"
proof -
  have "(case from_environment (\<lambda>_. None) of Inr p \<Rightarrow> validate_policy p = Inr () | Inl _ \<Rightarrow> False) = True" by code_simp
  then obtain p where "from_environment (\<lambda>_. None) = Inr p" "validate_policy p = Inr ()" by (auto split: sum.splits)
  with heap_within_policy[of p 5000 10] show ?thesis by blast
qed

end
