(* ===== verification/Utf8.thy ===== *)
theory Utf8
  imports MMM_Prelude
begin

text \<open>
  Python strings as lists of code points, and what the JSON stream uses of Python's UTF-8 codec: strict
  encoding, and the incremental strict decoder, which keeps the bytes of an incomplete character until the next
  chunk. Whatever way the encoding of a text is cut into two, the decoder returns a prefix of the text and keeps
  bytes that continue it.
\<close>

type_synonym ustr = "nat list"
type_synonym bytes = "nat list"

definition surrogate :: "nat \<Rightarrow> bool" where
  "surrogate c \<longleftrightarrow> 0xD800 \<le> c \<and> c \<le> 0xDFFF"

definition scalar :: "nat \<Rightarrow> bool" where
  "scalar c \<longleftrightarrow> c \<le> 0x10FFFF \<and> \<not> surrogate c"

definition utf8_char :: "nat \<Rightarrow> bytes" where
  "utf8_char c =
     (if c < 0x80 then [c]
      else if c < 0x800 then [0xC0 + c div 64, 0x80 + c mod 64]
      else if c < 0x10000 then [0xE0 + c div 4096, 0x80 + c div 64 mod 64, 0x80 + c mod 64]
      else [0xF0 + c div 262144, 0x80 + c div 4096 mod 64, 0x80 + c div 64 mod 64, 0x80 + c mod 64])"

definition utf8 :: "ustr \<Rightarrow> bytes" where
  "utf8 t = concat (map utf8_char t)"

lemma utf8_simps [simp]: "utf8 [] = []" "utf8 (c # t) = utf8_char c @ utf8 t" "utf8 (s @ t) = utf8 s @ utf8 t"
  by (simp_all add: utf8_def)

text \<open>The number of bytes a lead byte announces, 0 for a byte that starts no character.\<close>

definition needed :: "nat \<Rightarrow> nat" where
  "needed b = (if b < 0x80 then 1 else if 0xC2 \<le> b \<and> b \<le> 0xDF then 2 else if 0xE0 \<le> b \<and> b \<le> 0xEF then 3
     else if 0xF0 \<le> b \<and> b \<le> 0xF4 then 4 else 0)"

definition second_ok :: "nat \<Rightarrow> nat \<Rightarrow> bool" where
  "second_ok b c \<longleftrightarrow> (if b = 0xE0 then 0xA0 else if b = 0xF0 then 0x90 else 0x80) \<le> c \<and>
     c \<le> (if b = 0xED then 0x9F else if b = 0xF4 then 0x8F else 0xBF)"

fun continues :: "nat \<Rightarrow> bytes \<Rightarrow> bool" where
  "continues b [] \<longleftrightarrow> True"
| "continues b (c # cs) \<longleftrightarrow> second_ok b c \<and> list_all (\<lambda>d. 0x80 \<le> d \<and> d \<le> 0xBF) cs"

definition assemble :: "nat \<Rightarrow> bytes \<Rightarrow> nat" where
  "assemble b cs = foldl (\<lambda>a c. 64 * a + (c - 0x80))
     (case length cs of 0 \<Rightarrow> b | Suc 0 \<Rightarrow> b - 0xC0 | Suc (Suc 0) \<Rightarrow> b - 0xE0 | _ \<Rightarrow> b - 0xF0) cs"

text \<open>One call of the incremental decoder on the kept bytes and a chunk; None is a \<open>UnicodeDecodeError\<close>, otherwise
  the decoded text and the bytes to keep.\<close>

function decode :: "bytes \<Rightarrow> (ustr \<times> bytes) option" where
  "decode [] = Some ([], [])"
| "decode (b # bs) =
     (let cs = take (needed b - 1) bs in
      if needed b = 0 \<or> \<not> continues b cs then None
      else if length cs < needed b - 1 then Some ([], b # bs)
      else map_option (\<lambda>(t, kept). (assemble b cs # t, kept)) (decode (drop (needed b - 1) bs)))"
  by pat_completeness auto
termination
  by (relation "measure length") auto

section \<open>Characters\<close>

lemma scalar_cases:
  assumes "scalar c"
  obtains "c < 0x80" | "0x80 \<le> c" "c < 0x800" | "0x800 \<le> c" "c < 0x10000" "\<not> surrogate c" | "0x10000 \<le> c" "c \<le> 0x10FFFF"
  using assms unfolding scalar_def by linarith

lemma div_div_64: "(c :: nat) div 4096 = c div 64 div 64" "(c :: nat) div 262144 = c div 64 div 64 div 64"
  by (simp_all add: div_mult2_eq[symmetric])

lemma three_bytes:
  assumes "64 * (64 * a + b) + d = (c :: nat)" "b < 64" "d < 64" "0x800 \<le> c" "\<not> surrogate c"
  shows "(a = 0 \<longrightarrow> 32 \<le> b) \<and> (a = 13 \<longrightarrow> b < 32)"
  using assms unfolding surrogate_def by auto

lemma four_bytes:
  assumes "64 * (64 * (64 * a + b) + d) + e = (c :: nat)" "d < 64" "e < 64" "0x10000 \<le> c" "c \<le> 0x10FFFF"
  shows "(a = 0 \<longrightarrow> 16 \<le> b) \<and> (a = 4 \<longrightarrow> b < 16)"
  using assms by auto

lemma utf8_char_shape:
  assumes "scalar c"
  shows "\<exists>b cs. utf8_char c = b # cs \<and> needed b = Suc (length cs) \<and> continues b cs \<and> assemble b cs = c"
  using assms
proof (cases rule: scalar_cases)
  case 1
  then show ?thesis by (simp add: utf8_char_def needed_def assemble_def)
next
  case 2
  then have "utf8_char c = [0xC0 + c div 64, 0x80 + c mod 64]" by (simp add: utf8_char_def)
  moreover have "2 \<le> c div 64" "c div 64 < 32" "c mod 64 < 64" using 2 by auto
  moreover have "64 * (c div 64) + c mod 64 = c" by simp
  ultimately show ?thesis by (simp add: needed_def second_ok_def assemble_def)
next
  case 3
  have "utf8_char c = [0xE0 + c div 4096, 0x80 + c div 64 mod 64, 0x80 + c mod 64]" using 3 by (simp add: utf8_char_def)
  moreover have "c div 4096 < 16" "64 * (64 * (c div 4096) + c div 64 mod 64) + c mod 64 = c" using 3 by (auto simp: div_div_64(1))
  ultimately obtain a b d where abd: "utf8_char c = [0xE0 + a, 0x80 + b, 0x80 + d]" "a < 16" "b < 64" "d < 64" "64 * (64 * a + b) + d = c"
    by (metis mod_less_divisor zero_less_numeral)
  moreover have "a = 0 \<Longrightarrow> 32 \<le> b" "a = 13 \<Longrightarrow> b < 32" using three_bytes[OF abd(5,3,4)] 3 by simp_all
  ultimately show ?thesis by (auto simp: needed_def second_ok_def assemble_def)
next
  case 4
  have "utf8_char c = [0xF0 + c div 262144, 0x80 + c div 4096 mod 64, 0x80 + c div 64 mod 64, 0x80 + c mod 64]"
    using 4 by (simp add: utf8_char_def)
  moreover have "c div 262144 < 5" "64 * (64 * (64 * (c div 262144) + c div 4096 mod 64) + c div 64 mod 64) + c mod 64 = c"
    using 4 by (auto simp: div_div_64)
  ultimately obtain a b d e where abde: "utf8_char c = [0xF0 + a, 0x80 + b, 0x80 + d, 0x80 + e]" "a < 5" "b < 64" "d < 64" "e < 64"
    "64 * (64 * (64 * a + b) + d) + e = c" by (metis mod_less_divisor zero_less_numeral)
  moreover have "a = 0 \<Longrightarrow> 16 \<le> b" "a = 4 \<Longrightarrow> b < 16" using four_bytes[OF abde(6,4,5)] 4 by simp_all
  ultimately show ?thesis by (auto simp: needed_def second_ok_def assemble_def)
qed

lemma continues_take: "continues b cs \<Longrightarrow> continues b (take n cs)"
  by (cases cs; cases n) (auto simp: list_all_iff dest: in_set_takeD)

lemma decode_char:
  assumes "scalar c"
  shows "decode (utf8_char c @ bs) = map_option (\<lambda>(t, kept). (c # t, kept)) (decode bs)"
proof -
  obtain b cs where "utf8_char c = b # cs" "needed b = Suc (length cs)" "continues b cs" "assemble b cs = c"
    using utf8_char_shape[OF assms] by blast
  then show ?thesis by (simp add: Let_def)
qed

lemma decode_incomplete:
  assumes "scalar c" "utf8_char c = p @ q" "p \<noteq> []" "q \<noteq> []"
  shows "decode p = Some ([], p)"
proof -
  obtain b cs where c: "utf8_char c = b # cs" "needed b = Suc (length cs)" "continues b cs"
    using utf8_char_shape[OF assms(1)] by blast
  then obtain p' where p: "p = b # p'" "cs = p' @ q" using assms(2,3) by (cases p) auto
  have "continues b p'" using continues_take[OF c(3), of "length p'"] p(2) by simp
  then show ?thesis using c p assms(4) by (simp add: Let_def)
qed

section \<open>Chunks\<close>

lemma decode_split:
  "list_all scalar t \<Longrightarrow> utf8 t = p @ q \<Longrightarrow> \<exists>s r kept. t = s @ r \<and> decode p = Some (s, kept) \<and> kept @ q = utf8 r"
proof (induction t arbitrary: p)
  case Nil
  then show ?case by simp
next
  case (Cons c t)
  from Cons.prems(2) consider p' where "p = utf8_char c @ p'" "utf8 t = p' @ q"
    | q' where "utf8_char c = p @ q'" "q' \<noteq> []" "q' @ utf8 t = q"
    unfolding utf8_simps append_eq_append_conv2 by (metis append_Nil append_Nil2)
  then show ?case
  proof cases
    case 1
    from Cons.IH[OF _ 1(2)] Cons.prems(1) obtain s r kept where "t = s @ r" "decode p' = Some (s, kept)" "kept @ q = utf8 r" by auto
    then have "c # t = (c # s) @ r \<and> decode p = Some (c # s, kept) \<and> kept @ q = utf8 r"
      using Cons.prems(1) by (simp add: 1(1) decode_char)
    then show ?thesis by blast
  next
    case 2
    then have "decode p = Some ([], p)" using Cons.prems(1) decode_incomplete[of c p q'] by (cases "p = []") auto
    then have "c # t = [] @ (c # t) \<and> decode p = Some ([], p) \<and> p @ q = utf8 (c # t)" using 2 by simp
    then show ?thesis by blast
  qed
qed

lemma decode_length: "decode p = Some (s, kept) \<Longrightarrow> length s + length kept \<le> length p"
proof (induction p arbitrary: s kept rule: decode.induct)
  case (2 b bs)
  show ?case
  proof (cases "length (take (needed b - 1) bs) < needed b - 1")
    case True
    with 2 show ?thesis by (auto simp: Let_def split: if_splits)
  next
    case False
    with 2(2) obtain t where t: "decode (drop (needed b - 1) bs) = Some (t, kept)" "s = assemble b (take (needed b - 1) bs) # t"
      "\<not> (needed b = 0 \<or> \<not> continues b (take (needed b - 1) bs))"
      by (auto simp: Let_def simp del: decode.simps(1) split: if_splits)
    from 2(1)[OF refl t(3) False t(1)] t(2) show ?thesis by simp
  qed
qed simp

end
