(* ===== verification/Json_Stream.thy ===== *)
theory Json_Stream
  imports Utf8
begin

text \<open>
  Canonical JSON over full Unicode (\<^verbatim>\<open>json_stream.py\<close>): the serializer that yields fragments, the digest over
  coalesced fragments, and the parser that reads UTF-8 chunks. Values are trees, so the tests for circular
  objects never apply; Python's recursion limit is not modelled. A float is its \<open>repr\<close>; reading a float token is
  the parameter \<open>fr\<close>, which gives the \<open>repr\<close> of the float. Conversions between integers and text raise beyond 4300
  digits, as in Python.
\<close>

section \<open>Values and errors\<close>

datatype jval =
    JNull
  | JBool bool
  | JInt int
  | JFloat ustr
  | JStr ustr
  | JList "jval list"
  | JObj "(ustr \<times> jval) list"
  | JEnum jval
  | JData "(ustr \<times> jval) list"
  | JMixed
  | JOther

text \<open>\<open>JEnum\<close> is a member of an enumeration with its value, \<open>JData\<close> a data class with its fields, \<open>JMixed\<close> a
  dictionary with a key that is no string, \<open>JOther\<close> a value of any other type. \<open>DigitLimitError\<close> is the \<open>ValueError\<close>
  of a conversion with too many digits; \<open>OutOfFuel\<close> is no exception of the code: it is shown not to occur.\<close>

datatype json_error =
    CanonicalJsonError string
  | StreamingJsonDecodeError string
  | UnicodeDecodeError
  | UnicodeEncodeError
  | DigitLimitError
  | OutOfFuel

definition u :: "string \<Rightarrow> ustr" where
  "u s = map of_char s"

section \<open>Serializer\<close>

definition short_escape :: "nat \<Rightarrow> ustr option" where
  "short_escape c =
     (if c = 0x22 then Some [0x5C, 0x22] else if c = 0x5C then Some [0x5C, 0x5C]
      else if c = 8 then Some (u [CHR 0x5C, CHR ''b'']) else if c = 12 then Some (u [CHR 0x5C, CHR ''f''])
      else if c = 10 then Some (u [CHR 0x5C, CHR ''n'']) else if c = 13 then Some (u [CHR 0x5C, CHR ''r''])
      else if c = 9 then Some (u [CHR 0x5C, CHR ''t'']) else None)"

definition hex_code :: "nat \<Rightarrow> nat" where
  "hex_code n = (if n < 10 then 48 + n else 87 + n)"

definition high_surrogate :: "nat \<Rightarrow> bool" where
  "high_surrogate c \<longleftrightarrow> 0xD800 \<le> c \<and> c \<le> 0xDBFF"

definition low_surrogate :: "nat \<Rightarrow> bool" where
  "low_surrogate c \<longleftrightarrow> 0xDC00 \<le> c \<and> c \<le> 0xDFFF"

definition pair_code :: "nat \<Rightarrow> nat \<Rightarrow> nat" where
  "pair_code high low = 0x10000 + (high - 0xD800) * 1024 + (low - 0xDC00)"

fun escape_loop :: "ustr \<Rightarrow> json_error + ustr list" where
  "escape_loop [] = Inr []"
| "escape_loop (c # rest) = (case short_escape c of
     Some e \<Rightarrow> rbind (escape_loop rest) (\<lambda>ps. Inr (e # ps))
   | None \<Rightarrow>
       if high_surrogate c then
         (case rest of
            [] \<Rightarrow> Inl (CanonicalJsonError ''JSON string contains a lone high surrogate.'')
          | low # rest' \<Rightarrow>
              if \<not> low_surrogate low then Inl (CanonicalJsonError ''JSON string high surrogate is not paired.'')
              else rbind (escape_loop rest') (\<lambda>ps. Inr ([pair_code c low] # ps)))
       else if low_surrogate c then Inl (CanonicalJsonError ''JSON string contains a lone low surrogate.'')
       else if c < 0x20 then rbind (escape_loop rest) (\<lambda>ps. Inr (([0x5C] @ u ''u00'' @ [hex_code (c div 16), hex_code (c mod 16)]) # ps))
       else rbind (escape_loop rest) (\<lambda>ps. Inr ([c] # ps)))"

text \<open>The buffer of both loops: pieces are joined until they reach 16384 characters.\<close>

fun coalesce :: "ustr list \<Rightarrow> nat \<Rightarrow> ustr list \<Rightarrow> ustr list" where
  "coalesce buffer count [] = (if buffer = [] then [] else [concat buffer])"
| "coalesce buffer count (p # ps) =
     (if 16 * 1024 \<le> count + length p then concat (buffer @ [p]) # coalesce [] 0 ps
      else coalesce (buffer @ [p]) (count + length p) ps)"

definition iter_json_string :: "ustr \<Rightarrow> json_error + ustr list" where
  "iter_json_string s = rbind (escape_loop s) (\<lambda>ps. Inr ([[0x22]] @ coalesce [] 0 ps @ [[0x22]]))"

definition digit_limit :: nat where
  "digit_limit = 4300"

definition int_text :: "int \<Rightarrow> json_error + ustr" where
  "int_text i = (if digit_limit < length (show_nat (nat \<bar>i\<bar>)) then Inl DigitLimitError else Inr (u (show_int i)))"

definition float_text :: "ustr \<Rightarrow> json_error + ustr" where
  "float_text r = (if r \<in> {u ''nan'', u ''inf'', u ''-inf''} then Inl (CanonicalJsonError ''JSON contains a non-finite number.'') else Inr r)"

definition commas :: "ustr list list \<Rightarrow> ustr list" where
  "commas fss = (case fss of [] \<Rightarrow> [] | fs # rest \<Rightarrow> fs @ concat (map (\<lambda>gs. [0x2C] # gs) rest))"

lemma size_item_less: "(k, v) \<in> set d \<Longrightarrow> size v < Suc (size_list (size_prod (\<lambda>x. 0) size) d)"
  by (induction d) auto

function iter_value :: "jval \<Rightarrow> json_error + ustr list" where
  "iter_value (JEnum v) = iter_value v"
| "iter_value JNull = Inr [u ''null'']"
| "iter_value (JBool b) = Inr [if b then u ''true'' else u ''false'']"
| "iter_value (JStr s) = iter_json_string s"
| "iter_value (JInt i) = rbind (int_text i) (\<lambda>t. Inr [t])"
| "iter_value (JFloat r) = rbind (float_text r) (\<lambda>t. Inr [t])"
| "iter_value (JData fs) =
     rbind (mapM (\<lambda>(k, v). rbind (iter_json_string k) (\<lambda>ks. rbind (iter_value v) (\<lambda>vs. Inr (ks @ [[0x3A]] @ vs)))) (sort_key fst fs))
       (\<lambda>fss. Inr ([[0x7B]] @ commas fss @ [[0x7D]]))"
| "iter_value (JList xs) = rbind (mapM iter_value xs) (\<lambda>fss. Inr ([[0x5B]] @ commas fss @ [[0x5D]]))"
| "iter_value (JObj d) =
     rbind (mapM (\<lambda>(k, v). rbind (iter_json_string k) (\<lambda>ks. rbind (iter_value v) (\<lambda>vs. Inr (ks @ [[0x3A]] @ vs)))) (sort_key fst d))
       (\<lambda>fss. Inr ([[0x7B]] @ commas fss @ [[0x7D]]))"
| "iter_value JMixed = Inl (CanonicalJsonError ''JSON object keys must be strings.'')"
| "iter_value JOther = Inl (CanonicalJsonError ''JSON contains an unsupported value'')"
  by pat_completeness auto
termination
  by (relation "measure size") (auto dest: size_item_less simp: less_Suc_eq_le size_list_estimation')

definition iter_canonical_json :: "jval \<Rightarrow> json_error + ustr list" where
  "iter_canonical_json v = iter_value v"

definition validate_canonical_json :: "jval \<Rightarrow> json_error + unit" where
  "validate_canonical_json v = rbind (iter_canonical_json v) (\<lambda>_. Inr ())"

definition encode_strict :: "ustr \<Rightarrow> json_error + bytes" where
  "encode_strict t = (if list_ex surrogate t then Inl UnicodeEncodeError else Inr (utf8 t))"

definition canonical_json_sha256 :: "(bytes \<Rightarrow> string) \<Rightarrow> jval \<Rightarrow> json_error + string" where
  "canonical_json_sha256 sha v =
     rbind (iter_canonical_json v) (\<lambda>fs. rbind (mapM encode_strict (coalesce [] 0 fs)) (\<lambda>blocks. Inr (''sha256:'' @ sha (concat blocks))))"

section \<open>Reader\<close>

text \<open>\<open>_Utf8ChunkReader\<close>: the chunks to come (None for an object that is not bytes), the bytes the decoder keeps,
  the part of the buffer after the position, the flag.\<close>

record reader =
  rd_chunks :: "bytes option list"
  rd_kept :: bytes
  rd_buffer :: ustr
  rd_finished :: bool

fun fill_loop :: "bytes \<Rightarrow> bytes option list \<Rightarrow> json_error + reader" where
  "fill_loop kept [] =
     (if kept = [] then Inr \<lparr>rd_chunks = [], rd_kept = [], rd_buffer = [], rd_finished = True\<rparr> else Inl UnicodeDecodeError)"
| "fill_loop kept (None # chunks) = Inl (StreamingJsonDecodeError ''JSON chunk iterator yielded a non-bytes value.'')"
| "fill_loop kept (Some b # chunks) = (case decode (kept @ b) of
     None \<Rightarrow> Inl UnicodeDecodeError
   | Some (t, kept') \<Rightarrow>
       if t = [] then fill_loop kept' chunks
       else Inr \<lparr>rd_chunks = chunks, rd_kept = kept', rd_buffer = t, rd_finished = False\<rparr>)"

definition fill :: "reader \<Rightarrow> json_error + reader" where
  "fill r = (if rd_buffer r \<noteq> [] \<or> rd_finished r then Inr r else fill_loop (rd_kept r) (rd_chunks r))"

type_synonym 'a parser = "reader \<Rightarrow> json_error + 'a \<times> reader"

definition pret :: "'a \<Rightarrow> 'a parser" where
  "pret x r = Inr (x, r)"

definition pfail :: "string \<Rightarrow> 'a parser" where
  "pfail msg r = Inl (StreamingJsonDecodeError msg)"

definition pbind :: "'a parser \<Rightarrow> ('a \<Rightarrow> 'b parser) \<Rightarrow> 'b parser" where
  "pbind m f r = rbind (m r) (\<lambda>(x, r'). f x r')"

definition peek :: "nat option parser" where
  "peek r = rbind (fill r) (\<lambda>r'. Inr (case rd_buffer r' of [] \<Rightarrow> None | c # _ \<Rightarrow> Some c, r'))"

definition take_char :: "nat option parser" where
  "take_char r = rbind (fill r) (\<lambda>r'. Inr (case rd_buffer r' of [] \<Rightarrow> (None, r') | c # t \<Rightarrow> (Some c, r'\<lparr>rd_buffer := t\<rparr>)))"

section \<open>Parser\<close>

primrec take_n :: "nat \<Rightarrow> ustr parser" where
  "take_n 0 = pret []"
| "take_n (Suc n) = pbind take_char (\<lambda>c. pbind (take_n n) (\<lambda>cs. pret ((case c of None \<Rightarrow> [] | Some c \<Rightarrow> [c]) @ cs)))"

definition expect :: "nat \<Rightarrow> unit parser" where
  "expect c = pbind take_char (\<lambda>a. if a = Some c then pret () else pfail ''Expected'')"

definition literal :: "ustr \<Rightarrow> unit parser" where
  "literal s = pbind (take_n (length s)) (\<lambda>a. if a = s then pret () else pfail ''Invalid JSON literal'')"

primrec skip_whitespace :: "nat \<Rightarrow> unit parser" where
  "skip_whitespace 0 = (\<lambda>r. Inl OutOfFuel)"
| "skip_whitespace (Suc n) = pbind peek (\<lambda>c. if c \<in> Some ` {0x20, 9, 13, 10} then pbind take_char (\<lambda>_. skip_whitespace n) else pret ())"

definition unescape :: "nat \<Rightarrow> nat option" where
  "unescape e = (if e \<in> {0x22, 0x5C, 0x2F} then Some e else if e = 0x62 then Some 8 else if e = 0x66 then Some 12
     else if e = 0x6E then Some 10 else if e = 0x72 then Some 13 else if e = 0x74 then Some 9 else None)"

definition hex_value :: "nat \<Rightarrow> nat option" where
  "hex_value c = (if 48 \<le> c \<and> c \<le> 57 then Some (c - 48) else if 97 \<le> c \<and> c \<le> 102 then Some (c - 87)
     else if 65 \<le> c \<and> c \<le> 70 then Some (c - 55) else None)"

definition hex4 :: "string \<Rightarrow> nat parser" where
  "hex4 msg = pbind (take_n 4) (\<lambda>ds.
     if length ds \<noteq> 4 \<or> list_ex (\<lambda>d. hex_value d = None) ds then pfail msg
     else pret (foldl (\<lambda>a d. 16 * a + the (hex_value d)) 0 ds))"

definition unicode_escape :: "ustr parser" where
  "unicode_escape = pbind (hex4 ''Invalid JSON unicode escape.'') (\<lambda>c.
     if high_surrogate c then
       pbind take_char (\<lambda>a. if a \<noteq> Some 0x5C then pfail ''JSON high surrogate is not followed by a low surrogate.''
       else pbind take_char (\<lambda>b. if b \<noteq> Some 0x75 then pfail ''JSON high surrogate is not followed by a low surrogate.''
       else pbind (hex4 ''Invalid JSON low-surrogate escape.'') (\<lambda>low.
         if \<not> low_surrogate low then pfail ''JSON high surrogate is not paired with a low surrogate.''
         else pret [pair_code c low])))
     else if low_surrogate c then pfail ''JSON contains a lone low surrogate.''
     else pret [c])"

definition escape_sequence :: "ustr parser" where
  "escape_sequence = pbind take_char (\<lambda>e. case e of
     None \<Rightarrow> pfail ''JSON string ended inside an escape.''
   | Some e \<Rightarrow>
       (case unescape e of
          Some c \<Rightarrow> pret [c]
        | None \<Rightarrow> if e \<noteq> 0x75 then pfail ''Invalid JSON string escape'' else unicode_escape))"

primrec string_loop :: "nat \<Rightarrow> ustr \<Rightarrow> ustr parser" where
  "string_loop 0 out = (\<lambda>r. Inl OutOfFuel)"
| "string_loop (Suc n) out = pbind take_char (\<lambda>c. case c of
     None \<Rightarrow> pfail ''JSON string ended before its closing quote.''
   | Some c \<Rightarrow>
       if c = 0x22 then pret out
       else if c = 0x5C then pbind escape_sequence (\<lambda>s. string_loop n (out @ s))
       else if c < 0x20 then pfail ''JSON string contains an unescaped control character.''
       else string_loop n (out @ [c]))"

definition jstring :: "nat \<Rightarrow> ustr parser" where
  "jstring n = pbind (expect 0x22) (\<lambda>_. string_loop n [])"

definition udigit :: "nat \<Rightarrow> bool" where
  "udigit c \<longleftrightarrow> 48 \<le> c \<and> c \<le> 57"

definition number_char :: "nat \<Rightarrow> bool" where
  "number_char c \<longleftrightarrow> udigit c \<or> c \<in> {0x2D, 0x2B, 0x2E, 0x65, 0x45}"

definition digits_val :: "ustr \<Rightarrow> int" where
  "digits_val ds = foldl (\<lambda>a d. 10 * a + (int d - 48)) 0 ds"

text \<open>The part of a number after the digits of its integer part: a fraction, an exponent, or both.\<close>

definition exponent_part :: "ustr \<Rightarrow> bool" where
  "exponent_part t = (case t of
     e # t' \<Rightarrow> e \<in> {0x65, 0x45} \<and>
       (let ds = (case t' of s # ds \<Rightarrow> if s \<in> {0x2D, 0x2B} then ds else t' | [] \<Rightarrow> []) in ds \<noteq> [] \<and> list_all udigit ds)
   | [] \<Rightarrow> False)"

definition float_tail :: "ustr \<Rightarrow> bool" where
  "float_tail t = (case t of
     [] \<Rightarrow> False
   | c # t' \<Rightarrow>
       if c = 0x2E then takeWhile udigit t' \<noteq> [] \<and> (let t'' = dropWhile udigit t' in t'' = [] \<or> exponent_part t'')
       else exponent_part t)"

text \<open>\<open>json.loads\<close> on a token of number characters.\<close>

definition json_number :: "(ustr \<Rightarrow> ustr) \<Rightarrow> ustr \<Rightarrow> json_error + jval" where
  "json_number fr token =
     (let negative = (token \<noteq> [] \<and> hd token = 0x2D); t = (if negative then tl token else token);
          ds = takeWhile udigit t; tail = dropWhile udigit t in
      if ds = [] \<or> (hd ds = 0x30 \<and> length ds > 1) then Inl (StreamingJsonDecodeError ''Invalid JSON number'')
      else if float_tail tail then Inr (JFloat (fr token))
      else if digit_limit < length ds then Inl DigitLimitError
      else if tail \<noteq> [] then Inl (StreamingJsonDecodeError ''Invalid JSON number'')
      else Inr (JInt (if negative then - digits_val ds else digits_val ds)))"

primrec number_loop :: "nat \<Rightarrow> ustr parser" where
  "number_loop 0 = (\<lambda>r. Inl OutOfFuel)"
| "number_loop (Suc n) = pbind peek (\<lambda>c. case c of
     None \<Rightarrow> pret []
   | Some c \<Rightarrow> if \<not> number_char c then pret [] else pbind take_char (\<lambda>_. pbind (number_loop n) (\<lambda>t. pret (c # t))))"

definition jnumber :: "(ustr \<Rightarrow> ustr) \<Rightarrow> nat \<Rightarrow> jval parser" where
  "jnumber fr n = pbind (number_loop n) (\<lambda>token r. rbind (json_number fr token) (\<lambda>v. Inr (v, r)))"

text \<open>\<open>_value\<close>, \<open>_object\<close> and \<open>_array\<close>. A character that only Unicode counts as a digit leads to an empty number
  token and so to the same exception as any other unexpected character.\<close>

fun jvalue :: "(ustr \<Rightarrow> ustr) \<Rightarrow> nat \<Rightarrow> jval parser"
  and object_loop :: "(ustr \<Rightarrow> ustr) \<Rightarrow> nat \<Rightarrow> (ustr \<times> jval) list \<Rightarrow> (ustr \<times> jval) list parser"
  and array_loop :: "(ustr \<Rightarrow> ustr) \<Rightarrow> nat \<Rightarrow> jval list \<Rightarrow> jval list parser" where
  "jvalue fr 0 = (\<lambda>r. Inl OutOfFuel)"
| "jvalue fr (Suc n) = pbind peek (\<lambda>c. case c of
     None \<Rightarrow> pfail ''JSON ended before a value.''
   | Some c \<Rightarrow>
       if c = 0x22 then pbind (jstring n) (\<lambda>s. pret (JStr s))
       else if c = 0x7B then
         pbind (expect 0x7B) (\<lambda>_. pbind (skip_whitespace n) (\<lambda>_. pbind peek (\<lambda>d.
           if d = Some 0x7D then pbind take_char (\<lambda>_. pret (JObj []))
           else pbind (object_loop fr n []) (\<lambda>d. pret (JObj d)))))
       else if c = 0x5B then
         pbind (expect 0x5B) (\<lambda>_. pbind (skip_whitespace n) (\<lambda>_. pbind peek (\<lambda>d.
           if d = Some 0x5D then pbind take_char (\<lambda>_. pret (JList []))
           else pbind (array_loop fr n []) (\<lambda>xs. pret (JList xs)))))
       else if c = 0x74 then pbind (literal (u ''true'')) (\<lambda>_. pret (JBool True))
       else if c = 0x66 then pbind (literal (u ''false'')) (\<lambda>_. pret (JBool False))
       else if c = 0x6E then pbind (literal (u ''null'')) (\<lambda>_. pret JNull)
       else if c = 0x2D \<or> udigit c then jnumber fr n
       else pfail ''Unexpected JSON character'')"
| "object_loop fr 0 result = (\<lambda>r. Inl OutOfFuel)"
| "object_loop fr (Suc n) result = pbind peek (\<lambda>c.
     if c \<noteq> Some 0x22 then pfail ''JSON object key must be a string.''
     else pbind (jstring n) (\<lambda>k. pbind (skip_whitespace n) (\<lambda>_. pbind (expect 0x3A) (\<lambda>_. pbind (skip_whitespace n) (\<lambda>_.
       pbind (jvalue fr n) (\<lambda>v. pbind (skip_whitespace n) (\<lambda>_. pbind take_char (\<lambda>d.
         if d = Some 0x7D then pret (AList.update k v result)
         else if d \<noteq> Some 0x2C then pfail ''JSON object is missing a comma or closing brace.''
         else pbind (skip_whitespace n) (\<lambda>_. object_loop fr n (AList.update k v result))))))))))"
| "array_loop fr 0 result = (\<lambda>r. Inl OutOfFuel)"
| "array_loop fr (Suc n) result = pbind (jvalue fr n) (\<lambda>v. pbind (skip_whitespace n) (\<lambda>_. pbind take_char (\<lambda>d.
     if d = Some 0x5D then pret (result @ [v])
     else if d \<noteq> Some 0x2C then pfail ''JSON array is missing a comma or closing bracket.''
     else pbind (skip_whitespace n) (\<lambda>_. array_loop fr n (result @ [v])))))"

definition parse_stream :: "(ustr \<Rightarrow> ustr) \<Rightarrow> nat \<Rightarrow> jval parser" where
  "parse_stream fr n = pbind (skip_whitespace n) (\<lambda>_. pbind (jvalue fr n) (\<lambda>v. pbind (skip_whitespace n) (\<lambda>_. pbind peek (\<lambda>c.
     if c \<noteq> None then pfail ''JSON contains trailing content.'' else pret v))))"

text \<open>Fuel for every call: each step of a loop and each nested value takes a character.\<close>

definition stream_fuel :: "bytes option list \<Rightarrow> nat" where
  "stream_fuel chunks = 2 * sum_list (map (\<lambda>c. case c of None \<Rightarrow> 0 | Some b \<Rightarrow> length b) chunks) + 2"

definition parse_json_byte_chunks :: "(ustr \<Rightarrow> ustr) \<Rightarrow> bytes option list \<Rightarrow> json_error + jval" where
  "parse_json_byte_chunks fr chunks =
     (case parse_stream fr (stream_fuel chunks) \<lparr>rd_chunks = chunks, rd_kept = [], rd_buffer = [], rd_finished = False\<rparr> of
        Inr (v, _) \<Rightarrow> Inr v
      | Inl UnicodeDecodeError \<Rightarrow> Inl (StreamingJsonDecodeError ''JSON chunks are not valid UTF-8.'')
      | Inl e \<Rightarrow> Inl e)"

end
