(* ===== verification/Json_Stream_Text.thy ===== *)
theory Json_Stream_Text
  imports Json_Stream
begin

text \<open>
  The text of a value and how the parser reads it: the serializer writes the text of the value with sorted keys,
  the parser consumes exactly that text whatever follows, and however the encoded text is cut into chunks.
\<close>

section \<open>Reading a text\<close>



text \<open>The reader still holds the text: the rest of the buffer, the kept bytes and the chunks to come.\<close>

definition reads :: "reader \<Rightarrow> ustr \<Rightarrow> bool" where
  "reads r t \<longleftrightarrow> (\<exists>s. t = rd_buffer r @ s \<and> list_all scalar s \<and>
     (if rd_finished r then s = []
      else decode (rd_kept r) = Some ([], rd_kept r) \<and> (\<exists>cs. rd_chunks r = map Some cs \<and> rd_kept r @ concat cs = utf8 s)))"

lemma decode_kept: "decode p = Some (s, kept) \<Longrightarrow> decode kept = Some ([], kept)"
proof (induction p arbitrary: s kept rule: decode.induct)
  case (2 b bs)
  show ?case
  proof (cases "length (take (needed b - 1) bs) < needed b - 1")
    case True
    with 2(2) show ?thesis by (auto simp: Let_def split: if_splits)
  next
    case False
    with 2(2) obtain t where t: "decode (drop (needed b - 1) bs) = Some (t, kept)"
      "\<not> (needed b = 0 \<or> \<not> continues b (take (needed b - 1) bs))"
      by (auto simp: Let_def simp del: decode.simps(1) split: if_splits)
    from 2(1)[OF refl t(2) False t(1)] show ?thesis .
  qed
qed simp

lemma decode_utf8: "list_all scalar t \<Longrightarrow> decode (utf8 t) = Some (t, [])"
  by (induction t) (simp_all add: decode_char)

lemma fill_loop_reads:
  "decode kept = Some ([], kept) \<Longrightarrow> list_all scalar s \<Longrightarrow> kept @ concat cs = utf8 s \<Longrightarrow>
     \<exists>r. fill_loop kept (map Some cs) = Inr r \<and> reads r s \<and> (rd_buffer r = [] \<longrightarrow> s = [])"
proof (induction cs arbitrary: kept s)
  case Nil
  then have "kept = [] \<and> s = []" using decode_utf8[of s] by auto
  then show ?case by (simp add: reads_def)
next
  case (Cons c cs)
  obtain a b kept' where ab: "s = a @ b" "decode (kept @ c) = Some (a, kept')" "kept' @ concat cs = utf8 b"
    using decode_split[of s "kept @ c" "concat cs"] Cons.prems by auto
  have b: "list_all scalar b" using Cons.prems(2) ab(1) by simp
  note kept = decode_kept[OF ab(2)]
  show ?case
  proof (cases "a = []")
    case True
    with Cons.IH[OF kept b ab(3)] ab show ?thesis by simp
  next
    case False
    then show ?thesis using ab b kept by (auto simp: reads_def)
  qed
qed

lemma fill_reads: "reads r t \<Longrightarrow> \<exists>r'. fill r = Inr r' \<and> reads r' t \<and> (rd_buffer r' = [] \<longrightarrow> t = [])"
proof -
  assume r: "reads r t"
  show ?thesis
  proof (cases "rd_buffer r \<noteq> [] \<or> rd_finished r")
    case True
    with r show ?thesis by (auto simp: fill_def reads_def)
  next
    case False
    with r obtain cs where "decode (rd_kept r) = Some ([], rd_kept r)" "rd_chunks r = map Some cs" "rd_kept r @ concat cs = utf8 t" "list_all scalar t"
      by (auto simp: reads_def)
    with fill_loop_reads[of "rd_kept r" t cs] False show ?thesis by (simp add: fill_def)
  qed
qed

text \<open>The parser consumes a prefix of the text.\<close>

definition runs :: "'a parser \<Rightarrow> ustr \<Rightarrow> 'a \<Rightarrow> ustr \<Rightarrow> bool" where
  "runs m t x t' \<longleftrightarrow> (\<forall>r. reads r t \<longrightarrow> (\<exists>r'. m r = Inr (x, r') \<and> reads r' t'))"

lemma runs_pret: "runs (pret x) t x t"
  by (simp add: runs_def pret_def)

lemma runs_pbind: "runs m t x t' \<Longrightarrow> runs (f x) t' y t'' \<Longrightarrow> runs (pbind m f) t y t''"
  unfolding runs_def pbind_def by (metis (no_types, lifting) case_prod_conv rbind_Inr)

lemma runs_peek: "runs peek t (case t of [] \<Rightarrow> None | c # _ \<Rightarrow> Some c) t"
  unfolding runs_def
proof (intro allI impI)
  fix r assume "reads r t"
  then obtain r' where "fill r = Inr r'" "reads r' t" "rd_buffer r' = [] \<longrightarrow> t = []" using fill_reads by blast
  then show "\<exists>r'. peek r = Inr (case t of [] \<Rightarrow> None | c # _ \<Rightarrow> Some c, r') \<and> reads r' t"
    by (cases "rd_buffer r'") (auto simp: peek_def reads_def)
qed

lemma runs_take: "runs take_char (c # t) (Some c) t"
  unfolding runs_def
proof (intro allI impI)
  fix r assume "reads r (c # t)"
  then obtain r' where r': "fill r = Inr r'" "reads r' (c # t)" "rd_buffer r' \<noteq> []" using fill_reads by blast
  then obtain b where b: "rd_buffer r' = c # b" by (cases "rd_buffer r'") (auto simp: reads_def)
  then have "take_char r = Inr (Some c, r'\<lparr>rd_buffer := b\<rparr>)" using r' by (simp add: take_char_def)
  moreover have "reads (r'\<lparr>rd_buffer := b\<rparr>) t" using r'(2) b by (auto simp: reads_def)
  ultimately show "\<exists>r'. take_char r = Inr (Some c, r') \<and> reads r' t" by blast
qed

lemma runs_expect: "runs (expect c) (c # t) () t"
  unfolding expect_def by (rule runs_pbind[OF runs_take]) (simp add: runs_pret)

lemma runs_take_n: "runs (take_n (length s)) (s @ t) s t"
proof (induction s)
  case (Cons c s)
  show ?case
    using runs_pbind[OF Cons.IH runs_pret, of "\<lambda>cs. c # cs"]
    by (auto intro!: runs_pbind[OF runs_take])
qed (simp add: runs_pret)

lemma runs_literal: "runs (literal s) (s @ t) () t"
  unfolding literal_def by (rule runs_pbind[OF runs_take_n]) (simp add: runs_pret)

definition blank :: "nat \<Rightarrow> bool" where
  "blank c \<longleftrightarrow> c \<in> {0x20, 9, 13, 10}"

lemma runs_skip:
  assumes "0 < n" and "case t of [] \<Rightarrow> True | c # _ \<Rightarrow> \<not> blank c"
  shows "runs (skip_whitespace n) t () t"
proof -
  obtain k where n: "n = Suc k" using assms(1) by (cases n) auto
  show ?thesis unfolding n skip_whitespace.simps
    by (rule runs_pbind[OF runs_peek]) (use assms(2) in \<open>auto simp: blank_def runs_pret split: list.splits\<close>)
qed

section \<open>Strings\<close>

definition escaped :: "nat \<Rightarrow> ustr" where
  "escaped c = (case short_escape c of Some e \<Rightarrow> e
     | None \<Rightarrow> if c < 0x20 then [0x5C] @ u ''u00'' @ [hex_code (c div 16), hex_code (c mod 16)] else [c])"

definition string_text :: "ustr \<Rightarrow> ustr" where
  "string_text s = [0x22] @ concat (map escaped s) @ [0x22]"

lemma concat_coalesce: "concat (coalesce buffer n ps) = concat buffer @ concat ps"
  by (induction buffer n ps rule: coalesce.induct) auto

lemma escape_loop_scalar: "list_all scalar s \<Longrightarrow> escape_loop s = Inr (map escaped s)"
  by (induction s) (auto simp: escaped_def scalar_def surrogate_def high_surrogate_def low_surrogate_def split: option.splits)

lemma iter_string_text:
  assumes "list_all scalar s"
  shows "\<exists>fs. iter_json_string s = Inr fs \<and> concat fs = string_text s"
  using assms by (simp add: iter_json_string_def escape_loop_scalar concat_coalesce string_text_def)

lemma u_simps [simp]: "u [] = []" "u (c # s) = of_char c # u s" "u (s @ t) = u s @ u t" "length (u s) = length s"
  by (simp_all add: u_def)

lemma hex_value_code: "n < 16 \<Longrightarrow> hex_value (hex_code n) = Some n"
  by (simp add: hex_value_def hex_code_def)

lemma runs_unicode_escape:
  assumes "c < 0x20"
  shows "runs unicode_escape (0x30 # 0x30 # hex_code (c div 16) # hex_code (c mod 16) # t) [c] t"
proof -
  let ?ds = "[0x30, 0x30, hex_code (c div 16), hex_code (c mod 16)]"
  have hex: "map hex_value ?ds = map Some [0, 0, c div 16, c mod 16]"
    using assms hex_value_code[of "c div 16"] hex_value_code[of "c mod 16"] by (simp add: hex_value_def)
  have four: "length ?ds = 4" by simp
  have "runs (take_n 4) (?ds @ t) ?ds t" using runs_take_n[of ?ds t] unfolding four .
  then have "runs (hex4 msg) (?ds @ t) c t" for msg
    unfolding hex4_def by (rule runs_pbind) (use hex in \<open>simp add: runs_pret\<close>)
  then show ?thesis unfolding unicode_escape_def
    by (intro runs_pbind[where x = c and t' = t]) (use assms in \<open>simp_all add: high_surrogate_def low_surrogate_def runs_pret\<close>)
qed

lemma short_escape_cases:
  "short_escape c = Some e \<Longrightarrow> e = [0x5C, e ! 1] \<and> unescape (e ! 1) = Some c"
proof -
  assume e: "short_escape c = Some e"
  then have "c \<in> {0x22, 0x5C, 8, 12, 10, 13, 9}" unfolding short_escape_def by (simp split: if_splits)
  then show ?thesis using e by (elim insertE emptyE) (auto simp: short_escape_def unescape_def)
qed

lemma runs_string_char:
  assumes "scalar c" and "runs (string_loop n (out @ [c])) t x t'"
  shows "runs (string_loop (Suc n) out) (escaped c @ t) x t'"
proof (cases "short_escape c")
  case (Some e)
  then obtain d where d: "escaped c = [0x5C, d]" "unescape d = Some c"
    using short_escape_cases[OF Some] by (simp add: escaped_def) metis
  have "runs escape_sequence (d # t) [c] t"
    unfolding escape_sequence_def by (rule runs_pbind[OF runs_take]) (simp add: d runs_pret)
  then show ?thesis unfolding d string_loop.simps
    using assms(2) by (auto intro!: runs_pbind[OF runs_take] runs_pbind[where x = "[c]" and t' = t])
next
  case None
  show ?thesis
  proof (cases "c < 0x20")
    case True
    have e: "escaped c = 0x5C # 0x75 # 0x30 # 0x30 # hex_code (c div 16) # [hex_code (c mod 16)]" using None True by (simp add: escaped_def)
    have "runs escape_sequence (0x75 # 0x30 # 0x30 # hex_code (c div 16) # hex_code (c mod 16) # t) [c] t"
      unfolding escape_sequence_def
      by (rule runs_pbind[OF runs_take]) (use runs_unicode_escape[OF True] in \<open>simp add: unescape_def\<close>)
    then show ?thesis unfolding e string_loop.simps
      using assms(2) by (auto intro!: runs_pbind[OF runs_take] runs_pbind[where x = "[c]" and t' = t])
  next
    case False
    then have e: "escaped c = [c]" and "c \<noteq> 0x22" "c \<noteq> 0x5C" using None by (auto simp: escaped_def short_escape_def split: if_splits)
    then show ?thesis unfolding string_loop.simps using False assms(2) by (auto intro!: runs_pbind[OF runs_take])
  qed
qed

lemma runs_string_loop:
  "list_all scalar s \<Longrightarrow> length s < n \<Longrightarrow> runs (string_loop n out) (concat (map escaped s) @ 0x22 # t) (out @ s) t"
proof (induction s arbitrary: n out)
  case Nil
  then obtain k where "n = Suc k" by (cases n) auto
  then show ?case by (auto intro!: runs_pbind[OF runs_take] runs_pret)
next
  case (Cons c s)
  then obtain k where n: "n = Suc k" by (cases n) auto
  have "runs (string_loop k (out @ [c])) (concat (map escaped s) @ 0x22 # t) ((out @ [c]) @ s) t"
    by (rule Cons.IH) (use Cons.prems n in auto)
  then show ?case using runs_string_char[of c k out] Cons.prems(1) n by simp
qed

lemma runs_jstring:
  assumes "list_all scalar s" "length s < n"
  shows "runs (jstring n) (string_text s @ t) s t"
  unfolding jstring_def string_text_def
  using runs_string_loop[OF assms, of "[]" t] by (auto intro!: runs_pbind[OF runs_expect])

section \<open>Numbers\<close>

lemma runs_number_loop:
  "list_all number_char k \<Longrightarrow> length k < n \<Longrightarrow> (case t of [] \<Rightarrow> True | c # _ \<Rightarrow> \<not> number_char c) \<Longrightarrow> runs (number_loop n) (k @ t) k t"
proof (induction k arbitrary: n)
  case Nil
  then obtain m where "n = Suc m" by (cases n) auto
  then show ?case using Nil.prems(3) runs_pbind[OF runs_peek, of "\<lambda>c. case c of None \<Rightarrow> pret [] | Some c \<Rightarrow> if \<not> number_char c then pret [] else pbind take_char (\<lambda>_. pbind (number_loop m) (\<lambda>t. pret (c # t)))" t "[]" t]
    by (auto simp: runs_pret split: list.splits)
next
  case (Cons c k)
  then obtain m where n: "n = Suc m" by (cases n) auto
  have "runs (number_loop m) (k @ t) k t" by (rule Cons.IH) (use Cons.prems n in auto)
  then show ?case unfolding n number_loop.simps using Cons.prems(1)
    by (auto intro!: runs_pbind[OF runs_peek] runs_pbind[OF runs_take] runs_pbind[where t' = t and x = k] runs_pret)
qed

lemma digits_val_snoc [simp]: "digits_val (ds @ [d]) = 10 * digits_val ds + (int d - 48)" "digits_val [] = 0"
  by (simp_all add: digits_val_def)

lemma show_nat_code: "u (show_nat n) = (if n < 10 then [48 + n] else u (show_nat (n div 10)) @ [48 + n mod 10])"
  by (subst show_nat.simps) simp

lemma show_nat_digits: "list_all udigit (u (show_nat n)) \<and> digits_val (u (show_nat n)) = int n"
proof (induction n rule: show_nat.induct)
  case (1 n)
  show ?case
  proof (cases "n < 10")
    case True
    then show ?thesis by (subst (1 2) show_nat_code) (simp add: udigit_def digits_val_def)
  next
    case False
    have "10 * int (n div 10) + int (n mod 10) = int n" by presburger
    moreover have "n mod 10 < 10" by simp
    then have "udigit (48 + n mod 10)" by (simp add: udigit_def)
    ultimately show ?thesis using 1[OF False] False by (subst (1 2) show_nat_code) simp
  qed
qed

lemma show_nat_hd: "n \<noteq> 0 \<Longrightarrow> hd (u (show_nat n)) \<noteq> 48"
proof (induction n rule: show_nat.induct)
  case (1 n)
  show ?case
  proof (cases "n < 10")
    case True
    with 1(2) show ?thesis by (subst show_nat_code) simp
  next
    case False
    have "u (show_nat (n div 10)) \<noteq> []" by (simp add: u_def)
    then show ?thesis using 1(1)[OF False] False by (subst show_nat_code) auto
  qed
qed

lemma json_number_digits:
  assumes "list_all udigit ds" "ds \<noteq> []" "hd ds = 0x30 \<Longrightarrow> length ds \<le> 1" "length ds \<le> digit_limit"
  shows "json_number fr ds = Inr (JInt (digits_val ds))" "json_number fr (0x2D # ds) = Inr (JInt (- digits_val ds))"
proof -
  have tw: "takeWhile udigit ds = ds" and dw: "dropWhile udigit ds = []" using assms(1) by (simp_all add: list_all_iff)
  have "udigit (hd ds)" using assms(1,2) by (cases ds) auto
  then have "hd ds \<noteq> 0x2D" by (auto simp: udigit_def)
  then show "json_number fr ds = Inr (JInt (digits_val ds))" "json_number fr (0x2D # ds) = Inr (JInt (- digits_val ds))"
    using assms(2-4) unfolding json_number_def Let_def by (auto simp: tw dw float_tail_def)
qed

lemma json_number_int:
  assumes "length (show_nat (nat \<bar>i\<bar>)) \<le> digit_limit"
  shows "json_number fr (u (show_int i)) = Inr (JInt i)"
proof -
  let ?ds = "u (show_nat (nat \<bar>i\<bar>))"
  have "length (show_nat 0) = 1" by (subst show_nat.simps) simp
  then have "hd ?ds = 0x30 \<Longrightarrow> length ?ds \<le> 1" using show_nat_hd[of "nat \<bar>i\<bar>"] by (cases "i = 0") auto
  then have "json_number fr ?ds = Inr (JInt \<bar>i\<bar>)" "json_number fr (0x2D # ?ds) = Inr (JInt (- \<bar>i\<bar>))"
    using json_number_digits[of ?ds fr] show_nat_digits[of "nat \<bar>i\<bar>"] assms by (simp_all add: u_def)
  then show ?thesis by (auto simp: show_int_def split: if_splits)
qed

text \<open>A number is followed by nothing, a comma or a closing bracket.\<close>

definition value_stop :: "ustr \<Rightarrow> bool" where
  "value_stop t \<longleftrightarrow> (case t of [] \<Rightarrow> True | c # _ \<Rightarrow> c \<in> {0x2C, 0x5D, 0x7D})"

lemma value_stop_simps [simp]: "value_stop []" "value_stop (c # t) \<longleftrightarrow> c \<in> {0x2C, 0x5D, 0x7D}"
  by (simp_all add: value_stop_def)

lemma value_stop_not:
  assumes "value_stop t"
  shows "case t of [] \<Rightarrow> True | c # _ \<Rightarrow> \<not> number_char c" "case t of [] \<Rightarrow> True | c # _ \<Rightarrow> \<not> blank c"
  using assms by (auto simp: value_stop_def number_char_def udigit_def blank_def split: list.splits)

definition number_token :: "ustr \<Rightarrow> bool" where
  "number_token k \<longleftrightarrow> list_all number_char k \<and> k \<noteq> [] \<and> (hd k = 0x2D \<or> udigit (hd k))"

lemma int_token: "number_token (u (show_int i))"
proof -
  have "list_all number_char (u (show_nat n))" "u (show_nat n) \<noteq> []" "udigit (hd (u (show_nat n)))" for n
  proof -
    have d: "list_all udigit (u (show_nat n))" and ne: "u (show_nat n) \<noteq> []" using show_nat_digits[of n] by (auto simp: u_def)
    then show "list_all number_char (u (show_nat n))" "u (show_nat n) \<noteq> []" "udigit (hd (u (show_nat n)))"
      by (auto simp: list_all_iff number_char_def)
  qed
  then show ?thesis by (auto simp: number_token_def show_int_def number_char_def)
qed

lemma runs_jnumber:
  assumes "number_token k" "length k < n" "value_stop t" "json_number fr k = Inr v"
  shows "runs (jnumber fr n) (k @ t) v t"
proof -
  have "runs (number_loop n) (k @ t) k t" using assms(1,2) value_stop_not(1)[OF assms(3)] by (intro runs_number_loop) (auto simp: number_token_def)
  then show ?thesis unfolding jnumber_def by (rule runs_pbind) (simp add: assms(4) runs_def)
qed

section \<open>Values\<close>

text \<open>The values JSON can express: well-formed Unicode, distinct keys, finite floats whose \<open>repr\<close> reads back, and
  integers Python prints. \<open>sorted_json\<close> orders the keys of every object.\<close>

definition float_ok :: "(ustr \<Rightarrow> ustr) \<Rightarrow> ustr \<Rightarrow> bool" where
  "float_ok fr r \<longleftrightarrow> number_token r \<and> json_number fr r = Inr (JFloat r)"

fun wf_json :: "(ustr \<Rightarrow> ustr) \<Rightarrow> jval \<Rightarrow> bool" where
  "wf_json fr (JInt i) \<longleftrightarrow> length (show_nat (nat \<bar>i\<bar>)) \<le> digit_limit"
| "wf_json fr (JFloat r) \<longleftrightarrow> float_ok fr r"
| "wf_json fr (JStr s) \<longleftrightarrow> list_all scalar s"
| "wf_json fr (JList xs) \<longleftrightarrow> list_all (wf_json fr) xs"
| "wf_json fr (JObj d) \<longleftrightarrow> distinct (map fst d) \<and> list_all (\<lambda>(k, v). list_all scalar k \<and> wf_json fr v) d"
| "wf_json fr JNull \<longleftrightarrow> True"
| "wf_json fr (JBool b) \<longleftrightarrow> True"
| "wf_json fr _ \<longleftrightarrow> False"

primrec sorted_json :: "jval \<Rightarrow> jval" where
  "sorted_json JNull = JNull"
| "sorted_json (JBool b) = JBool b"
| "sorted_json (JInt i) = JInt i"
| "sorted_json (JFloat r) = JFloat r"
| "sorted_json (JStr s) = JStr s"
| "sorted_json (JList xs) = JList (map sorted_json xs)"
| "sorted_json (JObj d) = JObj (sort_key fst (map (map_prod id sorted_json) d))"
| "sorted_json (JEnum v) = JEnum v"
| "sorted_json (JData fs) = JData fs"
| "sorted_json JMixed = JMixed"
| "sorted_json JOther = JOther"

fun ujoin :: "ustr list \<Rightarrow> ustr" where
  "ujoin [] = []"
| "ujoin [x] = x"
| "ujoin (x # y # ys) = x @ 0x2C # ujoin (y # ys)"

primrec jtext :: "jval \<Rightarrow> ustr" where
  "jtext JNull = u ''null''"
| "jtext (JBool b) = (if b then u ''true'' else u ''false'')"
| "jtext (JInt i) = u (show_int i)"
| "jtext (JFloat r) = r"
| "jtext (JStr s) = string_text s"
| "jtext (JList xs) = 0x5B # ujoin (map jtext xs) @ [0x5D]"
| "jtext (JObj d) = 0x7B # ujoin (map (\<lambda>(k, t). string_text k @ 0x3A # t) (map (map_prod id jtext) d)) @ [0x7D]"
| "jtext (JEnum v) = []"
| "jtext (JData fs) = []"
| "jtext JMixed = []"
| "jtext JOther = []"

subsection \<open>The serializer writes the text of the sorted value\<close>

lemma concat_commas: "concat (commas fss) = ujoin (map concat fss)"
proof -
  have "concat fs @ concat (concat (map (\<lambda>gs. [0x2C] # gs) rest)) = ujoin (map concat (fs # rest))" for fs rest
    by (induction rest arbitrary: fs) auto
  then show ?thesis by (cases fss) (simp_all add: commas_def)
qed

lemma insort_map_prod: "insort_key fst (map_prod id f x) (map (map_prod id f) d) = map (map_prod id f) (insort_key fst x d)"
  by (induction d) auto

lemma sort_map_prod: "sort_key fst (map (map_prod id f) d) = map (map_prod id f) (sort_key fst d)"
  by (induction d) (simp_all add: insort_map_prod[unfolded id_def])

lemma mapM_texts:
  assumes "\<And>x. x \<in> set xs \<Longrightarrow> \<exists>fs. f x = Inr fs \<and> concat fs = g x"
  shows "\<exists>fss. mapM f xs = Inr fss \<and> map concat fss = map g xs"
  using assms
proof (induction xs)
  case (Cons x xs)
  from Cons.prems[of x] obtain fs where "f x = Inr fs" "concat fs = g x" by auto
  moreover from Cons.IH Cons.prems obtain fss where "mapM f xs = Inr fss" "map concat fss = map g xs" by auto
  ultimately show ?case by simp
qed simp

lemma float_ok_text:
  assumes "float_ok fr r"
  shows "float_text r = Inr r"
proof -
  have "hd r \<noteq> 110" "hd r \<noteq> 105" "r \<noteq> u ''-inf''"
    using assms by (auto simp: float_ok_def number_token_def udigit_def number_char_def)
  then show ?thesis by (auto simp: float_text_def)
qed

lemma iter_value_text: "wf_json fr v \<Longrightarrow> \<exists>fs. iter_value v = Inr fs \<and> concat fs = jtext (sorted_json v)"
proof (induction v)
  case (JInt i)
  then show ?case by (simp add: int_text_def)
next
  case (JFloat r)
  then show ?case using float_ok_text[of fr r] by simp
next
  case (JStr s)
  then show ?case using iter_string_text by simp
next
  case (JList xs)
  have "\<exists>fss. mapM iter_value xs = Inr fss \<and> map concat fss = map (\<lambda>x. jtext (sorted_json x)) xs"
    by (rule mapM_texts) (use JList in \<open>auto simp: list_all_iff\<close>)
  then show ?case by (auto simp: concat_commas comp_def)
next
  case (JObj d)
  let ?f = "\<lambda>(k, v). rbind (iter_json_string k) (\<lambda>ks. rbind (iter_value v) (\<lambda>vs. Inr (ks @ [[0x3A]] @ vs)))"
  let ?g = "\<lambda>(k, v). string_text k @ 0x3A # jtext (sorted_json v)"
  have "\<exists>fss. mapM ?f (sort_key fst d) = Inr fss \<and> map concat fss = map ?g (sort_key fst d)"
  proof (rule mapM_texts)
    fix x assume "x \<in> set (sort_key fst d)"
    then have "x \<in> set d" by simp
    then obtain k v where x: "x = (k, v)" "(k, v) \<in> set d" by (metis surj_pair)
    then have "list_all scalar k" "wf_json fr v" using JObj.prems by (auto simp: list_all_iff)
    moreover from this JObj.IH[OF x(2), of v] obtain fs where "iter_value v = Inr fs" "concat fs = jtext (sorted_json v)" by auto
    ultimately show "\<exists>fs. ?f x = Inr fs \<and> concat fs = ?g x" using iter_string_text[of k] x(1) by auto
  qed
  then obtain fss where fss: "mapM ?f (sort_key fst d) = Inr fss" "map concat fss = map ?g (sort_key fst d)" by blast
  have "map ?g (sort_key fst d) = map (\<lambda>(k, t). string_text k @ 0x3A # t) (map (map_prod id jtext) (sort_key fst (map (map_prod id sorted_json) d)))"
    by (simp add: sort_map_prod comp_def case_prod_beta)
  then show ?case using fss by (simp add: concat_commas)
qed auto

subsection \<open>The parser reads the text back\<close>

lemma ujoin_Cons: "ujoin (x # xs) = x @ (if xs = [] then [] else 0x2C # ujoin xs)"
  by (cases xs) simp_all

lemma jtext_start:
  assumes "wf_json fr v"
  shows "\<exists>c t. jtext v = c # t \<and> \<not> blank c \<and> c \<notin> {0x2C, 0x5D, 0x7D}"
  using assms
proof (cases v)
  case (JInt i)
  then show ?thesis using int_token[of i] by (cases "u (show_int i)") (auto simp: number_token_def blank_def udigit_def)
next
  case (JFloat r)
  then show ?thesis using assms by (cases r) (auto simp: float_ok_def number_token_def blank_def udigit_def)
qed (auto simp: blank_def string_text_def)

text \<open>What the induction gives for the parts of a value.\<close>

definition readable :: "(ustr \<Rightarrow> ustr) \<Rightarrow> jval \<Rightarrow> bool" where
  "readable fr v \<longleftrightarrow> (\<forall>n t. 2 * length (jtext v) < n \<longrightarrow> value_stop t \<longrightarrow> runs (jvalue fr n) (jtext v @ t) v t) \<and>
     (\<exists>c t. jtext v = c # t \<and> \<not> blank c \<and> c \<notin> {0x2C, 0x5D, 0x7D})"

lemma readable_skip: "readable fr v \<Longrightarrow> 0 < n \<Longrightarrow> runs (skip_whitespace n) (jtext v @ t) () (jtext v @ t)"
  by (rule runs_skip) (auto simp: readable_def)

lemma runs_array_loop:
  "list_all (readable fr) xs \<Longrightarrow> xs \<noteq> [] \<Longrightarrow> 2 * length (ujoin (map jtext xs)) + 1 < n \<Longrightarrow>
     runs (array_loop fr n acc) (ujoin (map jtext xs) @ 0x5D # t) (acc @ xs) t"
proof (induction xs arbitrary: n acc)
  case (Cons x xs)
  obtain m where n: "n = Suc m" using Cons.prems(3) by (cases n) auto
  have x: "readable fr x" using Cons.prems(1) by simp
  then have pos: "0 < length (jtext x)" by (auto simp: readable_def)
  let ?rest = "(if xs = [] then [] else 0x2C # ujoin (map jtext xs)) @ 0x5D # t"
  have split: "ujoin (map jtext (x # xs)) @ 0x5D # t = jtext x @ ?rest" by (simp add: ujoin_Cons)
  have "2 * length (jtext x) < m" using Cons.prems(3) by (simp add: n ujoin_Cons split: if_splits)
  moreover from this pos have "0 < m" by linarith
  ultimately have len: "2 * length (jtext x) < m" "0 < m" .
  have val: "runs (jvalue fr m) (jtext x @ ?rest) x ?rest" using x len by (auto simp: readable_def)
  have skip: "runs (skip_whitespace m) ?rest () ?rest" using len by (intro runs_skip) (auto simp: blank_def)
  show ?case
  proof (cases "xs = []")
    case True
    then show ?thesis unfolding n split array_loop.simps
      by (intro runs_pbind[OF val] runs_pbind[OF skip]) (simp, rule runs_pbind[OF runs_take], simp add: runs_pret)
  next
    case False
    have loop: "runs (array_loop fr m (acc @ [x])) (ujoin (map jtext xs) @ 0x5D # t) ((acc @ [x]) @ xs) t"
      by (rule Cons.IH) (use Cons.prems False pos in \<open>auto simp: n ujoin_Cons\<close>)
    have "runs (skip_whitespace m) (ujoin (map jtext xs) @ 0x5D # t) () (ujoin (map jtext xs) @ 0x5D # t)"
      using readable_skip[of fr "hd xs" m] False Cons.prems(1) len(2) by (cases xs) (auto simp: ujoin_Cons)
    then show ?thesis unfolding n split array_loop.simps using False loop
      by (intro runs_pbind[OF val] runs_pbind[OF skip]) (auto intro!: runs_pbind[OF runs_take] runs_pbind[where x = "()"])
  qed
qed simp

lemma update_new: "k \<notin> fst ` set d \<Longrightarrow> AList.update k v d = d @ [(k, v)]"
  by (induction d) auto

abbreviation item_text :: "ustr \<times> jval \<Rightarrow> ustr" where
  "item_text kv \<equiv> string_text (fst kv) @ 0x3A # jtext (snd kv)"

lemma string_text_Cons: "string_text s = 0x22 # concat (map escaped s) @ [0x22]"
  by (simp add: string_text_def)

lemma escaped_length: "length s \<le> length (concat (map escaped s))"
proof (induction s)
  case (Cons c s)
  have "1 \<le> length (escaped c)" by (auto simp: escaped_def short_escape_def)
  with Cons.IH show ?case by simp
qed simp

lemma string_text_length: "length s + 2 \<le> length (string_text s)"
  using escaped_length[of s] by (simp add: string_text_def)

lemma runs_object_loop:
  "list_all (\<lambda>(k, v). list_all scalar k \<and> readable fr v) d \<Longrightarrow> distinct (map fst (acc @ d)) \<Longrightarrow> d \<noteq> [] \<Longrightarrow>
     2 * length (ujoin (map item_text d)) + 1 < n \<Longrightarrow>
     runs (object_loop fr n acc) (ujoin (map item_text d) @ 0x7D # t) (acc @ d) t"
proof (induction d arbitrary: n acc)
  case (Cons kv d)
  obtain k v where kv: "kv = (k, v)" by (rule prod.exhaust)
  obtain m where n: "n = Suc m" using Cons.prems(4) by (cases n) auto
  have k: "list_all scalar k" and v: "readable fr v" using Cons.prems(1) kv by simp_all
  let ?rest = "(if d = [] then [] else 0x2C # ujoin (map item_text d)) @ 0x7D # t"
  have split: "ujoin (map item_text (kv # d)) @ 0x7D # t = string_text k @ 0x3A # jtext v @ ?rest" by (simp add: ujoin_Cons kv)
  have len: "2 * length (jtext v) < m" "length k < m" "0 < m"
    using Cons.prems(4) string_text_length[of k] by (auto simp: n ujoin_Cons kv split: if_splits)
  have key: "runs (jstring m) (string_text k @ 0x3A # jtext v @ ?rest) k (0x3A # jtext v @ ?rest)" by (rule runs_jstring[OF k len(2)])
  have skip: "runs (skip_whitespace m) (0x3A # s) () (0x3A # s)" "runs (skip_whitespace m) ?rest () ?rest" for s
    using len(3) by (auto intro!: runs_skip simp: blank_def)
  have val: "runs (jvalue fr m) (jtext v @ ?rest) v ?rest" using v len by (auto simp: readable_def)
  have new: "AList.update k v acc = acc @ [kv]" using Cons.prems(2) by (simp add: kv update_new)
  have peek: "runs peek (string_text k @ s) (Some 0x22) (string_text k @ s)" for s
    using runs_peek[of "string_text k @ s"] by (simp add: string_text_Cons)
  have item: "runs (object_loop fr n acc) (ujoin (map item_text (kv # d)) @ 0x7D # t) (acc @ kv # d) t"
    if "runs (pbind take_char (\<lambda>c. if c = Some 0x7D then pret (AList.update k v acc)
        else if c \<noteq> Some 0x2C then pfail ''JSON object is missing a comma or closing brace.''
        else pbind (skip_whitespace m) (\<lambda>_. object_loop fr m (AList.update k v acc)))) ?rest (acc @ kv # d) t"
    unfolding n split object_loop.simps
    by (rule runs_pbind[OF peek], subst if_not_P, simp, rule runs_pbind[OF key], rule runs_pbind[OF skip(1)],
        rule runs_pbind[OF runs_expect], rule runs_pbind[OF readable_skip[OF v len(3)]], rule runs_pbind[OF val],
        rule runs_pbind[OF skip(2)], rule that)
  show ?case
  proof (cases "d = []")
    case True
    then show ?thesis by (intro item) (auto intro!: runs_pbind[OF runs_take] simp: runs_pret new)
  next
    case False
    have loop: "runs (object_loop fr m (acc @ [kv])) (ujoin (map item_text d) @ 0x7D # t) ((acc @ [kv]) @ d) t"
      by (rule Cons.IH) (use Cons.prems False in \<open>auto simp: n ujoin_Cons kv\<close>)
    have "runs (skip_whitespace m) (ujoin (map item_text d) @ 0x7D # t) () (ujoin (map item_text d) @ 0x7D # t)"
      using False len(3) by (cases d) (auto intro!: runs_skip simp: ujoin_Cons string_text_Cons blank_def)
    with False loop show ?thesis
      by (intro item) (auto intro!: runs_pbind[OF runs_take] runs_pbind[where x = "()"] simp: new)
  qed
qed simp

lemma runs_jvalue:
  "runs (pbind (jstring m) (\<lambda>s. pret (JStr s))) (0x22 # s) v t \<Longrightarrow> runs (jvalue fr (Suc m)) (0x22 # s) v t"
  "runs (pbind (expect 0x7B) (\<lambda>_. pbind (skip_whitespace m) (\<lambda>_. pbind peek (\<lambda>d.
      if d = Some 0x7D then pbind take_char (\<lambda>_. pret (JObj []))
      else pbind (object_loop fr m []) (\<lambda>d. pret (JObj d)))))) (0x7B # s) v t \<Longrightarrow> runs (jvalue fr (Suc m)) (0x7B # s) v t"
  "runs (pbind (expect 0x5B) (\<lambda>_. pbind (skip_whitespace m) (\<lambda>_. pbind peek (\<lambda>d.
      if d = Some 0x5D then pbind take_char (\<lambda>_. pret (JList []))
      else pbind (array_loop fr m []) (\<lambda>xs. pret (JList xs)))))) (0x5B # s) v t \<Longrightarrow> runs (jvalue fr (Suc m)) (0x5B # s) v t"
  "runs (pbind (literal (u ''true'')) (\<lambda>_. pret (JBool True))) (0x74 # s) v t \<Longrightarrow> runs (jvalue fr (Suc m)) (0x74 # s) v t"
  "runs (pbind (literal (u ''false'')) (\<lambda>_. pret (JBool False))) (0x66 # s) v t \<Longrightarrow> runs (jvalue fr (Suc m)) (0x66 # s) v t"
  "runs (pbind (literal (u ''null'')) (\<lambda>_. pret JNull)) (0x6E # s) v t \<Longrightarrow> runs (jvalue fr (Suc m)) (0x6E # s) v t"
  unfolding jvalue.simps by (rule runs_pbind[OF runs_peek], simp)+

lemma runs_jvalue_number:
  assumes "c = 0x2D \<or> udigit c" "runs (jnumber fr m) (c # s) v t"
  shows "runs (jvalue fr (Suc m)) (c # s) v t"
proof -
  have "c \<notin> {0x22, 0x7B, 0x5B, 0x74, 0x66, 0x6E}" using assms(1) by (auto simp: udigit_def)
  then show ?thesis unfolding jvalue.simps by (intro runs_pbind[OF runs_peek]) (use assms in simp)
qed

lemma readableI:
  assumes "wf_json fr v" and "\<And>m t. 2 * length (jtext v) \<le> m \<Longrightarrow> value_stop t \<Longrightarrow> runs (jvalue fr (Suc m)) (jtext v @ t) v t"
  shows "readable fr v"
proof -
  obtain c s where c: "jtext v = c # s" "\<not> blank c" "c \<notin> {0x2C, 0x5D, 0x7D}" using jtext_start[OF assms(1)] by blast
  have "runs (jvalue fr n) (jtext v @ t) v t" if n: "2 * length (jtext v) < n" and "value_stop t" for n t
  proof -
    obtain m where "n = Suc m" using n by (cases n) auto
    with assms(2)[of m t] that show ?thesis by simp
  qed
  with c show ?thesis unfolding readable_def by blast
qed

lemma runs_number_value:
  assumes "number_token k" "2 * length k \<le> m" "value_stop t" "json_number fr k = Inr v"
  shows "runs (jvalue fr (Suc m)) (k @ t) v t"
proof -
  obtain c s where k: "k = c # s" "c = 0x2D \<or> udigit c" using assms(1) by (cases k) (auto simp: number_token_def)
  then have "length k < m" using assms(2) by simp
  then have "runs (jnumber fr m) (k @ t) v t" by (rule runs_jnumber[OF assms(1) _ assms(3,4)])
  then show ?thesis using runs_jvalue_number[OF k(2)] k(1) by simp
qed

lemma runs_list_value:
  assumes "list_all (readable fr) xs" "2 * length (jtext (JList xs)) \<le> m"
  shows "runs (jvalue fr (Suc m)) (jtext (JList xs) @ t) (JList xs) t"
proof -
  have m: "0 < m" using assms(2) by simp
  let ?s = "ujoin (map jtext xs) @ 0x5D # t"
  have head: "case ?s of [] \<Rightarrow> True | c # _ \<Rightarrow> \<not> blank c"
    using assms(1) by (cases xs) (auto simp: ujoin_Cons readable_def blank_def)
  have "runs (if (case ?s of [] \<Rightarrow> None | c # _ \<Rightarrow> Some c) = Some 0x5D then pbind take_char (\<lambda>_. pret (JList []))
      else pbind (array_loop fr m []) (\<lambda>xs. pret (JList xs))) ?s (JList xs) t"
  proof (cases "xs = []")
    case True
    then show ?thesis by (auto intro!: runs_pbind[OF runs_take] runs_pret)
  next
    case False
    have "(case ?s of [] \<Rightarrow> None | c # _ \<Rightarrow> Some c) \<noteq> Some 0x5D"
      using assms(1) False by (cases xs) (auto simp: ujoin_Cons readable_def)
    moreover have "runs (array_loop fr m []) ?s ([] @ xs) t"
      using assms False by (intro runs_array_loop) auto
    ultimately show ?thesis by (auto intro!: runs_pbind[where x = xs and t' = t] runs_pret)
  qed
  then have "runs (jvalue fr (Suc m)) (0x5B # ?s) (JList xs) t"
    by (intro runs_jvalue(3) runs_pbind[OF runs_expect] runs_pbind[OF runs_skip[OF m head]] runs_pbind[OF runs_peek])
  then show ?thesis by simp
qed

lemma runs_object_value:
  assumes "list_all (\<lambda>(k, v). list_all scalar k \<and> readable fr v) d" "distinct (map fst d)" "2 * length (jtext (JObj d)) \<le> m"
  shows "runs (jvalue fr (Suc m)) (jtext (JObj d) @ t) (JObj d) t"
proof -
  have items: "map (\<lambda>(k, t). string_text k @ 0x3A # t) (map (map_prod id jtext) d) = map item_text d" by auto
  have m: "0 < m" using assms(3) by simp
  let ?s = "ujoin (map item_text d) @ 0x7D # t"
  have head: "case ?s of [] \<Rightarrow> True | c # _ \<Rightarrow> \<not> blank c" by (cases d) (auto simp: ujoin_Cons string_text_Cons blank_def)
  have "runs (if (case ?s of [] \<Rightarrow> None | c # _ \<Rightarrow> Some c) = Some 0x7D then pbind take_char (\<lambda>_. pret (JObj []))
      else pbind (object_loop fr m []) (\<lambda>d. pret (JObj d))) ?s (JObj d) t"
  proof (cases "d = []")
    case True
    then show ?thesis by (auto intro!: runs_pbind[OF runs_take] runs_pret)
  next
    case False
    have "(case ?s of [] \<Rightarrow> None | c # _ \<Rightarrow> Some c) \<noteq> Some 0x7D"
      using False by (cases d) (auto simp: ujoin_Cons string_text_Cons)
    moreover have "2 * length (ujoin (map item_text d)) + 1 < m" using assms(3) unfolding jtext.simps items by simp
    then have "runs (object_loop fr m []) ?s ([] @ d) t" using assms(1,2) False by (intro runs_object_loop) auto
    ultimately show ?thesis by (auto intro!: runs_pbind[where x = d and t' = t] runs_pret)
  qed
  then have "runs (jvalue fr (Suc m)) (0x7B # ?s) (JObj d) t"
    by (intro runs_jvalue(2) runs_pbind[OF runs_expect] runs_pbind[OF runs_skip[OF m head]] runs_pbind[OF runs_peek])
  then show ?thesis unfolding jtext.simps items by simp
qed

lemma wf_readable: "wf_json fr v \<Longrightarrow> readable fr v"
proof (induction v)
  case JNull
  then show ?case
    by (rule readableI) (use runs_literal[of "u ''null''"] in \<open>auto intro!: runs_jvalue(6) runs_pbind[where x = "()"] runs_pret simp del: jvalue.simps\<close>)
next
  case (JBool b)
  then show ?case
    by (rule readableI) (cases b, use runs_literal[of "u ''true''"] runs_literal[of "u ''false''"] in
      \<open>auto intro!: runs_jvalue(4,5) runs_pbind[where x = "()"] runs_pret simp del: jvalue.simps\<close>)
next
  case (JInt i)
  have n: "json_number fr (u (show_int i)) = Inr (JInt i)" using JInt by (intro json_number_int) simp
  show ?case by (rule readableI[OF JInt]) (simp add: runs_number_value[OF int_token _ _ n] del: jvalue.simps)
next
  case (JFloat r)
  then have "number_token r" "json_number fr r = Inr (JFloat r)" by (simp_all add: float_ok_def)
  from runs_number_value[OF this(1) _ _ this(2)] show ?case by (intro readableI[OF JFloat]) (simp del: jvalue.simps)
next
  case (JStr s)
  show ?case
  proof (rule readableI[OF JStr])
    fix m t assume "2 * length (jtext (JStr s)) \<le> m"
    then have "length s < m" using string_text_length[of s] by simp
    with JStr have "runs (jstring m) (string_text s @ t) s t" by (intro runs_jstring) simp_all
    then show "runs (jvalue fr (Suc m)) (jtext (JStr s) @ t) (JStr s) t" unfolding jtext.simps string_text_Cons append_Cons
      by (intro runs_jvalue(1)) (auto intro!: runs_pbind runs_pret)
  qed
next
  case (JList xs)
  have "list_all (readable fr) xs" using JList by (auto simp: list_all_iff)
  then show ?case by (intro readableI[OF JList.prems] runs_list_value)
next
  case (JObj d)
  have "list_all (\<lambda>(k, v). list_all scalar k \<and> readable fr v) d" using JObj by (auto simp: list_all_iff)
  then show ?case using JObj.prems by (intro readableI[OF JObj.prems] runs_object_value) simp_all
qed auto

section \<open>Round trip\<close>

lemma wf_sorted: "wf_json fr v \<Longrightarrow> wf_json fr (sorted_json v)"
proof (induction v)
  case (JObj d)
  have "map fst (sort_key fst (map (map_prod id sorted_json) d)) = map fst (sort_key fst d)"
    by (simp add: sort_map_prod comp_def)
  moreover have "distinct (map fst (sort_key fst d))" using JObj.prems by (simp add: distinct_map inj_on_def)
  ultimately show ?case using JObj by (auto simp: list_all_iff sort_map_prod)
qed (auto simp: list_all_iff)

lemma utf8_length: "length t \<le> length (utf8 t)"
proof (induction t)
  case (Cons c t)
  have "1 \<le> length (utf8_char c)" by (simp add: utf8_char_def)
  with Cons.IH show ?case by simp
qed simp

lemma parse_text:
  assumes "wf_json fr v" and "list_all scalar (jtext v)" and "concat cs = utf8 (jtext v)"
  shows "parse_json_byte_chunks fr (map Some cs) = Inr v"
proof -
  let ?r = "\<lparr>rd_chunks = map Some cs, rd_kept = [], rd_buffer = [], rd_finished = False\<rparr>" and ?n = "stream_fuel (map Some cs)"
  have "sum_list (map (\<lambda>c. case c of None \<Rightarrow> 0 | Some b \<Rightarrow> length b) (map Some cs)) = length (concat cs)"
    by (simp add: length_concat comp_def)
  then have n: "2 * length (jtext v) < ?n" "0 < ?n" using utf8_length[of "jtext v"] assms(3) by (simp_all add: stream_fuel_def)
  have v: "readable fr v" by (rule wf_readable[OF assms(1)])
  then have val: "runs (jvalue fr ?n) (jtext v @ []) v []" using n(1) unfolding readable_def by (meson value_stop_simps(1))
  have "runs (parse_stream fr ?n) (jtext v @ []) v []" unfolding parse_stream_def
    by (rule runs_pbind[OF readable_skip[OF v n(2)]], rule runs_pbind[OF val], rule runs_pbind[OF runs_skip[OF n(2)]], simp,
        rule runs_pbind[OF runs_peek], simp add: runs_pret)
  moreover have "reads ?r (jtext v)" using assms(2,3) by (auto simp: reads_def)
  ultimately obtain r' where "parse_stream fr ?n ?r = Inr (v, r')" by (auto simp: runs_def)
  then show ?thesis by (simp add: parse_json_byte_chunks_def)
qed

lemma ascii_scalar: "c < 0x80 \<Longrightarrow> scalar c"
  by (simp add: scalar_def surrogate_def)

lemma scalar_ujoin: "list_all (list_all scalar) ts \<Longrightarrow> list_all scalar (ujoin ts)"
  by (induction ts rule: ujoin.induct) (auto simp: ascii_scalar)

lemma scalar_escaped: "scalar c \<Longrightarrow> list_all scalar (escaped c)"
  by (auto simp: escaped_def short_escape_def ascii_scalar hex_code_def)

lemma scalar_string_text: "list_all scalar s \<Longrightarrow> list_all scalar (string_text s)"
  by (induction s) (auto simp: string_text_def ascii_scalar scalar_escaped)

lemma scalar_token: "number_token k \<Longrightarrow> list_all scalar k"
  by (auto simp: number_token_def list_all_iff number_char_def udigit_def intro!: ascii_scalar)

lemma scalar_jtext: "wf_json fr v \<Longrightarrow> list_all scalar (jtext v)"
proof (induction v)
  case (JObj d)
  have "list_all scalar (string_text k @ 0x3A # jtext w)" if kw: "(k, w) \<in> set d" for k w
  proof -
    have "list_all scalar k" "wf_json fr w" using JObj.prems kw by (auto simp: list_all_iff)
    then show ?thesis using JObj.IH[OF kw, of w] scalar_string_text by (simp add: ascii_scalar)
  qed
  then have "list_all (list_all scalar) (map (\<lambda>(k, t). string_text k @ 0x3A # t) (map (map_prod id jtext) d))"
    by (simp add: list_all_iff[of "list_all scalar"] case_prod_beta) (metis prod.collapse)
  then show ?case using scalar_ujoin by (simp add: ascii_scalar)
next
  case (JList xs)
  then have "list_all (list_all scalar) (map jtext xs)" by (auto simp: list_all_iff)
  then show ?case using scalar_ujoin by (simp add: ascii_scalar)
qed (auto simp: ascii_scalar scalar_string_text scalar_token[OF int_token] float_ok_def scalar_token)

lemma json_roundtrip:
  assumes "wf_json fr v"
  shows "\<exists>fs. iter_canonical_json v = Inr fs \<and>
    (\<forall>cs. concat cs = utf8 (concat fs) \<longrightarrow> parse_json_byte_chunks fr (map Some cs) = Inr (sorted_json v))"
proof -
  obtain fs where fs: "iter_value v = Inr fs" "concat fs = jtext (sorted_json v)" using iter_value_text[OF assms] by blast
  note wf = wf_sorted[OF assms]
  show ?thesis using fs parse_text[OF wf scalar_jtext[OF wf]] by (auto simp: iter_canonical_json_def)
qed

lemma blocks_text:
  assumes "\<forall>f \<in> set fs. \<not> list_ex surrogate f"
  shows "mapM encode_strict fs = Inr (map utf8 fs)"
  using assms by (induction fs) (simp_all add: encode_strict_def)

lemma sha_of_text:
  assumes "wf_json fr v"
  shows "canonical_json_sha256 sha v = Inr (''sha256:'' @ sha (utf8 (jtext (sorted_json v))))"
proof -
  obtain fs where fs: "iter_value v = Inr fs" "concat fs = jtext (sorted_json v)" using iter_value_text[OF assms] by blast
  let ?bs = "coalesce [] 0 fs"
  have joined: "concat ?bs = jtext (sorted_json v)" using fs(2) by (simp add: concat_coalesce)
  have "list_all scalar (concat ?bs)" unfolding joined by (rule scalar_jtext[OF wf_sorted[OF assms]])
  then have "\<forall>b \<in> set ?bs. \<not> list_ex surrogate b" by (fastforce simp: list_all_iff list_ex_iff scalar_def)
  moreover have "concat (map utf8 bs) = utf8 (concat bs)" for bs by (induction bs) simp_all
  ultimately show ?thesis using fs(1) blocks_text[of ?bs] joined by (simp add: canonical_json_sha256_def iter_canonical_json_def)
qed

end
