(* ===== verification/Json_Stream_Fuel.thy ===== *)
theory Json_Stream_Fuel
  imports Json_Stream
begin

text \<open>
  The parser ends on every input: no step of the reader returns more characters than there are bytes, every
  iteration and every nested value takes a character, so the fuel is never exhausted and only the documented
  exceptions are raised.
\<close>

text \<open>The exceptions of the parser, and what remains to be read: no step reads more than it had.\<close>

definition stream_errors :: "json_error set" where
  "stream_errors = {UnicodeDecodeError, DigitLimitError} \<union> range StreamingJsonDecodeError"

definition rsize :: "reader \<Rightarrow> nat" where
  "rsize r = length (rd_buffer r) + length (rd_kept r) + sum_list (map (\<lambda>c. case c of None \<Rightarrow> 0 | Some b \<Rightarrow> length b) (rd_chunks r))"

definition ends :: "'a parser \<Rightarrow> reader \<Rightarrow> ('a \<Rightarrow> reader \<Rightarrow> bool) \<Rightarrow> bool" where
  "ends m r P \<longleftrightarrow> (case m r of Inl e \<Rightarrow> e \<in> stream_errors | Inr (x, r') \<Rightarrow> P x r')"

lemma ends_pret: "P x r \<Longrightarrow> ends (pret x) r P"
  by (simp add: ends_def pret_def)

lemma ends_pfail: "ends (pfail msg) r P"
  by (simp add: ends_def pfail_def stream_errors_def)

lemma ends_pbind: "ends m r Q \<Longrightarrow> (\<And>x r'. Q x r' \<Longrightarrow> ends (f x) r' P) \<Longrightarrow> ends (pbind m f) r P"
  by (cases "m r") (auto simp: ends_def pbind_def)

lemma fill_loop_ends:
  "case fill_loop kept cs of Inl e \<Rightarrow> e \<in> stream_errors
   | Inr r \<Rightarrow> rsize r \<le> length kept + sum_list (map (\<lambda>c. case c of None \<Rightarrow> 0 | Some b \<Rightarrow> length b) cs)"
proof (induction kept cs rule: fill_loop.induct)
  case (3 kept b chunks)
  show ?case
  proof (cases "decode (kept @ b)")
    case None
    then show ?thesis by (simp add: stream_errors_def)
  next
    case (Some tk)
    obtain t kept' where tk: "tk = (t, kept')" by (rule prod.exhaust)
    have "length t + length kept' \<le> length kept + length b" using decode_length[of "kept @ b" t kept'] Some tk by simp
    then show ?thesis using 3[OF Some tk[symmetric]] Some tk by (auto simp: rsize_def split: sum.splits)
  qed
qed (simp_all add: stream_errors_def rsize_def)

lemma fill_ends: "case fill r of Inl e \<Rightarrow> e \<in> stream_errors | Inr r' \<Rightarrow> rsize r' \<le> rsize r"
  using fill_loop_ends[of "rd_kept r" "rd_chunks r"] by (auto simp: fill_def rsize_def split: sum.splits)

lemma peek_ends: "ends peek r (\<lambda>x r'. rsize r' \<le> rsize r \<and> (x \<noteq> None \<longrightarrow> rd_buffer r' \<noteq> []))"
  using fill_ends[of r] by (auto simp: ends_def peek_def rbind_def split: sum.splits list.splits)

lemma take_some_ends: "rd_buffer r \<noteq> [] \<Longrightarrow> ends take_char r (\<lambda>x r'. rsize r' < rsize r)"
  by (cases "rd_buffer r") (auto simp: ends_def take_char_def fill_def rsize_def)

lemma take_ends: "ends take_char r (\<lambda>x r'. rsize r' \<le> rsize r \<and> (x \<noteq> None \<longrightarrow> rsize r' < rsize r))"
  using fill_ends[of r] by (auto simp: ends_def take_char_def rbind_def rsize_def split: sum.splits list.splits)

lemma take_n_ends: "ends (take_n n) r (\<lambda>x r'. rsize r' \<le> rsize r)"
proof (induction n arbitrary: r)
  case (Suc n)
  show ?case unfolding take_n.simps
    by (rule ends_pbind[OF take_ends], rule ends_pbind[OF Suc.IH], rule ends_pret) auto
qed (simp add: ends_pret)

lemma expect_ends: "ends (expect c) r (\<lambda>x r'. rsize r' < rsize r)"
  unfolding expect_def by (rule ends_pbind[OF take_ends]) (auto intro: ends_pret ends_pfail)

lemma literal_ends: "ends (literal s) r (\<lambda>x r'. rsize r' \<le> rsize r)"
  unfolding literal_def by (rule ends_pbind[OF take_n_ends]) (auto intro: ends_pret ends_pfail)

lemma ends_mono: "ends m r P \<Longrightarrow> (\<And>x r'. P x r' \<Longrightarrow> Q x r') \<Longrightarrow> ends m r Q"
  by (auto simp: ends_def split: sum.splits)

lemma ends_if: "(c \<Longrightarrow> ends m r P) \<Longrightarrow> (\<not> c \<Longrightarrow> ends m' r P) \<Longrightarrow> ends (if c then m else m') r P"
  by simp

lemma ends_option: "(x = None \<Longrightarrow> ends m r P) \<Longrightarrow> (\<And>c. x = Some c \<Longrightarrow> ends (f c) r P) \<Longrightarrow> ends (case x of None \<Rightarrow> m | Some c \<Rightarrow> f c) r P"
  by (cases x) simp_all

lemma skip_ends: "rsize r < n \<Longrightarrow> ends (skip_whitespace n) r (\<lambda>x r'. rsize r' \<le> rsize r)"
proof (induction n arbitrary: r)
  case (Suc n)
  show ?case unfolding skip_whitespace.simps
    by (intro ends_pbind[OF peek_ends] ends_if ends_pret ends_pbind[OF take_some_ends] ends_mono[OF Suc.IH]) (use Suc.prems in auto)
qed simp

lemma hex4_ends: "ends (hex4 msg) r (\<lambda>x r'. rsize r' \<le> rsize r)"
  unfolding hex4_def by (intro ends_pbind[OF take_n_ends] ends_if ends_pret ends_pfail)

lemma unicode_escape_ends: "ends unicode_escape r (\<lambda>x r'. rsize r' \<le> rsize r)"
  unfolding unicode_escape_def
  by (intro ends_pbind[OF hex4_ends] ends_pbind[OF take_ends] ends_if ends_pret ends_pfail) auto

lemma escape_sequence_ends: "ends escape_sequence r (\<lambda>x r'. rsize r' \<le> rsize r)"
  unfolding escape_sequence_def
  by (intro ends_pbind[OF take_ends] ends_option ends_if ends_pret ends_pfail ends_mono[OF unicode_escape_ends]) auto

lemma string_loop_ends: "rsize r < n \<Longrightarrow> ends (string_loop n out) r (\<lambda>x r'. rsize r' \<le> rsize r)"
proof (induction n arbitrary: r out)
  case (Suc n)
  show ?case unfolding string_loop.simps
    by (intro ends_pbind[OF take_ends] ends_option ends_if ends_pret ends_pfail ends_pbind[OF escape_sequence_ends] ends_mono[OF Suc.IH])
      (use Suc.prems in auto)
qed simp

lemma jstring_ends: "rsize r \<le> n \<Longrightarrow> ends (jstring n) r (\<lambda>x r'. rsize r' \<le> rsize r)"
  unfolding jstring_def by (intro ends_pbind[OF expect_ends] ends_mono[OF string_loop_ends]) auto

lemma number_loop_ends: "rsize r < n \<Longrightarrow> ends (number_loop n) r (\<lambda>x r'. rsize r' \<le> rsize r)"
proof (induction n arbitrary: r)
  case (Suc n)
  show ?case unfolding number_loop.simps
    by (intro ends_pbind[OF peek_ends] ends_option ends_if ends_pret ends_pbind[OF take_some_ends] ends_pbind[OF Suc.IH])
      (use Suc.prems in auto)
qed simp

lemma json_number_errors: "json_number fr token = Inl e \<Longrightarrow> e \<in> stream_errors"
  by (auto simp: json_number_def Let_def stream_errors_def split: if_splits)

lemma jnumber_ends: "rsize r < n \<Longrightarrow> ends (jnumber fr n) r (\<lambda>x r'. rsize r' \<le> rsize r)"
  unfolding jnumber_def
proof (rule ends_pbind[OF number_loop_ends])
  fix token r' assume "rsize r' \<le> rsize r"
  then show "ends (\<lambda>r. rbind (json_number fr token) (\<lambda>v. Inr (v, r))) r' (\<lambda>x r'. rsize r' \<le> rsize r)"
    using json_number_errors[of fr token] by (cases "json_number fr token") (auto simp: ends_def)
qed

lemma values_end:
  "2 * rsize r + 2 \<le> n \<Longrightarrow> ends (jvalue fr n) r (\<lambda>x r'. rsize r' \<le> rsize r)"
  "2 * rsize r + 3 \<le> n \<Longrightarrow> ends (object_loop fr n d) r (\<lambda>x r'. rsize r' \<le> rsize r)"
  "2 * rsize r + 3 \<le> n \<Longrightarrow> ends (array_loop fr n xs) r (\<lambda>x r'. rsize r' \<le> rsize r)"
proof (induction n arbitrary: r d xs)
  case (Suc n)
  note parts = ends_pbind[OF peek_ends] ends_pbind[OF take_ends] ends_pbind[OF expect_ends] ends_pbind[OF skip_ends] ends_pbind[OF jstring_ends]
    ends_pbind[OF literal_ends] ends_mono[OF jnumber_ends] ends_option ends_if ends_pret ends_pfail
  {
    case 1
    then show ?case unfolding jvalue.simps
      by (intro parts ends_pbind[OF Suc.IH(2)] ends_pbind[OF Suc.IH(3)]) auto
  next
    case 2
    then show ?case unfolding object_loop.simps
      by (intro parts ends_pbind[OF Suc.IH(1)] ends_mono[OF Suc.IH(2)]) auto
  next
    case 3
    then show ?case unfolding array_loop.simps
      by (intro parts ends_pbind[OF Suc.IH(1)] ends_mono[OF Suc.IH(3)]) auto
  }
qed auto

lemma parse_ends:
  "case parse_stream fr (stream_fuel chunks) \<lparr>rd_chunks = chunks, rd_kept = [], rd_buffer = [], rd_finished = False\<rparr> of
     Inl e \<Rightarrow> e \<in> stream_errors | Inr _ \<Rightarrow> True"
proof -
  let ?r = "\<lparr>rd_chunks = chunks, rd_kept = [], rd_buffer = [], rd_finished = False\<rparr>"
  have "2 * rsize ?r + 2 \<le> stream_fuel chunks" by (simp add: rsize_def stream_fuel_def)
  then have "ends (parse_stream fr (stream_fuel chunks)) ?r (\<lambda>x r. True)" unfolding parse_stream_def
    by (intro ends_pbind[OF skip_ends] ends_pbind[OF values_end(1)] ends_pbind[OF peek_ends] ends_if ends_pret ends_pfail) auto
  then show ?thesis by (simp add: ends_def split: sum.splits)
qed

end
