(* ===== verification/Json_Stream_Properties.thy ===== *)
theory Json_Stream_Properties
  imports Json_Stream_Text Json_Stream_Fuel Py_Json
begin

text \<open>
  Reading back what was written: the parser inverts the serializer, so canonical texts, and unless SHA-256 collides
  canonical hashes, are equal only for values that are equal up to the order of keys. The serializer agrees with
  \<open>canonical_json\<close> of \<^verbatim>\<open>spec.py\<close>.
\<close>

section \<open>The two serializers\<close>

text \<open>The values of the other components, whose strings are code points below U+0100, as values of the stream.\<close>

primrec py_json :: "pyval \<Rightarrow> jval" where
  "py_json PNone = JNull"
| "py_json (PBool b) = JBool b"
| "py_json (PInt i) = JInt i"
| "py_json (PFloat r) = JFloat (u r)"
| "py_json (PStr s) = JStr (u s)"
| "py_json (PList xs) = JList (map py_json xs)"
| "py_json (PDict d) = JObj (map (map_prod u py_json) d)"

lemma u_less: "u s < u t \<longleftrightarrow> s < t" "u s \<le> u t \<longleftrightarrow> s \<le> t"
proof -
  have eq: "u s = u t \<longleftrightarrow> s = t" for s t
    by (metis list.inj_map_strong of_char_eq_iff u_def)
  have "u s < u t \<longleftrightarrow> s < t" for s t
  proof (induction s arbitrary: t)
    case Nil
    then show ?case by (cases t) auto
  next
    case (Cons c s)
    then show ?case by (cases t) (auto simp: less_char_def)
  qed
  then show "u s < u t \<longleftrightarrow> s < t" "u s \<le> u t \<longleftrightarrow> s \<le> t" by (auto simp: order.order_iff_strict eq)
qed

lemma insort_u: "insort_key fst (map_prod u f x) (map (map_prod u f) d) = map (map_prod u f) (insort_key fst x d)"
  by (induction d) (auto simp: u_less)

lemma sort_u: "sort_key fst (map (map_prod u f) d) = map (map_prod u f) (sort_key fst d)"
  by (induction d) (simp_all add: insort_u)

lemma u_hex: "n < 16 \<Longrightarrow> of_char (hex_digit n) = hex_code n"
  by (simp add: hex_digit_def hex_code_def)

lemma u_escape: "u (json_escape c) = escaped (of_char c)"
proof -
  have c: "c = CHR 0x22 \<longleftrightarrow> of_char c = (34 :: nat)" "c = CHR 0x5C \<longleftrightarrow> of_char c = (92 :: nat)"
    using of_char_eq_iff[of c "CHR 0x22", where 'a = nat] of_char_eq_iff[of c "CHR 0x5C", where 'a = nat] by simp_all
  show ?thesis unfolding json_escape_def Let_def c by (auto simp: escaped_def short_escape_def u_hex)
qed

lemma u_json_string: "u (json_string s) = string_text (u s)"
proof -
  have "u (concat (map json_escape s)) = concat (map escaped (u s))" by (induction s) (simp_all add: u_escape)
  then show ?thesis by (simp add: json_string_def string_text_def)
qed

lemma u_join: "u (join '','' ts) = ujoin (map u ts)"
  by (induction "'',''" ts rule: join.induct) simp_all

lemma u_canonical_json: "wf_json fr (py_json v) \<Longrightarrow> u (canonical_json v) = jtext (sorted_json (py_json v))"
proof (induction v)
  case (PFloat r)
  then have "float_text (u r) = Inr (u r)" by (intro float_ok_text[of fr]) simp
  then have "json_float r = r" by (auto simp: float_text_def json_float_def split: if_splits)
  then show ?case by simp
next
  case (PList xs)
  have "map u (map canonical_json xs) = map jtext (map sorted_json (map py_json xs))" using PList by (simp add: list_all_iff)
  then show ?case by (simp add: u_join del: map_map)
next
  case (PDict d)
  have item: "u (canonical_json w) = jtext (sorted_json (py_json w))" if "(k, w) \<in> set d" for k w
    using PDict.IH[OF that, of w] PDict.prems that by (auto simp: list_all_iff)
  have "map u (map (\<lambda>(k, v). json_string k @ '':'' @ canonical_json v) (sort_key fst d)) =
      map (\<lambda>(k, v). string_text (u k) @ 0x3A # jtext (sorted_json (py_json v))) (sort_key fst d)"
    by (auto simp: u_json_string item)
  also have "\<dots> = map (\<lambda>(k, t). string_text k @ 0x3A # t) (map (map_prod id jtext) (map (map_prod id sorted_json) (map (map_prod u py_json) (sort_key fst d))))"
    by auto
  finally show ?case by (simp add: u_join sort_map_prod sort_u del: map_map)
qed (simp_all add: u_json_string)

section \<open>Properties\<close>

definition canonical_bytes :: "jval \<Rightarrow> bytes" where
  "canonical_bytes v = (case iter_canonical_json v of Inr fs \<Rightarrow> utf8 (concat fs) | Inl _ \<Rightarrow> [])"

lemma canonical_bytes_text: "wf_json fr v \<Longrightarrow> canonical_bytes v = utf8 (jtext (sorted_json v))"
  using iter_value_text[of fr v] by (auto simp: canonical_bytes_def iter_canonical_json_def)

lemma text_injective:
  assumes "wf_json fr v" "wf_json fr w" "utf8 (jtext v) = utf8 (jtext w)"
  shows "v = w"
proof -
  have "concat [utf8 (jtext v)] = utf8 (jtext v)" "concat [utf8 (jtext v)] = utf8 (jtext w)" using assms(3) by simp_all
  from parse_text[OF assms(1) scalar_jtext[OF assms(1)] this(1)] parse_text[OF assms(2) scalar_jtext[OF assms(2)] this(2)]
  show ?thesis by simp
qed

text \<open>C31. The stream parser inverts the canonical serializer: every value JSON can express is serialized, and however
  its UTF-8 encoding is cut into chunks, inside a character too, parsing the chunks returns the value with the
  keys of its objects in order.\<close>

theorem json_stream_roundtrip:
  assumes "wf_json fr v"
  shows "\<exists>fs. iter_canonical_json v = Inr fs \<and>
    (\<forall>cs. concat cs = utf8 (concat fs) \<longrightarrow> parse_json_byte_chunks fr (map Some cs) = Inr (sorted_json v))"
  using assms by (rule json_roundtrip)


text \<open>C32. The canonical hash binds the value: unless SHA-256 collides on their texts, two values have the same canonical
  hash exactly when they are equal up to the order of keys. Joining the fragments into blocks of 16384 characters
  does not change the hash.\<close>

theorem canonical_hash_binds:
  assumes "wf_json fr v" and "wf_json fr w" and "inj_on sha {canonical_bytes v, canonical_bytes w}"
  shows "canonical_json_sha256 sha v = Inr (''sha256:'' @ sha (canonical_bytes v)) \<and>
    (canonical_json_sha256 sha v = canonical_json_sha256 sha w \<longleftrightarrow> sorted_json v = sorted_json w)"
proof -
  note eqs = sha_of_text[OF assms(1), of sha] sha_of_text[OF assms(2), of sha] canonical_bytes_text[OF assms(1)] canonical_bytes_text[OF assms(2)]
  have "canonical_bytes v = canonical_bytes w \<longleftrightarrow> sorted_json v = sorted_json w"
    using text_injective[OF wf_sorted[OF assms(1)] wf_sorted[OF assms(2)]] eqs by auto
  moreover have "sha (canonical_bytes v) = sha (canonical_bytes w) \<longleftrightarrow> canonical_bytes v = canonical_bytes w"
    by (rule inj_on_eq_iff[OF assms(3)]) simp_all
  ultimately show ?thesis unfolding eqs(1,2) eqs(3,4)[symmetric] by simp
qed

text \<open>The two serializers of the program agree: for a value JSON can express, the fragments of \<open>iter_canonical_json\<close>
  joined together are the text of \<open>canonical_json\<close>.\<close>

theorem serializers_agree:
  assumes "wf_json fr (py_json v)"
  shows "\<exists>fs. iter_canonical_json (py_json v) = Inr fs \<and> concat fs = u (canonical_json v)"
  using iter_value_text[OF assms] u_canonical_json[OF assms] by (simp add: iter_canonical_json_def)

section \<open>Samples\<close>

lemma sample_digits: "show_nat 12 = ''12''" "show_nat 1 = ''1''" "show_nat 2 = ''2''" "show_nat 7 = ''7''"
  by code_simp+

definition sample_json :: jval where
  "sample_json = JObj [(u ''b'', JList [JNull, JBool True, JInt (- 12)]), ([0x61, 0x1F600], JStr [0x22, 10, 0xE9, 0x10FFFF])]"

lemma sample_json_wf: "wf_json fr sample_json"
  by (simp add: sample_json_def scalar_def surrogate_def sample_digits digit_limit_def)

theorem json_stream_roundtrip_witness:
  "\<exists>fs. iter_canonical_json sample_json = Inr fs \<and>
     parse_json_byte_chunks id [Some (take 3 (utf8 (concat fs))), Some (drop 3 (utf8 (concat fs)))] = Inr (sorted_json sample_json)"
proof -
  from json_stream_roundtrip[OF sample_json_wf, of id] obtain fs where fs: "iter_canonical_json sample_json = Inr fs"
    and parse: "\<And>cs. concat cs = utf8 (concat fs) \<Longrightarrow> parse_json_byte_chunks id (map Some cs) = Inr (sorted_json sample_json)" by blast
  show ?thesis using fs parse[of "[take 3 (utf8 (concat fs)), drop 3 (utf8 (concat fs))]"] by simp
qed

theorem canonical_hash_binds_witness:
  "canonical_json_sha256 (map char_of) (JList [JInt 1]) \<noteq> canonical_json_sha256 (map char_of) (JList [JInt 2])"
proof -
  have wf: "wf_json id (JList [JInt 1])" "wf_json id (JList [JInt 2])" by (simp_all add: sample_digits sample_digits(2)[simplified] digit_limit_def)
  have b: "canonical_bytes (JList [JInt 1]) = [0x5B, 0x31, 0x5D]" "canonical_bytes (JList [JInt 2]) = [0x5B, 0x32, 0x5D]"
    by (simp_all add: canonical_bytes_text[OF wf(1)] canonical_bytes_text[OF wf(2)] show_int_def sample_digits sample_digits(2)[simplified] utf8_char_def)
  have "inj_on (map char_of) {canonical_bytes (JList [JInt 1]), canonical_bytes (JList [JInt 2])}"
    unfolding b by (simp add: inj_on_def)
  note binds = canonical_hash_binds[OF wf this]
  have "sorted_json (JList [JInt 1]) \<noteq> sorted_json (JList [JInt 2])" by simp
  with binds show ?thesis by blast
qed

theorem serializers_agree_witness:
  "\<exists>fs. iter_canonical_json (py_json (PDict [(''k'', PList [PInt 7, PStr ''x''])])) = Inr fs \<and>
     concat fs = u (canonical_json (PDict [(''k'', PList [PInt 7, PStr ''x''])]))"
  by (rule serializers_agree[of id]) (simp add: scalar_def surrogate_def sample_digits digit_limit_def)

end
