(* ===== verification/Py_Float.thy ===== *)
theory Py_Float
  imports Complex_Main Py_Json
begin

text \<open>
  The binary64 arithmetic the sources use of Python: the value of a finite float given by its \<open>repr\<close>,
  the conversion of an integer (\<open>float(i)\<close>, which overflows) with the \<open>repr\<close> of the result, finiteness
  and the exact comparison of numbers of mixed kinds.
\<close>

section \<open>Rounding to binary64\<close>

definition pow_int :: "rat \<Rightarrow> int \<Rightarrow> rat" where
  "pow_int b e = (if e \<ge> 0 then b ^ nat e else 1 / b ^ nat (- e))"

function bit_length :: "int \<Rightarrow> int" where
  "bit_length i = (if i \<le> 0 then 0 else 1 + bit_length (i div 2))"
  by pat_completeness auto
termination by (relation "measure nat") auto

declare bit_length.simps [simp del]

text \<open>The greatest \<open>k\<close> with \<open>2 ^ k \<le> q\<close>, for positive \<open>q\<close>.\<close>

definition ilog2 :: "rat \<Rightarrow> int" where
  "ilog2 q = (case quotient_of q of (a, b) \<Rightarrow>
     let k = bit_length a - bit_length b in if pow_int 2 k \<le> q then k else k - 1)"

definition round_even :: "rat \<Rightarrow> int" where
  "round_even q = (let f = \<lfloor>q\<rfloor>; r = q - of_int f
     in if r < 1 / 2 then f else if r > 1 / 2 then f + 1 else if even f then f else f + 1)"

text \<open>Round to nearest, ties to even, with the subnormal exponent as least exponent.\<close>

definition double_round :: "rat \<Rightarrow> rat" where
  "double_round q = (if q = 0 then 0 else let e = max (-1074) (ilog2 \<bar>q\<bar> - 52)
     in of_int (round_even (q / pow_int 2 e)) * pow_int 2 e)"

section \<open>Reading and printing\<close>

definition repr_decimal :: "string \<Rightarrow> rat" where
  "repr_decimal r =
     (let neg = (r \<noteq> [] \<and> hd r = CHR ''-'');
          body = (if neg then tl r else r);
          parts = split_on (CHR ''e'') body;
          mant = split_on (CHR ''.'') (hd parts);
          frac = (case mant of [_, f] \<Rightarrow> f | _ \<Rightarrow> []);
          e = (case parts of [_, t] \<Rightarrow> (case parse_int t of None \<Rightarrow> 0 | Some i \<Rightarrow> i) | _ \<Rightarrow> 0)
      in (if neg then -1 else 1) * of_int (digits_value 0 (hd mant @ frac)) * pow_int 10 (e - int (length frac)))"

definition float_value :: "string \<Rightarrow> rat" where
  "float_value r = double_round (repr_decimal r)"

definition is_finite_repr :: "string \<Rightarrow> bool" where
  "is_finite_repr r \<longleftrightarrow> r \<noteq> ''inf'' \<and> r \<noteq> ''-inf'' \<and> r \<noteq> ''nan''"

definition float_overflows :: "int \<Rightarrow> bool" where
  "float_overflows i \<longleftrightarrow> \<bar>i\<bar> \<ge> 2 ^ 1024 - 2 ^ 970"

text \<open>The shortest decimal digits that read back as the integral float \<open>q\<close>, whose decimal length is \<open>k\<close>: the
  digits and their number of places before the point. Seventeen digits always suffice.\<close>

fun shortest_from :: "nat \<Rightarrow> int \<Rightarrow> int \<Rightarrow> rat \<Rightarrow> int \<times> int" where
  "shortest_from 0 n k q = (round_even q, k)"
| "shortest_from (Suc fuel) n k q =
     (let unit = pow_int 10 (k - n); d = round_even (q / unit)
      in if double_round (of_int d * unit) = q then (d, n) else shortest_from fuel (n + 1) k q)"

definition rstrip_zeros :: "string \<Rightarrow> string" where
  "rstrip_zeros s = rev (dropWhile (\<lambda>c. c = CHR ''0'') (rev s))"

text \<open>\<open>repr(float(i))\<close>: positional below ten to the sixteenth, with an exponent from there on.\<close>

definition repr_of_int :: "int \<Rightarrow> string" where
  "repr_of_int i =
     (let q = double_round (of_int \<bar>i\<bar>); m = \<lfloor>q\<rfloor>; sign = (if i < 0 then ''-'' else [])
      in if m < 10 ^ 16 then sign @ show_int m @ ''.0''
         else (let k = int (length (show_int m));
                   (d, n) = shortest_from 17 1 k q;
                   ex = k - n + int (length (show_int d)) - 1;
                   ds = rstrip_zeros (show_int d)
               in sign @ take 1 ds @ (if length ds = 1 then [] else ''.'' @ drop 1 ds) @ ''e+'' @ show_int ex))"

section \<open>Numbers\<close>

text \<open>The exact value of a finite number; \<open>type(x) in {int, float}\<close> excludes booleans.\<close>

fun is_number :: "pyval \<Rightarrow> bool" where
  "is_number (PInt i) = True"
| "is_number (PFloat r) = True"
| "is_number _ = False"

fun num_value :: "pyval \<Rightarrow> rat" where
  "num_value (PInt i) = of_int i"
| "num_value (PFloat r) = float_value r"
| "num_value _ = 0"

text \<open>\<open>math.isfinite(x)\<close> converts an integer to a float first.\<close>

definition py_isfinite :: "pyval \<Rightarrow> bool result" where
  "py_isfinite v = (case v of
     PInt i \<Rightarrow> if float_overflows i then Inl (OverflowError ''int too large to convert to float'') else Inr True
   | PBool b \<Rightarrow> Inr True
   | PFloat r \<Rightarrow> Inr (is_finite_repr r)
   | _ \<Rightarrow> Inl (TypeError ''must be real number''))"

end
