(* ===== verification/Platform_Lock.thy ===== *)
theory Platform_Lock
  imports Target_Contract Evidence_Catalog Backend_Contract Json_Stream_Properties Py_Float
begin

text \<open>
  The platform lock of a specification (\<open>PlatformLock\<close> of \<^verbatim>\<open>spec.py\<close>): the coordinates of the Minecraft target and,
  once a provider has resolved it, a receipt whose digest covers the coordinates. A field holds its declared type,
  except where the code tests the type: there it is a value. \<open>spec_host\<close> holds what the code calls outside the
  model: \<open>json.loads\<close> and SHA-256, and the digest of the capability manifest (\<^verbatim>\<open>capabilities.py\<close>).
\<close>

section \<open>Host\<close>

record spec_host =
  sh_runtime :: runtime
  sh_sha :: "bytes \<Rightarrow> string"
  sh_manifest_hash :: string

text \<open>All errors of the serializer are instances of \<open>ValueError\<close>.\<close>

definition stream_result :: "json_error + 'a \<Rightarrow> 'a result" where
  "stream_result r = (case r of Inr x \<Rightarrow> Inr x | Inl (CanonicalJsonError m) \<Rightarrow> Inl (ValueError m)
     | Inl _ \<Rightarrow> Inl (ValueError ''JSON conversion''))"

definition jdata :: "(string \<times> jval) list \<Rightarrow> jval" where
  "jdata fs = JData (map (map_prod u id) fs)"

definition jobject :: "(string \<times> jval) list \<Rightarrow> jval" where
  "jobject fs = JObj (map (map_prod u id) fs)"

definition jstr :: "string \<Rightarrow> jval" where
  "jstr s = JStr (u s)"

definition jstrs :: "string list \<Rightarrow> jval" where
  "jstrs ss = JList (map jstr ss)"

section \<open>Platform locks\<close>

record PlatformLock =
  pk_edition :: string
  pk_loader :: string
  pk_minecraft_version :: string
  pk_java_version :: string
  pk_yarn_mappings :: string
  pk_fabric_loader :: string
  pk_fabric_api :: string
  pk_fabric_loom :: string
  pk_gradle :: string
  pk_adapter_id :: string
  pk_mappings_kind :: string
  pk_mappings_version :: string
  pk_gradle_sha256 :: string
  pk_gradle_distribution_url :: string
  pk_data_pack_version :: string
  pk_resource_pack_version :: string
  pk_resource_pack_format :: pyval
  pk_release_metadata_url :: string
  pk_source_api_family :: string
  pk_deterministic_module_kinds :: "string list"
  pk_receipt_sha256 :: string
  pk_host_facts_json :: string

definition to_dict_lock :: "PlatformLock \<Rightarrow> pydict" where
  "to_dict_lock k = [(''edition'', PStr (pk_edition k)), (''loader'', PStr (pk_loader k)),
     (''minecraft_version'', PStr (pk_minecraft_version k)), (''java_version'', PStr (pk_java_version k)),
     (''yarn_mappings'', PStr (pk_yarn_mappings k)), (''fabric_loader'', PStr (pk_fabric_loader k)),
     (''fabric_api'', PStr (pk_fabric_api k)), (''fabric_loom'', PStr (pk_fabric_loom k)), (''gradle'', PStr (pk_gradle k)),
     (''adapter_id'', PStr (pk_adapter_id k)), (''mappings_kind'', PStr (pk_mappings_kind k)),
     (''mappings_version'', PStr (pk_mappings_version k)), (''gradle_sha256'', PStr (pk_gradle_sha256 k)),
     (''gradle_distribution_url'', PStr (pk_gradle_distribution_url k)), (''data_pack_version'', PStr (pk_data_pack_version k)),
     (''resource_pack_version'', PStr (pk_resource_pack_version k)), (''resource_pack_format'', pk_resource_pack_format k),
     (''release_metadata_url'', PStr (pk_release_metadata_url k)), (''source_api_family'', PStr (pk_source_api_family k)),
     (''deterministic_module_kinds'', PList (map PStr (pk_deterministic_module_kinds k))),
     (''receipt_sha256'', PStr (pk_receipt_sha256 k)), (''host_facts_json'', PStr (pk_host_facts_json k))]"

definition PLATFORM_RECEIPT_HASH_FIELDS :: "string list" where
  "PLATFORM_RECEIPT_HASH_FIELDS = [''adapter_id'', ''edition'', ''loader'', ''minecraft_version'', ''java_version'', ''yarn_mappings'',
     ''mappings_kind'', ''mappings_version'', ''fabric_loader'', ''fabric_api'', ''fabric_loom'', ''gradle'', ''gradle_sha256'',
     ''gradle_distribution_url'', ''data_pack_version'', ''resource_pack_version'', ''resource_pack_format'', ''release_metadata_url'',
     ''source_api_family'', ''deterministic_module_kinds'']"

definition PLATFORM_EXTENDED_FIELDS :: "string list" where
  "PLATFORM_EXTENDED_FIELDS = [''adapter_id'', ''mappings_kind'', ''mappings_version'', ''gradle_sha256'', ''gradle_distribution_url'',
     ''data_pack_version'', ''resource_pack_version'', ''resource_pack_format'', ''release_metadata_url'', ''source_api_family'',
     ''receipt_sha256'']"

definition PLATFORM_MAPPING_FIELDS :: "string list" where
  "PLATFORM_MAPPING_FIELDS = [''mappings_kind'', ''mappings_version'']"

text \<open>\<open>_platform_receipt_value\<close>: a lock is read like the dictionary of its fields.\<close>

definition platform_receipt_value :: "pydict \<Rightarrow> string \<Rightarrow> pyval \<Rightarrow> pyval" where
  "platform_receipt_value v f dflt = (if has_key v f then dget v f else dflt)"

definition receipt_item :: "pydict \<Rightarrow> string \<Rightarrow> (string \<times> pyval) result" where
  "receipt_item v f =
     (let item = platform_receipt_value v f PNone in
      if f = ''deterministic_module_kinds''
      then rbind (if truthy item then iter_strs item else Inr []) (\<lambda>xs. Inr (f, PList (map PStr (sort xs))))
      else Inr (f, item))"

definition platform_receipt_payload :: "pydict \<Rightarrow> pydict result" where
  "platform_receipt_payload v =
     rbind (mapM (receipt_item v) PLATFORM_RECEIPT_HASH_FIELDS) (\<lambda>payload.
       (let facts = platform_receipt_value v ''host_facts_json'' (PStr []) in
        Inr (payload @ (if truthy facts then [(''host_facts_json'', facts)] else []))))"

definition platform_receipt_sha256 :: "(bytes \<Rightarrow> string) \<Rightarrow> pydict \<Rightarrow> string result" where
  "platform_receipt_sha256 sha v =
     rbind (platform_receipt_payload v) (\<lambda>payload. stream_result (canonical_json_sha256 sha (py_json (PDict payload))))"

definition MOJANG_NAMESPACE_MARKERS :: "string list" where
  "MOJANG_NAMESPACE_MARKERS = [''net.minecraft.core.'', ''net.minecraft.resources.'', ''net.minecraft.world.item.'',
     ''net.minecraft.world.entity.'', ''net.minecraft.world.level.'']"

definition YARN_NAMESPACE_MARKERS :: "string list" where
  "YARN_NAMESPACE_MARKERS = [''net.minecraft.registry.'', ''net.minecraft.item.'', ''net.minecraft.entity.'', ''net.minecraft.block.'',
     ''net.minecraft.util.Identifier'']"

definition namespace_symbols :: "pyval \<Rightarrow> string \<Rightarrow> bool \<Rightarrow> unit result" where
  "namespace_symbols symbols kind native =
     (if symbols \<in> {PNone, PDict [], PList []} then Inr ()
      else (let rendered = canonical_json symbols; mojang = list_ex (contains rendered) MOJANG_NAMESPACE_MARKERS;
                yarn = list_ex (contains rendered) YARN_NAMESPACE_MARKERS in
        if mojang \<and> yarn then Inl (SpecValidationError ''Platform host facts mix Mojang and Yarn API namespaces in one target receipt.'')
        else if native then Inr ()
        else if kind = ''mojang'' \<and> yarn then Inl (SpecValidationError ''Platform host facts use Yarn API namespaces for a Mojang-mapped target.'')
        else if kind = ''yarn'' \<and> mojang then Inl (SpecValidationError ''Platform host facts use Mojang API namespaces for a Yarn-mapped target.'')
        else Inr ()))"

definition validate_host_facts_namespace :: "runtime \<Rightarrow> string \<Rightarrow> string \<Rightarrow> bool \<Rightarrow> unit result" where
  "validate_host_facts_namespace rt facts kind native =
     (let raw = strip facts in
      if raw = [] then Inr ()
      else (case json_loads rt raw of
          None \<Rightarrow> Inl (SpecValidationError ''Platform host_facts_json must be valid JSON.'')
        | Some (PDict payload) \<Rightarrow>
            (let declared = casefold (strip (str_or_empty (dget payload ''api_namespace''))) in
             if declared = [] then Inr ()
             else if declared \<notin> {''mojang'', ''yarn'', ''native''}
               then Inl (SpecValidationError ''Platform host facts api_namespace must be mojang, yarn, or native.'')
             else if native \<and> declared \<notin> {''native'', ''mojang''}
               then Inl (SpecValidationError ''Platform host facts namespace disagrees with the native-name target.'')
             else if \<not> native \<and> declared \<noteq> kind
               then Inl (SpecValidationError ''Platform host facts namespace disagrees with the target mappings_kind.'')
             else namespace_symbols (dget payload ''api_symbols'') kind native)
        | Some _ \<Rightarrow> Inl (SpecValidationError ''Platform host_facts_json must be a JSON object.'')))"

definition is_unresolved :: "PlatformLock \<Rightarrow> bool" where
  "is_unresolved k \<longleftrightarrow> list_all (\<lambda>s. s = []) [pk_edition k, pk_loader k, pk_minecraft_version k, pk_java_version k,
     pk_yarn_mappings k, pk_fabric_loader k, pk_fabric_api k, pk_fabric_loom k, pk_gradle k]"

text \<open>\<open>value in (None, "", 0)\<close>\<close>

definition blank_value :: "pyval \<Rightarrow> bool" where
  "blank_value v \<longleftrightarrow> v = PNone \<or> v = PStr [] \<or> py_eq_scalar v (PInt 0)"

definition field_present :: "PlatformLock \<Rightarrow> string \<Rightarrow> bool" where
  "field_present k f \<longleftrightarrow> \<not> blank_value (platform_receipt_value (to_dict_lock k) f PNone)"

definition has_full_execution_receipt :: "PlatformLock \<Rightarrow> bool result" where
  "has_full_execution_receipt k =
     (if \<not> list_all (field_present k) (filter (\<lambda>f. f \<notin> set PLATFORM_MAPPING_FIELDS) PLATFORM_EXTENDED_FIELDS) then Inr False
      else if strip (pk_minecraft_version k) = [] then Inr False
      else rbind (uses_native_names (PStr (pk_minecraft_version k))) (\<lambda>native. Inr
        (if native then list_all (\<lambda>s. strip s = []) [pk_mappings_kind k, pk_mappings_version k, pk_yarn_mappings k]
         else list_all (field_present k) PLATFORM_MAPPING_FIELDS \<and> strip (pk_yarn_mappings k) \<noteq> [])))"

definition version_disagrees :: "string option \<Rightarrow> PlatformLock \<Rightarrow> bool" where
  "version_disagrees v k \<longleftrightarrow> (case v of None \<Rightarrow> False | Some w \<Rightarrow> w \<noteq> pk_minecraft_version k)"

definition java_below :: "PlatformLock \<Rightarrow> bool result" where
  "java_below k = rbind (minimum_java_major (PStr (pk_minecraft_version k))) (\<lambda>m. Inr
     (case m of None \<Rightarrow> False | Some v \<Rightarrow> digits_value 0 (pk_java_version k) < v))"

definition RELEASE_HOSTS :: "string list" where
  "RELEASE_HOSTS = [''www.minecraft.net'', ''feedback.minecraft.net'', ''piston-meta.mojang.com'', ''launcher.mojang.com'']"

definition guard :: "bool \<Rightarrow> string \<Rightarrow> unit result" where
  "guard bad msg = (if bad then Inl (SpecValidationError msg) else Inr ())"

lemma guard_Inr [simp]: "guard bad msg = Inr x \<longleftrightarrow> \<not> bad"
  by (simp add: guard_def)

text \<open>The checks of an execution receipt, the part of \<open>PlatformLock.validate\<close> after the coordinates.\<close>

definition receipt_pack_checks :: "PlatformLock \<Rightarrow> unit result" where
  "receipt_pack_checks k =
     rbind (guard (list_ex (\<lambda>s. strip s = []) (pk_deterministic_module_kinds k)) ''Platform lock deterministic_module_kinds contains an empty capability.'') (\<lambda>_.
     rbind (guard (\<not> distinct (pk_deterministic_module_kinds k)) ''Platform lock deterministic_module_kinds must not contain duplicates.'') (\<lambda>_.
     case pk_resource_pack_format k of
       PInt fmt \<Rightarrow>
         rbind (guard (fmt \<le> 0) ''Platform lock resource_pack_format must be a positive integer.'') (\<lambda>_.
         (case parse_int (hd (split_on (CHR ''.'') (pk_resource_pack_version k))) of
            None \<Rightarrow> Inl (SpecValidationError ''Platform lock resource_pack_version must start with a numeric major.'')
          | Some major \<Rightarrow> guard (major \<noteq> fmt) ''Platform lock resource pack format disagrees with resource_pack_version.''))
     | _ \<Rightarrow> Inl (SpecValidationError ''Platform lock resource_pack_format must be a positive integer.'')))"

definition receipt_naming_checks :: "PlatformLock \<Rightarrow> bool \<Rightarrow> unit result" where
  "receipt_naming_checks k native =
     (if native then guard (list_ex (\<lambda>s. s \<noteq> []) [pk_yarn_mappings k, pk_mappings_kind k, pk_mappings_version k])
        ''Minecraft 26.1+ native/unobfuscated targets must not carry legacy mapping coordinates.''
      else rbind (guard (pk_mappings_kind k \<notin> {''mojang'', ''yarn''}) ''Platform lock mappings_kind must be mojang or yarn.'') (\<lambda>_.
        guard (pk_mappings_version k \<noteq> pk_yarn_mappings k) ''Platform lock mappings_version must equal the executable mappings coordinate.''))"

definition validate_execution_receipt :: "spec_host \<Rightarrow> PlatformLock \<Rightarrow> bool \<Rightarrow> unit result" where
  "validate_execution_receipt H k native =
     rbind (has_full_execution_receipt k) (\<lambda>full.
     rbind (guard (\<not> full) ''Execution platform receipt is partial or incompatible with the target naming regime.'') (\<lambda>_.
     rbind (guard (\<not> hex64_match (casefold (pk_gradle_sha256 k))) ''Platform lock gradle_sha256 must be a full SHA-256.'') (\<lambda>_.
     rbind (guard (\<not> SHA256_match (casefold (pk_receipt_sha256 k))) ''Platform lock receipt_sha256 must be a lowercase SHA-256 receipt.'') (\<lambda>_.
     rbind (platform_receipt_sha256 (sh_sha H) (to_dict_lock k)) (\<lambda>digest.
     rbind (guard (casefold (pk_receipt_sha256 k) \<noteq> digest) ''Platform lock receipt SHA-256 does not match its immutable provider coordinates.'') (\<lambda>_.
     rbind (guard (pk_gradle_distribution_url k \<noteq> gradle_distribution_url (pk_gradle k)) ''Platform lock Gradle distribution URL disagrees with the pinned version.'') (\<lambda>_.
     rbind (https_host [''services.gradle.org''] (pk_gradle_distribution_url k)) (\<lambda>official.
     rbind (guard (\<not> official) ''Platform lock Gradle distribution URL must use the official HTTPS host.'') (\<lambda>_.
     rbind (receipt_naming_checks k native) (\<lambda>_.
     rbind (validate_host_facts_namespace (sh_runtime H) (pk_host_facts_json k) (pk_mappings_kind k) native) (\<lambda>_.
     rbind (receipt_pack_checks k) (\<lambda>_.
     rbind (https_host RELEASE_HOSTS (pk_release_metadata_url k)) (\<lambda>release.
     rbind (guard (\<not> release) ''Platform lock release metadata must be an official Minecraft/Mojang HTTPS URL.'') (\<lambda>_.
     rbind (java_below k) (\<lambda>below.
     rbind (guard below ''Minecraft requires a newer Java execution target'') (\<lambda>_.
     rbind (guard (pk_mappings_kind k = ''yarn'' \<and> version_disagrees (mapping_version (pk_yarn_mappings k)) k)
       ''Platform lock mappings coordinate disagrees with minecraft_version.'') (\<lambda>_.
     guard (version_disagrees (api_version (pk_fabric_api k)) k) ''Platform lock Fabric API coordinate disagrees with minecraft_version.'')))))))))))))))))"

definition lock_coordinates :: "PlatformLock \<Rightarrow> bool \<Rightarrow> string list" where
  "lock_coordinates k native = [pk_edition k, pk_loader k, pk_minecraft_version k, pk_java_version k, pk_fabric_loader k,
     pk_fabric_api k, pk_fabric_loom k, pk_gradle k] @ (if native then [] else [pk_yarn_mappings k])"

definition extended_present :: "PlatformLock \<Rightarrow> bool" where
  "extended_present k \<longleftrightarrow> list_ex (field_present k) PLATFORM_EXTENDED_FIELDS \<or> pk_deterministic_module_kinds k \<noteq> []"

definition validate_lock :: "spec_host \<Rightarrow> PlatformLock \<Rightarrow> unit result" where
  "validate_lock H k =
     rbind (guard (is_unresolved k) ''Platform target is unresolved.'') (\<lambda>_.
     rbind (case uses_native_names (PStr (pk_minecraft_version k)) of Inl _ \<Rightarrow> Inl (SpecValidationError ''TARGET_MINECRAFT_VERSION'') | Inr n \<Rightarrow> Inr n) (\<lambda>native.
     rbind (guard (\<not> list_all (\<lambda>s. strip s \<noteq> []) (lock_coordinates k native)) ''Platform target is partial.'') (\<lambda>_.
     rbind (guard (\<not> list_all PLATFORM_TOKEN_match (lock_coordinates k native)) ''Platform lock field is not a canonical provider coordinate.'') (\<lambda>_.
     rbind (guard (pk_edition k \<noteq> casefold (pk_edition k)) ''Platform lock edition must be canonical lowercase.'') (\<lambda>_.
     rbind (guard (pk_loader k \<noteq> casefold (pk_loader k)) ''Platform lock loader must be canonical lowercase.'') (\<lambda>_.
     rbind (guard (\<not> all_digits (pk_java_version k) \<or> digits_value 0 (pk_java_version k) \<le> 0) ''Platform lock java_version must be a positive Java major version.'') (\<lambda>_.
     rbind (java_below k) (\<lambda>below.
     rbind (guard below ''Minecraft requires a newer Java execution target'') (\<lambda>_.
     rbind (guard (\<not> native \<and> casefold (pk_yarn_mappings k) \<notin> {''mojang'', ''official'', ''official_mojang''} \<and>
         version_disagrees (mapping_version (pk_yarn_mappings k)) k) ''Platform lock mappings coordinate disagrees with minecraft_version.'') (\<lambda>_.
     rbind (guard (version_disagrees (api_version (pk_fabric_api k)) k) ''Platform lock Fabric API coordinate disagrees with minecraft_version.'') (\<lambda>_.
     if \<not> extended_present k then Inr () else validate_execution_receipt H k native)))))))))))"

end
