(* ===== verification/Mod_Spec.thy ===== *)
theory Mod_Spec
  imports Platform_Lock
begin

text \<open>
  The specification of a mod and the proposal the user approves (\<^verbatim>\<open>spec.py\<close>): contents, boss, evidence, and the hash
  that binds an approval to the proposal.
\<close>

section \<open>Contents and boss\<close>

datatype ContentKind = ITEM | BLOCK

fun content_kind_value :: "ContentKind \<Rightarrow> string" where
  "content_kind_value ITEM = ''item''"
| "content_kind_value BLOCK = ''block''"

record ContentSpec =
  cs_content_id :: string
  cs_kind :: ContentKind
  cs_display_name_en :: string
  cs_display_name_ko :: string
  cs_color :: string
  cs_recipe :: pyval

definition is_bool :: "pyval \<Rightarrow> bool" where
  "is_bool v = (case v of PBool _ \<Rightarrow> True | _ \<Rightarrow> False)"

definition validate_content :: "ContentSpec \<Rightarrow> unit result" where
  "validate_content c =
     rbind (guard (\<not> is_bool (cs_recipe c)) ''recipe must be a JSON boolean'') (\<lambda>_.
     rbind (guard (\<not> SPEC_ID_match (cs_content_id c)) ''Invalid content_id'') (\<lambda>_.
     rbind (guard (length (strip (cs_display_name_en c)) < 2) ''English display name is missing'') (\<lambda>_.
     rbind (guard (length (strip (cs_display_name_ko c)) < 1) ''Korean display name is missing'') (\<lambda>_.
     guard (\<not> HEX_COLOR_match (cs_color c)) ''Invalid RGB color''))))"

record BossSpec =
  bs_entity_id :: string
  bs_display_name_en :: string
  bs_display_name_ko :: string
  bs_max_health :: pyval
  bs_attack_damage :: pyval
  bs_movement_speed :: pyval
  bs_scale :: pyval
  bs_primary_color :: string
  bs_secondary_color :: string
  bs_model_kind :: string

definition BOSS_MODEL_KINDS :: "string list" where
  "BOSS_MODEL_KINDS = [''biped_blockbench'', ''quadruped_blockbench'', ''flying_blockbench'', ''serpentine_blockbench'',
     ''construct_blockbench'', ''custom_geckolib'']"

text \<open>A positive finite number; \<open>float\<close> of a huge integer raises \<open>OverflowError\<close>.\<close>

definition boss_number :: "pyval \<Rightarrow> unit result" where
  "boss_number v =
     (let bad = SpecValidationError ''Boss field must be a positive finite JSON number.'' in
      if \<not> is_number v then Inl bad
      else rbind (py_isfinite v) (\<lambda>finite. if \<not> finite \<or> num_value v \<le> 0 then Inl bad else Inr ()))"

definition validate_boss :: "BossSpec \<Rightarrow> unit result" where
  "validate_boss b =
     rbind (mapM boss_number [bs_max_health b, bs_attack_damage b, bs_movement_speed b, bs_scale b]) (\<lambda>_.
     rbind (guard (\<not> SPEC_ID_match (bs_entity_id b)) ''Invalid boss entity_id'') (\<lambda>_.
     rbind (guard (bs_model_kind b \<notin> set BOSS_MODEL_KINDS) ''Unsupported boss model_kind'') (\<lambda>_.
     guard (\<not> list_all HEX_COLOR_match [bs_primary_color b, bs_secondary_color b]) ''Invalid boss color'')))"

section \<open>Specifications\<close>

record ModSpec =
  ms_mod_id :: string
  ms_mod_name :: string
  ms_package_name :: string
  ms_version :: string
  ms_summary :: string
  ms_contents :: "ContentSpec list"
  ms_boss :: "BossSpec option"
  ms_platform :: PlatformLock

definition JAVA_RESERVED_WORDS :: "string list" where
  "JAVA_RESERVED_WORDS = [''abstract'', ''assert'', ''boolean'', ''break'', ''byte'', ''case'', ''catch'', ''char'', ''class'', ''const'',
     ''continue'', ''default'', ''do'', ''double'', ''else'', ''enum'', ''exports'', ''extends'', ''final'', ''finally'', ''float'', ''for'',
     ''goto'', ''if'', ''implements'', ''import'', ''instanceof'', ''int'', ''interface'', ''long'', ''module'', ''native'', ''new'',
     ''non-sealed'', ''open'', ''opens'', ''package'', ''permits'', ''private'', ''protected'', ''provides'', ''public'', ''record'',
     ''requires'', ''return'', ''sealed'', ''short'', ''static'', ''strictfp'', ''super'', ''switch'', ''synchronized'', ''this'', ''throw'',
     ''throws'', ''to'', ''transient'', ''transitive'', ''true'', ''try'', ''uses'', ''var'', ''void'', ''volatile'', ''while'', ''with'',
     ''yield'', ''false'', ''null'']"

definition RESERVED_MOD_IDS :: "string list" where
  "RESERVED_MOD_IDS = [''minecraft'', ''fabric'', ''fabricloader'', ''java'']"

definition RESERVED_GENERATED_FIELDS :: "string list" where
  "RESERVED_GENERATED_FIELDS = [''MOD_ID'', ''LOGGER'']"

definition RESERVED_PACKAGE_PREFIXES :: "string list" where
  "RESERVED_PACKAGE_PREFIXES = [''java.'', ''javax.'', ''jdk.'', ''sun.'', ''net.minecraft.'', ''com.mojang.'', ''net.fabricmc.'']"

definition content_step :: "string list \<Rightarrow> ContentSpec \<Rightarrow> string list result" where
  "content_step seen c =
     rbind (validate_content c) (\<lambda>_.
     rbind (guard (cs_content_id c \<in> set seen) ''Duplicate content_id'') (\<lambda>_.
     rbind (guard (upper (cs_content_id c) \<in> set RESERVED_GENERATED_FIELDS) ''Content ID collides with a generated Java field'') (\<lambda>_.
     Inr (seen @ [cs_content_id c]))))"

definition spawn_egg_id :: "BossSpec \<Rightarrow> string" where
  "spawn_egg_id b = bs_entity_id b @ ''_spawn_egg''"

definition boss_checks :: "string list \<Rightarrow> BossSpec \<Rightarrow> unit result" where
  "boss_checks seen b =
     rbind (validate_boss b) (\<lambda>_.
     rbind (guard (bs_entity_id b \<in> set seen) ''Boss ID collides with content ID'') (\<lambda>_.
     rbind (guard (upper (bs_entity_id b) \<in> set RESERVED_GENERATED_FIELDS) ''Boss ID collides with a generated Java field'') (\<lambda>_.
     guard (spawn_egg_id b \<in> set seen) ''Boss spawn egg ID collides with content ID'')))"

definition bootstrap_capabilities :: "ModSpec \<Rightarrow> string set" where
  "bootstrap_capabilities s =
     \<Union> (set (map (\<lambda>c. bootstrap_content_capabilities (content_kind_value (cs_kind c)) (truthy (cs_recipe c))) (ms_contents s)))
     \<union> (if ms_boss s = None then {} else bootstrap_boss_capabilities)"

definition validate_spec :: "spec_host \<Rightarrow> ModSpec \<Rightarrow> unit result" where
  "validate_spec H s =
     rbind (validate_lock H (ms_platform s)) (\<lambda>_.
     rbind (guard (\<not> SPEC_ID_match (ms_mod_id s)) ''Invalid mod_id'') (\<lambda>_.
     rbind (guard (ms_mod_id s \<in> set RESERVED_MOD_IDS) ''Reserved mod_id is not allowed'') (\<lambda>_.
     rbind (guard (\<not> PACKAGE_match (ms_package_name s)) ''Invalid package_name'') (\<lambda>_.
     rbind (guard (list_ex (startswith (ms_package_name s)) RESERVED_PACKAGE_PREFIXES) ''Reserved platform package prefix is not allowed'') (\<lambda>_.
     rbind (guard (list_ex (\<lambda>p. p \<in> set JAVA_RESERVED_WORDS) (split_on (CHR ''.'') (ms_package_name s))) ''Java reserved package component is not allowed'') (\<lambda>_.
     rbind (guard (\<not> SEMVER_match (ms_version s)) ''Invalid semantic version'') (\<lambda>_.
     rbind (foldM content_step [] (ms_contents s)) (\<lambda>seen.
     rbind (case ms_boss s of None \<Rightarrow> Inr () | Some b \<Rightarrow> boss_checks seen b) (\<lambda>_.
     rbind (deterministic_backend_capabilities (to_dict_lock (ms_platform s))) (\<lambda>available.
     guard (\<not> bootstrap_capabilities s \<subseteq> available) ''Platform target does not declare deterministic bootstrap capabilities required by ModSpec''))))))))))"

section \<open>Proposals\<close>

datatype ProposalStatus = AWAITING_APPROVAL | APPROVED

fun status_value :: "ProposalStatus \<Rightarrow> string" where
  "status_value AWAITING_APPROVAL = ''awaiting_user_approval''"
| "status_value APPROVED = ''approved''"

record DeferredRequest =
  dr_capability :: string
  dr_reason :: string
  dr_suggested_phase :: string

record Proposal =
  pp_schema_version :: string
  pp_proposal_version :: pyval
  pp_status :: ProposalStatus
  pp_requested_prompt :: string
  pp_spec :: ModSpec
  pp_assumptions :: "string list"
  pp_exclusions :: "string list"
  pp_deferred_requests :: "DeferredRequest list"
  pp_acceptance_tests :: "string list"
  pp_evidence_sources :: "EvidenceSource list"
  pp_evidence_snapshot_hash :: string
  pp_capability_manifest_hash :: string
  pp_imported_source_snapshot_hash :: string
  pp_risk_approvals :: "string list"
  pp_approval_hash :: string

text \<open>The parts of a proposal as the serializer meets them: data classes, enumeration members, tuples.\<close>

definition dict_data :: "pydict \<Rightarrow> jval" where
  "dict_data d = jdata (map (map_prod id py_json) d)"

definition content_data :: "ContentSpec \<Rightarrow> jval" where
  "content_data c = jdata [(''content_id'', jstr (cs_content_id c)), (''kind'', JEnum (jstr (content_kind_value (cs_kind c)))),
     (''display_name_en'', jstr (cs_display_name_en c)), (''display_name_ko'', jstr (cs_display_name_ko c)),
     (''color'', jstr (cs_color c)), (''recipe'', py_json (cs_recipe c))]"

definition asdict_boss :: "BossSpec \<Rightarrow> pydict" where
  "asdict_boss b = [(''entity_id'', PStr (bs_entity_id b)), (''display_name_en'', PStr (bs_display_name_en b)),
     (''display_name_ko'', PStr (bs_display_name_ko b)), (''max_health'', bs_max_health b), (''attack_damage'', bs_attack_damage b),
     (''movement_speed'', bs_movement_speed b), (''scale'', bs_scale b), (''primary_color'', PStr (bs_primary_color b)),
     (''secondary_color'', PStr (bs_secondary_color b)), (''model_kind'', PStr (bs_model_kind b))]"

definition spec_data :: "ModSpec \<Rightarrow> jval" where
  "spec_data s = jdata [(''mod_id'', jstr (ms_mod_id s)), (''mod_name'', jstr (ms_mod_name s)), (''package_name'', jstr (ms_package_name s)),
     (''version'', jstr (ms_version s)), (''summary'', jstr (ms_summary s)), (''contents'', JList (map content_data (ms_contents s))),
     (''boss'', case ms_boss s of None \<Rightarrow> JNull | Some b \<Rightarrow> dict_data (asdict_boss b)),
     (''platform'', dict_data (to_dict_lock (ms_platform s)))]"

definition asdict_deferred :: "DeferredRequest \<Rightarrow> pydict" where
  "asdict_deferred d = [(''capability'', PStr (dr_capability d)), (''reason'', PStr (dr_reason d)), (''suggested_phase'', PStr (dr_suggested_phase d))]"

definition proposal_fields :: "Proposal \<Rightarrow> (string \<times> jval) list" where
  "proposal_fields p = [(''schema_version'', jstr (pp_schema_version p)), (''proposal_version'', py_json (pp_proposal_version p)),
     (''status'', jstr (status_value AWAITING_APPROVAL)), (''requested_prompt'', jstr (pp_requested_prompt p)),
     (''spec'', spec_data (pp_spec p)), (''assumptions'', jstrs (pp_assumptions p)), (''exclusions'', jstrs (pp_exclusions p)),
     (''deferred_requests'', JList (map (\<lambda>d. dict_data (asdict_deferred d)) (pp_deferred_requests p))),
     (''acceptance_tests'', jstrs (pp_acceptance_tests p)),
     (''evidence_sources'', JList (map (\<lambda>s. dict_data (asdict_source s)) (pp_evidence_sources p))),
     (''evidence_snapshot_hash'', jstr (pp_evidence_snapshot_hash p)), (''capability_manifest_hash'', jstr (pp_capability_manifest_hash p)),
     (''imported_source_snapshot_hash'', jstr (pp_imported_source_snapshot_hash p)), (''risk_approvals'', jstrs (pp_risk_approvals p)),
     (''approval_hash'', jstr [])]"

definition hash_payload :: "Proposal \<Rightarrow> jval" where
  "hash_payload p = jobject (proposal_fields p)"

definition calculate_hash :: "spec_host \<Rightarrow> Proposal \<Rightarrow> string result" where
  "calculate_hash H p = stream_result (canonical_json_sha256 (sh_sha H) (hash_payload p))"

definition positive_int_value :: "pyval \<Rightarrow> bool" where
  "positive_int_value v = (case v of PInt i \<Rightarrow> 1 \<le> i | _ \<Rightarrow> False)"

text \<open>The last checks of both kinds of proposal: a recorded approval hash must be that of the payload.\<close>

definition approval_check :: "string \<Rightarrow> (unit \<Rightarrow> string result) \<Rightarrow> unit result" where
  "approval_check recorded payload_hash =
     (if recorded = [] then Inr ()
      else rbind (guard (\<not> SHA256_match recorded) ''approval_hash must be a lowercase sha256 digest.'') (\<lambda>_.
        rbind (payload_hash ()) (\<lambda>h. guard (recorded \<noteq> h) ''approval_hash does not match the immutable proposal payload.'')))"

definition validate_proposal :: "spec_host \<Rightarrow> Proposal \<Rightarrow> unit result" where
  "validate_proposal H p =
     rbind (guard (pp_schema_version p \<noteq> ''minecraft-mod-ai/proposal-v1'') ''Unsupported schema_version'') (\<lambda>_.
     rbind (guard (\<not> positive_int_value (pp_proposal_version p)) ''proposal_version must be a positive JSON integer.'') (\<lambda>_.
     rbind (guard (strip (pp_requested_prompt p) = []) ''requested_prompt must not be empty.'') (\<lambda>_.
     rbind (guard (pp_status p = APPROVED \<and> pp_approval_hash p = []) ''Proposal approved state requires its approval_hash integrity receipt.'') (\<lambda>_.
     rbind (validate_spec H (pp_spec p)) (\<lambda>_.
     rbind (guard (pp_acceptance_tests p = []) ''At least one acceptance test is required.'') (\<lambda>_.
     rbind (guard (pp_evidence_sources p = []) ''At least one authoritative evidence source is required.'') (\<lambda>_.
     rbind (validate_trusted_evidence (sh_runtime H) (pp_evidence_sources p) (Some (pk_minecraft_version (ms_platform (pp_spec p))))) (\<lambda>_.
     rbind (guard (\<not> SHA256_match (pp_evidence_snapshot_hash p)) ''evidence_snapshot_hash must be a lowercase sha256 digest.'') (\<lambda>_.
     rbind (evidence_snapshot_hash (sh_runtime H) (pp_evidence_sources p)) (\<lambda>snapshot.
     rbind (guard (pp_evidence_snapshot_hash p \<noteq> snapshot) ''evidence_snapshot_hash does not match the trusted evidence records.'') (\<lambda>_.
     rbind (guard (\<not> SHA256_match (pp_capability_manifest_hash p)) ''capability_manifest_hash must be a lowercase sha256 digest.'') (\<lambda>_.
     rbind (guard (pp_imported_source_snapshot_hash p \<noteq> [] \<and> \<not> SHA256_match (pp_imported_source_snapshot_hash p))
       ''imported_source_snapshot_hash must be empty or a lowercase sha256 digest.'') (\<lambda>_.
     approval_check (pp_approval_hash p) (\<lambda>_. calculate_hash H p))))))))))))))"

definition with_hash :: "spec_host \<Rightarrow> Proposal \<Rightarrow> Proposal result" where
  "with_hash H p =
     rbind (if pp_evidence_snapshot_hash p \<noteq> [] then Inr (pp_evidence_snapshot_hash p)
            else evidence_snapshot_hash (sh_runtime H) (pp_evidence_sources p)) (\<lambda>snapshot.
     (let draft = p\<lparr>pp_status := AWAITING_APPROVAL, pp_evidence_snapshot_hash := snapshot,
            pp_capability_manifest_hash := (if pp_capability_manifest_hash p \<noteq> [] then pp_capability_manifest_hash p else sh_manifest_hash H),
            pp_approval_hash := []\<rparr> in
      rbind (calculate_hash H draft) (\<lambda>h. Inr (draft\<lparr>pp_approval_hash := h\<rparr>))))"

definition approve :: "spec_host \<Rightarrow> Proposal \<Rightarrow> string \<Rightarrow> Proposal result" where
  "approve H p supplied =
     rbind (validate_proposal H p) (\<lambda>_.
     rbind (calculate_hash H p) (\<lambda>expected.
     if supplied \<noteq> expected then Inl (SpecValidationError ''Approval hash mismatch.'')
     else Inr (p\<lparr>pp_status := APPROVED, pp_approval_hash := expected\<rparr>)))"

text \<open>\<open>to_dict\<close>: \<open>asdict\<close> with the enumeration members replaced by their values.\<close>

definition content_dict :: "ContentSpec \<Rightarrow> pydict" where
  "content_dict c = [(''content_id'', PStr (cs_content_id c)), (''kind'', PStr (content_kind_value (cs_kind c))),
     (''display_name_en'', PStr (cs_display_name_en c)), (''display_name_ko'', PStr (cs_display_name_ko c)),
     (''color'', PStr (cs_color c)), (''recipe'', cs_recipe c)]"

definition spec_dict :: "ModSpec \<Rightarrow> pydict" where
  "spec_dict s = [(''mod_id'', PStr (ms_mod_id s)), (''mod_name'', PStr (ms_mod_name s)), (''package_name'', PStr (ms_package_name s)),
     (''version'', PStr (ms_version s)), (''summary'', PStr (ms_summary s)), (''contents'', PList (map (\<lambda>c. PDict (content_dict c)) (ms_contents s))),
     (''boss'', case ms_boss s of None \<Rightarrow> PNone | Some b \<Rightarrow> PDict (asdict_boss b)), (''platform'', PDict (to_dict_lock (ms_platform s)))]"

definition to_dict_proposal :: "Proposal \<Rightarrow> pydict" where
  "to_dict_proposal p = [(''schema_version'', PStr (pp_schema_version p)), (''proposal_version'', pp_proposal_version p),
     (''status'', PStr (status_value (pp_status p))), (''requested_prompt'', PStr (pp_requested_prompt p)),
     (''spec'', PDict (spec_dict (pp_spec p))), (''assumptions'', PList (map PStr (pp_assumptions p))),
     (''exclusions'', PList (map PStr (pp_exclusions p))),
     (''deferred_requests'', PList (map (\<lambda>d. PDict (asdict_deferred d)) (pp_deferred_requests p))),
     (''acceptance_tests'', PList (map PStr (pp_acceptance_tests p))),
     (''evidence_sources'', PList (map (\<lambda>s. PDict (asdict_source s)) (pp_evidence_sources p))),
     (''evidence_snapshot_hash'', PStr (pp_evidence_snapshot_hash p)), (''capability_manifest_hash'', PStr (pp_capability_manifest_hash p)),
     (''imported_source_snapshot_hash'', PStr (pp_imported_source_snapshot_hash p)),
     (''risk_approvals'', PList (map PStr (pp_risk_approvals p))), (''approval_hash'', PStr (pp_approval_hash p))]"

end
