(* ===== verification/Immutable_Table.thy ===== *)
theory Immutable_Table
  imports MMM_Prelude
begin

text \<open>
  The interface of a write-once table: an insertion either fails or stores the value under its own
  key, and it never succeeds over a different value. Clients may therefore publish in any order.
  The port registry and the name indexes of the Tiny mappings provide it.
\<close>

locale immutable_table =
  fixes put :: "'v \<Rightarrow> 's \<Rightarrow> 'e + 's"
    and look :: "'s \<Rightarrow> 'k \<Rightarrow> 'v option"
    and key :: "'v \<Rightarrow> 'k"
  assumes put_look: "put v s = Inr t \<Longrightarrow> look t = (look s)(key v \<mapsto> v)"
    and put_compatible: "put v s = Inr t \<Longrightarrow> look s (key v) = None \<or> look s (key v) = Some v"
begin

lemma put_mono: "put v s = Inr t \<Longrightarrow> look s \<subseteq>\<^sub>m look t"
  using put_look[of v s t] put_compatible[of v s t] by (auto simp: map_le_def)

lemma puts_mono: "foldM (\<lambda>s v. put v s) s vs = Inr t \<Longrightarrow> look s \<subseteq>\<^sub>m look t"
proof (induction vs arbitrary: s)
  case Nil
  then show ?case by simp
next
  case (Cons v vs)
  then obtain a where "put v s = Inr a" "foldM (\<lambda>s v. put v s) a vs = Inr t" by auto
  with Cons.IH[of a] put_mono[of v s a] show ?case by (blast intro: map_le_trans)
qed

lemma puts_look:
  "foldM (\<lambda>s v. put v s) s vs = Inr t \<Longrightarrow> v \<in> set vs \<Longrightarrow> look t (key v) = Some v"
proof (induction vs arbitrary: s)
  case Nil
  then show ?case by simp
next
  case (Cons w vs)
  then obtain a where a: "put w s = Inr a" "foldM (\<lambda>s v. put v s) a vs = Inr t" by auto
  show ?case
  proof (cases "v \<in> set vs")
    case True
    with a Cons.IH show ?thesis by blast
  next
    case False
    with Cons.prems have "look a (key v) = Some v" using put_look[OF a(1)] by simp
    with puts_mono[OF a(2)] show ?thesis by (auto simp: map_le_def dom_def)
  qed
qed

lemma puts_dom:
  "foldM (\<lambda>s v. put v s) s vs = Inr t \<Longrightarrow>
     look t k = (if k \<in> key ` set vs then look t k else look s k)"
proof (induction vs arbitrary: s)
  case Nil
  then show ?case by simp
next
  case (Cons w vs)
  then obtain a where a: "put w s = Inr a" "foldM (\<lambda>s v. put v s) a vs = Inr t" by auto
  with Cons.IH[OF a(2)] put_look[OF a(1)] show ?case by auto
qed

lemma puts_order_irrelevant:
  assumes "foldM (\<lambda>s v. put v s) s vs = Inr t" and "foldM (\<lambda>s v. put v s) s ws = Inr u"
    and "set vs = set ws"
  shows "look t = look u"
proof
  fix k
  show "look t k = look u k"
  proof (cases "k \<in> key ` set vs")
    case True
    then obtain v where "v \<in> set vs" "k = key v" by auto
    with assms show ?thesis using puts_look by metis
  next
    case False
    with puts_dom[OF assms(1), of k] puts_dom[OF assms(2), of k] assms(3) show ?thesis by simp
  qed
qed

end

end
