(* ===== verification/Artifact_Ports.thy ===== *)
theory Artifact_Ports
  imports Immutable_Table
begin

text \<open>
  Typed artifact ports (\<^verbatim>\<open>artifact_ports.py\<close>): the session-local, immutable-by-name table through
  which leaf jobs hand each other registry identifiers, Java symbols and resource references. The
  lock of the registry makes every operation atomic, so a parallel execution is a sequence of these
  operations; the results at the end cover every such sequence.
\<close>

section \<open>Ports\<close>

datatype PortKind =
    REGISTRY_ID
  | JAVA_SYMBOL
  | TEXTURE_REF
  | MODEL_REF
  | CLIENT_ITEM_REF
  | SCREEN_HANDLER_TYPE
  | PAYLOAD_TYPE
  | TRANSLATION_KEY
  | GENERIC

fun port_kind_value :: "PortKind \<Rightarrow> string" where
  "port_kind_value REGISTRY_ID = ''REGISTRY_ID''"
| "port_kind_value JAVA_SYMBOL = ''JAVA_SYMBOL''"
| "port_kind_value TEXTURE_REF = ''TEXTURE_REF''"
| "port_kind_value MODEL_REF = ''MODEL_REF''"
| "port_kind_value CLIENT_ITEM_REF = ''CLIENT_ITEM_REF''"
| "port_kind_value SCREEN_HANDLER_TYPE = ''SCREEN_HANDLER_TYPE''"
| "port_kind_value PAYLOAD_TYPE = ''PAYLOAD_TYPE''"
| "port_kind_value TRANSLATION_KEY = ''TRANSLATION_KEY''"
| "port_kind_value GENERIC = ''GENERIC''"

definition port_kinds :: "PortKind list" where
  "port_kinds = [REGISTRY_ID, JAVA_SYMBOL, TEXTURE_REF, MODEL_REF, CLIENT_ITEM_REF,
     SCREEN_HANDLER_TYPE, PAYLOAD_TYPE, TRANSLATION_KEY, GENERIC]"

text \<open>\<open>PortKind(text)\<close>. A member is itself a string, so the argument is the member's value in both
  calling styles.\<close>

definition port_kind_of :: "string \<Rightarrow> PortKind result" where
  "port_kind_of s = (case find (\<lambda>k. port_kind_value k = s) port_kinds of
     Some k \<Rightarrow> Inr k
   | None \<Rightarrow> Inl (ValueError ''is not a valid PortKind''))"

record TypedPort =
  pname :: string
  port_kind :: PortKind
  target_type :: string
  pvalue :: string
  context_id :: string

definition to_dict_port :: "TypedPort \<Rightarrow> pydict" where
  "to_dict_port p =
     [(''name'', PStr (pname p)), (''port_kind'', PStr (port_kind_value (port_kind p))),
      (''target_type'', PStr (target_type p)), (''value'', PStr (pvalue p)),
      (''context_id'', PStr (context_id p))]"

definition getitem :: "pydict \<Rightarrow> string \<Rightarrow> pyval result" where
  "getitem d k = (case map_of d k of None \<Rightarrow> Inl (KeyError k) | Some v \<Rightarrow> Inr v)"

definition from_dict_port :: "pydict \<Rightarrow> TypedPort result" where
  "from_dict_port d =
     rbind (getitem d ''name'') (\<lambda>n.
     rbind (getitem d ''port_kind'') (\<lambda>k.
     rbind (case k of PStr s \<Rightarrow> port_kind_of s
              | _ \<Rightarrow> Inl (ValueError ''is not a valid PortKind'')) (\<lambda>kind.
     rbind (getitem d ''target_type'') (\<lambda>t.
     rbind (getitem d ''value'') (\<lambda>v.
     Inr \<lparr>pname = py_str n, port_kind = kind, target_type = py_str t, pvalue = py_str v,
          context_id = (case map_of d ''context_id'' of None \<Rightarrow> [] | Some c \<Rightarrow> py_str c)\<rparr>)))))"

definition matches :: "TypedPort \<Rightarrow> string \<Rightarrow> string \<Rightarrow> bool result" where
  "matches p expected_kind expected_target_type =
     rbind (port_kind_of expected_kind) (\<lambda>kind.
       Inr (port_kind p = kind \<and> casefold (target_type p) = casefold expected_target_type))"

definition validate_port_compatibility :: "TypedPort \<Rightarrow> string \<Rightarrow> string \<Rightarrow> unit result" where
  "validate_port_compatibility p expected_kind expected_target_type =
     rbind (port_kind_of expected_kind) (\<lambda>expected.
     rbind (require (port_kind p = expected) (PortConnectionError ''PORT_KIND_MISMATCH'')) (\<lambda>_.
     require (casefold (target_type p) = casefold expected_target_type)
       (PortConnectionError ''PORT_TARGET_TYPE_MISMATCH'')))"

section \<open>The registry\<close>

record PortRegistry =
  ports :: "(string \<times> TypedPort) list"
  reg_context :: string

definition new_registry :: PortRegistry where
  "new_registry = \<lparr>ports = [], reg_context = []\<rparr>"

definition bind_context :: "string \<Rightarrow> PortRegistry \<Rightarrow> PortRegistry result" where
  "bind_context cid reg =
     rbind (require (cid \<noteq> [] \<and> (reg_context reg = [] \<or> reg_context reg = cid))
       (PortConnectionError ''VERSION_CONTEXT_MISMATCH'')) (\<lambda>_.
     rbind (require (\<forall>(n, p) \<in> set (ports reg). context_id p = cid)
       (PortConnectionError ''VERSION_CONTEXT_MISMATCH: existing port belongs to another context'')) (\<lambda>_.
     Inr (reg\<lparr>reg_context := cid\<rparr>)))"

text \<open>\<open>raise_if_model_execution_cancelled\<close>: the deadline budgets of the calling context, innermost
  first, each with its cancellation flag.\<close>

fun raise_if_model_execution_cancelled :: "bool list \<Rightarrow> unit result" where
  "raise_if_model_execution_cancelled [] = Inr ()"
| "raise_if_model_execution_cancelled (c # parents) =
     (if c then Inl (ModelExecutionCancelled ''model execution cancelled by its owning scheduler'')
      else raise_if_model_execution_cancelled parents)"

text \<open>\<open>publish\<close>: \<open>at_entry\<close> and \<open>under_locks\<close> are the cancellation flags at the first check and while
  the publication locks are held; the second and third check read the same flags, since
  cancelling needs those locks.\<close>

definition publish :: "bool list \<Rightarrow> bool list \<Rightarrow> TypedPort \<Rightarrow> PortRegistry \<Rightarrow> PortRegistry result" where
  "publish at_entry under_locks port reg =
     rbind (raise_if_model_execution_cancelled at_entry) (\<lambda>_.
     rbind (require (pname port \<noteq> [] \<and> pvalue port \<noteq> [])
       (PortConnectionError ''PORT_EMPTY: published ports need non-empty name and value'')) (\<lambda>_.
     rbind (raise_if_model_execution_cancelled under_locks) (\<lambda>_.
     rbind (raise_if_model_execution_cancelled under_locks) (\<lambda>_.
     rbind (require (\<not> (reg_context reg \<noteq> [] \<and> context_id port \<noteq> reg_context reg))
       (PortConnectionError ''VERSION_CONTEXT_MISMATCH: cannot publish a foreign port'')) (\<lambda>_.
     rbind (require (\<not> (\<exists>existing \<in> set_option (map_of (ports reg) (pname port)). existing \<noteq> port))
       (PortConnectionError ''PORT_DUPLICATE'')) (\<lambda>_.
     Inr (reg\<lparr>ports := AList.update (pname port) port (ports reg)\<rparr>)))))))"

definition register :: "bool list \<Rightarrow> bool list \<Rightarrow> string \<Rightarrow> string \<Rightarrow> string \<Rightarrow> string \<Rightarrow>
    PortRegistry \<Rightarrow> (TypedPort \<times> PortRegistry) result" where
  "register at_entry under_locks n v kind target reg =
     rbind (port_kind_of kind) (\<lambda>k.
     let port = \<lparr>pname = n, port_kind = k, target_type = target, pvalue = v, context_id = []\<rparr> in
     rbind (publish at_entry under_locks port reg) (\<lambda>reg'. Inr (port, reg')))"

definition resolve :: "string \<Rightarrow> string \<Rightarrow> string \<Rightarrow> PortRegistry \<Rightarrow> TypedPort result" where
  "resolve n expected_kind expected_target_type reg =
     (case map_of (ports reg) n of
        None \<Rightarrow> Inl (PortConnectionError ''PORT_MISSING'')
      | Some port \<Rightarrow>
          rbind (validate_port_compatibility port expected_kind expected_target_type)
            (\<lambda>_. Inr port))"

definition get_port :: "string \<Rightarrow> PortRegistry \<Rightarrow> TypedPort option" where
  "get_port n reg = map_of (ports reg) n"

definition has_port :: "string \<Rightarrow> PortRegistry \<Rightarrow> bool" where
  "has_port n reg \<longleftrightarrow> n \<in> set (keys (ports reg))"

definition all_ports :: "PortRegistry \<Rightarrow> (string \<times> TypedPort) list" where
  "all_ports reg = ports reg"

section \<open>Invariant and laws\<close>

definition registry_ok :: "PortRegistry \<Rightarrow> bool" where
  "registry_ok reg \<longleftrightarrow>
     distinct (keys (ports reg)) \<and>
     (\<forall>(n, p) \<in> set (ports reg). n = pname p \<and> pname p \<noteq> [] \<and> pvalue p \<noteq> [] \<and>
        (reg_context reg \<noteq> [] \<longrightarrow> context_id p = reg_context reg))"

lemma port_kind_roundtrip [simp]: "port_kind_of (port_kind_value k) = Inr k"
  by (cases k) (simp_all add: port_kind_of_def port_kinds_def)

lemma publish_Inr_iff:
  "publish f g port reg = Inr reg' \<longleftrightarrow>
     raise_if_model_execution_cancelled f = Inr () \<and>
     raise_if_model_execution_cancelled g = Inr () \<and>
     pname port \<noteq> [] \<and> pvalue port \<noteq> [] \<and>
     (reg_context reg = [] \<or> context_id port = reg_context reg) \<and>
     (map_of (ports reg) (pname port) = None \<or> map_of (ports reg) (pname port) = Some port) \<and>
     reg' = reg\<lparr>ports := AList.update (pname port) port (ports reg)\<rparr>"
  by (cases "map_of (ports reg) (pname port)") (auto simp: publish_def)

interpretation port_table: immutable_table
  "\<lambda>p reg. publish f g p reg" "\<lambda>reg. map_of (ports reg)" pname
  by unfold_locales (auto simp: publish_Inr_iff)

lemma set_AList_update_subset:
  "set (AList.update k v d) \<subseteq> insert (k, v) (set d)"
  by (induction d) auto

lemma registry_ok_new [step_inv]: "registry_ok new_registry"
  by (simp add: registry_ok_def new_registry_def)

lemma publish_registry_ok [step_inv]:
  "registry_ok reg \<Longrightarrow> publish f g port reg = Inr reg' \<Longrightarrow> registry_ok reg'"
  using set_AList_update_subset[of "pname port" port "ports reg"]
  by (auto simp: publish_Inr_iff registry_ok_def)

lemma bind_context_registry_ok [step_inv]:
  "registry_ok reg \<Longrightarrow> bind_context cid reg = Inr reg' \<Longrightarrow> registry_ok reg'"
  by (auto simp: bind_context_def registry_ok_def)

lemma register_registry_ok [step_inv]:
  "registry_ok reg \<Longrightarrow> register f g n v kind target reg = Inr (port, reg') \<Longrightarrow> registry_ok reg'"
  by (auto simp: register_def Let_def intro: publish_registry_ok)

text \<open>The operations a parallel session performs on one registry, as steps.\<close>

inductive registry_step :: "PortRegistry \<Rightarrow> PortRegistry \<Rightarrow> bool" where
  bind: "bind_context cid reg = Inr reg' \<Longrightarrow> registry_step reg reg'"
| pub: "publish f g port reg = Inr reg' \<Longrightarrow> registry_step reg reg'"
| reg: "register f g n v kind target reg = Inr (port, reg') \<Longrightarrow> registry_step reg reg'"

inductive registry_reachable :: "PortRegistry \<Rightarrow> bool" where
  start: "registry_reachable new_registry"
| step: "registry_reachable reg \<Longrightarrow> registry_step reg reg' \<Longrightarrow> registry_reachable reg'"

lemma registry_step_ok: "registry_step reg reg' \<Longrightarrow> registry_ok reg \<Longrightarrow> registry_ok reg'"
  by (induction rule: registry_step.induct) (blast intro: step_inv)+

lemma registry_step_mono: "registry_step reg reg' \<Longrightarrow> map_of (ports reg) \<subseteq>\<^sub>m map_of (ports reg')"
proof (induction rule: registry_step.induct)
  case (bind cid reg reg')
  then show ?case by (auto simp: bind_context_def)
next
  case (pub f g port reg reg')
  then show ?case by (rule port_table.put_mono)
next
  case (reg f g n v kind target reg port reg')
  then obtain p where "publish f g p reg = Inr reg'" by (auto simp: register_def Let_def)
  then show ?case by (rule port_table.put_mono)
qed

section \<open>Properties\<close>

text \<open>In every registry a session can reach, names are unique, every port is stored under its own
  non-empty name with a non-empty value, and once a version context is bound every port belongs to
  it.\<close>

theorem reachable_registry_ok: "registry_reachable reg \<Longrightarrow> registry_ok reg"
  by (induction rule: registry_reachable.induct) (auto intro: registry_ok_new registry_step_ok)

definition sample_port :: TypedPort where
  "sample_port = \<lparr>pname = ''item.ruby'', port_kind = REGISTRY_ID, target_type = ''Item'',
     pvalue = ''mod:ruby'', context_id = ''ctx''\<rparr>"

definition sample_registry :: PortRegistry where
  "sample_registry = \<lparr>ports = [(''item.ruby'', sample_port)], reg_context = ''ctx''\<rparr>"

lemma sample_bind: "bind_context ''ctx'' new_registry = Inr \<lparr>ports = [], reg_context = ''ctx''\<rparr>"
  by (simp add: bind_context_def new_registry_def)

lemma sample_publish:
  "publish [] [] sample_port \<lparr>ports = [], reg_context = ''ctx''\<rparr> = Inr sample_registry"
  by (simp add: publish_Inr_iff sample_registry_def sample_port_def)

lemma sample_reachable: "registry_reachable sample_registry"
  by (rule registry_reachable.step[OF registry_reachable.step[OF registry_reachable.start]])
    (rule registry_step.bind, rule sample_bind, rule registry_step.pub, rule sample_publish)

theorem reachable_registry_ok_witness: "registry_ok sample_registry"
  by (rule reachable_registry_ok[OF sample_reachable])

text \<open>Ports are immutable by name and visible once published: whatever operations follow, a
  published port is the one that a consumer asking for its kind and target type resolves.\<close>

theorem published_port_resolves:
  assumes "publish f g port reg = Inr reg1" and "registry_step\<^sup>*\<^sup>* reg1 reg2"
    and "casefold t = casefold (target_type port)"
  shows "resolve (pname port) (port_kind_value (port_kind port)) t reg2 = Inr port"
proof -
  have "map_of (ports reg1) \<subseteq>\<^sub>m map_of (ports reg2)"
    using assms(2) by (induction rule: rtranclp_induct)
      (auto intro: map_le_trans registry_step_mono)
  moreover have "map_of (ports reg1) (pname port) = Some port"
    using assms(1) by (simp add: publish_Inr_iff)
  ultimately have "map_of (ports reg2) (pname port) = Some port"
    by (auto simp: map_le_def dom_def)
  then show ?thesis
    by (simp add: resolve_def validate_port_compatibility_def assms(3))
qed

theorem published_port_resolves_witness:
  "resolve ''item.ruby'' ''REGISTRY_ID'' ''ITEM'' sample_registry = Inr sample_port"
proof -
  have "casefold ''ITEM'' = casefold (target_type sample_port)" by code_simp
  from published_port_resolves[OF sample_publish rtranclp.rtrancl_refl this]
  show ?thesis by (simp add: sample_port_def)
qed

text \<open>C40. Publication order does not matter: two sessions that publish the same set of ports, in any
  order and with any repetitions, from the same registry end with the same table.\<close>

theorem publication_order_irrelevant:
  assumes "foldM (\<lambda>reg p. publish [] [] p reg) reg ps = Inr reg1"
    and "foldM (\<lambda>reg p. publish [] [] p reg) reg qs = Inr reg2"
    and "set ps = set qs"
  shows "map_of (ports reg1) = map_of (ports reg2)"
  by (rule port_table.puts_order_irrelevant[OF assms])

definition other_port :: TypedPort where
  "other_port = sample_port\<lparr>pname := ''item.opal'', pvalue := ''mod:opal''\<rparr>"

theorem publication_order_irrelevant_witness:
  "map_of [(''item.ruby'', sample_port), (''item.opal'', other_port)] =
   map_of [(''item.opal'', other_port), (''item.ruby'', sample_port)]"
  using publication_order_irrelevant[of new_registry "[sample_port, other_port]"
      "new_registry\<lparr>ports := [(''item.ruby'', sample_port), (''item.opal'', other_port)]\<rparr>"
      "[other_port, sample_port]"
      "new_registry\<lparr>ports := [(''item.opal'', other_port), (''item.ruby'', sample_port)]\<rparr>"]
  by (simp add: publish_Inr_iff sample_port_def other_port_def new_registry_def insert_commute)

text \<open>The convenience operation \<open>register\<close> builds a port with an empty context, so once a version
  context is bound it can never succeed.\<close>

theorem register_fails_once_bound:
  assumes "reg_context reg \<noteq> []"
  shows "\<exists>e. register f g n v kind target reg = Inl e"
proof -
  have "\<nexists>r. register f g n v kind target reg = Inr r"
    using assms by (auto simp: register_def Let_def publish_Inr_iff)
  then show ?thesis by (cases "register f g n v kind target reg") auto
qed

theorem register_fails_once_bound_witness:
  "\<exists>e. register [] [] ''a'' ''b'' ''GENERIC'' ''Any'' sample_registry = Inl e"
  by (rule register_fails_once_bound) (simp add: sample_registry_def)

text \<open>Serialising a port and reading it back gives the same port.\<close>

theorem port_dict_roundtrip: "from_dict_port (to_dict_port p) = Inr p"
  by (cases p) (simp add: from_dict_port_def to_dict_port_def getitem_def)

end
