(* ===== verification/Kahn.thy ===== *)
theory Kahn
  imports MMM_Prelude
begin

text \<open>
  Kahn's algorithm as a contract: a finite graph whose loops keep, for every node, the number of
  dependencies not yet emitted. The planner runs it twice, over module identifiers with a heap and over
  shard groups in waves; both loops are sequences of the one step of the locale \<open>kahn_graph\<close>, whose
  lemmas give the order and completeness of the result.
\<close>

definition deps_before :: "('k \<Rightarrow> 'k list) \<Rightarrow> 'k list \<Rightarrow> bool" where
  "deps_before deps ks \<longleftrightarrow> (\<forall>i < length ks. set (deps (ks ! i)) \<subseteq> set (take i ks))"

definition kahn_inv :: "'k set \<Rightarrow> ('k \<Rightarrow> 'k list) \<Rightarrow> ('k \<Rightarrow> int) \<Rightarrow> 'k list \<Rightarrow> 'k list \<Rightarrow> bool" where
  "kahn_inv nodes deps deg ready acc \<longleftrightarrow> distinct (acc @ ready) \<and> set (acc @ ready) \<subseteq> nodes \<and>
     (\<forall>k \<in> nodes. deg k = int (length (filter (\<lambda>d. d \<notin> set acc) (deps k)))) \<and>
     (\<forall>k \<in> nodes. k \<in> set (acc @ ready) \<longleftrightarrow> deg k = 0) \<and> (\<forall>k. k \<notin> nodes \<longrightarrow> deg k = 0) \<and> deps_before deps acc"

lemma deps_before_snoc: "deps_before deps ks \<Longrightarrow> set (deps n) \<subseteq> set ks \<Longrightarrow> deps_before deps (ks @ [n])"
  by (auto simp: deps_before_def nth_append less_Suc_eq)

lemma filter_snoc_count:
  "n \<notin> D \<Longrightarrow> length (filter (\<lambda>d. d \<notin> insert n D) xs) + count_list xs n = length (filter (\<lambda>d. d \<notin> D) xs)"
  by (induction xs) auto

lemma deps_before_acyclic:
  assumes "distinct ks" "deps_before deps ks" "nodes \<subseteq> set ks"
  shows "acyclic {(k, d). k \<in> nodes \<and> d \<in> set (deps k)}"
proof -
  define pos where "pos k = (THE i. i < length ks \<and> ks ! i = k)" for k
  have pos: "pos (ks ! i) = i" if "i < length ks" for i
    unfolding pos_def using that assms(1) by (auto intro!: the_equality simp: nth_eq_iff_index_eq)
  show ?thesis
  proof (rule acyclicI_order[where f = pos])
    fix a b assume "(a, b) \<in> {(k, d). k \<in> nodes \<and> d \<in> set (deps k)}"
    then have a: "a \<in> set ks" and b: "b \<in> set (deps a)" using assms(3) by auto
    from a obtain i where i: "i < length ks" "ks ! i = a" by (auto simp: in_set_conv_nth)
    with assms(2) b have "b \<in> set (take i ks)" by (auto simp: deps_before_def)
    then obtain j where "j < i" "ks ! j = b" using i(1) by (auto simp: in_set_conv_nth)
    with i pos show "pos b < pos a" by (metis order.strict_trans)
  qed
qed

locale kahn_graph =
  fixes nodes :: "'k set" and deps out :: "'k \<Rightarrow> 'k list"
  assumes finite_nodes: "finite nodes"
    and out_count: "n \<in> nodes \<Longrightarrow> k \<in> nodes \<Longrightarrow> count_list (out n) k = count_list (deps k) n"
    and out_nodes: "n \<in> nodes \<Longrightarrow> set (out n) \<subseteq> nodes"
begin

lemma out_le_deg:
  assumes inv: "kahn_inv nodes deps deg ready acc" and n: "n \<in> nodes" "n \<notin> set acc"
  shows "int (count_list (out n) k) \<le> deg k"
proof (cases "k \<in> nodes")
  case True
  then show ?thesis
    using inv n out_count[OF n(1) True] filter_snoc_count[OF n(2), of "deps k"] by (simp add: kahn_inv_def)
next
  case False
  then have "count_list (out n) k = 0" using out_nodes[OF n(1)] by (auto simp: count_list_0_iff)
  with False inv show ?thesis by (simp add: kahn_inv_def)
qed

text \<open>A node released by \<open>n\<close> was neither emitted nor ready.\<close>

lemma fresh:
  assumes inv: "kahn_inv nodes deps deg ready acc" and n: "n \<in> set ready"
    and k: "k \<in> set (out n)" "deg k = int (count_list (out n) k)"
  shows "k \<notin> set (acc @ ready)"
proof -
  have "n \<in> nodes" using inv n by (auto simp: kahn_inv_def)
  then have "k \<in> nodes" using out_nodes k(1) by blast
  moreover have "deg k \<noteq> 0" unfolding k(2) using k(1) by (simp add: count_list_0_iff)
  ultimately show ?thesis using inv unfolding kahn_inv_def by blast
qed

lemma step:
  assumes inv: "kahn_inv nodes deps deg ready acc" and n: "n \<in> set ready"
    and deg': "\<And>k. deg' k = deg k - int (count_list (out n) k)"
    and zs: "set zs = {k \<in> set (out n). deg k = int (count_list (out n) k)}"
    and ready': "set ready' = (set ready - {n}) \<union> set zs" "distinct ready'"
  shows "kahn_inv nodes deps deg' ready' (acc @ [n])"
proof -
  have nn: "n \<in> nodes" and nd: "n \<notin> set acc" using inv n by (auto simp: kahn_inv_def)
  note le = out_le_deg[OF inv nn nd]
  have deg: "deg k = int (length (filter (\<lambda>d. d \<notin> set acc) (deps k)))" if "k \<in> nodes" for k
    using inv that by (simp add: kahn_inv_def)
  have deg2: "deg' k = int (length (filter (\<lambda>d. d \<notin> set (acc @ [n])) (deps k)))" if "k \<in> nodes" for k
    using deg'[of k] deg[OF that] out_count[OF nn that] filter_snoc_count[OF nd, of "deps k"] by simp
  have new: "k \<notin> set (acc @ ready)" if "k \<in> set zs" for k
    using that fresh[OF inv n] by (auto simp: zs)
  have all: "set ((acc @ [n]) @ ready') = set (acc @ ready) \<union> set zs" using ready'(1) n by auto
  have mem: "k \<in> set ((acc @ [n]) @ ready') \<longleftrightarrow> deg' k = 0" if k: "k \<in> nodes" for k
  proof -
    have old: "k \<in> set (acc @ ready) \<longleftrightarrow> deg k = 0" using inv k unfolding kahn_inv_def by blast
    show ?thesis
    proof (cases "deg k = 0")
      case True
      then have "deg' k = 0" using le[of k] deg'[of k] by simp
      with True old show ?thesis unfolding all by simp
    next
      case False
      have "k \<in> set zs \<longleftrightarrow> deg k = int (count_list (out n) k)"
        unfolding zs using False count_notin[of k "out n"] by (cases "k \<in> set (out n)") simp_all
      with False old show ?thesis unfolding all deg' by simp
    qed
  qed
  have "set (deps n) \<subseteq> set acc"
  proof -
    have "deg n = 0" using inv n nn by (auto simp: kahn_inv_def)
    then show ?thesis using deg[OF nn] by (auto simp: filter_empty_conv)
  qed
  then have "deps_before deps (acc @ [n])" using inv by (intro deps_before_snoc) (auto simp: kahn_inv_def)
  moreover have "distinct ((acc @ [n]) @ ready')"
  proof -
    have "n \<notin> set zs" "set acc \<inter> set zs = {}" using new n by auto
    moreover have "distinct acc" "set acc \<inter> set ready = {}" using inv by (auto simp: kahn_inv_def)
    ultimately show ?thesis using ready' nd by auto
  qed
  moreover have "set zs \<subseteq> nodes" using zs out_nodes[OF nn] by auto
  then have "set ((acc @ [n]) @ ready') \<subseteq> nodes" unfolding all using inv by (auto simp: kahn_inv_def)
  moreover have "\<forall>k. k \<notin> nodes \<longrightarrow> deg' k = 0"
  proof (intro allI impI)
    fix k assume "k \<notin> nodes"
    moreover from this have "count_list (out n) k = 0" using out_nodes[OF nn] by (auto simp: count_list_0_iff)
    ultimately show "deg' k = 0" using inv deg'[of k] by (simp add: kahn_inv_def)
  qed
  ultimately show ?thesis unfolding kahn_inv_def using deg2 mem by blast
qed

lemma initial:
  assumes "distinct ready" "set ready = {k \<in> nodes. deps k = []}"
    and "\<And>k. deg k = (if k \<in> nodes then int (length (deps k)) else 0)"
  shows "kahn_inv nodes deps deg ready []"
  using assms by (auto simp: kahn_inv_def deps_before_def)

lemma stopped_iff:
  "kahn_inv nodes deps deg [] acc \<Longrightarrow> k \<in> nodes \<Longrightarrow> k \<in> set acc \<longleftrightarrow> set (deps k) \<subseteq> set acc"
  by (auto simp: kahn_inv_def filter_empty_conv)

lemma acyclic_complete:
  assumes inv: "kahn_inv nodes deps deg [] acc" and closed: "\<And>k. k \<in> nodes \<Longrightarrow> set (deps k) \<subseteq> nodes"
    and ac: "acyclic {(k, d). k \<in> nodes \<and> d \<in> set (deps k)}"
  shows "set acc = nodes"
proof -
  let ?r = "{(k, d). k \<in> nodes \<and> d \<in> set (deps k)}"
  have "finite ?r" by (rule finite_subset[of _ "nodes \<times> nodes"]) (use closed finite_nodes in auto)
  then have "wf (?r\<inverse>)" using ac by (rule finite_acyclic_wf_converse)
  then have "k \<in> nodes \<longrightarrow> k \<in> set acc" for k
  proof (induction k rule: wf_induct_rule)
    case (less k)
    then show ?case using stopped_iff[OF inv, of k] closed[of k] by auto
  qed
  with inv show ?thesis by (auto simp: kahn_inv_def)
qed

end

end
