(* ===== verification/Module_Order.thy ===== *)
theory Module_Order
  imports Backend_Contract Kahn
begin

text \<open>
  The dependency order of production modules (\<open>_topological_modules\<close> of \<^verbatim>\<open>work_graph.py\<close>): Kahn's
  algorithm with a heap of ready identifiers. The heap is the list of its elements; \<open>heappop\<close> removes
  the least one.
\<close>

section \<open>Definitions\<close>

record ProductionModule =
  m_module_id :: string
  m_kind :: string
  m_config :: pydict
  m_depends_on :: "string list"
  m_required_gates :: "string list"

definition indegrees :: "ProductionModule list \<Rightarrow> (string \<times> int) list" where
  "indegrees ms = fold (\<lambda>m d. AList.update (m_module_id m) (int (length (m_depends_on m))) d) ms []"

definition outgoing :: "ProductionModule list \<Rightarrow> string \<Rightarrow> string list" where
  "outgoing ms d = concat (map (\<lambda>m. map (\<lambda>_. m_module_id m) (filter (\<lambda>x. x = d) (m_depends_on m))) ms)"

definition deg_of :: "(string \<times> int) list \<Rightarrow> string \<Rightarrow> int" where
  "deg_of deg k = (case map_of deg k of None \<Rightarrow> 0 | Some v \<Rightarrow> v)"

text \<open>The inner loop over the dependents of the node just popped.\<close>

fun relax :: "string list \<Rightarrow> (string \<times> int) list \<Rightarrow> string list \<Rightarrow> (string \<times> int) list \<times> string list" where
  "relax [] deg ready = (deg, ready)"
| "relax (d # ds) deg ready =
     (let v = deg_of deg d - 1
      in relax ds (AList.update d v deg) (if v = 0 then ready @ [d] else ready))"

definition pending_count :: "(string \<times> int) list \<Rightarrow> nat" where
  "pending_count deg = length (filter (\<lambda>(k, v). v > 0) deg)"

lemma pending_count_update:
  "pending_count (AList.update d (deg_of deg d - 1) deg) + (if deg_of deg d = 1 then 1 else 0) \<le> pending_count deg"
  by (induction deg) (auto simp: pending_count_def deg_of_def)

lemma relax_measure:
  "relax ds deg ready = (deg', ready') \<Longrightarrow> pending_count deg' + length ready' \<le> pending_count deg + length ready"
proof (induction ds deg ready rule: relax.induct)
  case (2 d ds deg ready)
  have "pending_count deg' + length ready' \<le> pending_count (AList.update d (deg_of deg d - 1) deg)
      + length (if deg_of deg d - 1 = 0 then ready @ [d] else ready)"
    using "2.IH"[OF refl] "2.prems" by (simp add: Let_def)
  with pending_count_update[of d deg] show ?case by (auto split: if_splits)
qed simp

lemma min_list_in: "xs \<noteq> [] \<Longrightarrow> min_list xs \<in> set xs"
  by (induction xs rule: induct_list012) (auto simp: min_def)

function topo_loop :: "(string \<Rightarrow> string list) \<Rightarrow> (string \<times> int) list \<Rightarrow> string list \<Rightarrow> string list \<Rightarrow> string list" where
  "topo_loop out deg ready ordered =
     (if ready = [] then ordered
      else (let n = min_list ready; (deg', ready') = relax (out n) deg (remove1 n ready)
            in topo_loop out deg' ready' (ordered @ [n])))"
  by pat_completeness auto

termination
proof (relation "measure (\<lambda>(out, deg, ready, ordered). pending_count deg + length ready)")
  fix out deg and ready ordered :: "string list" and n deg' ready' and p
  assume ne: "ready \<noteq> []" and n: "n = min_list ready" and p: "p = relax (out n) deg (remove1 n ready)"
    and eq: "(deg', ready') = p"
  from relax_measure[of "out n" deg "remove1 n ready" deg' ready'] p eq
  have "pending_count deg' + length ready' \<le> pending_count deg + length (remove1 n ready)" by simp
  moreover have "length (remove1 n ready) < length ready"
    using min_list_in[OF ne] n by (simp add: length_remove1 ne)
  ultimately show "((out, deg', ready', ordered @ [n]), (out, deg, ready, ordered))
      \<in> measure (\<lambda>(out, deg, ready, ordered). pending_count deg + length ready)" by simp
qed simp

declare topo_loop.simps [simp del]

definition module_lookup :: "ProductionModule list \<Rightarrow> string \<Rightarrow> ProductionModule option" where
  "module_lookup ms k = map_of (rev (map (\<lambda>m. (m_module_id m, m)) ms)) k"

definition topological_modules :: "ProductionModule list \<Rightarrow> ProductionModule list result" where
  "topological_modules ms =
     (if \<not> list_all (\<lambda>m. list_all (\<lambda>d. d \<in> set (map m_module_id ms)) (m_depends_on m)) ms
        then Inl (KeyError ''dependency'')
      else (let deg = indegrees ms;
                ordered = topo_loop (outgoing ms) deg (map fst (filter (\<lambda>(k, v). v = 0) deg)) []
            in if length ordered \<noteq> length ms
               then Inl (WorkGraphError ''Production module graph contains a cycle.'')
               else Inr (map (\<lambda>k. the (module_lookup ms k)) ordered)))"

section \<open>The inner loop\<close>

lemma deg_of_update: "deg_of (AList.update d v deg) k = (if k = d then v else deg_of deg k)"
  by (simp add: deg_of_def)

lemma relax_spec:
  assumes "relax ds deg ready = (deg', ready')" and "\<And>k. int (count_list ds k) \<le> deg_of deg k"
  shows "(\<forall>k. deg_of deg' k = deg_of deg k - int (count_list ds k)) \<and>
    (\<exists>zs. ready' = ready @ zs \<and> distinct zs \<and>
       set zs = {k \<in> set ds. deg_of deg k = int (count_list ds k)})"
  using assms
proof (induction ds deg ready rule: relax.induct)
  case (1 deg ready)
  then show ?case by auto
next
  case (2 d ds deg ready)
  let ?v = "deg_of deg d - 1" and ?deg = "AList.update d (deg_of deg d - 1) deg"
  have le: "int (count_list ds k) \<le> deg_of ?deg k" for k
    using "2.prems"(2)[of k] by (auto simp: deg_of_update split: if_splits)
  have run: "relax ds ?deg (if ?v = 0 then ready @ [d] else ready) = (deg', ready')"
    using "2.prems"(1) by (simp add: Let_def)
  from "2.IH"[OF refl run le] obtain zs where
    deg': "\<And>k. deg_of deg' k = deg_of ?deg k - int (count_list ds k)"
    and zs: "ready' = (if ?v = 0 then ready @ [d] else ready) @ zs" "distinct zs"
      "set zs = {k \<in> set ds. deg_of ?deg k = int (count_list ds k)}" by blast
  have d0: "?v = 0 \<Longrightarrow> d \<notin> set ds"
    using le[of d] by (auto simp: deg_of_update count_list_0_iff)
  have "\<forall>k. deg_of deg' k = deg_of deg k - int (count_list (d # ds) k)"
    using deg' by (simp add: deg_of_update)
  moreover have "\<exists>zs'. ready' = ready @ zs' \<and> distinct zs' \<and>
       set zs' = {k \<in> set (d # ds). deg_of deg k = int (count_list (d # ds) k)}"
  proof (cases "?v = 0")
    case True
    then have one: "deg_of deg d = 1" and nd: "d \<notin> set ds" and c0: "count_list ds d = 0"
      using d0 by (auto simp: count_list_0_iff)
    have "set zs = {k \<in> set ds. deg_of deg k = int (count_list ds k)}"
      unfolding zs(3) using nd by (auto simp: deg_of_update)
    then have "set (d # zs) = {k \<in> set (d # ds). deg_of deg k = int (count_list (d # ds) k)}"
      using one nd c0 by auto
    moreover have "d \<notin> set zs" unfolding zs(3) using nd by simp
    ultimately show ?thesis using zs(1,2) True by (intro exI[of _ "d # zs"]) simp
  next
    case False
    have "k \<in> set zs \<longleftrightarrow> k \<in> set (d # ds) \<and> deg_of deg k = int (count_list (d # ds) k)" for k
    proof (cases "k = d")
      case True
      have "d \<notin> set ds \<Longrightarrow> count_list ds d = 0" by (rule count_notin)
      with True False show ?thesis by (cases "d \<in> set ds") (simp_all add: zs(3) deg_of_update, linarith)
    qed (simp add: zs(3) deg_of_update eq_commute[of d])
    then have "set zs = {k \<in> set (d # ds). deg_of deg k = int (count_list (d # ds) k)}" by blast
    with zs(1,2) False show ?thesis by (intro exI[of _ zs]) simp
  qed
  ultimately show ?case by blast
qed

section \<open>The loop\<close>

definition ids :: "ProductionModule list \<Rightarrow> string list" where
  "ids ms = map m_module_id ms"

text \<open>The dependencies recorded under an identifier; with distinct identifiers, those of its module.\<close>

definition deps_of :: "ProductionModule list \<Rightarrow> string \<Rightarrow> string list" where
  "deps_of ms k = concat (map m_depends_on (filter (\<lambda>m. m_module_id m = k) ms))"

lemma deps_of_member:
  "distinct (ids ms) \<Longrightarrow> m \<in> set ms \<Longrightarrow> deps_of ms (m_module_id m) = m_depends_on m"
proof (induction ms)
  case (Cons x ms)
  have none: "filter (\<lambda>m. m_module_id m = k) ms = []" if "k \<notin> set (ids ms)" for k
    using that by (auto simp: ids_def filter_empty_conv)
  show ?case
  proof (cases "m = x")
    case True
    with Cons.prems none show ?thesis by (simp add: deps_of_def ids_def)
  next
    case False
    with Cons have "m \<in> set ms" "m_module_id x \<noteq> m_module_id m" by (auto simp: ids_def)
    with Cons show ?thesis by (simp add: deps_of_def ids_def)
  qed
qed simp

lemma count_outgoing: "count_list (outgoing ms d) k = count_list (deps_of ms k) d"
proof -
  have c: "count_list (map (\<lambda>_. a) xs) b = (if a = b then length xs else 0)" for a b and xs :: "string list"
    by (induction xs) auto
  have f: "length (filter (\<lambda>y. y = d) xs) = count_list xs d" for xs :: "string list" by (induction xs) auto
  show ?thesis by (induction ms) (auto simp: outgoing_def deps_of_def c f)
qed

interpretation module_graph: kahn_graph "set (ids ms)" "deps_of ms" "outgoing ms" for ms
proof unfold_locales
  show "set (outgoing ms n) \<subseteq> set (ids ms)" for n by (auto simp: outgoing_def ids_def)
qed (simp_all add: count_outgoing)

lemma topo_loop_inv:
  "kahn_inv (set (ids ms)) (deps_of ms) (deg_of deg) ready acc \<Longrightarrow>
     \<exists>deg'. kahn_inv (set (ids ms)) (deps_of ms) (deg_of deg') [] (topo_loop (outgoing ms) deg ready acc)"
proof (induction "outgoing ms" deg ready acc rule: topo_loop.induct)
  case (1 deg ready acc)
  show ?case
  proof (cases "ready = []")
    case True
    with 1 show ?thesis by (subst topo_loop.simps) auto
  next
    case False
    let ?n = "min_list ready"
    obtain deg' ready' where r: "relax (outgoing ms ?n) deg (remove1 ?n ready) = (deg', ready')"
      by (rule prod.exhaust)
    have n: "?n \<in> set ready" by (rule min_list_in[OF False])
    then have nn: "?n \<in> set (ids ms)" "?n \<notin> set acc" and dr: "distinct ready" and "1": "distinct (acc @ ready)"
      using "1.prems" by (auto simp: kahn_inv_def)
    note le = module_graph.out_le_deg[OF "1.prems" nn]
    from relax_spec[OF r le] obtain zs where deg': "\<And>k. deg_of deg' k = deg_of deg k - int (count_list (outgoing ms ?n) k)"
      and zs: "ready' = remove1 ?n ready @ zs" "distinct zs"
        "set zs = {k \<in> set (outgoing ms ?n). deg_of deg k = int (count_list (outgoing ms ?n) k)}" by blast
    have new: "k \<notin> set ready" if "k \<in> set zs" for k
      using that module_graph.fresh[OF "1.prems" n] by (auto simp: zs(3))
    have "set ready' = (set ready - {?n}) \<union> set zs" "distinct ready'"
      using zs(1,2) dr new by (auto dest: notin_set_remove1)
    then have "kahn_inv (set (ids ms)) (deps_of ms) (deg_of deg') ready' (acc @ [?n])"
      by (rule module_graph.step[OF "1.prems" n deg' zs(3)])
    from "1.hyps"[OF False refl r[symmetric] refl this] show ?thesis
      by (subst topo_loop.simps) (simp add: False r)
  qed
qed

section \<open>Correctness\<close>

lemma AList_update_new: "k \<notin> set (keys d) \<Longrightarrow> AList.update k v d = d @ [(k, v)]"
  by (induction d) auto

lemma indegrees_eq:
  "distinct (ids ms) \<Longrightarrow> indegrees ms = map (\<lambda>m. (m_module_id m, int (length (m_depends_on m)))) ms"
proof -
  have "distinct (ids ms) \<Longrightarrow> set (keys d) \<inter> set (ids ms) = {} \<Longrightarrow>
    fold (\<lambda>m d. AList.update (m_module_id m) (int (length (m_depends_on m))) d) ms d =
    d @ map (\<lambda>m. (m_module_id m, int (length (m_depends_on m)))) ms" for d
    by (induction ms arbitrary: d) (auto simp: ids_def AList_update_new)
  from this[of "[]"] show "distinct (ids ms) \<Longrightarrow> ?thesis" by (simp add: indegrees_def)
qed

lemma kahn_initial:
  assumes d: "distinct (ids ms)"
  shows "kahn_inv (set (ids ms)) (deps_of ms) (deg_of (indegrees ms))
    (map fst (filter (\<lambda>(k, v). v = 0) (indegrees ms))) []"
proof (rule module_graph.initial)
  have ready: "map fst (filter (\<lambda>(k, v). v = 0) (indegrees ms)) = ids (filter (\<lambda>m. m_depends_on m = []) ms)"
    unfolding indegrees_eq[OF d] by (simp add: filter_map comp_def ids_def)
  show "distinct (map fst (filter (\<lambda>(k, v). v = 0) (indegrees ms)))"
    unfolding ready using d by (simp add: ids_def distinct_map_filter)
  show "set (map fst (filter (\<lambda>(k, v). v = 0) (indegrees ms))) = {k \<in> set (ids ms). deps_of ms k = []}"
    unfolding ready using deps_of_member[OF d] by (auto simp: ids_def)
  fix k
  show "deg_of (indegrees ms) k = (if k \<in> set (ids ms) then int (length (deps_of ms k)) else 0)"
  proof (cases "k \<in> set (ids ms)")
    case True
    then obtain m where m: "m \<in> set ms" "m_module_id m = k" by (auto simp: ids_def)
    have "map_of (indegrees ms) (m_module_id m) = Some (int (length (m_depends_on m)))"
      unfolding indegrees_eq[OF d] using m(1) d by (intro map_of_is_SomeI) (auto simp: ids_def comp_def)
    then show ?thesis using True m deps_of_member[OF d m(1)] by (simp add: deg_of_def)
  next
    case False
    have "map_of (indegrees ms) k = None"
      using False unfolding indegrees_eq[OF d] map_of_eq_None_iff by (auto simp: ids_def)
    then show ?thesis using False by (simp add: deg_of_def)
  qed
qed

lemma module_lookup_id:
  assumes "distinct (ids ms)" "m \<in> set ms"
  shows "module_lookup ms (m_module_id m) = Some m"
  unfolding module_lookup_def
  by (rule map_of_is_SomeI) (use assms in \<open>auto simp: ids_def comp_def rev_map[symmetric]\<close>)

definition dependency_relation :: "ProductionModule list \<Rightarrow> (string \<times> string) set" where
  "dependency_relation ms = {(m_module_id m, d) | m d. m \<in> set ms \<and> d \<in> set (m_depends_on m)}"

definition closed_modules :: "ProductionModule list \<Rightarrow> bool" where
  "closed_modules ms \<longleftrightarrow> (\<forall>m \<in> set ms. set (m_depends_on m) \<subseteq> set (ids ms))"

lemma dependency_relation_eq:
  "distinct (ids ms) \<Longrightarrow> dependency_relation ms = {(k, d). k \<in> set (ids ms) \<and> d \<in> set (deps_of ms k)}"
  by (auto simp: dependency_relation_def ids_def deps_of_def) metis

definition topo_result :: "ProductionModule list \<Rightarrow> string list" where
  "topo_result ms = topo_loop (outgoing ms) (indegrees ms) (map fst (filter (\<lambda>(k, v). v = 0) (indegrees ms))) []"

lemma topological_modules_eq:
  "topological_modules ms =
     (if \<not> closed_modules ms then Inl (KeyError ''dependency'')
      else if length (topo_result ms) \<noteq> length ms then Inl (WorkGraphError ''Production module graph contains a cycle.'')
      else Inr (map (\<lambda>k. the (module_lookup ms k)) (topo_result ms)))"
  by (auto simp: topological_modules_def topo_result_def Let_def closed_modules_def list_all_iff ids_def)

lemma topo_result_inv:
  "distinct (ids ms) \<Longrightarrow> \<exists>deg. kahn_inv (set (ids ms)) (deps_of ms) deg [] (topo_result ms)"
  unfolding topo_result_def using topo_loop_inv[OF kahn_initial] by blast

lemma topo_result_full:
  assumes "distinct (ids ms)" "length (topo_result ms) = length ms"
  shows "distinct (topo_result ms) \<and> set (topo_result ms) = set (ids ms) \<and> deps_before (deps_of ms) (topo_result ms)"
proof -
  from topo_result_inv[OF assms(1)] have *: "distinct (topo_result ms)" "set (topo_result ms) \<subseteq> set (ids ms)"
    "deps_before (deps_of ms) (topo_result ms)" by (auto simp: kahn_inv_def)
  have "card (set (topo_result ms)) = card (set (ids ms))"
    using distinct_card[OF *(1)] distinct_card[OF assms(1)] assms(2) by (simp add: ids_def)
  with * show ?thesis by (simp add: card_subset_eq)
qed

lemma lookup_ids: "distinct (ids ms) \<Longrightarrow> set ks \<subseteq> set (ids ms) \<Longrightarrow> ids (map (\<lambda>k. the (module_lookup ms k)) ks) = ks"
  using module_lookup_id[of ms] by (force simp: ids_def intro: map_idI)

lemma topological_modules_Inr:
  assumes d: "distinct (ids ms)" and r: "topological_modules ms = Inr os"
  shows "ids os = topo_result ms" and "set os = set ms" and "length (topo_result ms) = length ms"
proof -
  from r have len: "length (topo_result ms) = length ms" and os: "os = map (\<lambda>k. the (module_lookup ms k)) (topo_result ms)"
    by (auto simp: topological_modules_eq split: if_splits)
  note full = topo_result_full[OF d len]
  show "ids os = topo_result ms" unfolding os using lookup_ids[OF d] full by simp
  have "(\<lambda>k. the (module_lookup ms k)) ` set (ids ms) = set ms"
    using module_lookup_id[OF d] by (force simp: ids_def)
  then show "set os = set ms" unfolding os using full by simp
  show "length (topo_result ms) = length ms" by fact
qed

lemma topological_modules_spec:
  assumes "distinct (map m_module_id ms)" and "topological_modules ms = Inr os"
  shows "set os = set ms \<and> distinct (map m_module_id os) \<and>
    (\<forall>i < length os. set (m_depends_on (os ! i)) \<subseteq> m_module_id ` set (take i os))"
proof -
  have d: "distinct (ids ms)" using assms(1) by (simp add: ids_def)
  note r = topological_modules_Inr[OF d assms(2)]
  note full = topo_result_full[OF d r(3)]
  have "set (m_depends_on (os ! i)) \<subseteq> m_module_id ` set (take i os)" if i: "i < length os" for i
  proof -
    have "m_depends_on (os ! i) = deps_of ms (ids os ! i)"
      using deps_of_member[OF d] r(2) i nth_mem[OF i] by (simp add: ids_def)
    moreover have "set (deps_of ms (ids os ! i)) \<subseteq> set (take i (ids os))"
      using full i unfolding r(1)[symmetric] by (simp add: deps_before_def ids_def)
    ultimately show ?thesis by (simp add: ids_def take_map)
  qed
  with r full show ?thesis by (simp add: ids_def)
qed

text \<open>C25. \<open>_topological_modules\<close> returns a permutation of its modules in which every module comes after all
  modules it depends on.\<close>

theorem topological_modules_sound:
  assumes "distinct (map m_module_id ms)" and "topological_modules ms = Inr os"
  shows "set os = set ms \<and> distinct (map m_module_id os) \<and>
    (\<forall>i < length os. set (m_depends_on (os ! i)) \<subseteq> m_module_id ` set (take i os))"
  by (rule topological_modules_spec[OF assms])

text \<open>C26. \<open>_topological_modules\<close> succeeds exactly on acyclic graphs: with distinct identifiers and known
  dependencies it returns an order if and only if the dependency relation has no cycle, and raises the
  cycle error otherwise.\<close>

theorem topological_modules_iff_acyclic:
  assumes "distinct (map m_module_id ms)" and "closed_modules ms"
  shows "((\<exists>os. topological_modules ms = Inr os) \<longleftrightarrow> acyclic (dependency_relation ms)) \<and>
    (topological_modules ms = Inl (WorkGraphError ''Production module graph contains a cycle.'') \<longleftrightarrow>
       \<not> acyclic (dependency_relation ms))"
proof -
  have d: "distinct (ids ms)" using assms(1) by (simp add: ids_def)
  have res: "topological_modules ms = (if length (topo_result ms) = length ms
      then Inr (map (\<lambda>k. the (module_lookup ms k)) (topo_result ms))
      else Inl (WorkGraphError ''Production module graph contains a cycle.''))"
    using assms(2) by (simp add: topological_modules_eq)
  have "length (topo_result ms) = length ms \<longleftrightarrow> acyclic (dependency_relation ms)"
  proof
    assume "length (topo_result ms) = length ms"
    from topo_result_full[OF d this] show "acyclic (dependency_relation ms)"
      unfolding dependency_relation_eq[OF d] by (intro deps_before_acyclic[of "topo_result ms"]) auto
  next
    assume ac: "acyclic (dependency_relation ms)"
    obtain deg where inv: "kahn_inv (set (ids ms)) (deps_of ms) deg [] (topo_result ms)" using topo_result_inv[OF d] by blast
    have "set (topo_result ms) = set (ids ms)"
      using module_graph.acyclic_complete[OF inv] ac assms(2)
      unfolding dependency_relation_eq[OF d] by (fastforce simp: closed_modules_def deps_of_def)
    moreover have "distinct (topo_result ms)" using inv by (simp add: kahn_inv_def)
    ultimately show "length (topo_result ms) = length ms" using d by (metis distinct_card ids_def length_map)
  qed
  then show ?thesis using res by auto
qed

definition sample_module :: "string \<Rightarrow> string \<Rightarrow> string list \<Rightarrow> ProductionModule" where
  "sample_module i k deps = \<lparr>m_module_id = i, m_kind = k, m_config = [], m_depends_on = deps, m_required_gates = []\<rparr>"

definition sample_modules :: "ProductionModule list" where
  "sample_modules = [sample_module ''c'' ''item'' [''b'', ''a''], sample_module ''a'' ''block'' [], sample_module ''b'' ''item'' [''a'']]"

theorem topological_modules_sound_witness:
  "\<exists>os. topological_modules sample_modules = Inr os \<and> set os = set sample_modules \<and> map m_module_id os = [''a'', ''b'', ''c'']"
proof -
  have "(case topological_modules sample_modules of Inr os \<Rightarrow> map m_module_id os | _ \<Rightarrow> []) = [''a'', ''b'', ''c'']" by code_simp
  then obtain os where os: "topological_modules sample_modules = Inr os" "map m_module_id os = [''a'', ''b'', ''c'']"
    by (auto split: sum.splits)
  have "distinct (map m_module_id sample_modules)" by code_simp
  from topological_modules_sound[OF this os(1)] os show ?thesis by (intro exI[of _ os]) simp
qed

theorem topological_modules_iff_acyclic_witness:
  "\<not> acyclic (dependency_relation [sample_module ''a'' ''item'' [''a'']])"
proof -
  have "topological_modules [sample_module ''a'' ''item'' [''a'']] =
      Inl (WorkGraphError ''Production module graph contains a cycle.'')" by code_simp
  moreover have "closed_modules [sample_module ''a'' ''item'' [''a'']]"
    by (simp add: closed_modules_def ids_def sample_module_def)
  ultimately show ?thesis using topological_modules_iff_acyclic[of "[sample_module ''a'' ''item'' [''a'']]"] by simp
qed

end
