(* ===== verification/Artifact_Job.thy ===== *)
theory Artifact_Job
  imports Artifact_Ports Module_Order "HOL-Library.Multiset"
begin

text \<open>
  Artifact jobs (\<^verbatim>\<open>artifact_job.py\<close>): the serialized representation of a leaf generation unit, its owners,
  the derived Fabric entrypoints, and \<open>validate_artifact_job_graph\<close>, which checks every job and runs Kahn's
  algorithm over the ports jobs produce and require. \<open>spec_input\<close> is \<open>canonical_specification_input\<close> of
  \<^verbatim>\<open>task_template_catalog.py\<close>, which reads the template files.
\<close>

section \<open>Jobs\<close>

datatype ExecutorType = TEMPLATE | PYTHON_GENERATOR | MODEL | DETERMINISTIC

fun executor_value :: "ExecutorType \<Rightarrow> string" where
  "executor_value TEMPLATE = ''template''"
| "executor_value PYTHON_GENERATOR = ''python_generator''"
| "executor_value MODEL = ''model''"
| "executor_value DETERMINISTIC = ''deterministic''"

definition executor_of :: "pyval \<Rightarrow> ExecutorType result" where
  "executor_of v = (case find (\<lambda>e. PStr (executor_value e) = v) [TEMPLATE, PYTHON_GENERATOR, MODEL, DETERMINISTIC] of
     Some e \<Rightarrow> Inr e | None \<Rightarrow> Inl (ValueError ''is not a valid ExecutorType''))"

record ArtifactJob =
  aj_job_id :: string
  aj_template_id :: string
  aj_owner_module :: string
  aj_executor_type :: ExecutorType
  aj_target_path :: string
  aj_anchor :: string
  aj_operation :: string
  aj_expected_sha256 :: "string option"
  aj_requires :: "string list"
  aj_produces :: "string list"
  aj_required_ports :: "pydict list"
  aj_ai_slots :: "pydict list"
  aj_deterministic_inputs :: pydict
  aj_status :: string
  aj_validation_receipts :: "pydict list"
  aj_rendered_output :: string
  aj_context_id :: string
  aj_canonical_leaf :: string
  aj_implementation_id :: string

definition to_dict_job :: "ArtifactJob \<Rightarrow> pydict" where
  "to_dict_job j = [
     (''job_id'', PStr (aj_job_id j)),
     (''template_id'', PStr (aj_template_id j)),
     (''owner_module'', PStr (aj_owner_module j)),
     (''executor_type'', PStr (executor_value (aj_executor_type j))),
     (''target_path'', PStr (aj_target_path j)),
     (''anchor'', PStr (aj_anchor j)),
     (''operation'', PStr (aj_operation j)),
     (''expected_sha256'', case aj_expected_sha256 j of None \<Rightarrow> PNone | Some s \<Rightarrow> PStr s),
     (''requires'', PList (map PStr (aj_requires j))),
     (''produces'', PList (map PStr (aj_produces j))),
     (''required_ports'', PList (map PDict (aj_required_ports j))),
     (''ai_slots'', PList (map PDict (aj_ai_slots j))),
     (''deterministic_inputs'', PDict (aj_deterministic_inputs j)),
     (''status'', PStr (aj_status j)),
     (''validation_receipts'', PList (map PDict (aj_validation_receipts j))),
     (''rendered_output'', PStr (aj_rendered_output j)),
     (''context_id'', PStr (aj_context_id j)),
     (''canonical_leaf'', PStr (aj_canonical_leaf j)),
     (''implementation_id'', PStr (aj_implementation_id j))]"

section \<open>Parsing\<close>

definition string_field :: "pydict \<Rightarrow> string \<Rightarrow> string result" where
  "string_field d k = (case dget d k of PStr s \<Rightarrow> Inr s | _ \<Rightarrow> Inl (ValueError ''ARTIFACT_JOB_STRING_REQUIRED''))"

definition string_list_field :: "pydict \<Rightarrow> string \<Rightarrow> string list result" where
  "string_list_field d k = (case dget d k of
     PList xs \<Rightarrow> mapM (\<lambda>x. case x of PStr s \<Rightarrow> Inr s | _ \<Rightarrow> Inl (ValueError ''ARTIFACT_JOB_STRING_ARRAY_REQUIRED'')) xs
   | _ \<Rightarrow> Inl (ValueError ''ARTIFACT_JOB_ARRAY_REQUIRED''))"

definition objects_field :: "pydict \<Rightarrow> string \<Rightarrow> string \<Rightarrow> pydict list result" where
  "objects_field d k e = (case dget d k of
     PList xs \<Rightarrow> mapM (\<lambda>x. case x of PDict r \<Rightarrow> Inr r | _ \<Rightarrow> Inl (ValueError e)) xs
   | _ \<Rightarrow> Inl (ValueError e))"

definition job_fields :: "string list" where
  "job_fields = [''job_id'', ''template_id'', ''owner_module'', ''executor_type'', ''target_path'', ''anchor'',
     ''operation'', ''expected_sha256'', ''requires'', ''produces'', ''required_ports'', ''ai_slots'',
     ''deterministic_inputs'', ''status'', ''validation_receipts'', ''rendered_output'', ''context_id'',
     ''canonical_leaf'', ''implementation_id'']"

definition optional_string :: "pydict \<Rightarrow> string \<Rightarrow> string option result" where
  "optional_string d k = (case dget d k of PNone \<Rightarrow> Inr None | PStr s \<Rightarrow> Inr (Some s)
     | _ \<Rightarrow> Inl (ValueError ''ARTIFACT_JOB_EXPECTED_SHA_STRING_REQUIRED''))"

text \<open>The shape checks \<open>from_dict\<close> makes before it builds the job, in its order.\<close>

definition job_shape :: "pydict \<Rightarrow> unit result" where
  "job_shape d =
     rbind (require (set (keys d) = set job_fields) (ValueError ''ARTIFACT_JOB_FIELDS_INVALID'')) (\<lambda>_.
     rbind (require (is_list (dget d ''requires'')) (ValueError ''ARTIFACT_JOB_REQUIRES_ARRAY_REQUIRED'')) (\<lambda>_.
     rbind (require (is_list (dget d ''produces'')) (ValueError ''ARTIFACT_JOB_PRODUCES_ARRAY_REQUIRED'')) (\<lambda>_.
     rbind (require (is_list (dget d ''required_ports'')) (ValueError ''ARTIFACT_JOB_REQUIRED_PORTS_ARRAY_REQUIRED'')) (\<lambda>_.
     rbind (require (is_list (dget d ''ai_slots'')) (ValueError ''ARTIFACT_JOB_AI_SLOTS_ARRAY_REQUIRED'')) (\<lambda>_.
     rbind (require (is_mapping (dget d ''deterministic_inputs'')) (ValueError ''ARTIFACT_JOB_INPUTS_OBJECT_REQUIRED'')) (\<lambda>_.
     rbind (require (is_list (dget d ''validation_receipts'')) (ValueError ''ARTIFACT_JOB_RECEIPTS_ARRAY_REQUIRED'')) (\<lambda>_.
     Inr ())))))))"

definition from_dict_job :: "pydict \<Rightarrow> ArtifactJob result" where
  "from_dict_job d =
     rbind (job_shape d) (\<lambda>_.
     rbind (optional_string d ''expected_sha256'') (\<lambda>expected.
     rbind (objects_field d ''required_ports'' ''ARTIFACT_JOB_REQUIRED_PORT_OBJECT_REQUIRED'') (\<lambda>ports.
     rbind (objects_field d ''ai_slots'' ''ARTIFACT_JOB_AI_SLOT_OBJECT_REQUIRED'') (\<lambda>slots.
     rbind (objects_field d ''validation_receipts'' ''ARTIFACT_JOB_RECEIPT_OBJECT_REQUIRED'') (\<lambda>receipts.
     rbind (string_field d ''job_id'') (\<lambda>job_id.
     rbind (string_field d ''template_id'') (\<lambda>template_id.
     rbind (string_field d ''owner_module'') (\<lambda>owner.
     rbind (executor_of (dget d ''executor_type'')) (\<lambda>executor.
     rbind (string_field d ''target_path'') (\<lambda>target.
     rbind (string_field d ''anchor'') (\<lambda>anchor.
     rbind (string_field d ''operation'') (\<lambda>operation.
     rbind (string_list_field d ''requires'') (\<lambda>reqs.
     rbind (string_list_field d ''produces'') (\<lambda>prods.
     rbind (string_field d ''status'') (\<lambda>status.
     rbind (string_field d ''rendered_output'') (\<lambda>rendered.
     rbind (string_field d ''context_id'') (\<lambda>ctx.
     rbind (string_field d ''canonical_leaf'') (\<lambda>leaf.
     rbind (string_field d ''implementation_id'') (\<lambda>impl.
     Inr \<lparr>aj_job_id = job_id, aj_template_id = template_id, aj_owner_module = owner, aj_executor_type = executor,
       aj_target_path = target, aj_anchor = anchor, aj_operation = operation, aj_expected_sha256 = expected,
       aj_requires = reqs, aj_produces = prods, aj_required_ports = ports, aj_ai_slots = slots,
       aj_deterministic_inputs = (case dget d ''deterministic_inputs'' of PDict i \<Rightarrow> i | _ \<Rightarrow> []),
       aj_status = status, aj_validation_receipts = receipts, aj_rendered_output = rendered, aj_context_id = ctx,
       aj_canonical_leaf = leaf, aj_implementation_id = impl\<rparr>)))))))))))))))))))"

definition parse_artifact_jobs :: "pyval list \<Rightarrow> ArtifactJob list result" where
  "parse_artifact_jobs raw_jobs =
     mapM (\<lambda>raw. case raw of PDict d \<Rightarrow> from_dict_job d | _ \<Rightarrow> Inl (ValueError ''ARTIFACT_JOB_OBJECT_REQUIRED'')) raw_jobs"

section \<open>Owners and entrypoints\<close>

definition artifact_owner_module_ids :: "ArtifactJob list \<Rightarrow> string list" where
  "artifact_owner_module_ids jobs = remdups (filter (\<lambda>s. s \<noteq> []) (map (\<lambda>j. strip (aj_owner_module j)) jobs))"

definition main_entrypoint :: "(string \<Rightarrow> pyval \<Rightarrow> pydict result) \<Rightarrow> ArtifactJob \<Rightarrow> string list result" where
  "main_entrypoint spec_input j =
     (if aj_executor_type j \<noteq> PYTHON_GENERATOR \<or> aj_canonical_leaf j \<noteq> ''minecraft/event/callback'' then Inr []
      else
        (let inputs = (if has_key (aj_deterministic_inputs j) ''_canonical_inputs''
                       then dget (aj_deterministic_inputs j) ''_canonical_inputs'' else PDict [])
         in rbind (spec_input (aj_canonical_leaf j) inputs) (\<lambda>spec.
            (case (if has_key spec ''bindings'' then dget spec ''bindings'' else PDict []) of
               PDict b \<Rightarrow>
                 (let fqcn = dget b ''request_feature_entrypoint'' in
                  if \<not> truthy fqcn then Inr []
                  else (let text = (\<lambda>k. if has_key b k then py_str (dget b k) else []) in
                    if fqcn \<noteq> PStr (text ''package_name'' @ ''.'' @ text ''class_name'') \<or> dget spec ''side'' \<noteq> PStr ''COMMON''
                      then Inl (ValueError ''REQUEST_FEATURE_ENTRYPOINT_CONTRACT_MISMATCH'')
                    else Inr [text ''package_name'' @ ''.'' @ text ''class_name'']))
             | _ \<Rightarrow> Inl (AttributeError ''get'')))))"

definition canonical_main_entrypoints :: "(string \<Rightarrow> pyval \<Rightarrow> pydict result) \<Rightarrow> ArtifactJob list \<Rightarrow> string list result" where
  "canonical_main_entrypoints spec_input jobs =
     rbind (mapM (main_entrypoint spec_input) jobs) (\<lambda>es. Inr (sorted_set (concat es)))"

definition client_entrypoint :: "(string \<Rightarrow> pyval \<Rightarrow> pydict result) \<Rightarrow> ArtifactJob \<Rightarrow> string list result" where
  "client_entrypoint spec_input j =
     (let inputs = dget (aj_deterministic_inputs j) ''_canonical_inputs'' in
      if aj_executor_type j \<noteq> PYTHON_GENERATOR \<or> \<not> is_mapping inputs then Inr []
      else rbind (spec_input (aj_canonical_leaf j) inputs) (\<lambda>spec.
        if upper (strip (str_or_empty (dget spec ''side''))) \<noteq> ''CLIENT'' then Inr []
        else (case dget spec ''bindings'' of
          PDict b \<Rightarrow>
            (let package_name = strip (str_or_empty (dget b ''package_name''));
                 class_name = strip (str_or_empty (dget b ''class_name''))
             in if package_name = [] \<or> class_name = [] then Inl (ValueError ''CANONICAL_CLIENT_ENTRYPOINT_CLASS_REQUIRED'')
                else Inr [package_name @ ''.'' @ class_name])
        | _ \<Rightarrow> Inl (ValueError ''CANONICAL_CLIENT_ENTRYPOINT_BINDINGS_REQUIRED''))))"

definition canonical_client_entrypoints :: "(string \<Rightarrow> pyval \<Rightarrow> pydict result) \<Rightarrow> ArtifactJob list \<Rightarrow> string list result" where
  "canonical_client_entrypoints spec_input jobs =
     rbind (mapM (client_entrypoint spec_input) jobs) (\<lambda>es. Inr (sorted_set (concat es)))"

section \<open>Checks of one job\<close>

definition executor_check :: "ArtifactJob \<Rightarrow> unit result" where
  "executor_check j = (case aj_executor_type j of
     TEMPLATE \<Rightarrow>
       if strip (aj_template_id j) = [] then Inl (ValueError ''ARTIFACT_JOB_TEMPLATE_REQUIRED'')
       else if strip (aj_target_path j) = [] \<or> strip (aj_operation j) = [] then Inl (ValueError ''ARTIFACT_JOB_TARGET_REQUIRED'')
       else Inr ()
   | PYTHON_GENERATOR \<Rightarrow>
       if strip (aj_template_id j) \<noteq> [] then Inl (ValueError ''ARTIFACT_GENERATOR_TEMPLATE_FORBIDDEN'')
       else if \<not> startswith (aj_implementation_id j) ''python_generator:'' then Inl (ValueError ''ARTIFACT_GENERATOR_IMPLEMENTATION_INVALID'')
       else Inr ()
   | _ \<Rightarrow> Inr ())"

definition required_port_check :: "string list \<Rightarrow> string list \<Rightarrow> pydict \<Rightarrow> string list result" where
  "required_port_check reqs names port =
     (if set (keys port) \<noteq> {''name'', ''kind'', ''target_type''} then Inl (ValueError ''ARTIFACT_JOB_REQUIRED_PORT_FIELDS'')
      else (let name = strip (str_or_empty (dget port ''name'')); kind = strip (str_or_empty (dget port ''kind''));
                target = strip (str_or_empty (dget port ''target_type''))
            in if name = [] \<or> kind = [] \<or> target = [] then Inl (ValueError ''ARTIFACT_JOB_REQUIRED_PORT_EMPTY'')
               else if isl (port_kind_of kind) then Inl (ValueError ''ARTIFACT_JOB_REQUIRED_PORT_KIND'')
               else if name \<notin> set reqs then Inl (ValueError ''ARTIFACT_JOB_REQUIRED_PORT_NOT_REQUIRED'')
               else if name \<in> set names then Inl (ValueError ''ARTIFACT_JOB_REQUIRED_PORT_DUPLICATE'')
               else Inr (name # names)))"

definition ports_check :: "ArtifactJob \<Rightarrow> unit result" where
  "ports_check j =
     (let reqs = map strip (aj_requires j); prods = map strip (aj_produces j)
      in if list_ex (\<lambda>v. v = []) (reqs @ prods) then Inl (ValueError ''ARTIFACT_JOB_PORT_EMPTY'')
         else if \<not> distinct reqs then Inl (ValueError ''ARTIFACT_JOB_REQUIRE_DUPLICATE'')
         else if \<not> distinct prods then Inl (ValueError ''ARTIFACT_JOB_PRODUCE_DUPLICATE'')
         else if list_ex (\<lambda>v. v \<in> set prods) reqs then Inl (ValueError ''ARTIFACT_JOB_SELF_DEPENDENCY'')
         else rbind (foldM (required_port_check reqs) [] (aj_required_ports j)) (\<lambda>_. Inr ()))"

type_synonym producers = "(string \<times> string) list"

definition produce :: "string \<Rightarrow> producers \<Rightarrow> string \<Rightarrow> producers result" where
  "produce job_id ps port = (case map_of ps port of
     Some prior \<Rightarrow> if prior \<noteq> job_id then Inl (ValueError ''ARTIFACT_DUPLICATE_PRODUCER'') else Inr (AList.update port job_id ps)
   | None \<Rightarrow> Inr (AList.update port job_id ps))"

text \<open>One turn of the loop over the jobs: the identifiers seen and the producer of every port so far.\<close>

definition job_step :: "string list \<Rightarrow> string list \<times> producers \<Rightarrow> ArtifactJob \<Rightarrow> (string list \<times> producers) result" where
  "job_step allowed st j = (case st of (seen, ps) \<Rightarrow>
     (let job_id = strip (aj_job_id j); owner = strip (aj_owner_module j)
      in if job_id = [] then Inl (ValueError ''ARTIFACT_JOB_ID_REQUIRED'')
         else if owner = [] then Inl (ValueError ''ARTIFACT_JOB_OWNER_REQUIRED'')
         else if strip (aj_context_id j) = [] then Inl (ValueError ''ARTIFACT_JOB_CONTEXT_REQUIRED'')
         else if strip (aj_canonical_leaf j) = [] then Inl (ValueError ''ARTIFACT_JOB_CANONICAL_LEAF_REQUIRED'')
         else if strip (aj_implementation_id j) = [] then Inl (ValueError ''ARTIFACT_JOB_IMPLEMENTATION_REQUIRED'')
         else rbind (executor_check j) (\<lambda>_.
           if allowed \<noteq> [] \<and> owner \<notin> set allowed then Inl (ValueError ''ARTIFACT_JOB_FOREIGN_OWNER'')
           else if job_id \<in> set seen then Inl (ValueError ''ARTIFACT_DUPLICATE_JOB_ID'')
           else rbind (ports_check j) (\<lambda>_.
             rbind (foldM (produce job_id) ps (map strip (aj_produces j))) (\<lambda>ps'. Inr (job_id # seen, ps'))))))"

section \<open>The graph\<close>

definition job_ids :: "ArtifactJob list \<Rightarrow> string list" where
  "job_ids jobs = map aj_job_id jobs"

text \<open>The dictionary \<open>dependencies\<close>: the producers of the ports a job requires. Every required port has a
  producer when it is built.\<close>

definition job_dependencies :: "producers \<Rightarrow> ArtifactJob \<Rightarrow> string list" where
  "job_dependencies ps j = sorted_set (map (\<lambda>port. the (map_of ps port)) (aj_requires j))"

definition dependency_table :: "producers \<Rightarrow> ArtifactJob list \<Rightarrow> (string \<times> string list) list" where
  "dependency_table ps jobs = fold (\<lambda>j t. AList.update (aj_job_id j) (job_dependencies ps j) t) jobs []"

definition dependents :: "(string \<times> string list) list \<Rightarrow> string \<Rightarrow> string list" where
  "dependents table n = sorted_set (map fst (filter (\<lambda>(k, ds). n \<in> set ds) table))"

text \<open>The inner loop, which keeps the ready list sorted.\<close>

fun settle :: "string list \<Rightarrow> (string \<times> int) list \<Rightarrow> string list \<Rightarrow> (string \<times> int) list \<times> string list" where
  "settle [] deg ready = (deg, ready)"
| "settle (d # ds) deg ready =
     (let v = deg_of deg d - 1
      in settle ds (AList.update d v deg) (if v = 0 then sort (ready @ [d]) else ready))"

lemma relax_append: "relax ds deg ready = (fst (relax ds deg []), ready @ snd (relax ds deg []))"
proof (induction ds arbitrary: deg ready)
  case (Cons d ds)
  let ?deg = "AList.update d (deg_of deg d - 1) deg" and ?new = "if deg_of deg d - 1 = 0 then [d] else []"
  have *: "relax (d # ds) deg xs = relax ds ?deg (xs @ ?new)" for xs by (simp add: Let_def)
  show ?case unfolding * by (subst (1 2 3) Cons.IH) simp
qed simp

lemma settle_relax: "sorted ready \<Longrightarrow> settle ds deg ready = (fst (relax ds deg ready), sort (snd (relax ds deg ready)))"
proof (induction ds deg ready rule: settle.induct)
  case (1 deg ready)
  then show ?case by (simp add: sorted_sort_id)
next
  case (2 d ds deg ready)
  let ?deg = "AList.update d (deg_of deg d - 1) deg" and ?new = "if deg_of deg d - 1 = 0 then ready @ [d] else ready"
  have "settle (d # ds) deg ready = settle ds ?deg (sort ?new)"
    using "2.prems" by (simp add: Let_def sorted_sort_id)
  also have "\<dots> = (fst (relax ds ?deg (sort ?new)), sort (snd (relax ds ?deg (sort ?new))))"
    using "2.IH"[OF refl] "2.prems" by (cases "deg_of deg d - 1 = 0") (simp_all add: sorted_sort_id)
  also have "\<dots> = (fst (relax ds ?deg ?new), sort (snd (relax ds ?deg ?new)))"
    unfolding relax_append[of ds ?deg "sort ?new"] relax_append[of ds ?deg ?new] fst_conv snd_conv
    by (intro arg_cong2[where f = Pair] refl properties_for_sort) (simp_all add: mset_sort)
  finally show ?case by (simp add: Let_def)
qed

lemma settle_measure:
  assumes "settle ds deg ready = (deg', ready')"
  shows "pending_count deg' + length ready' \<le> pending_count deg + length ready"
  using assms
proof (induction ds deg ready rule: settle.induct)
  case (2 d ds deg ready)
  have "pending_count deg' + length ready' \<le> pending_count (AList.update d (deg_of deg d - 1) deg)
      + length (if deg_of deg d - 1 = 0 then sort (ready @ [d]) else ready)"
    using "2.IH"[OF refl] "2.prems" by (simp add: Let_def)
  with pending_count_update[of d deg] show ?case by (auto split: if_splits)
qed simp

function job_loop :: "(string \<Rightarrow> string list) \<Rightarrow> (string \<times> int) list \<Rightarrow> string list \<Rightarrow> nat \<Rightarrow> nat" where
  "job_loop out deg ready emitted = (case ready of
     [] \<Rightarrow> emitted
   | n # rest \<Rightarrow> (let (deg', ready') = settle (out n) deg rest in job_loop out deg' ready' (Suc emitted)))"
  by pat_completeness auto
termination
  by (relation "measure (\<lambda>(out, deg, ready, emitted). pending_count deg + length ready)")
    (auto dest!: settle_measure[OF sym])

declare job_loop.simps [simp del]

definition validate_artifact_job_graph :: "ArtifactJob list \<Rightarrow> string list \<Rightarrow> ArtifactJob list result" where
  "validate_artifact_job_graph jobs module_ids =
     (let allowed = filter (\<lambda>s. s \<noteq> []) (map strip module_ids)
      in rbind (foldM (job_step allowed) ([], []) jobs) (\<lambda>(_, ps).
         if list_ex (\<lambda>j. list_ex (\<lambda>port. map_of ps port = None) (aj_requires j)) jobs
           then Inl (ValueError ''ARTIFACT_GRAPH_MISSING_PRODUCER'')
         else (let table = dependency_table ps jobs in
           if list_ex (\<lambda>(_, ds). list_ex (\<lambda>d. d \<notin> set (keys table)) ds) table then Inl (KeyError ''job_id'')
           else (let deg = map (\<lambda>(k, ds). (k, int (length ds))) table;
                     ready = sort (map fst (filter (\<lambda>(_, v). v = 0) deg))
                 in if job_loop (dependents table) deg ready 0 \<noteq> length jobs then Inl (ValueError ''ARTIFACT_GRAPH_CYCLE'')
                    else Inr jobs))))"

end
