(* ===== verification/Complete_Spec.thy ===== *)
theory Complete_Spec
  imports Mod_Spec Artifact_Job Module_Order
begin

text \<open>
  The complete production proposal (\<^verbatim>\<open>complete_spec.py\<close>): modules, assets, game design and acceptance tests around a
  base proposal, their validation, the approval hash, and the conversions to and from dictionaries.
  \<open>complete_host\<close> holds the code called outside the model: the configuration checks of the two integrations
  (\<^verbatim>\<open>local_ai_sidecar_generator.py\<close>, \<^verbatim>\<open>research_ledger.py\<close>), the production contract (\<^verbatim>\<open>production_contract.py\<close>),
  the visual specification (\<^verbatim>\<open>resource_visual_spec.py\<close>), the version contexts (\<^verbatim>\<open>resolved_version_context.py\<close>, which
  checks JSON schemas) and \<open>Proposal.from_dict\<close>.
\<close>

section \<open>Data\<close>

record AssetRequest =
  ar_asset_id :: string
  ar_kind :: string
  ar_visual_description :: string
  ar_render_kind :: string
  ar_subject_id :: string
  ar_owner_module_id :: string
  ar_container :: string
  ar_requested_width :: "int option"
  ar_requested_height :: "int option"
  ar_variant_count :: int
  ar_visual_spec :: "pydict option"

record CompleteProposal =
  cp_schema_version :: string
  cp_proposal_version :: pyval
  cp_status :: ProposalStatus
  cp_requested_prompt :: string
  cp_base_proposal :: Proposal
  cp_game_design :: pydict
  cp_modules :: "ProductionModule list"
  cp_assets :: "AssetRequest list"
  cp_acceptance_tests :: "string list"
  cp_external_runtime_required :: bool
  cp_existing_input_sha256 :: string
  cp_approval_hash :: string

text \<open>The parameters. A check is true where the code accepts; \<open>ch_resolve\<close> gives the identifier and the dictionary
  of the context of a target, \<open>ch_stored\<close> the identifier of a stored context.\<close>

record complete_host =
  ch_spec :: spec_host
  ch_env :: "string \<Rightarrow> string option"
  ch_sidecar :: "pydict \<Rightarrow> bool"
  ch_research :: "pydict \<Rightarrow> string \<Rightarrow> bool"
  ch_contract :: "pydict \<Rightarrow> ProductionModule list \<Rightarrow> string list \<Rightarrow> AssetRequest list \<Rightarrow> pydict option \<Rightarrow> bool"
  ch_visual :: "pydict option \<Rightarrow> string \<Rightarrow> bool"
  ch_resolve :: "pydict \<Rightarrow> (string \<times> pydict) result"
  ch_stored :: "pydict \<Rightarrow> string result"
  ch_base_from_dict :: "pydict \<Rightarrow> Proposal result"

definition MODULE_KINDS :: "string list" where
  "MODULE_KINDS = EXTENDED_CONTENT_KINDS @ keys SYSTEM_KIND_TO_PACK @ ENTITY_PIPELINE_KINDS @ [''integration'', ''typed_host'']"

definition ASSET_KINDS :: "string list" where
  "ASSET_KINDS = [''item'', ''block'', ''entity'', ''gui'', ''environment'', ''icon'']"

definition SUPPORTED_RENDER_KINDS :: "string list" where
  "SUPPORTED_RENDER_KINDS = [''item.generated'', ''item.handheld'', ''item.block_model_reuse'', ''block.cube_all'', ''block.cube_column'',
     ''block.cube_bottom_top'', ''block.orientable'', ''block.cross'', ''block.crop'', ''entity.fixed_uv'', ''gui.sprite'']"

section \<open>Modules\<close>

text \<open>The mapping interface of a module.\<close>

definition module_getitem :: "ProductionModule \<Rightarrow> string \<Rightarrow> pyval result" where
  "module_getitem m key =
     (if key = ''plugin_id'' \<or> key = ''module_id'' then Inr (PStr (m_module_id m))
      else if key = ''kind'' then Inr (PStr (m_kind m))
      else if key = ''config'' then Inr (PDict (m_config m))
      else if key = ''depends_on'' then Inr (PList (map PStr (m_depends_on m)))
      else if key = ''required_gates'' then Inr (PList (map PStr (m_required_gates m)))
      else if has_key (m_config m) key then Inr (dget (m_config m) key)
      else if key = ''requirement_refs'' then Inr (PList [PStr (m_module_id m)])
      else if key = ''implementation_obligations'' then
        (let obligations = dget (m_config m) ''implementation_obligations'' in
         if truthy obligations then rbind (iter_strs obligations) (\<lambda>xs. Inr (PList (map PStr xs)))
         else Inr (PList [PStr (''Implement '' @ m_module_id m)]))
      else if key = ''status'' then Inr (PStr ''host_ready'')
      else if key = ''capability'' then Inr (PStr (m_kind m))
      else if key = ''reason'' then Inr (if has_key (m_config m) ''reason'' then dget (m_config m) ''reason'' else PStr [])
      else Inl (KeyError key))"

definition module_iter :: "ProductionModule \<Rightarrow> string list" where
  "module_iter m = foldl (\<lambda>seen k. if k \<in> set seen then seen else seen @ [k])
     [''module_id'', ''plugin_id'', ''kind'', ''config'', ''depends_on'', ''required_gates'', ''requirement_refs'',
      ''implementation_obligations'', ''status'', ''capability'', ''reason''] (keys (m_config m))"

text \<open>\<open>json.dumps(value, ensure_ascii=False, allow_nan=False)\<close> with the default separators; None where it raises.\<close>

function json_dumps :: "pyval \<Rightarrow> string option" where
  "json_dumps PNone = Some ''null''"
| "json_dumps (PBool b) = Some (if b then ''true'' else ''false'')"
| "json_dumps (PInt i) = (if digit_limit < length (show_nat (nat \<bar>i\<bar>)) then None else Some (show_int i))"
| "json_dumps (PFloat r) = (if is_finite_repr r then Some r else None)"
| "json_dumps (PStr s) = Some (json_string s)"
| "json_dumps (PList xs) = (let ts = map json_dumps xs in
     if None \<in> set ts then None else Some (''['' @ join '', '' (map the ts) @ '']''))"
| "json_dumps (PDict d) = (let ts = map (\<lambda>(k, v). map_option (\<lambda>t. json_string k @ '': '' @ t) (json_dumps v)) d in
     if None \<in> set ts then None else Some (''{'' @ join '', '' (map the ts) @ ''}''))"
  by pat_completeness auto
termination
  by (relation "measure size") (auto dest: size_mem_list_less size_dict_item_less)

definition is_integration :: "ProductionModule \<Rightarrow> string \<Rightarrow> bool" where
  "is_integration m t \<longleftrightarrow> m_kind m = ''integration'' \<and> dget (m_config m) ''integration_type'' = PStr t"

definition config_size_check :: "ScalePolicy \<Rightarrow> ProductionModule \<Rightarrow> unit result" where
  "config_size_check policy m = (case json_dumps (PDict (m_config m)) of
     None \<Rightarrow> Inl (SpecValidationError ''Module config is not finite JSON'')
   | Some t \<Rightarrow> guard (int (length (utf8 (u t))) > max_single_file_bytes policy) ''Module config exceeds the configured per-file resource policy'')"

definition validate_module :: "complete_host \<Rightarrow> ScalePolicy \<Rightarrow> ProductionModule \<Rightarrow> unit result" where
  "validate_module CH policy m =
     rbind (guard (\<not> SPEC_ID_match (m_module_id m)) ''Invalid production module id'') (\<lambda>_.
     rbind (guard (m_kind m \<notin> set MODULE_KINDS) ''Unsupported production module kind'') (\<lambda>_.
     (let typed = is_mapping (dget (m_config m) ''typed_plan_ir'') in
     rbind (guard (m_kind m = ''typed_host'' \<and> \<not> typed) ''TYPED_HOST_PLAN_REQUIRED'') (\<lambda>_.
     rbind (guard (m_kind m \<noteq> ''typed_host'' \<and> typed) ''TYPED_HOST_KIND_REQUIRED'') (\<lambda>_.
     rbind (guard (is_integration m LOCAL_AI_SIDECAR_INTEGRATION_TYPE \<and> \<not> ch_sidecar CH (m_config m)) ''Invalid reviewed local AI sidecar module'') (\<lambda>_.
     rbind (guard (is_integration m RESEARCH_SHARD_INTEGRATION_TYPE \<and> \<not> ch_research CH (m_config m) (m_module_id m)) ''Invalid reviewed research shard module'') (\<lambda>_.
     rbind (guard (dget (m_config m) ''implementation'' \<noteq> PNone) ''CUSTOM_JAVA_BACKEND_REMOVED'') (\<lambda>_.
     rbind (config_size_check policy m) (\<lambda>_.
     rbind (guard (\<not> list_all SPEC_ID_match (m_depends_on m)) ''Invalid dependency'') (\<lambda>_.
     rbind (guard (\<not> distinct (m_depends_on m)) ''Duplicate dependency'') (\<lambda>_.
     guard (list_ex (\<lambda>g. strip g = []) (m_required_gates m)) ''Invalid gate'')))))))))))"

section \<open>Assets\<close>

definition dimension_ok :: "ScalePolicy \<Rightarrow> int option \<Rightarrow> bool" where
  "dimension_ok policy v = (case v of None \<Rightarrow> True | Some n \<Rightarrow> 1 \<le> n \<and> n \<le> max_texture_dimension policy)"

definition validate_asset :: "complete_host \<Rightarrow> ScalePolicy \<Rightarrow> AssetRequest \<Rightarrow> unit result" where
  "validate_asset CH policy a =
     rbind (guard (\<not> SPEC_ID_match (ar_asset_id a)) ''Invalid asset id'') (\<lambda>_.
     rbind (guard (ar_kind a \<notin> set ASSET_KINDS) ''Unsupported asset kind'') (\<lambda>_.
     rbind (guard (ar_visual_description a = [] \<and> ar_visual_spec a = None) ''Asset visual description is empty'') (\<lambda>_.
     rbind (guard (\<not> ch_visual CH (ar_visual_spec a) (ar_visual_description a)) ''Invalid visual specification'') (\<lambda>_.
     rbind (guard (ar_render_kind a \<notin> set SUPPORTED_RENDER_KINDS) ''Unsupported asset render kind'') (\<lambda>_.
     rbind (guard (ar_subject_id a = []) ''Asset subject id is empty'') (\<lambda>_.
     rbind (guard (ar_container a \<noteq> ''mod'') ''STANDALONE_RESOURCE_PACK_GENERATION_REMOVED'') (\<lambda>_.
     rbind (guard (ar_owner_module_id a \<noteq> [] \<and> \<not> SPEC_ID_match (ar_owner_module_id a)) ''Invalid asset owner module'') (\<lambda>_.
     rbind (guard (ar_variant_count a < 1) ''Asset variant_count must be positive'') (\<lambda>_.
     rbind (guard ((ar_requested_width a = None) \<noteq> (ar_requested_height a = None)) ''Asset requested dimensions must be both supplied or both omitted'') (\<lambda>_.
     guard (\<not> list_all (dimension_ok policy) [ar_requested_width a, ar_requested_height a]) ''Asset dimension exceeds configured resource policy''))))))))))"

definition option_val :: "('a \<Rightarrow> pyval) \<Rightarrow> 'a option \<Rightarrow> pyval" where
  "option_val f v = (case v of None \<Rightarrow> PNone | Some x \<Rightarrow> f x)"

definition asdict_asset :: "AssetRequest \<Rightarrow> pydict" where
  "asdict_asset a = [(''asset_id'', PStr (ar_asset_id a)), (''kind'', PStr (ar_kind a)), (''visual_description'', PStr (ar_visual_description a)),
     (''render_kind'', PStr (ar_render_kind a)), (''subject_id'', PStr (ar_subject_id a)), (''owner_module_id'', PStr (ar_owner_module_id a)),
     (''container'', PStr (ar_container a)), (''requested_width'', option_val PInt (ar_requested_width a)),
     (''requested_height'', option_val PInt (ar_requested_height a)), (''variant_count'', PInt (ar_variant_count a)),
     (''visual_spec'', option_val PDict (ar_visual_spec a))]"

section \<open>Hash\<close>

definition module_dict :: "ProductionModule \<Rightarrow> pydict" where
  "module_dict m = [(''module_id'', PStr (m_module_id m)), (''kind'', PStr (m_kind m)), (''config'', PDict (m_config m)),
     (''depends_on'', PList (map PStr (m_depends_on m))), (''required_gates'', PList (map PStr (m_required_gates m)))]"

definition proposal_data :: "Proposal \<Rightarrow> jval" where
  "proposal_data p = jdata (AList.update ''status'' (JEnum (jstr (status_value (pp_status p))))
     (AList.update ''approval_hash'' (jstr (pp_approval_hash p)) (proposal_fields p)))"

definition complete_fields :: "CompleteProposal \<Rightarrow> (string \<times> jval) list" where
  "complete_fields p = [(''schema_version'', jstr (cp_schema_version p)), (''proposal_version'', py_json (cp_proposal_version p)),
     (''status'', jstr (status_value AWAITING_APPROVAL)), (''requested_prompt'', jstr (cp_requested_prompt p)),
     (''base_proposal'', proposal_data (cp_base_proposal p)), (''game_design'', py_json (PDict (cp_game_design p))),
     (''modules'', JList (map (\<lambda>m. dict_data (module_dict m)) (cp_modules p))),
     (''assets'', JList (map (\<lambda>a. dict_data (asdict_asset a)) (cp_assets p))), (''acceptance_tests'', jstrs (cp_acceptance_tests p)),
     (''external_runtime_required'', JBool (cp_external_runtime_required p)), (''existing_input_sha256'', jstr (cp_existing_input_sha256 p)),
     (''approval_hash'', jstr [])]"

definition complete_hash :: "complete_host \<Rightarrow> CompleteProposal \<Rightarrow> string result" where
  "complete_hash CH p = stream_result (canonical_json_sha256 (sh_sha (ch_spec CH)) (jobject (complete_fields p)))"

section \<open>Validation\<close>

definition assert_context :: "string \<Rightarrow> pyval \<Rightarrow> unit result" where
  "assert_context expected v = (if v \<noteq> PStr expected then Inl (ValueError ''VERSION_CONTEXT_MISMATCH'') else Inr ())"

text \<open>\<open>PlatformLock.version_context\<close>\<close>

definition version_context :: "complete_host \<Rightarrow> PlatformLock \<Rightarrow> (string \<times> pydict) result" where
  "version_context CH k =
     rbind (validate_lock (ch_spec CH) k) (\<lambda>_.
     rbind (target_contract_from_mapping (to_dict_lock k)) (ch_resolve CH))"

definition artifact_binding_keys :: "CompleteProposal \<Rightarrow> string list" where
  "artifact_binding_keys p = map (\<lambda>m. ''module:'' @ m_module_id m) (cp_modules p) @ map (\<lambda>a. ''asset:'' @ ar_asset_id a) (cp_assets p)"

definition binding_check :: "string \<Rightarrow> string list \<Rightarrow> pyval \<Rightarrow> unit result" where
  "binding_check context expected bindings = (case bindings of
     PNone \<Rightarrow> Inr ()
   | PDict b \<Rightarrow> if set (keys b) \<noteq> set expected then Inl (ValueError ''ARTIFACT_CONTEXT_BINDING_MISSING'')
       else rbind (mapM (assert_context context) (map snd b)) (\<lambda>_. Inr ())
   | _ \<Rightarrow> Inl (ValueError ''ARTIFACT_CONTEXT_BINDING_MISSING''))"

definition job_context_check :: "string \<Rightarrow> pyval \<Rightarrow> unit result" where
  "job_context_check context raw = (case raw of
     PDict d \<Rightarrow> assert_context context (dget d ''context_id'')
   | _ \<Rightarrow> Inl (ValueError ''ARTIFACT_CONTEXT_BINDING_MISSING''))"

text \<open>The elements the loop over \<open>game_design.get("_artifact_jobs", ())\<close> meets.\<close>

definition raw_jobs :: "pydict \<Rightarrow> pyval list result" where
  "raw_jobs gd = (if \<not> has_key gd ''_artifact_jobs'' then Inr []
     else (case dget gd ''_artifact_jobs'' of
         PList xs \<Rightarrow> Inr xs
       | PStr s \<Rightarrow> Inr (map (\<lambda>c. PStr [c]) s)
       | PDict d \<Rightarrow> Inr (map PStr (keys d))
       | _ \<Rightarrow> Inl (TypeError ''object is not iterable'')))"

definition context_checks :: "complete_host \<Rightarrow> CompleteProposal \<Rightarrow> unit result" where
  "context_checks CH p =
     (let lock = ms_platform (pp_spec (cp_base_proposal p)); gd = cp_game_design p in
      if pk_host_facts_json lock = [] then Inr ()
      else rbind (version_context CH lock) (\<lambda>(context, _).
        rbind (case dget gd ''_resolved_version_context'' of
                 PNone \<Rightarrow> Inr ()
               | PDict d \<Rightarrow> if d = [] then Inl (ValueError ''INVALID_VERSION_CONTEXT'')
                   else rbind (ch_stored CH d) (\<lambda>stored. assert_context context (PStr stored))
               | _ \<Rightarrow> Inl (ValueError ''INVALID_VERSION_CONTEXT'')) (\<lambda>_.
        rbind (binding_check context (artifact_binding_keys p) (dget gd ''_artifact_version_contexts'')) (\<lambda>_.
        rbind (raw_jobs gd) (\<lambda>jobs.
        rbind (mapM (job_context_check context) jobs) (\<lambda>_. Inr ()))))))"

definition design_json_check :: "pydict \<Rightarrow> unit result" where
  "design_json_check gd = (case validate_canonical_json (py_json (PDict gd)) of
     Inl (CanonicalJsonError _) \<Rightarrow> Inl (SpecValidationError ''game_design must contain finite JSON values.'')
   | r \<Rightarrow> stream_result r)"

definition host_fixture_only :: "pydict \<Rightarrow> bool" where
  "host_fixture_only gd \<longleftrightarrow> dget gd ''mode'' = PStr ''debug_fixture'' \<and>
     (case dget gd ''fixture'' of
        PDict f \<Rightarrow> dget f ''deterministic'' = PBool True \<and> is_mapping (dget f ''source_contract'')
      | _ \<Rightarrow> False)"

definition bootstrap_ids :: "ModSpec \<Rightarrow> string list" where
  "bootstrap_ids s = map cs_content_id (ms_contents s)
     @ (case ms_boss s of None \<Rightarrow> [] | Some b \<Rightarrow> [bs_entity_id b, spawn_egg_id b])"

definition module_step :: "complete_host \<Rightarrow> ScalePolicy \<Rightarrow> string list \<Rightarrow> ProductionModule \<Rightarrow> string list result" where
  "module_step CH policy seen m =
     rbind (validate_module CH policy m) (\<lambda>_.
     rbind (guard (m_module_id m \<in> set seen) ''Duplicate production module id'') (\<lambda>_. Inr (seen @ [m_module_id m])))"

definition dependency_check :: "string list \<Rightarrow> ProductionModule \<Rightarrow> unit result" where
  "dependency_check module_ids m =
     rbind (guard (\<not> set (m_depends_on m) \<subseteq> set module_ids) ''Module references unknown dependencies'') (\<lambda>_.
     guard (m_module_id m \<in> set (m_depends_on m)) ''Module may not depend on itself.'')"

text \<open>\<open>_validate_acyclic\<close> counts and records only the dependencies that are modules; then it runs the loop of
  \<open>_topological_modules\<close> and counts what it emits.\<close>

definition known_dependencies :: "ProductionModule list \<Rightarrow> ProductionModule list" where
  "known_dependencies ms = map (\<lambda>m. m\<lparr>m_depends_on := filter (\<lambda>d. d \<in> set (map m_module_id ms)) (m_depends_on m)\<rparr>) ms"

definition validate_acyclic :: "ProductionModule list \<Rightarrow> unit result" where
  "validate_acyclic ms =
     (let known = known_dependencies ms; deg = indegrees known;
          emitted = length (topo_loop (outgoing known) deg (map fst (filter (\<lambda>(k, v). v = 0) deg)) []) in
      guard (emitted \<noteq> length ms) ''Production module dependency cycle detected'')"

text \<open>Every \<open>KeyError\<close>, \<open>TypeError\<close> and \<open>ValueError\<close> becomes a validation error; a validation error stays.\<close>

definition as_spec_error :: "string \<Rightarrow> 'a result \<Rightarrow> 'a result" where
  "as_spec_error msg r = (case r of
     Inl (KeyError _) \<Rightarrow> Inl (SpecValidationError msg) | Inl (TypeError _) \<Rightarrow> Inl (SpecValidationError msg)
   | Inl (ValueError _) \<Rightarrow> Inl (SpecValidationError msg) | Inl (PortConnectionError _) \<Rightarrow> Inl (SpecValidationError msg)
   | _ \<Rightarrow> r)"

definition design_jobs :: "pydict \<Rightarrow> string list \<Rightarrow> ArtifactJob list result" where
  "design_jobs gd module_ids =
     (case (if has_key gd ''_artifact_jobs'' then dget gd ''_artifact_jobs'' else PList []) of
        PNone \<Rightarrow> as_spec_error ''Invalid canonical artifact job graph'' (validate_artifact_job_graph [] module_ids)
      | PList raw \<Rightarrow> as_spec_error ''Invalid canonical artifact job graph''
          (rbind (parse_artifact_jobs raw) (\<lambda>jobs. validate_artifact_job_graph jobs module_ids))
      | _ \<Rightarrow> Inl (SpecValidationError ''game_design._artifact_jobs must be an array when supplied.''))"

definition unsupported_native :: "pyval \<Rightarrow> string list \<Rightarrow> ProductionModule \<Rightarrow> bool result" where
  "unsupported_native available owners m =
     (if m_module_id m \<in> set owners then Inr False
      else rbind (missing_production_backend_capabilities available (m_kind m)) (\<lambda>missing. Inr (missing \<noteq> {})))"

definition routing_checks :: "CompleteProposal \<Rightarrow> string list \<Rightarrow> unit result" where
  "routing_checks p owners =
     rbind (guard (list_ex (\<lambda>m. m_module_id m \<notin> set owners \<and> \<not> native_production_route_available (m_kind m) (m_config m)) (cp_modules p))
       ''DETERMINISTIC_BACKEND_REQUIRED: production module has neither a native deterministic route nor an artifact owner'') (\<lambda>_.
     rbind (deterministic_backend_capabilities (to_dict_lock (ms_platform (pp_spec (cp_base_proposal p))))) (\<lambda>available.
     rbind (mapM (unsupported_native (PList (map PStr (sorted_list_of_set available))) owners) (cp_modules p)) (\<lambda>bad.
     guard (list_ex id bad) ''DETERMINISTIC_BACKEND_REQUIRED: approved target cannot execute native production modules'')))"

definition asset_check :: "complete_host \<Rightarrow> ScalePolicy \<Rightarrow> string list \<Rightarrow> string list \<Rightarrow> AssetRequest \<Rightarrow> string list result" where
  "asset_check CH policy module_ids seen a =
     rbind (validate_asset CH policy a) (\<lambda>_.
     rbind (guard (ar_asset_id a \<in> set seen) ''Duplicate asset id'') (\<lambda>_.
     rbind (guard (ar_owner_module_id a \<noteq> [] \<and> ar_owner_module_id a \<notin> set module_ids) ''Asset references unknown owner module'') (\<lambda>_.
     Inr (seen @ [ar_asset_id a]))))"

definition contract_check :: "complete_host \<Rightarrow> CompleteProposal \<Rightarrow> unit result" where
  "contract_check CH p =
     (if cp_schema_version p \<noteq> ''mmm/complete-proposal-v2'' then Inr ()
      else (case dget (cp_game_design p) ''_production_contract'' of
          PDict contract \<Rightarrow>
            guard (\<not> ch_contract CH contract (cp_modules p) (cp_acceptance_tests p) (cp_assets p)
              (case dget (cp_game_design p) ''_evidence_plan'' of PDict e \<Rightarrow> Some e | _ \<Rightarrow> None)) ''Invalid production contract''
        | _ \<Rightarrow> Inl (SpecValidationError ''Complete proposal v2 requires game_design._production_contract.'')))"

definition validate_complete :: "complete_host \<Rightarrow> ScalePolicy \<Rightarrow> CompleteProposal \<Rightarrow> unit result" where
  "validate_complete CH policy p =
     rbind (validate_policy policy) (\<lambda>_.
     rbind (guard (cp_schema_version p \<notin> {''mmm/complete-proposal-v1'', ''mmm/complete-proposal-v2''}) ''Unsupported complete proposal schema'') (\<lambda>_.
     rbind (guard (\<not> positive_int_value (cp_proposal_version p)) ''proposal_version must be a positive integer.'') (\<lambda>_.
     rbind (guard (strip (cp_requested_prompt p) = []) ''requested_prompt must not be empty.'') (\<lambda>_.
     rbind (validate_proposal (ch_spec CH) (cp_base_proposal p)) (\<lambda>_.
     rbind (guard (cp_game_design p = []) ''game_design must be a non-empty object.'') (\<lambda>_.
     rbind (context_checks CH p) (\<lambda>_.
     rbind (design_json_check (cp_game_design p)) (\<lambda>_.
     rbind (guard (cp_modules p = [] \<and> \<not> host_fixture_only (cp_game_design p)) ''A complete proposal must contain at least one production module.'') (\<lambda>_.
     rbind (guard (set (bootstrap_ids (pp_spec (cp_base_proposal p))) \<inter> set (map m_module_id (cp_modules p)) \<noteq> {})
       ''Production modules may not duplicate bootstrap-owned content IDs'') (\<lambda>_.
     rbind (foldM (module_step CH policy) [] (cp_modules p)) (\<lambda>module_ids.
     rbind (mapM (dependency_check module_ids) (cp_modules p)) (\<lambda>_.
     rbind (validate_acyclic (cp_modules p)) (\<lambda>_.
     rbind (design_jobs (cp_game_design p) module_ids) (\<lambda>jobs.
     rbind (routing_checks p (filter (\<lambda>s. s \<noteq> []) (map aj_owner_module jobs))) (\<lambda>_.
     rbind (guard (cp_assets p \<noteq> []) ''AI_TEXTURE_GENERATION_REMOVED'') (\<lambda>_.
     rbind (foldM (asset_check CH policy module_ids) [] (cp_assets p)) (\<lambda>_.
     rbind (guard (cp_acceptance_tests p = []) ''acceptance_tests must contain at least one test.'') (\<lambda>_.
     rbind (guard (\<not> distinct (cp_acceptance_tests p)) ''acceptance_tests must not contain duplicates.'') (\<lambda>_.
     rbind (guard (list_ex (\<lambda>t. strip t = []) (cp_acceptance_tests p)) ''acceptance_tests must contain non-empty strings.'') (\<lambda>_.
     rbind (contract_check CH p) (\<lambda>_.
     rbind (guard (cp_existing_input_sha256 p \<noteq> [] \<and> \<not> SHA256_match (cp_existing_input_sha256 p)) ''existing_input_sha256 must be empty or a lowercase SHA-256 digest.'') (\<lambda>_.
     rbind (guard (cp_status p = APPROVED \<and> cp_approval_hash p = []) ''Complete proposal approved state requires its approval_hash integrity receipt.'') (\<lambda>_.
     approval_check (cp_approval_hash p) (\<lambda>_. complete_hash CH p))))))))))))))))))))))))"

section \<open>Approval\<close>

definition validate_default :: "complete_host \<Rightarrow> CompleteProposal \<Rightarrow> unit result" where
  "validate_default CH p = rbind (from_environment (ch_env CH)) (\<lambda>policy. validate_complete CH policy p)"

definition complete_with_hash :: "complete_host \<Rightarrow> CompleteProposal \<Rightarrow> CompleteProposal result" where
  "complete_with_hash CH p =
     (let draft = p\<lparr>cp_status := AWAITING_APPROVAL, cp_approval_hash := []\<rparr> in
      rbind (complete_hash CH draft) (\<lambda>h. Inr (draft\<lparr>cp_approval_hash := h\<rparr>)))"

definition complete_approve :: "complete_host \<Rightarrow> ScalePolicy \<Rightarrow> CompleteProposal \<Rightarrow> string \<Rightarrow> CompleteProposal result" where
  "complete_approve CH policy p supplied =
     rbind (validate_complete CH policy p) (\<lambda>_.
     rbind (complete_hash CH p) (\<lambda>expected.
     if supplied \<noteq> expected then Inl (SpecValidationError ''Complete proposal approval hash mismatch.'')
     else Inr (p\<lparr>cp_status := APPROVED, cp_approval_hash := expected\<rparr>)))"

section \<open>Dictionaries\<close>

definition to_dict_complete :: "CompleteProposal \<Rightarrow> pydict" where
  "to_dict_complete p = [(''schema_version'', PStr (cp_schema_version p)), (''proposal_version'', cp_proposal_version p),
     (''status'', PStr (status_value (cp_status p))), (''requested_prompt'', PStr (cp_requested_prompt p)),
     (''base_proposal'', PDict (to_dict_proposal (cp_base_proposal p))), (''game_design'', PDict (cp_game_design p)),
     (''modules'', PList (map (\<lambda>m. PDict (module_dict m)) (cp_modules p))),
     (''assets'', PList (map (\<lambda>a. PDict (asdict_asset a)) (cp_assets p))),
     (''acceptance_tests'', PList (map PStr (cp_acceptance_tests p))),
     (''external_runtime_required'', PBool (cp_external_runtime_required p)),
     (''existing_input_sha256'', PStr (cp_existing_input_sha256 p)), (''approval_hash'', PStr (cp_approval_hash p))]"

definition strict_string :: "pyval \<Rightarrow> string result" where
  "strict_string v = (case v of PStr s \<Rightarrow> Inr s | _ \<Rightarrow> Inl (SpecValidationError ''must be a JSON string.''))"

definition strict_bool :: "pyval \<Rightarrow> bool result" where
  "strict_bool v = (case v of PBool b \<Rightarrow> Inr b | _ \<Rightarrow> Inl (SpecValidationError ''must be a JSON boolean.''))"

definition strict_int :: "pyval \<Rightarrow> int result" where
  "strict_int v = (case v of PInt i \<Rightarrow> Inr i | _ \<Rightarrow> Inl (SpecValidationError ''must be a JSON integer.''))"

definition exact_keys :: "pydict \<Rightarrow> string list \<Rightarrow> string \<Rightarrow> unit result" where
  "exact_keys d expected msg = guard (set (keys d) \<noteq> set expected) msg"

definition as_dict :: "pyval \<Rightarrow> string \<Rightarrow> pydict result" where
  "as_dict v msg = (case v of PDict d \<Rightarrow> Inr d | _ \<Rightarrow> Inl (SpecValidationError msg))"

definition as_list :: "pyval \<Rightarrow> string \<Rightarrow> pyval list result" where
  "as_list v msg = (case v of PList xs \<Rightarrow> Inr xs | _ \<Rightarrow> Inl (SpecValidationError msg))"

definition module_from_dict :: "pyval \<Rightarrow> ProductionModule result" where
  "module_from_dict v =
     rbind (as_dict v ''Every module must be an object.'') (\<lambda>d.
     rbind (exact_keys d [''module_id'', ''kind'', ''config'', ''depends_on'', ''required_gates''] ''Invalid module fields'') (\<lambda>_.
     rbind (as_dict (dget d ''config'') ''Module config must be an object.'') (\<lambda>config.
     rbind (as_list (dget d ''depends_on'') ''Module depends_on must be a list.'') (\<lambda>depends.
     rbind (as_list (dget d ''required_gates'') ''Module required_gates must be a list.'') (\<lambda>gates.
     rbind (strict_string (dget d ''module_id'')) (\<lambda>i.
     rbind (strict_string (dget d ''kind'')) (\<lambda>kind.
     rbind (mapM strict_string depends) (\<lambda>ds.
     rbind (mapM strict_string gates) (\<lambda>gs.
     Inr \<lparr>m_module_id = i, m_kind = kind, m_config = config, m_depends_on = ds, m_required_gates = gs\<rparr>)))))))))"

definition optional_int :: "pyval \<Rightarrow> int option result" where
  "optional_int v = (if v = PNone then Inr None else rbind (strict_int v) (\<lambda>i. Inr (Some i)))"

definition asset_from_dict :: "pyval \<Rightarrow> AssetRequest result" where
  "asset_from_dict v =
     rbind (as_dict v ''Every asset must be an object.'') (\<lambda>d.
     rbind (exact_keys d [''asset_id'', ''kind'', ''visual_description'', ''render_kind'', ''subject_id'', ''owner_module_id'', ''container'',
       ''requested_width'', ''requested_height'', ''variant_count'', ''visual_spec''] ''Invalid asset fields'') (\<lambda>_.
     rbind (case dget d ''visual_spec'' of PNone \<Rightarrow> Inr None | PDict s \<Rightarrow> Inr (Some s)
              | _ \<Rightarrow> Inl (SpecValidationError ''asset.visual_spec must be an object or null.'')) (\<lambda>visual.
     rbind (mapM (\<lambda>f. strict_string (dget d f)) [''asset_id'', ''kind'', ''visual_description'', ''render_kind'', ''subject_id'',
       ''owner_module_id'', ''container'']) (\<lambda>ss.
     rbind (optional_int (dget d ''requested_width'')) (\<lambda>w.
     rbind (optional_int (dget d ''requested_height'')) (\<lambda>h.
     rbind (strict_int (dget d ''variant_count'')) (\<lambda>n.
     Inr \<lparr>ar_asset_id = ss ! 0, ar_kind = ss ! 1, ar_visual_description = ss ! 2, ar_render_kind = ss ! 3, ar_subject_id = ss ! 4,
          ar_owner_module_id = ss ! 5, ar_container = ss ! 6, ar_requested_width = w, ar_requested_height = h,
          ar_variant_count = n, ar_visual_spec = visual\<rparr>)))))))"

definition status_of :: "string \<Rightarrow> ProposalStatus result" where
  "status_of s = (if s = status_value AWAITING_APPROVAL then Inr AWAITING_APPROVAL
     else if s = status_value APPROVED then Inr APPROVED else Inl (ValueError ''is not a valid CompleteProposalStatus''))"

definition complete_fields_list :: "string list" where
  "complete_fields_list = [''schema_version'', ''proposal_version'', ''status'', ''requested_prompt'', ''base_proposal'', ''game_design'',
     ''modules'', ''assets'', ''acceptance_tests'', ''external_runtime_required'', ''existing_input_sha256'', ''approval_hash'']"

text \<open>The constructor call of \<open>from_dict\<close>: the arguments are evaluated in this order.\<close>

definition build_complete :: "complete_host \<Rightarrow> pydict \<Rightarrow> pydict \<Rightarrow> pydict \<Rightarrow> pyval list \<Rightarrow> pyval list \<Rightarrow> pyval list \<Rightarrow> CompleteProposal result" where
  "build_complete CH d base gd modules assets tests =
     rbind (strict_string (dget d ''schema_version'')) (\<lambda>schema.
     rbind (strict_int (dget d ''proposal_version'')) (\<lambda>version.
     rbind (rbind (strict_string (dget d ''status'')) status_of) (\<lambda>status.
     rbind (strict_string (dget d ''requested_prompt'')) (\<lambda>prompt.
     rbind (ch_base_from_dict CH base) (\<lambda>bp.
     rbind (mapM module_from_dict modules) (\<lambda>ms.
     rbind (mapM asset_from_dict assets) (\<lambda>as.
     rbind (mapM strict_string tests) (\<lambda>ts.
     rbind (strict_bool (dget d ''external_runtime_required'')) (\<lambda>runtime.
     rbind (strict_string (dget d ''existing_input_sha256'')) (\<lambda>input.
     rbind (strict_string (dget d ''approval_hash'')) (\<lambda>h.
     Inr \<lparr>cp_schema_version = schema, cp_proposal_version = PInt version, cp_status = status, cp_requested_prompt = prompt,
          cp_base_proposal = bp, cp_game_design = gd, cp_modules = ms, cp_assets = as, cp_acceptance_tests = ts,
          cp_external_runtime_required = runtime, cp_existing_input_sha256 = input, cp_approval_hash = h\<rparr>)))))))))))"

definition from_dict_complete :: "complete_host \<Rightarrow> pydict \<Rightarrow> CompleteProposal result" where
  "from_dict_complete CH d =
     rbind (exact_keys d complete_fields_list ''Invalid complete proposal fields'') (\<lambda>_.
     rbind (as_dict (dget d ''base_proposal'') ''base_proposal must be a JSON object.'') (\<lambda>base.
     rbind (as_dict (dget d ''game_design'') ''game_design must be a JSON object.'') (\<lambda>gd.
     rbind (as_list (dget d ''modules'') ''modules must be a JSON list.'') (\<lambda>modules.
     rbind (as_list (dget d ''assets'') ''assets must be a JSON list.'') (\<lambda>assets.
     rbind (as_list (dget d ''acceptance_tests'') ''acceptance_tests must be a JSON list.'') (\<lambda>tests.
     rbind (as_spec_error ''Invalid complete proposal payload'' (build_complete CH d base gd modules assets tests)) (\<lambda>p.
     rbind (validate_default CH p) (\<lambda>_. Inr p))))))))"

section \<open>Assembly\<close>

definition reject_generated_assets :: "AssetRequest list \<Rightarrow> unit result" where
  "reject_generated_assets assets = (if assets \<noteq> [] then Inl (ValueError ''AI_TEXTURE_GENERATION_REMOVED'') else Inr ())"

definition dict_values :: "pyval \<Rightarrow> pyval list result" where
  "dict_values v = (case v of PDict d \<Rightarrow> Inr (map snd d) | _ \<Rightarrow> Inl (AttributeError ''values''))"

text \<open>\<open>ResolvedVersionContext.from_dict\<close> takes mappings only.\<close>

definition bind_contexts :: "complete_host \<Rightarrow> PlatformLock \<Rightarrow> ProductionModule list \<Rightarrow> pydict \<Rightarrow> pydict result" where
  "bind_contexts CH k modules gd =
     (if pk_host_facts_json k = [] then Inr gd
      else rbind (version_context CH k) (\<lambda>(context, resolved).
        rbind (case dget gd ''_resolved_version_context'' of
                 PNone \<Rightarrow> Inr ()
               | PDict d \<Rightarrow> rbind (ch_stored CH d) (\<lambda>stored. assert_context context (PStr stored))
               | _ \<Rightarrow> Inl (ValueError ''INVALID_VERSION_CONTEXT'')) (\<lambda>_.
        rbind (dict_values (if has_key gd ''_artifact_version_contexts'' then dget gd ''_artifact_version_contexts'' else PDict [])) (\<lambda>ids.
        rbind (mapM (assert_context context) ids) (\<lambda>_.
        Inr (AList.update ''_artifact_version_contexts''
               (PDict (foldl (\<lambda>b m. AList.update (''module:'' @ m_module_id m) (PStr context) b) [] modules))
             (AList.update ''_resolved_version_context'' (PDict resolved) gd)))))))"

definition complete_proposal_from_parts ::
    "complete_host \<Rightarrow> string \<Rightarrow> Proposal \<Rightarrow> pydict \<Rightarrow> ProductionModule list \<Rightarrow> AssetRequest list \<Rightarrow> string list \<Rightarrow> string \<Rightarrow> bool \<Rightarrow>
     CompleteProposal result" where
  "complete_proposal_from_parts CH prompt base gd modules assets tests input_sha runtime =
     rbind (reject_generated_assets assets) (\<lambda>_.
     rbind (bind_contexts CH (ms_platform (pp_spec base)) modules gd) (\<lambda>gd'.
     (let p = \<lparr>cp_schema_version = (if is_mapping (dget gd' ''_production_contract'') then ''mmm/complete-proposal-v2'' else ''mmm/complete-proposal-v1''),
            cp_proposal_version = PInt 1, cp_status = AWAITING_APPROVAL, cp_requested_prompt = prompt, cp_base_proposal = base,
            cp_game_design = gd', cp_modules = modules, cp_assets = [], cp_acceptance_tests = tests,
            cp_external_runtime_required = runtime, cp_existing_input_sha256 = input_sha, cp_approval_hash = []\<rparr> in
      rbind (validate_default CH p) (\<lambda>_. complete_with_hash CH p))))"

end
