(* ===== verification/Module_Shards.thy ===== *)
theory Module_Shards
  imports Module_Order
begin

text \<open>
  The bounded work shards of the planner (\<open>_module_stage\<close>, \<open>_module_batch_key\<close>, \<open>_pipeline_shard_size\<close>,
  \<open>_module_shards\<close>, \<open>_chunks\<close> of \<^verbatim>\<open>work_graph.py\<close>): modules in dependency order are gathered into groups
  of one stage, and the groups are emitted in waves. The environment variables are the argument \<open>env\<close>. A
  set of group indices is a sorted list without repetition. The generator is the list it yields, or the
  error it ends with.
\<close>

section \<open>Stages and sizes\<close>

definition module_batch_key :: "ProductionModule \<Rightarrow> string \<Rightarrow> string" where
  "module_batch_key m stage =
     (if stage = ''system''
      then (case map_of SYSTEM_KIND_TO_PACK (m_kind m) of None \<Rightarrow> m_kind m | Some pack \<Rightarrow> pack) else [])"

definition has_typed_plan :: "ProductionModule \<Rightarrow> bool" where
  "has_typed_plan m \<longleftrightarrow> is_mapping (dget (m_config m) ''typed_plan_ir'')"

definition module_stage :: "ProductionModule \<Rightarrow> pyval option \<Rightarrow> string result" where
  "module_stage m deterministic_module_kinds =
     (if m_kind m = ''typed_host'' \<and> \<not> has_typed_plan m then Inl (WorkGraphError ''TYPED_HOST_PLAN_REQUIRED'')
      else if m_kind m \<noteq> ''typed_host'' \<and> has_typed_plan m then Inl (WorkGraphError ''TYPED_HOST_KIND_REQUIRED'')
      else case native_production_stage (m_kind m) (m_config m) of
        None \<Rightarrow> Inl (WorkGraphError ''DETERMINISTIC_BACKEND_REQUIRED: unsupported production route'')
      | Some stage \<Rightarrow>
          (case deterministic_module_kinds of
             None \<Rightarrow> Inr stage
           | Some available \<Rightarrow>
               rbind (missing_production_backend_capabilities available (m_kind m)) (\<lambda>missing.
                 if missing \<noteq> {} then Inl (WorkGraphError ''DETERMINISTIC_BACKEND_REQUIRED: missing backend capabilities'')
                 else Inr stage)))"

definition is_typed_host_module :: "ProductionModule \<Rightarrow> bool" where
  "is_typed_host_module m \<longleftrightarrow> m_kind m = ''typed_host'' \<and> has_typed_plan m"

definition pipeline_shard_size :: "(string \<Rightarrow> string option) \<Rightarrow> string \<Rightarrow> int \<Rightarrow> int \<Rightarrow> int result" where
  "pipeline_shard_size env name dflt upper_bound =
     (let raw = strip (case env name of None \<Rightarrow> [] | Some s \<Rightarrow> s)
      in rbind (if raw = [] then Inr dflt
                else case parse_int raw of
                  None \<Rightarrow> Inl (WorkGraphError ''WORK_GRAPH_SHARD_SIZE_INVALID'') | Some v \<Rightarrow> Inr v) (\<lambda>v.
         if v < 1 \<or> v > max 1 upper_bound then Inl (WorkGraphError ''WORK_GRAPH_SHARD_SIZE_OUT_OF_RANGE'')
         else Inr v))"

definition shard_size_for :: "(string \<Rightarrow> string option) \<Rightarrow> ScalePolicy \<Rightarrow> string \<Rightarrow> int result" where
  "shard_size_for env policy stage =
     (if stage = ''content'' then Inr (max 1 (java_shard_size policy))
      else if stage = ''system'' then
        pipeline_shard_size env ''MMM_SYSTEM_PIPELINE_SHARD_SIZE'' (max 1 (java_shard_size policy)) (max 1 (java_shard_size policy))
      else if stage = ''entity'' then
        pipeline_shard_size env ''MMM_ENTITY_PIPELINE_SHARD_SIZE'' 2 (max 1 (entity_shard_size policy))
      else if stage = ''host'' then Inr 1
      else Inr (max 1 (java_shard_size policy)))"

definition staged_modules ::
    "(string \<times> string) list option \<Rightarrow> pyval option \<Rightarrow> string list \<Rightarrow> ProductionModule list
     \<Rightarrow> (ProductionModule \<times> string) list result" where
  "staged_modules routes deterministic_module_kinds artifact_owners ms =
     (case routes of
        Some rs \<Rightarrow>
          if list_ex (\<lambda>m. map_of rs (m_module_id m) = None) ms
            then Inl (WorkGraphError ''PRODUCTION_ROUTING_MISSING_MODULE'')
          else Inr (map (\<lambda>m. (m, the (map_of rs (m_module_id m)))) ms)
      | None \<Rightarrow> mapM (\<lambda>m.
          if m_module_id m \<in> set artifact_owners then Inr (m, ''content'')
          else rbind (module_stage m deterministic_module_kinds) (\<lambda>stage. Inr (m, stage))) ms)"

section \<open>Grouping\<close>

record shard_group =
  g_stage :: string
  g_batch_key :: string
  g_members :: "ProductionModule list"
  g_external :: "nat list"
  g_first_order :: nat
  g_sealed :: bool

type_synonym group_key = "string \<times> string \<times> nat list"

record shard_state =
  groups :: "shard_group list"
  module_group :: "(string \<times> nat) list"
  open_by_key :: "(group_key \<times> nat) list"

definition key_of_group :: "shard_group \<Rightarrow> group_key" where
  "key_of_group g = (g_stage g, g_batch_key g, g_external g)"

definition joinable :: "shard_state \<Rightarrow> string \<Rightarrow> int \<Rightarrow> nat list \<Rightarrow> nat \<Rightarrow> bool" where
  "joinable st stage cap deps i =
     (let g = groups st ! i
      in \<not> (g_sealed g \<or> g_stage g \<noteq> stage \<or> int (length (g_members g)) \<ge> cap) \<and>
         list_all (\<lambda>d. d = i \<or> d \<in> set (g_external g)) deps)"

definition candidates :: "shard_state \<Rightarrow> string \<Rightarrow> string \<Rightarrow> int \<Rightarrow> nat list \<Rightarrow> nat list" where
  "candidates st stage batch_key cap deps =
     (case map_of (open_by_key st) (stage, batch_key, deps) of
        None \<Rightarrow> []
      | Some i \<Rightarrow> if int (length (g_members (groups st ! i))) < cap then [i] else [])
     @ filter (joinable st stage cap deps) deps"

definition join_group :: "nat \<Rightarrow> ProductionModule \<Rightarrow> int \<Rightarrow> shard_state \<Rightarrow> shard_state" where
  "join_group i m cap st =
     (let g = (groups st ! i)\<lparr>g_members := g_members (groups st ! i) @ [m]\<rparr>;
          st1 = st\<lparr>groups := (groups st)[i := g], module_group := AList.update (m_module_id m) i (module_group st)\<rparr>;
          k = key_of_group g
      in if int (length (g_members g)) \<ge> cap
         then (if map_of (open_by_key st1) k = Some i then st1\<lparr>open_by_key := AList.delete k (open_by_key st1)\<rparr> else st1)
         else (case map_of (open_by_key st1) k of
                 None \<Rightarrow> st1\<lparr>open_by_key := AList.update k i (open_by_key st1)\<rparr>
               | Some previous \<Rightarrow>
                   if i > previous then st1\<lparr>open_by_key := AList.update k i (open_by_key st1)\<rparr> else st1))"

definition new_group :: "shard_state \<Rightarrow> string \<Rightarrow> string \<Rightarrow> nat list \<Rightarrow> ProductionModule list \<Rightarrow> bool \<Rightarrow> shard_group" where
  "new_group st stage batch_key deps members seal = \<lparr>g_stage = stage, g_batch_key = batch_key, g_members = members,
     g_external = deps, g_first_order = length (module_group st), g_sealed = seal\<rparr>"

definition place_module ::
    "(string \<Rightarrow> string option) \<Rightarrow> ScalePolicy \<Rightarrow> shard_state \<Rightarrow> ProductionModule \<times> string \<Rightarrow> shard_state result" where
  "place_module env policy st ms = (case ms of (m, stage) \<Rightarrow>
     if list_ex (\<lambda>d. map_of (module_group st) d = None) (m_depends_on m)
       then Inl (WorkGraphError ''Module sharding requires topological order'')
     else rbind (shard_size_for env policy stage) (\<lambda>cap.
       (let batch_key = module_batch_key m stage;
            deps = sorted_set (map (\<lambda>d. the (map_of (module_group st) d)) (m_depends_on m))
        in if stage = ''host'' \<and> is_typed_host_module m then
             Inr (st\<lparr>groups := groups st @ [new_group st stage batch_key deps [m] True],
                    module_group := AList.update (m_module_id m) (length (groups st)) (module_group st)\<rparr>)
           else
             (case candidates st stage batch_key cap deps of
                [] \<Rightarrow> Inr (join_group (length (groups st)) m cap
                  (st\<lparr>groups := groups st @ [new_group st stage batch_key deps [] False],
                     open_by_key := AList.update (stage, batch_key, deps) (length (groups st)) (open_by_key st)\<rparr>))
              | c # cs \<Rightarrow> Inr (join_group (Max (set (c # cs))) m cap st)))))"

definition empty_shards :: shard_state where
  "empty_shards = \<lparr>groups = [], module_group = [], open_by_key = []\<rparr>"

section \<open>Emission\<close>

definition group_deps :: "shard_group list \<Rightarrow> nat \<Rightarrow> nat list" where
  "group_deps gs i = (if i < length gs then sorted_set (g_external (gs ! i)) else [])"

definition group_dependents :: "shard_group list \<Rightarrow> nat \<Rightarrow> nat list" where
  "group_dependents gs d = filter (\<lambda>i. d \<in> set (group_deps gs i)) [0..<length gs]"

text \<open>An index is always in range, as the dependents are group indices.\<close>

fun release :: "nat list \<Rightarrow> int list \<Rightarrow> nat list \<Rightarrow> int list \<times> nat list" where
  "release [] deg next = (deg, next)"
| "release (d # ds) deg next =
     (if d < length deg then
        (let v = deg ! d - 1 in release ds (deg[d := v]) (if v = 0 \<and> d \<notin> set next then next @ [d] else next))
      else release ds deg next)"

fun emit_wave :: "(nat \<Rightarrow> nat list) \<Rightarrow> nat list \<Rightarrow> int list \<Rightarrow> nat list \<Rightarrow> int list \<times> nat list" where
  "emit_wave out [] deg next = (deg, next)"
| "emit_wave out (i # ready) deg next = (let (deg', next') = release (out i) deg next in emit_wave out ready deg' next')"

definition positive_count :: "int list \<Rightarrow> nat" where
  "positive_count deg = length (filter (\<lambda>v. v > 0) deg)"

lemma positive_count_update:
  "d < length deg \<Longrightarrow> positive_count (deg[d := v]) + (if deg ! d > 0 then 1 else 0) =
     positive_count deg + (if v > 0 then 1 else 0)"
proof (induction deg arbitrary: d)
  case (Cons x deg)
  then show ?case by (cases d) (auto simp: positive_count_def)
qed simp

lemma release_measure:
  "release ds deg next = (deg', next') \<Longrightarrow> positive_count deg' + length next' \<le> positive_count deg + length next"
proof (induction ds deg "next" rule: release.induct)
  case (2 d ds deg "next")
  show ?case
  proof (cases "d < length deg")
    case True
    have "positive_count deg' + length next' \<le> positive_count (deg[d := deg ! d - 1])
        + length (if deg ! d - 1 = 0 \<and> d \<notin> set next then next @ [d] else next)"
      using 2 True by (simp add: Let_def)
    then show ?thesis using positive_count_update[OF True, of "deg ! d - 1"] by (auto split: if_splits)
  next
    case False
    with 2 show ?thesis by simp
  qed
qed simp

lemma emit_wave_measure:
  "emit_wave out ready deg next = (deg', next') \<Longrightarrow> positive_count deg' + length next' \<le> positive_count deg + length next"
  by (induction out ready deg "next" rule: emit_wave.induct)
    (force simp: Let_def split: prod.splits dest: release_measure)+

function emit_loop :: "shard_group list \<Rightarrow> nat list \<Rightarrow> int list \<Rightarrow> nat list \<Rightarrow> nat list" where
  "emit_loop gs ready deg emitted =
     (if ready = [] then emitted
      else (let (deg', next) = emit_wave (group_dependents gs) ready deg []
            in emit_loop gs (sort_key (\<lambda>i. g_first_order (gs ! i)) next) deg' (emitted @ ready)))"
  by pat_completeness auto
termination
  by (relation "measure (\<lambda>(gs, ready, deg, emitted). positive_count deg + length ready)")
    (auto dest!: emit_wave_measure[OF sym] simp: neq_Nil_conv)

declare emit_loop.simps [simp del]

definition emit_order :: "shard_group list \<Rightarrow> nat list" where
  "emit_order gs =
     (let deg = map (\<lambda>i. int (length (group_deps gs i))) [0..<length gs]
      in emit_loop gs (sort_key (\<lambda>i. g_first_order (gs ! i)) (filter (\<lambda>i. deg ! i = 0) [0..<length gs])) deg [])"

definition emit_groups :: "shard_group list \<Rightarrow> (string \<times> ProductionModule list) list result" where
  "emit_groups gs =
     (let order = emit_order gs
      in if length order \<noteq> length gs then Inl (WorkGraphError ''Module shard dependency graph contains a cycle.'')
         else Inr (map (\<lambda>i. (g_stage (gs ! i), g_members (gs ! i))) order))"

definition module_shards ::
    "(string \<Rightarrow> string option) \<Rightarrow> ScalePolicy \<Rightarrow> (string \<times> string) list option \<Rightarrow> pyval option \<Rightarrow> string list
     \<Rightarrow> ProductionModule list \<Rightarrow> (string \<times> ProductionModule list) list result" where
  "module_shards env policy routes deterministic_module_kinds artifact_owners ms =
     rbind (staged_modules routes deterministic_module_kinds artifact_owners ms) (\<lambda>staged.
     rbind (foldM (place_module env policy) empty_shards staged) (\<lambda>st.
     emit_groups (groups st)))"

text \<open>\<open>_chunks\<close>; the length of a chunk is positive in every call.\<close>

function chunks :: "'a list \<Rightarrow> nat \<Rightarrow> 'a list list" where
  "chunks xs k = (if xs = [] \<or> k = 0 then [] else take k xs # chunks (drop k xs) k)"
  by pat_completeness auto
termination by (relation "measure (\<lambda>(xs, k). length xs)") auto

declare chunks.simps [simp del]

end
