(* ===== verification/Production_Routing.thy ===== *)
theory Production_Routing
  imports Complete_Spec Module_Shards
begin

text \<open>
  The routing contract (\<^verbatim>\<open>production_routing_contract.py\<close>): every selected module is owned by the artifact graph or
  by a reviewed native backend. \<open>routing_host\<close> holds the code the contract calls outside the model: the platform
  adapter of the proposal's lock (\<open>adapter_for_lock_values\<close>) and \<open>canonical_specification_input\<close>.
\<close>

section \<open>Routes\<close>

record ModuleProductionRoute =
  mr_module_id :: string
  mr_kind :: string
  mr_owner :: string
  mr_stage :: string
  mr_required_capabilities :: "string list"

record ProductionRoutingSnapshot =
  pr_deterministic_module_kinds :: "string list"
  pr_artifact_owner_module_ids :: "string list"
  pr_artifact_client_entrypoints :: "string list"
  pr_routes :: "ModuleProductionRoute list"
  pr_contract_sha256 :: string

definition strs :: "string list \<Rightarrow> pyval" where
  "strs xs = PList (map PStr xs)"

definition to_dict_route :: "ModuleProductionRoute \<Rightarrow> pydict" where
  "to_dict_route r = [(''module_id'', PStr (mr_module_id r)), (''kind'', PStr (mr_kind r)), (''owner'', PStr (mr_owner r)),
     (''stage'', PStr (mr_stage r)), (''required_capabilities'', strs (mr_required_capabilities r))]"

definition routing_schema :: string where
  "routing_schema = ''mmm/production-routing-contract-v1''"

definition routing_body :: "string list \<Rightarrow> string list \<Rightarrow> string list \<Rightarrow> ModuleProductionRoute list \<Rightarrow> pydict" where
  "routing_body available owners entrypoints routes = [(''schema_version'', PStr routing_schema),
     (''deterministic_module_kinds'', strs available), (''artifact_owner_module_ids'', strs owners),
     (''artifact_client_entrypoints'', strs entrypoints), (''routes'', PList (map (\<lambda>r. PDict (to_dict_route r)) routes))]"

definition to_dict_snapshot :: "ProductionRoutingSnapshot \<Rightarrow> pydict" where
  "to_dict_snapshot s =
     routing_body (pr_deterministic_module_kinds s) (pr_artifact_owner_module_ids s) (pr_artifact_client_entrypoints s) (pr_routes s)
     @ [(''contract_sha256'', PStr (pr_contract_sha256 s))]"

definition route_by_module_id :: "ProductionRoutingSnapshot \<Rightarrow> string \<Rightarrow> ModuleProductionRoute option" where
  "route_by_module_id s k = map_of (rev (map (\<lambda>r. (mr_module_id r, r)) (pr_routes s))) k"

definition native_module_ids :: "ProductionRoutingSnapshot \<Rightarrow> string set" where
  "native_module_ids s = set (map mr_module_id (filter (\<lambda>r. mr_owner r = ''native_host'') (pr_routes s)))"

text \<open>\<open>ProductionRoutingError\<close>, which the planner turns into its own error, and every other exception.\<close>

datatype routing_error = ProductionRoutingError string | Propagated pyerr

definition propagate :: "'a result \<Rightarrow> routing_error + 'a" where
  "propagate r = (case r of Inl e \<Rightarrow> Inl (Propagated e) | Inr x \<Rightarrow> Inr x)"

definition artifact_jobs :: "pydict \<Rightarrow> routing_error + ArtifactJob list" where
  "artifact_jobs game_design =
     (let invalid = ProductionRoutingError ''PRODUCTION_ROUTING_ARTIFACT_JOBS_INVALID'' in
      case (if has_key game_design ''_artifact_jobs'' then dget game_design ''_artifact_jobs'' else PList []) of
        PNone \<Rightarrow> Inr []
      | PList raw \<Rightarrow>
          (case parse_artifact_jobs raw of
             Inr jobs \<Rightarrow> Inr jobs
           | Inl (KeyError _) \<Rightarrow> Inl invalid
           | Inl (TypeError _) \<Rightarrow> Inl invalid
           | Inl (ValueError _) \<Rightarrow> Inl invalid
           | Inl e \<Rightarrow> Inl (Propagated e))
      | _ \<Rightarrow> Inl invalid)"

record routing_host =
  rh_adapter :: "CompleteProposal \<Rightarrow> pydict result"
  rh_spec_input :: "string \<Rightarrow> pyval \<Rightarrow> pydict result"

definition module_route :: "string list \<Rightarrow> string list \<Rightarrow> ProductionModule \<Rightarrow> routing_error + ModuleProductionRoute" where
  "module_route available artifact_owners m =
     (if m_module_id m \<in> set artifact_owners then
        Inr \<lparr>mr_module_id = m_module_id m, mr_kind = m_kind m, mr_owner = ''artifact_graph'', mr_stage = ''content'',
             mr_required_capabilities = []\<rparr>
      else if m_kind m = ''typed_host'' \<and> \<not> has_typed_plan m then Inl (ProductionRoutingError ''TYPED_HOST_PLAN_REQUIRED'')
      else if m_kind m \<noteq> ''typed_host'' \<and> has_typed_plan m then Inl (ProductionRoutingError ''TYPED_HOST_KIND_REQUIRED'')
      else (case native_production_stage (m_kind m) (m_config m) of
        None \<Rightarrow> Inl (ProductionRoutingError ''DETERMINISTIC_BACKEND_REQUIRED: unsupported production route'')
      | Some stage \<Rightarrow>
          rbind (propagate (missing_production_backend_capabilities (strs available) (m_kind m))) (\<lambda>missing.
          if missing \<noteq> {} then Inl (ProductionRoutingError ''DETERMINISTIC_BACKEND_REQUIRED: missing backend capabilities'')
          else Inr \<lparr>mr_module_id = m_module_id m, mr_kind = m_kind m, mr_owner = ''native_host'', mr_stage = stage,
                 mr_required_capabilities = sorted_list_of_set (production_module_backend_capabilities (m_kind m))\<rparr>)))"

definition compile_production_routing ::
    "runtime \<Rightarrow> routing_host \<Rightarrow> CompleteProposal \<Rightarrow> ProductionModule list option \<Rightarrow> routing_error + ProductionRoutingSnapshot" where
  "compile_production_routing rt host proposal modules =
     (let selected = (case modules of None \<Rightarrow> cp_modules proposal | Some ms \<Rightarrow> ms); module_ids = map m_module_id selected in
      if \<not> distinct module_ids then Inl (ProductionRoutingError ''PRODUCTION_ROUTING_DUPLICATE_MODULE_ID'')
      else rbind (artifact_jobs (cp_game_design proposal)) (\<lambda>jobs.
        (let owners = filter (\<lambda>x. x \<in> set module_ids) (artifact_owner_module_ids jobs) in
         rbind (if list_ex (\<lambda>i. i \<notin> set owners) module_ids
                then rbind (propagate (rh_adapter host proposal)) (\<lambda>adapter.
                       rbind (propagate (deterministic_backend_capabilities adapter)) (\<lambda>caps. Inr (sorted_list_of_set caps)))
                else Inr []) (\<lambda>available.
         rbind (mapM (module_route available owners) selected) (\<lambda>routes.
         rbind (propagate (canonical_client_entrypoints (rh_spec_input host) jobs)) (\<lambda>entrypoints.
         Inr \<lparr>pr_deterministic_module_kinds = available, pr_artifact_owner_module_ids = sort owners,
              pr_artifact_client_entrypoints = entrypoints, pr_routes = routes,
              pr_contract_sha256 = hash_json rt (PDict (routing_body available (sort owners) entrypoints routes))\<rparr>)))))) "

end
