(* ===== verification/Work_Plan.thy ===== *)
theory Work_Plan
  imports Production_Routing Ledger_Sync
begin

text \<open>
  The assembly of the production work plan (\<open>_node\<close>, \<open>_content_node_is_cpu_safe\<close>, \<open>_module_payload\<close>,
  \<open>_exclusive_anchor_keys\<close> and \<open>build_production_work_plan\<close> of \<^verbatim>\<open>work_graph.py\<close>). The record \<open>planner\<close> holds the code
  the planner calls outside the model: what the validation of the proposal calls, the fingerprint
  of the implementation files (\<^verbatim>\<open>production_checkpoint_policy.py\<close>), the digest of the canonical asset plan
  (\<^verbatim>\<open>resource_asset_plan.py\<close>, None where it rejects the plan) and what the routing calls.
\<close>

section \<open>Nodes\<close>

definition get_str :: "pydict \<Rightarrow> string \<Rightarrow> string" where
  "get_str d k = (if has_key d k then py_str (dget d k) else [])"

definition member_cpu_safe :: "pyval \<Rightarrow> bool" where
  "member_cpu_safe member = (case member of
     PDict d \<Rightarrow>
       get_str d ''kind'' \<noteq> ''integration'' \<or>
       (case dget d ''config'' of
          PDict config \<Rightarrow> strip (get_str config ''integration_type'') \<in> set (keys NATIVE_INTEGRATION_STAGE_BY_TYPE)
        | _ \<Rightarrow> False)
   | _ \<Rightarrow> False)"

definition content_node_is_cpu_safe :: "pydict \<Rightarrow> bool" where
  "content_node_is_cpu_safe payload = (case dget payload ''members'' of PList members \<Rightarrow> list_all member_cpu_safe members | _ \<Rightarrow> True)"

definition resource_class :: "string \<Rightarrow> pydict \<Rightarrow> string" where
  "resource_class stage payload =
     (let kind = get_str payload ''kind''; gen_stage = get_str payload ''generation_stage'' in
      if has_key payload ''resource_class'' then py_str (dget payload ''resource_class'')
      else if kind = ''asset-shard'' then ''image_gpu''
      else if kind = ''module-shard'' \<and> gen_stage \<in> {''content'', ''system'', ''entity''} then
        (if gen_stage = ''content'' \<and> \<not> content_node_is_cpu_safe payload then ''llm'' else ''cpu_io'')
      else if kind = ''module-shard'' \<and> gen_stage = ''host'' then ''cpu_io''
      else if startswith stage ''validate:'' then ''commit''
      else ''cpu_io'')"

text \<open>\<open>_node\<close>; a resource class given in the payload is a string.\<close>

definition make_node :: "runtime \<Rightarrow> string \<Rightarrow> string \<Rightarrow> string list \<Rightarrow> pydict \<Rightarrow> WorkNode" where
  "make_node rt node_id stage deps payload =
     (let rc = resource_class stage payload;
          payload_copy = AList.update ''resource_class'' (PStr rc) payload;
          normalized = sorted_set deps;
          body = [(''node_id'', PStr node_id), (''stage'', PStr stage), (''dependencies'', strs normalized), (''payload'', PDict payload_copy)]
      in \<lparr>wn_id = node_id, wn_stage = stage, wn_input_hash = hash_json rt (PDict body), wn_dependencies = normalized,
          wn_payload = payload_copy, wn_resource_class = rc\<rparr>)"

lemma make_node_sel [simp]:
  "wn_id (make_node rt i s ds p) = i" "wn_stage (make_node rt i s ds p) = s" "wn_dependencies (make_node rt i s ds p) = sorted_set ds"
  by (simp_all add: make_node_def Let_def)

definition to_dict_node :: "WorkNode \<Rightarrow> pydict" where
  "to_dict_node n = [(''node_id'', PStr (wn_id n)), (''stage'', PStr (wn_stage n)), (''input_hash'', PStr (wn_input_hash n)),
     (''dependencies'', strs (wn_dependencies n)), (''payload'', PDict (wn_payload n)), (''resource_class'', PStr (wn_resource_class n))]"

definition module_payload :: "ProductionModule \<Rightarrow> pydict" where
  "module_payload m = [(''module_id'', PStr (m_module_id m)), (''kind'', PStr (m_kind m)), (''config'', PDict (m_config m)),
     (''depends_on'', strs (m_depends_on m)), (''required_gates'', strs (m_required_gates m))]"

definition exclusive_anchor :: "pyval \<Rightarrow> string list" where
  "exclusive_anchor anchor = (case anchor of
     PDict a \<Rightarrow>
       if dget a ''ownership'' \<noteq> PStr ''exclusive'' then []
       else (let locator = strip (str_or_empty (dget a ''locator'')) in if locator = [] then [] else [locator])
   | _ \<Rightarrow> [])"

definition exclusive_anchor_keys :: "ProductionModule \<Rightarrow> string list" where
  "exclusive_anchor_keys m = (case dget (m_config m) ''owned_anchors'' of
     PList raw \<Rightarrow> fromkeys (concat (map exclusive_anchor raw)) | _ \<Rightarrow> [])"

text \<open>The format \<open>08d\<close>.\<close>

definition pad8 :: "nat \<Rightarrow> string" where
  "pad8 n = replicate (8 - length (show_nat n)) (CHR ''0'') @ show_nat n"

section \<open>Module shards\<close>

record planner =
  pl_runtime :: runtime
  pl_env :: "string \<Rightarrow> string option"
  pl_complete :: complete_host
  pl_fingerprint :: "string \<Rightarrow> string"
  pl_asset_plan :: "CompleteProposal \<Rightarrow> string option"
  pl_routing :: routing_host

record plan_state =
  st_nodes :: "WorkNode list"
  st_module_node :: "(string \<times> string) list"
  st_anchor_node :: "(string \<times> string) list"
  st_generated :: "string list"

definition module_dependencies :: "plan_state \<Rightarrow> string list \<Rightarrow> ProductionModule \<Rightarrow> string list result" where
  "module_dependencies st member_ids m =
     rbind (mapM (\<lambda>d. case map_of (st_module_node st) d of None \<Rightarrow> Inl (KeyError d) | Some n \<Rightarrow> Inr n)
       (filter (\<lambda>d. d \<notin> set member_ids) (m_depends_on m))) (\<lambda>ds.
     Inr (ds @ concat (map (\<lambda>a. case map_of (st_anchor_node st) a of None \<Rightarrow> [] | Some n \<Rightarrow> [n]) (exclusive_anchor_keys m))))"

definition record_module :: "string \<Rightarrow> ProductionModule \<Rightarrow> plan_state \<Rightarrow> plan_state" where
  "record_module node_id m st = st\<lparr>st_module_node := AList.update (m_module_id m) node_id (st_module_node st),
     st_anchor_node := fold (\<lambda>a t. AList.update a node_id t) (exclusive_anchor_keys m) (st_anchor_node st)\<rparr>"

definition module_routes :: "ProductionRoutingSnapshot \<Rightarrow> ProductionModule list \<Rightarrow> pyval list result" where
  "module_routes routing members =
     mapM (\<lambda>m. case route_by_module_id routing (m_module_id m) of
       None \<Rightarrow> Inl (KeyError (m_module_id m)) | Some r \<Rightarrow> Inr (PDict (to_dict_route r))) members"

definition shard_node_id :: "string \<Rightarrow> nat \<Rightarrow> string" where
  "shard_node_id stage n = ''generate-'' @ stage @ ''-'' @ pad8 n"

definition shard_step :: "planner \<Rightarrow> ProductionRoutingSnapshot \<Rightarrow> plan_state \<Rightarrow> string \<times> ProductionModule list \<Rightarrow> plan_state result" where
  "shard_step P routing st shard = (case shard of (stage, members) \<Rightarrow>
     (let node_id = shard_node_id stage (length (st_generated st)); member_ids = map m_module_id members in
      rbind (mapM (module_dependencies st member_ids) members) (\<lambda>dss.
      rbind (module_routes routing members) (\<lambda>routes.
      (let deps = filter (\<lambda>d. d \<noteq> node_id) (''prepare-project'' # concat dss);
           payload = [(''kind'', PStr ''module-shard''), (''generation_stage'', PStr stage),
             (''production_routing_sha256'', PStr (pr_contract_sha256 routing)),
             (''production_implementation'', PStr (pl_fingerprint P stage)), (''production_routes'', PList routes),
             (''members'', PList (map (\<lambda>m. PDict (module_payload m)) members))];
           node = make_node (pl_runtime P) node_id (''generate:'' @ stage) deps payload
       in Inr (fold (record_module node_id) members
            (st\<lparr>st_nodes := st_nodes st @ [node], st_generated := st_generated st @ [node_id]\<rparr>)))))))"

section \<open>Asset shards\<close>

definition env_str :: "(string \<Rightarrow> string option) \<Rightarrow> string \<Rightarrow> string" where
  "env_str env name = strip (case env name of None \<Rightarrow> [] | Some s \<Rightarrow> s)"

definition asset_shard_size :: "(string \<Rightarrow> string option) \<Rightarrow> ScalePolicy \<Rightarrow> nat \<Rightarrow> nat" where
  "asset_shard_size env policy n =
     (let size = nat (max 1 (java_shard_size policy)) in
      if lower (env_str env ''MMM_ASSET_SINGLE_SHARD'') \<in> {''1'', ''true'', ''yes''} \<or> env_str env ''MMM_COLAB_SETUP_RECEIPT'' \<noteq> []
      then max size n else size)"

definition asset_dependency :: "(string \<times> string) list \<Rightarrow> AssetRequest \<Rightarrow> string list result" where
  "asset_dependency module_node a =
     (if ar_owner_module_id a = [] then Inr []
      else case map_of module_node (ar_owner_module_id a) of
        None \<Rightarrow> Inl (WorkGraphError ''Asset references module without a generation node.'') | Some n \<Rightarrow> Inr [n])"

definition asset_step :: "planner \<Rightarrow> string \<Rightarrow> plan_state \<Rightarrow> nat \<times> AssetRequest list \<Rightarrow> plan_state result" where
  "asset_step P digest st chunk = (case chunk of (index, assets) \<Rightarrow>
     (let node_id = ''generate-assets-'' @ pad8 index in
      rbind (mapM (asset_dependency (st_module_node st)) assets) (\<lambda>dss.
      (let payload = [(''kind'', PStr ''asset-shard''), (''asset_plan_sha256'', PStr digest),
             (''production_implementation'', PStr (pl_fingerprint P ''assets'')),
             (''members'', PList (map (\<lambda>a. PDict (asdict_asset a)) assets))]
       in Inr (st\<lparr>st_nodes := st_nodes st @ [make_node (pl_runtime P) node_id ''generate:assets'' (''prepare-project'' # concat dss) payload],
            st_generated := st_generated st @ [node_id]\<rparr>)))))"

section \<open>Validation, quality and packaging\<close>

definition replace_char :: "char \<Rightarrow> char \<Rightarrow> string \<Rightarrow> string" where
  "replace_char a b s = map (\<lambda>c. if c = a then b else c) s"

definition quality_node_id :: "string \<Rightarrow> string" where
  "quality_node_id dimension_id = ''validate-quality-'' @ replace_char (CHR ''_'') (CHR ''-'') dimension_id"

definition quality_node :: "runtime \<Rightarrow> pydict \<Rightarrow> pyval \<Rightarrow> WorkNode result" where
  "quality_node rt contract v = (case v of
     PDict dimension \<Rightarrow>
       rbind (getitem dimension ''dimension_id'') (\<lambda>i.
       (let dimension_id = py_str i;
            dep = (if dimension_id \<in> {''correctness'', ''build'', ''research''} then ''validate-jar'' else ''runtime-playtest'') in
        rbind (getitem dimension ''evidence_route_ref'') (\<lambda>route.
        rbind (getitem contract ''contract_sha256'') (\<lambda>sha.
        Inr (make_node rt (quality_node_id dimension_id) ''validate:quality'' [dep]
          [(''kind'', PStr ''quality-validation''), (''dimension_id'', PStr dimension_id), (''evidence_route_ref'', route),
           (''contract_sha256'', sha)])))))
   | _ \<Rightarrow> Inl (TypeError ''indices''))"

definition quality_nodes :: "runtime \<Rightarrow> CompleteProposal \<Rightarrow> WorkNode list result" where
  "quality_nodes rt proposal = (case dget (cp_game_design proposal) ''_production_contract'' of
     PDict contract \<Rightarrow>
       if cp_schema_version proposal \<noteq> ''mmm/complete-proposal-v2'' then Inr []
       else (case (if has_key contract ''quality_dimension_catalog'' then dget contract ''quality_dimension_catalog'' else PList []) of
         PList xs \<Rightarrow> mapM (quality_node rt contract) xs
       | PDict [] \<Rightarrow> Inr []
       | PStr [] \<Rightarrow> Inr []
       | _ \<Rightarrow> Inl (TypeError ''not iterable''))
   | _ \<Rightarrow> Inr [])"

definition fixed_nodes :: "runtime \<Rightarrow> CompleteProposal \<Rightarrow> string list \<Rightarrow> WorkNode list" where
  "fixed_nodes rt proposal generated = [
     make_node rt ''validate-source'' ''validate:source'' (if generated = [] then [''prepare-project''] else generated)
       [(''kind'', PStr ''validation''), (''acceptance_tests'', strs (cp_acceptance_tests proposal))],
     make_node rt ''build-project'' ''build'' [''validate-source''] [(''kind'', PStr ''gradle-build'')],
     make_node rt ''validate-source-final'' ''validate:source-final'' [''build-project''] [(''kind'', PStr ''final-source-validation'')],
     make_node rt ''validate-jar'' ''validate:jar'' [''validate-source-final''] [(''kind'', PStr ''jar-validation'')],
     make_node rt ''runtime-playtest'' ''validate:runtime'' [''validate-jar'']
       [(''kind'', PStr ''runtime-playtest''), (''external_runtime_required'', PBool (cp_external_runtime_required proposal))]]"

definition package_nodes :: "runtime \<Rightarrow> string list \<Rightarrow> WorkNode list" where
  "package_nodes rt quality = [
     make_node rt ''package-build-artifact'' ''package:build-artifact'' [''validate-jar''] [(''kind'', PStr ''build-artifact'')],
     make_node rt ''package-release'' ''package'' ([''package-build-artifact'', ''runtime-playtest''] @ quality) [(''kind'', PStr ''release'')]]"

section \<open>The plan\<close>

definition selected_assets :: "CompleteProposal \<Rightarrow> string list \<Rightarrow> AssetRequest list" where
  "selected_assets proposal selected_ids =
     filter (\<lambda>a. ar_owner_module_id a = [] \<or> ar_owner_module_id a \<in> set selected_ids) (cp_assets proposal)"

definition asset_plan_digest :: "planner \<Rightarrow> CompleteProposal \<Rightarrow> string result" where
  "asset_plan_digest P proposal =
     (if cp_assets proposal = [] then Inr []
      else case pl_asset_plan P proposal of
        None \<Rightarrow> Inl (WorkGraphError ''ASSET_PLAN_AUTHORITY_REQUIRED'') | Some digest \<Rightarrow> Inr digest)"

definition prepare_node :: "planner \<Rightarrow> string \<Rightarrow> CompleteProposal \<Rightarrow> WorkNode" where
  "prepare_node P phash proposal = make_node (pl_runtime P) ''prepare-project'' ''prepare'' []
     [(''kind'', PStr ''prepare''), (''proposal_hash'', PStr phash),
      (''existing_input_sha256'', PStr (cp_existing_input_sha256 proposal)),
      (''production_implementation'', PStr (pl_fingerprint P ''prepare''))]"

text \<open>\<open>WorkGraphPlan.to_dict\<close>; the members of a payload are a list.\<close>

definition to_dict_plan :: "WorkGraphPlan \<Rightarrow> bool \<Rightarrow> pydict" where
  "to_dict_plan plan include_payloads =
     [(''schema_version'', PStr (plan_schema_version plan)), (''proposal_hash'', PStr (plan_proposal_hash plan)),
      (''graph_hash'', PStr (plan_graph_hash plan)), (''module_count'', PInt (int (plan_module_count plan))),
      (''node_count'', PInt (int (length (plan_nodes plan)))),
      (''nodes'', PList (map (\<lambda>n. PDict (if include_payloads then to_dict_node n
         else AList.update ''payload'' (PDict [
             (''kind'', if has_key (wn_payload n) ''kind'' then dget (wn_payload n) ''kind'' else PStr []),
             (''member_count'', PInt (case dget (wn_payload n) ''members'' of PList xs \<Rightarrow> int (length xs) | _ \<Rightarrow> 0))]) (to_dict_node n)))
         (plan_nodes plan)))]"

text \<open>The nodes from a routing snapshot on: everything after \<open>compile_production_routing\<close>.\<close>

definition plan_nodes_of ::
    "planner \<Rightarrow> ScalePolicy \<Rightarrow> CompleteProposal \<Rightarrow> string \<Rightarrow> ProductionModule list \<Rightarrow> ProductionRoutingSnapshot \<Rightarrow> WorkNode list result" where
  "plan_nodes_of P policy proposal phash ordered routing =
     rbind (module_shards (pl_env P) policy (Some (map (\<lambda>r. (mr_module_id r, mr_stage r)) (rev (pr_routes routing)))) None [] ordered) (\<lambda>shards.
     rbind (foldM (shard_step P routing)
       \<lparr>st_nodes = [prepare_node P phash proposal], st_module_node = [], st_anchor_node = [], st_generated = []\<rparr> shards) (\<lambda>st1.
     (let assets = selected_assets proposal (map m_module_id ordered) in
      rbind (asset_plan_digest P proposal) (\<lambda>digest.
      (let cs = chunks assets (asset_shard_size (pl_env P) policy (length assets)) in
       rbind (foldM (asset_step P digest) st1 (zip [0..<length cs] cs)) (\<lambda>st2.
       rbind (quality_nodes (pl_runtime P) proposal) (\<lambda>quality.
       Inr (st_nodes st2 @ fixed_nodes (pl_runtime P) proposal (st_generated st2) @ quality
            @ package_nodes (pl_runtime P) (map wn_id quality)))))))))"

definition routing_failure :: "routing_error \<Rightarrow> pyerr" where
  "routing_failure e = (case e of ProductionRoutingError msg \<Rightarrow> WorkGraphError msg | Propagated e \<Rightarrow> e)"

definition build_production_work_plan ::
    "planner \<Rightarrow> CompleteProposal \<Rightarrow> ScalePolicy option \<Rightarrow> ProductionModule list option \<Rightarrow> WorkGraphPlan result" where
  "build_production_work_plan P proposal policy0 modules =
     rbind (case policy0 of Some p \<Rightarrow> Inr p | None \<Rightarrow> from_environment (pl_env P)) (\<lambda>policy.
     rbind (validate_complete (pl_complete P) policy proposal) (\<lambda>_.
     rbind (if cp_approval_hash proposal \<noteq> [] then Inr (cp_approval_hash proposal) else complete_hash (pl_complete P) proposal) (\<lambda>phash.
     (let selected = (case modules of None \<Rightarrow> cp_modules proposal | Some ms \<Rightarrow> ms);
          selected_ids = map m_module_id selected in
      rbind (case modules of None \<Rightarrow> Inr [] | Some ms \<Rightarrow> mapM (validate_module (pl_complete P) policy) ms) (\<lambda>_.
      if \<not> distinct selected_ids then Inl (WorkGraphError ''Production work modules contain duplicate IDs.'')
      else if list_ex (\<lambda>m. list_ex (\<lambda>d. d \<notin> set selected_ids) (m_depends_on m)) selected
        then Inl (WorkGraphError ''Production work module references missing dependencies'')
      else rbind (topological_modules selected) (\<lambda>ordered.
        (case compile_production_routing (pl_runtime P) (pl_routing P) proposal (Some ordered) of
           Inl e \<Rightarrow> Inl (routing_failure e)
         | Inr routing \<Rightarrow>
             rbind (plan_nodes_of P policy proposal phash ordered routing) (\<lambda>nodes.
             (let graph_body = [(''schema_version'', PStr ''mmm/production-work-graph-v1''), (''proposal_hash'', PStr phash),
                    (''production_routing'', PDict (to_dict_snapshot routing)),
                    (''nodes'', PList (map (\<lambda>n. PDict (to_dict_node n)) nodes))]
              in Inr \<lparr>plan_schema_version = ''mmm/production-work-graph-v1'', plan_proposal_hash = phash,
                   plan_graph_hash = hash_json (pl_runtime P) (PDict graph_body), plan_module_count = length selected,
                   plan_nodes = nodes\<rparr>)))))))))"

end
