(* ===== verification/Validated_Routing.thy ===== *)
theory Validated_Routing
  imports Work_Plan
begin

text \<open>
  What the validation of a complete proposal establishes for the planner: its modules have distinct identifiers and
  known dependencies, can be ordered, and each is owned by an artifact job or has a native route whose capabilities the
  platform lock offers, so the routing contract can be compiled.
\<close>

lemma mapM_Inr_all: "mapM f xs = Inr ys \<Longrightarrow> x \<in> set xs \<Longrightarrow> \<exists>y \<in> set ys. f x = Inr y"
  by (induction xs arbitrary: ys) auto

lemma module_step_Inr:
  "module_step CH policy seen m = Inr r \<longleftrightarrow> validate_module CH policy m = Inr () \<and> m_module_id m \<notin> set seen \<and> r = seen @ [m_module_id m]"
  by (auto simp: module_step_def)

lemma module_steps:
  "foldM (module_step CH policy) seen ms = Inr r \<Longrightarrow> distinct seen \<Longrightarrow>
     r = seen @ map m_module_id ms \<and> distinct r \<and> (\<forall>m \<in> set ms. validate_module CH policy m = Inr ())"
proof (induction ms arbitrary: seen)
  case (Cons m ms)
  from Cons.prems have step: "validate_module CH policy m = Inr ()" "m_module_id m \<notin> set seen"
    and rest: "foldM (module_step CH policy) (seen @ [m_module_id m]) ms = Inr r" by (auto simp: module_step_Inr)
  from Cons.prems(2) step(2) have "distinct (seen @ [m_module_id m])" by simp
  note ih = Cons.IH[OF rest this]
  have "seen @ map m_module_id (m # ms) = (seen @ [m_module_id m]) @ map m_module_id ms" by simp
  with ih step(1) show ?case by (simp only: set_simps ball_simps) blast
qed simp

lemma validated_modules:
  assumes "validate_complete CH policy p = Inr ()"
  obtains jobs where "distinct (map m_module_id (cp_modules p))" and "\<And>m. m \<in> set (cp_modules p) \<Longrightarrow> validate_module CH policy m = Inr ()"
    and "\<And>m. m \<in> set (cp_modules p) \<Longrightarrow> set (m_depends_on m) \<subseteq> set (map m_module_id (cp_modules p))"
    and "validate_acyclic (cp_modules p) = Inr ()" and "design_jobs (cp_game_design p) (map m_module_id (cp_modules p)) = Inr jobs"
    and "routing_checks p (filter (\<lambda>s. s \<noteq> []) (map aj_owner_module jobs)) = Inr ()" and "cp_assets p = []"
proof -
  from assms obtain ids us jobs where ids: "foldM (module_step CH policy) [] (cp_modules p) = Inr ids"
    and deps: "mapM (dependency_check ids) (cp_modules p) = Inr us" and rest: "validate_acyclic (cp_modules p) = Inr ()"
      "design_jobs (cp_game_design p) ids = Inr jobs" "routing_checks p (filter (\<lambda>s. s \<noteq> []) (map aj_owner_module jobs)) = Inr ()"
      "cp_assets p = []"
    by (auto simp: validate_complete_def)
  have eq: "ids = map m_module_id (cp_modules p)" and steps: "distinct ids" "\<forall>m \<in> set (cp_modules p). validate_module CH policy m = Inr ()"
    using module_steps[OF ids distinct.simps(1)[THEN iffD2, OF TrueI]] unfolding append_Nil by blast+
  have "set (m_depends_on m) \<subseteq> set ids" if "m \<in> set (cp_modules p)" for m
  proof -
    from mapM_Inr_all[OF deps that] obtain x where "dependency_check ids m = Inr x" by fast
    then show ?thesis by (simp add: dependency_check_def)
  qed
  with rest steps show ?thesis unfolding eq by (intro that[of jobs]) simp_all
qed

lemma acyclic_is_ordered:
  assumes "validate_acyclic ms = Inr ()" and "\<And>m. m \<in> set ms \<Longrightarrow> set (m_depends_on m) \<subseteq> set (map m_module_id ms)"
  shows "\<exists>ordered. topological_modules ms = Inr ordered"
proof -
  have "known_dependencies ms = ms" unfolding known_dependencies_def
  proof (rule map_idI)
    fix m assume "m \<in> set ms"
    then have "filter (\<lambda>d. d \<in> set (map m_module_id ms)) (m_depends_on m) = m_depends_on m" using assms(2) by (simp add: filter_id_conv subset_iff)
    then show "m\<lparr>m_depends_on := filter (\<lambda>d. d \<in> set (map m_module_id ms)) (m_depends_on m)\<rparr> = m" by simp
  qed
  moreover have "list_all (\<lambda>m. list_all (\<lambda>d. d \<in> set (map m_module_id ms)) (m_depends_on m)) ms"
    using assms(2) by (simp add: list_all_iff subset_iff)
  ultimately show ?thesis using assms(1) by (simp add: validate_acyclic_def topological_modules_def Let_def)
qed

lemma job_graph_result: "validate_artifact_job_graph jobs mids = Inr r \<Longrightarrow> r = jobs"
  by (auto simp: validate_artifact_job_graph_def Let_def split: if_split_asm)

lemma as_spec_error_Inr [simp]: "as_spec_error msg r = Inr x \<longleftrightarrow> r = Inr x"
  by (auto simp: as_spec_error_def split: sum.splits pyerr.splits)

lemma design_jobs_routed: "design_jobs gd mids = Inr jobs \<Longrightarrow> artifact_jobs gd = Inr jobs"
  unfolding design_jobs_def artifact_jobs_def Let_def by (auto split: pyval.split_asm dest: job_graph_result)

lemma spec_id_stripped: "SPEC_ID_match i \<Longrightarrow> strip i = i"
proof -
  have "\<not> is_space c" if "is_lower_az c \<or> id_char c" for c using that by (auto simp: is_lower_az_def id_char_def is_digit_def is_space_def Let_def)
  then have none: "\<forall>c \<in> set i. \<not> is_space c" if "SPEC_ID_match i" using that by (auto simp: SPEC_ID_match_def list_all_iff split: list.splits)
  have "dropWhile is_space s = s" if "\<forall>c \<in> set s. \<not> is_space c" for s using that by (cases s) simp_all
  from this[of i] this[of "rev i"] none show "SPEC_ID_match i \<Longrightarrow> strip i = i" by (simp add: strip_def)
qed

text \<open>Each module is owned by the artifact graph, or has a native route whose capabilities the target offers.\<close>

lemma validated_routes:
  assumes "validate_module CH policy m = Inr ()" and "m \<in> set (cp_modules p)"
    and "routing_checks p (filter (\<lambda>s. s \<noteq> []) (map aj_owner_module jobs)) = Inr ()"
    and "deterministic_backend_capabilities (to_dict_lock (ms_platform (pp_spec (cp_base_proposal p)))) = Inr caps"
    and "m_module_id m \<notin> set (artifact_owner_module_ids jobs)"
  shows "\<exists>r. module_route (sorted_list_of_set caps) owners m = Inr r"
proof -
  let ?os = "filter (\<lambda>s. s \<noteq> []) (map aj_owner_module jobs)"
  have "SPEC_ID_match (m_module_id m)" using assms(1) by (simp add: validate_module_def)
  then have strip: "strip (m_module_id m) = m_module_id m" by (rule spec_id_stripped)
  have not_owned: "m_module_id m \<notin> set ?os"
  proof
    assume "m_module_id m \<in> set ?os"
    then have "m_module_id m \<in> set (artifact_owner_module_ids jobs)" using strip by (auto simp: artifact_owner_module_ids_def) (metis image_eqI)
    with assms(5) show False by simp
  qed
  then obtain stage where stage: "native_production_stage (m_kind m) (m_config m) = Some stage"
    using assms(2,3) by (auto simp: routing_checks_def list_ex_iff native_production_route_available_def)
  from assms(3,4) obtain bad where bad: "mapM (unsupported_native (PList (map PStr (sorted_list_of_set caps))) ?os) (cp_modules p) = Inr bad"
    "\<not> list_ex id bad" by (auto simp: routing_checks_def)
  then have "unsupported_native (PList (map PStr (sorted_list_of_set caps))) ?os m = Inr False"
    using mapM_Inr_all[OF bad(1) assms(2)] by (auto simp: list_ex_iff)
  then have "missing_production_backend_capabilities (strs (sorted_list_of_set caps)) (m_kind m) = Inr {}"
    using not_owned by (auto simp: unsupported_native_def strs_def split: if_split_asm)
  moreover have "(m_kind m = ''typed_host'') = has_typed_plan m" using assms(1) by (auto simp: validate_module_def has_typed_plan_def Let_def)
  ultimately show ?thesis using stage by (auto simp: module_route_def propagate_def)
qed

lemma validated_compiles:
  assumes "validate_complete CH policy p = Inr ()" and "set ordered = set (cp_modules p)" and "distinct (map m_module_id ordered)"
    and "rh_adapter host p = Inr adapter"
    and "deterministic_backend_capabilities adapter = deterministic_backend_capabilities (to_dict_lock (ms_platform (pp_spec (cp_base_proposal p))))"
    and "artifact_jobs (cp_game_design p) = Inr jobs" and "canonical_client_entrypoints (rh_spec_input host) jobs = Inr entrypoints"
  shows "\<exists>routing. compile_production_routing rt host p (Some ordered) = Inr routing"
proof -
  from validated_modules[OF assms(1)] obtain js where modules: "\<And>m. m \<in> set (cp_modules p) \<Longrightarrow> validate_module CH policy m = Inr ()"
    and js: "artifact_jobs (cp_game_design p) = Inr js" "routing_checks p (filter (\<lambda>s. s \<noteq> []) (map aj_owner_module js)) = Inr ()"
    using design_jobs_routed by metis
  have routing: "routing_checks p (filter (\<lambda>s. s \<noteq> []) (map aj_owner_module jobs)) = Inr ()" using js assms(6) by simp
  then obtain caps where caps: "deterministic_backend_capabilities (to_dict_lock (ms_platform (pp_spec (cp_base_proposal p)))) = Inr caps"
    by (auto simp: routing_checks_def)
  let ?ids = "map m_module_id ordered"
  define owners where "owners = filter (\<lambda>x. x \<in> set ?ids) (artifact_owner_module_ids jobs)"
  define available where "available = (if list_ex (\<lambda>i. i \<notin> set owners) ?ids then sorted_list_of_set caps else [])"
  have "\<exists>r. module_route available owners m = Inr r" if m: "m \<in> set ordered" for m
  proof (cases "m_module_id m \<in> set owners")
    case False
    then have "available = sorted_list_of_set caps" "m_module_id m \<notin> set (artifact_owner_module_ids jobs)"
      using m by (auto simp: available_def owners_def list_ex_iff)
    with validated_routes[OF modules _ routing caps] m assms(2) show ?thesis by simp
  qed (simp add: module_route_def)
  then obtain routes where "mapM (module_route available owners) ordered = Inr routes" using mapM_all_Inr by metis
  moreover have "(if list_ex (\<lambda>i. i \<notin> set owners) ?ids
                then rbind (propagate (rh_adapter host p)) (\<lambda>adapter.
                       rbind (propagate (deterministic_backend_capabilities adapter)) (\<lambda>caps. Inr (sorted_list_of_set caps)))
                else Inr []) = Inr available"
    using assms(4,5) caps by (simp add: available_def propagate_def)
  ultimately show ?thesis using assms(3,6,7) by (simp add: compile_production_routing_def Let_def owners_def propagate_def)
qed

end
