(* ===== verification/Approval.thy ===== *)
theory Approval
  imports Complete_Spec
begin

text \<open>
  The approval of proposals. Both kinds of proposal keep one contract, the locale \<open>approval_gate\<close>: approving needs a
  valid proposal and the hash of its payload, and a valid proposal that records a hash records that of its payload.
  It follows that an approved proposal stays valid, and that two valid proposals with the same recorded hash have
  the same content unless SHA-256 collides.
\<close>

section \<open>Payloads\<close>

text \<open>A payload with data classes and enumeration members replaced by what is written for them.\<close>

primrec plain :: "jval \<Rightarrow> jval" where
  "plain JNull = JNull"
| "plain (JBool b) = JBool b"
| "plain (JInt i) = JInt i"
| "plain (JFloat r) = JFloat r"
| "plain (JStr s) = JStr s"
| "plain (JList xs) = JList (map plain xs)"
| "plain (JObj d) = JObj (map (map_prod id plain) d)"
| "plain (JEnum v) = plain v"
| "plain (JData fs) = JObj (map (map_prod id plain) fs)"
| "plain JMixed = JMixed"
| "plain JOther = JOther"

lemma mapM_map: "mapM f (map g xs) = mapM (\<lambda>x. f (g x)) xs"
  by (induction xs) simp_all

lemma iter_items_plain:
  assumes "\<And>k v. (k, v) \<in> set d \<Longrightarrow> iter_value (plain v) = iter_value v"
  shows "mapM (\<lambda>(k, v). rbind (iter_json_string k) (\<lambda>ks. rbind (iter_value v) (\<lambda>vs. Inr (ks @ [[0x3A]] @ vs))))
      (sort_key fst (map (map_prod id plain) d)) =
    mapM (\<lambda>(k, v). rbind (iter_json_string k) (\<lambda>ks. rbind (iter_value v) (\<lambda>vs. Inr (ks @ [[0x3A]] @ vs)))) (sort_key fst d)"
  unfolding sort_map_prod mapM_map by (rule mapM_cong) (use assms in auto)

lemma iter_value_plain: "iter_value (plain v) = iter_value v"
proof (induction v)
  case (JList xs)
  have "mapM iter_value (map plain xs) = mapM iter_value xs" unfolding mapM_map by (rule mapM_cong) (use JList in auto)
  then show ?case by simp
next
  case (JObj d)
  have "mapM (\<lambda>(k, v). rbind (iter_json_string k) (\<lambda>ks. rbind (iter_value v) (\<lambda>vs. Inr (ks @ [[0x3A]] @ vs))))
      (sort_key fst (map (map_prod id plain) d)) =
    mapM (\<lambda>(k, v). rbind (iter_json_string k) (\<lambda>ks. rbind (iter_value v) (\<lambda>vs. Inr (ks @ [[0x3A]] @ vs)))) (sort_key fst d)"
    by (rule iter_items_plain) (use JObj in auto)
  then show ?case by simp
next
  case (JData d)
  have "mapM (\<lambda>(k, v). rbind (iter_json_string k) (\<lambda>ks. rbind (iter_value v) (\<lambda>vs. Inr (ks @ [[0x3A]] @ vs))))
      (sort_key fst (map (map_prod id plain) d)) =
    mapM (\<lambda>(k, v). rbind (iter_json_string k) (\<lambda>ks. rbind (iter_value v) (\<lambda>vs. Inr (ks @ [[0x3A]] @ vs)))) (sort_key fst d)"
    by (rule iter_items_plain) (use JData in auto)
  then show ?case by simp
qed simp_all

lemma sha_plain: "canonical_json_sha256 sha (plain v) = canonical_json_sha256 sha v"
  by (simp add: canonical_json_sha256_def iter_canonical_json_def iter_value_plain)

text \<open>Equal up to the order of keys.\<close>

definition same_json :: "jval \<Rightarrow> jval \<Rightarrow> bool" where
  "same_json v w \<longleftrightarrow> sorted_json (plain v) = sorted_json (plain w)"

lemma same_json_simps [simp]:
  "same_json (JStr s) (JStr t) \<longleftrightarrow> s = t" "same_json (JBool a) (JBool b) \<longleftrightarrow> a = b"
  "same_json (JEnum v) w \<longleftrightarrow> same_json v w" "same_json v (JEnum w) \<longleftrightarrow> same_json v w"
  "same_json JNull JNull"
  by (simp_all add: same_json_def)

lemma same_json_list: "same_json (JList (map f xs)) (JList (map g ys)) \<longleftrightarrow> list_all2 (\<lambda>x y. same_json (f x) (g y)) xs ys"
proof -
  have "map (\<lambda>x. sorted_json (plain (f x))) xs = map (\<lambda>y. sorted_json (plain (g y))) ys \<longleftrightarrow>
      list_all2 (\<lambda>x y. sorted_json (plain (f x)) = sorted_json (plain (g y))) xs ys"
    by (simp add: list.rel_eq[symmetric] list.rel_map)
  then show ?thesis by (simp add: same_json_def comp_def)
qed

lemma u_inject [simp]: "u s = u t \<longleftrightarrow> s = t"
  by (metis list.inj_map_strong of_char_eq_iff u_def)

lemma jstr_same [simp]: "same_json (jstr s) (jstr t) \<longleftrightarrow> s = t"
  by (simp add: jstr_def)

lemma jstrs_same [simp]: "same_json (jstrs ss) (jstrs ts) \<longleftrightarrow> ss = ts"
  by (simp add: jstrs_def same_json_list list.rel_eq)

text \<open>Objects with the same distinct keys are equal up to order when they agree on every key.\<close>

lemma sort_fields_eq:
  assumes "distinct (map fst d)" "map fst d = map fst e" "sort_key fst d = sort_key fst e"
  shows "d = e"
proof -
  have sets: "set d = set e" using assms(3) by (metis set_sort)
  have len: "length d = length e" using assms(2) by (metis length_map)
  have "d ! i = e ! i" if i: "i < length d" for i
  proof -
    have fst: "fst (d ! i) = fst (e ! i)" using assms(2) i len by (metis nth_map)
    have "e ! i \<in> set e" using i len by simp
    then have m: "d ! i \<in> set d" "e ! i \<in> set d" using i by (simp_all add: sets[symmetric])
    have "snd (d ! i) = snd (e ! i)"
      by (rule eq_key_imp_eq_value[OF assms(1), of "fst (d ! i)"]) (simp add: m(1), simp add: fst m(2))
    with fst show ?thesis by (rule prod_eqI)
  qed
  with len show ?thesis by (rule nth_equalityI)
qed

lemma same_object:
  assumes "distinct ks" "map fst d = ks" "map fst e = ks"
  shows "same_json (jobject d) (jobject e) \<longleftrightarrow> list_all2 (\<lambda>x y. same_json (snd x) (snd y)) d e"
proof -
  let ?f = "map_prod u (\<lambda>v. sorted_json (plain v))"
  have k: "map fst (map ?f x) = map u (map fst x)" for x by simp
  have keys: "map fst (map ?f d) = map u ks" "map fst (map ?f e) = map u ks" unfolding k assms(2,3) by (rule refl)+
  have distinct: "distinct (map u ks)" using assms(1) by (simp add: distinct_map inj_on_def)
  have "sorted_json (plain (jobject x)) = JObj (sort_key fst (map ?f x))" for x
    by (simp add: jobject_def map_prod.compositionality comp_def)
  then have "same_json (jobject d) (jobject e) \<longleftrightarrow> sort_key fst (map ?f d) = sort_key fst (map ?f e)"
    by (simp add: same_json_def)
  also have "\<dots> \<longleftrightarrow> map ?f d = map ?f e"
    using sort_fields_eq[of "map ?f d" "map ?f e"] keys distinct by auto
  also have "\<dots> \<longleftrightarrow> list_all2 (\<lambda>x y. ?f x = ?f y) d e" by (simp add: list.rel_eq[symmetric] list.rel_map)
  also have "\<dots> \<longleftrightarrow> list_all2 (\<lambda>x y. same_json (snd x) (snd y)) d e"
  proof -
    have "fst (d ! i) = fst (e ! i)" if "i < length d" "i < length e" for i
      using assms(2,3) that by (metis nth_map)
    then show ?thesis by (auto simp: list_all2_conv_all_nth same_json_def map_prod_def case_prod_beta)
  qed
  finally show ?thesis .
qed

lemma same_data:
  assumes "distinct ks" "map fst d = ks" "map fst e = ks"
  shows "same_json (jdata d) (jdata e) \<longleftrightarrow> list_all2 (\<lambda>x y. same_json (snd x) (snd y)) d e"
proof -
  have "plain (jdata x) = plain (jobject x)" for x by (simp add: jdata_def jobject_def)
  then show ?thesis using same_object[OF assms] by (simp add: same_json_def)
qed

definition same_value :: "pyval \<Rightarrow> pyval \<Rightarrow> bool" where
  "same_value v w \<longleftrightarrow> same_json (py_json v) (py_json w)"

definition scalar_value :: "pyval \<Rightarrow> bool" where
  "scalar_value v \<longleftrightarrow> (case v of PList _ \<Rightarrow> False | PDict _ \<Rightarrow> False | _ \<Rightarrow> True)"

lemma same_scalar: "scalar_value v \<Longrightarrow> same_value v w \<Longrightarrow> v = w"
  by (cases v; cases w) (simp_all add: scalar_value_def same_value_def same_json_def)

lemma same_scalar_iff: "scalar_value v \<Longrightarrow> same_value v w \<longleftrightarrow> v = w"
  using same_scalar by (auto simp: same_value_def same_json_def)

lemma same_value_str [simp]: "same_value (PStr s) (PStr t) \<longleftrightarrow> s = t"
  by (simp add: same_value_def)

lemma same_value_strs [simp]: "same_value (PList (map PStr ss)) (PList (map PStr ts)) \<longleftrightarrow> ss = ts"
  using same_json_list[of "\<lambda>s. JStr (u s)" ss "\<lambda>s. JStr (u s)" ts] by (simp add: same_value_def comp_def list.rel_eq)

lemma same_dict_data:
  assumes "distinct ks" "map fst d = ks" "map fst e = ks"
  shows "same_json (dict_data d) (dict_data e) \<longleftrightarrow> list_all2 (\<lambda>x y. same_value (snd x) (snd y)) d e"
  unfolding dict_data_def same_value_def
  using same_data[OF assms(1), of "map (map_prod id py_json) d" "map (map_prod id py_json) e"] assms(2,3)
  by (simp add: comp_def list.rel_map)

section \<open>The gate\<close>

definition payload_hash :: "(bytes \<Rightarrow> string) \<Rightarrow> jval \<Rightarrow> string result" where
  "payload_hash sha v = stream_result (canonical_json_sha256 sha v)"

lemma payload_hash_wf:
  assumes "wf_json fr (plain v)"
  shows "payload_hash sha v = Inr (''sha256:'' @ sha (canonical_bytes (plain v)))"
  using sha_of_text[OF assms, of sha] canonical_bytes_text[OF assms] by (simp add: payload_hash_def stream_result_def sha_plain)

lemma payload_hash_binds:
  assumes "wf_json fr (plain v)" "wf_json fr (plain w)" "inj_on sha {canonical_bytes (plain v), canonical_bytes (plain w)}"
    and "payload_hash sha v = payload_hash sha w"
  shows "same_json v w"
proof -
  have "sha (canonical_bytes (plain v)) = sha (canonical_bytes (plain w))"
    using assms(4) payload_hash_wf[OF assms(1), of sha] payload_hash_wf[OF assms(2), of sha] by simp
  then have "canonical_bytes (plain v) = canonical_bytes (plain w)" by (rule inj_onD[OF assms(3)]) simp_all
  then show ?thesis
    using text_injective[OF wf_sorted[OF assms(1)] wf_sorted[OF assms(2)]] canonical_bytes_text[OF assms(1)] canonical_bytes_text[OF assms(2)]
    by (simp add: same_json_def)
qed

lemma SHA256_prefix: "hex64_match h \<Longrightarrow> SHA256_match (''sha256:'' @ h)"
  by (simp add: SHA256_match_def startswith_def)

lemma approval_check_Inr:
  "approval_check h f = Inr () \<longleftrightarrow> h = [] \<or> (SHA256_match h \<and> f () = Inr h)"
  by (auto simp: approval_check_def)

locale approval_gate =
  fixes validate :: "'p \<Rightarrow> unit result" and payload :: "'p \<Rightarrow> jval" and sha :: "bytes \<Rightarrow> string"
    and recorded :: "'p \<Rightarrow> string" and seal :: "string \<Rightarrow> 'p \<Rightarrow> 'p"
  assumes seal_payload: "payload (seal h p) = payload p"
    and seal_recorded: "recorded (seal h p) = h"
    and seal_valid: "validate p = Inr () \<Longrightarrow> payload_hash sha (payload p) = Inr h \<Longrightarrow> SHA256_match h \<Longrightarrow> validate (seal h p) = Inr ()"
    and valid_recorded: "validate p = Inr () \<Longrightarrow> recorded p \<noteq> [] \<Longrightarrow> payload_hash sha (payload p) = Inr (recorded p)"
begin

lemma sealed:
  assumes "validate p = Inr ()" "payload_hash sha (payload p) = Inr h" "SHA256_match h"
  shows "validate (seal h p) = Inr () \<and> recorded (seal h p) = h \<and> payload_hash sha (payload (seal h p)) = Inr h"
  using seal_valid[OF assms] assms(2) by (simp add: seal_recorded seal_payload)

lemma same_record_same_payload:
  assumes "validate p = Inr ()" "validate q = Inr ()" "recorded p \<noteq> []" "recorded p = recorded q"
    and "wf_json fr (plain (payload p))" "wf_json fr (plain (payload q))"
    and "inj_on sha {canonical_bytes (plain (payload p)), canonical_bytes (plain (payload q))}"
  shows "same_json (payload p) (payload q)"
  using payload_hash_binds[OF assms(5-7)] valid_recorded[OF assms(1,3)] valid_recorded[OF assms(2)] assms(3,4) by simp

end

interpretation base_gate: approval_gate "validate_proposal H" hash_payload "sh_sha H" pp_approval_hash
    "\<lambda>h p. p\<lparr>pp_status := APPROVED, pp_approval_hash := h\<rparr>" for H
proof unfold_locales
  fix h p
  show "hash_payload (p\<lparr>pp_status := APPROVED, pp_approval_hash := h\<rparr>) = hash_payload p"
    by (simp add: hash_payload_def proposal_fields_def)
next
  fix h p
  show "pp_approval_hash (p\<lparr>pp_status := APPROVED, pp_approval_hash := h\<rparr>) = h" by simp
next
  fix h p assume "validate_proposal H p = Inr ()" "payload_hash (sh_sha H) (hash_payload p) = Inr h" "SHA256_match h"
  moreover have "h \<noteq> []" using \<open>SHA256_match h\<close> by (auto simp: SHA256_match_def startswith_def)
  moreover have "calculate_hash H (p\<lparr>pp_status := APPROVED, pp_approval_hash := h\<rparr>) = payload_hash (sh_sha H) (hash_payload p)"
    by (simp add: calculate_hash_def payload_hash_def hash_payload_def proposal_fields_def)
  ultimately show "validate_proposal H (p\<lparr>pp_status := APPROVED, pp_approval_hash := h\<rparr>) = Inr ()"
    by (simp add: validate_proposal_def approval_check_Inr)
next
  fix p assume "validate_proposal H p = Inr ()" "pp_approval_hash p \<noteq> []"
  then show "payload_hash (sh_sha H) (hash_payload p) = Inr (pp_approval_hash p)"
    by (simp add: validate_proposal_def approval_check_Inr calculate_hash_def payload_hash_def)
qed

lemma seal_checks:
  "context_checks CH (p\<lparr>cp_status := s, cp_approval_hash := h\<rparr>) = context_checks CH p"
  "routing_checks (p\<lparr>cp_status := s, cp_approval_hash := h\<rparr>) owners = routing_checks p owners"
  "contract_check CH (p\<lparr>cp_status := s, cp_approval_hash := h\<rparr>) = contract_check CH p"
  by (simp_all add: context_checks_def artifact_binding_keys_def routing_checks_def contract_check_def cong: pyval.case_cong if_cong)

interpretation complete_gate: approval_gate "validate_complete CH policy" "\<lambda>p. jobject (complete_fields p)" "sh_sha (ch_spec CH)" cp_approval_hash
    "\<lambda>h p. p\<lparr>cp_status := APPROVED, cp_approval_hash := h\<rparr>" for CH policy
proof unfold_locales
  fix h p
  show "jobject (complete_fields (p\<lparr>cp_status := APPROVED, cp_approval_hash := h\<rparr>)) = jobject (complete_fields p)"
    by (simp add: complete_fields_def)
next
  fix h p
  show "cp_approval_hash (p\<lparr>cp_status := APPROVED, cp_approval_hash := h\<rparr>) = h" by simp
next
  fix h p assume "validate_complete CH policy p = Inr ()" "payload_hash (sh_sha (ch_spec CH)) (jobject (complete_fields p)) = Inr h" "SHA256_match h"
  moreover have "h \<noteq> []" using \<open>SHA256_match h\<close> by (auto simp: SHA256_match_def startswith_def)
  moreover have "complete_hash CH (p\<lparr>cp_status := APPROVED, cp_approval_hash := h\<rparr>) = payload_hash (sh_sha (ch_spec CH)) (jobject (complete_fields p))"
    by (simp add: complete_hash_def payload_hash_def complete_fields_def)
  ultimately show "validate_complete CH policy (p\<lparr>cp_status := APPROVED, cp_approval_hash := h\<rparr>) = Inr ()"
    by (simp add: validate_complete_def approval_check_Inr seal_checks) blast
next
  fix p assume "validate_complete CH policy p = Inr ()" "cp_approval_hash p \<noteq> []"
  then show "payload_hash (sh_sha (ch_spec CH)) (jobject (complete_fields p)) = Inr (cp_approval_hash p)"
    by (simp add: validate_complete_def approval_check_Inr complete_hash_def payload_hash_def) blast
qed

section \<open>What a hash determines\<close>

lemma list_all2_eqI:
  "list_all2 P xs ys \<Longrightarrow> (\<And>x y. x \<in> set xs \<Longrightarrow> P x y \<Longrightarrow> x = y) \<Longrightarrow> xs = ys"
  by (induction rule: list_all2_induct) auto

lemma same_source:
  assumes "same_json (dict_data (asdict_source s)) (dict_data (asdict_source t))"
  shows "s = t"
proof -
  have "list_all2 (\<lambda>x y. same_value (snd x) (snd y)) (asdict_source s) (asdict_source t)"
    using assms by (subst (asm) same_dict_data) (auto simp: asdict_source_def)
  then show ?thesis by (simp add: asdict_source_def)
qed

lemma same_deferred:
  assumes "same_json (dict_data (asdict_deferred s)) (dict_data (asdict_deferred t))"
  shows "s = t"
proof -
  have "list_all2 (\<lambda>x y. same_value (snd x) (snd y)) (asdict_deferred s) (asdict_deferred t)"
    using assms by (subst (asm) same_dict_data) (auto simp: asdict_deferred_def)
  then show ?thesis by (simp add: asdict_deferred_def)
qed

lemma same_content:
  assumes "validate_content c = Inr ()" "same_json (content_data c) (content_data d)"
  shows "c = d"
proof -
  have "same_json (py_json (cs_recipe c)) (py_json (cs_recipe d)) \<and> content_kind_value (cs_kind c) = content_kind_value (cs_kind d) \<and>
      cs_content_id c = cs_content_id d \<and> cs_display_name_en c = cs_display_name_en d \<and> cs_display_name_ko c = cs_display_name_ko d \<and>
      cs_color c = cs_color d"
    using assms(2) unfolding content_data_def by (subst (asm) same_data) auto
  moreover have "scalar_value (cs_recipe c)"
    using assms(1) by (auto simp: validate_content_def is_bool_def scalar_value_def split: pyval.splits)
  then have "same_json (py_json (cs_recipe c)) (py_json (cs_recipe d)) \<Longrightarrow> cs_recipe c = cs_recipe d"
    using same_scalar by (auto simp: same_value_def)
  moreover have "content_kind_value a = content_kind_value b \<Longrightarrow> a = b" for a b by (cases a; cases b) auto
  ultimately show ?thesis by simp
qed

lemma is_number_scalar: "is_number v \<Longrightarrow> scalar_value v"
  by (cases v) (auto simp: scalar_value_def)

lemma boss_number_scalar: "boss_number v = Inr () \<Longrightarrow> scalar_value v"
  by (auto simp: boss_number_def is_number_scalar Let_def split: if_splits)

lemma same_boss:
  assumes "validate_boss b = Inr ()" "same_json (dict_data (asdict_boss b)) (dict_data (asdict_boss c))"
  shows "b = c"
proof -
  have "list_all2 (\<lambda>x y. same_value (snd x) (snd y)) (asdict_boss b) (asdict_boss c)"
    using assms(2) by (subst (asm) same_dict_data) (auto simp: asdict_boss_def)
  moreover have "scalar_value (bs_max_health b)" "scalar_value (bs_attack_damage b)" "scalar_value (bs_movement_speed b)" "scalar_value (bs_scale b)"
    using assms(1) by (auto simp: validate_boss_def intro: boss_number_scalar)
  ultimately show ?thesis by (simp add: asdict_boss_def same_scalar_iff)
qed

lemma blank_scalar: "blank_value v \<Longrightarrow> scalar_value v"
  by (cases v) (auto simp: blank_value_def scalar_value_def py_eq_scalar_def)

lemma lock_format_scalar:
  assumes "validate_lock H k = Inr ()"
  shows "scalar_value (pk_resource_pack_format k)"
proof (cases "extended_present k")
  case True
  then have "receipt_pack_checks k = Inr ()" using assms by (auto simp: validate_lock_def validate_execution_receipt_def)
  then show ?thesis by (auto simp: receipt_pack_checks_def scalar_value_def split: pyval.splits)
next
  case False
  then have "\<not> field_present k ''resource_pack_format''" by (simp add: extended_present_def PLATFORM_EXTENDED_FIELDS_def)
  then show ?thesis by (intro blank_scalar) (simp add: field_present_def platform_receipt_value_def to_dict_lock_def has_key_def dget_def)
qed

lemma same_lock:
  assumes "validate_lock H k = Inr ()" "same_json (dict_data (to_dict_lock k)) (dict_data (to_dict_lock l))"
  shows "k = l"
proof -
  have "list_all2 (\<lambda>x y. same_value (snd x) (snd y)) (to_dict_lock k) (to_dict_lock l)"
    using assms(2) by (subst (asm) same_dict_data) (auto simp: to_dict_lock_def)
  with lock_format_scalar[OF assms(1)] show ?thesis by (simp add: to_dict_lock_def same_scalar_iff)
qed

lemma content_steps_valid:
  assumes "foldM content_step seen cs = Inr seen'" "c \<in> set cs"
  shows "validate_content c = Inr ()"
  using assms by (induction cs arbitrary: seen) (auto simp: content_step_def)

lemma same_spec:
  assumes "validate_spec H s = Inr ()" "same_json (spec_data s) (spec_data t)"
  shows "s = t"
proof -
  let ?boss = "\<lambda>b. case b of None \<Rightarrow> JNull | Some b \<Rightarrow> dict_data (asdict_boss b)"
  have eqs: "same_json (?boss (ms_boss s)) (?boss (ms_boss t)) \<and> same_json (dict_data (to_dict_lock (ms_platform s))) (dict_data (to_dict_lock (ms_platform t))) \<and>
      list_all2 (\<lambda>c d. same_json (content_data c) (content_data d)) (ms_contents s) (ms_contents t) \<and>
      ms_mod_id s = ms_mod_id t \<and> ms_mod_name s = ms_mod_name t \<and> ms_package_name s = ms_package_name t \<and> ms_version s = ms_version t \<and>
      ms_summary s = ms_summary t"
    using assms(2) unfolding spec_data_def by (subst (asm) same_data) (auto simp: same_json_list)
  have "ms_platform s = ms_platform t" using assms(1) eqs by (intro same_lock[of H]) (auto simp: validate_spec_def)
  moreover have "ms_contents s = ms_contents t"
  proof (rule list_all2_eqI)
    show "list_all2 (\<lambda>c d. same_json (content_data c) (content_data d)) (ms_contents s) (ms_contents t)" using eqs by blast
    fix c d assume "c \<in> set (ms_contents s)" "same_json (content_data c) (content_data d)"
    then show "c = d" using assms(1) by (intro same_content) (auto simp: validate_spec_def intro: content_steps_valid)
  qed
  moreover have "ms_boss s = ms_boss t"
  proof (cases "ms_boss s")
    case None
    with eqs show ?thesis by (cases "ms_boss t") (auto simp: same_json_def dict_data_def jdata_def)
  next
    case (Some b)
    with eqs obtain c where c: "ms_boss t = Some c" by (cases "ms_boss t") (auto simp: same_json_def dict_data_def jdata_def)
    have "validate_boss b = Inr ()" using assms(1) Some by (auto simp: validate_spec_def boss_checks_def)
    with eqs Some c show ?thesis using same_boss by auto
  qed
  ultimately show ?thesis using eqs by simp
qed

lemma same_proposal:
  assumes "validate_proposal H p = Inr ()" "same_json (hash_payload p) (hash_payload q)"
  shows "p\<lparr>pp_status := pp_status q, pp_approval_hash := pp_approval_hash q\<rparr> = q"
proof -
  have eqs: "pp_schema_version p = pp_schema_version q \<and> same_json (py_json (pp_proposal_version p)) (py_json (pp_proposal_version q)) \<and>
      pp_requested_prompt p = pp_requested_prompt q \<and> same_json (spec_data (pp_spec p)) (spec_data (pp_spec q)) \<and>
      pp_assumptions p = pp_assumptions q \<and> pp_exclusions p = pp_exclusions q \<and>
      list_all2 (\<lambda>a b. same_json (dict_data (asdict_deferred a)) (dict_data (asdict_deferred b))) (pp_deferred_requests p) (pp_deferred_requests q) \<and>
      pp_acceptance_tests p = pp_acceptance_tests q \<and>
      list_all2 (\<lambda>a b. same_json (dict_data (asdict_source a)) (dict_data (asdict_source b))) (pp_evidence_sources p) (pp_evidence_sources q) \<and>
      pp_evidence_snapshot_hash p = pp_evidence_snapshot_hash q \<and> pp_capability_manifest_hash p = pp_capability_manifest_hash q \<and>
      pp_imported_source_snapshot_hash p = pp_imported_source_snapshot_hash q \<and> pp_risk_approvals p = pp_risk_approvals q"
    using assms(2) unfolding hash_payload_def proposal_fields_def by (subst (asm) same_object) (auto simp: same_json_list)
  have "pp_spec p = pp_spec q" using assms(1) eqs by (intro same_spec[of H]) (auto simp: validate_proposal_def)
  moreover have "pp_deferred_requests p = pp_deferred_requests q" using eqs by (blast intro: list_all2_eqI same_deferred)
  moreover have "pp_evidence_sources p = pp_evidence_sources q" using eqs by (blast intro: list_all2_eqI same_source)
  moreover have "scalar_value (pp_proposal_version p)"
    using assms(1) by (auto simp: validate_proposal_def positive_int_value_def scalar_value_def split: pyval.splits)
  then have "pp_proposal_version p = pp_proposal_version q" using eqs same_scalar by (simp add: same_value_def)
  ultimately show ?thesis using eqs by simp
qed

section \<open>Properties\<close>

lemma hash_shape: "stream_result (canonical_json_sha256 sha v) = Inr h \<Longrightarrow> \<exists>b. h = ''sha256:'' @ sha b"
  by (auto simp: stream_result_def canonical_json_sha256_def split: sum.splits json_error.splits)

lemma payload_hash_SHA256: "(\<And>b. hex64_match (sha b)) \<Longrightarrow> payload_hash sha v = Inr h \<Longrightarrow> SHA256_match h"
  using hash_shape[of sha v h] SHA256_prefix by (auto simp: payload_hash_def)

lemma complete_approve_stable:
  assumes "\<And>b. hex64_match (sh_sha (ch_spec CH) b)" "complete_approve CH policy p h = Inr q"
  shows "validate_complete CH policy q = Inr () \<and> cp_status q = APPROVED \<and> cp_approval_hash q = h \<and> complete_hash CH p = Inr h \<and>
      complete_approve CH policy q h = Inr q"
proof -
  from assms(2) have p: "validate_complete CH policy p = Inr ()" "payload_hash (sh_sha (ch_spec CH)) (jobject (complete_fields p)) = Inr h"
    and q: "q = p\<lparr>cp_status := APPROVED, cp_approval_hash := h\<rparr>"
    by (auto simp: complete_approve_def complete_hash_def payload_hash_def split: if_splits)
  show ?thesis using complete_gate.sealed[OF p payload_hash_SHA256[OF assms(1) p(2)]] p(2)
    by (simp add: q complete_approve_def complete_hash_def payload_hash_def)
qed

lemma approve_stable:
  assumes "\<And>b. hex64_match (sh_sha H b)" "approve H p h = Inr q"
  shows "validate_proposal H q = Inr () \<and> pp_status q = APPROVED \<and> pp_approval_hash q = h \<and> calculate_hash H p = Inr h \<and> approve H q h = Inr q"
proof -
  from assms(2) have p: "validate_proposal H p = Inr ()" "payload_hash (sh_sha H) (hash_payload p) = Inr h"
    and q: "q = p\<lparr>pp_status := APPROVED, pp_approval_hash := h\<rparr>"
    by (auto simp: approve_def calculate_hash_def payload_hash_def split: if_splits)
  show ?thesis using base_gate.sealed[OF p payload_hash_SHA256[OF assms(1) p(2)]] p(2)
    by (simp add: q approve_def calculate_hash_def payload_hash_def)
qed

text \<open>C23. An approved proposal is a valid proposal: approving succeeds only with the hash of the payload, and the
  approved proposal passes every check again, records that hash, and approving it again changes nothing. This
  holds of base proposals and of complete proposals.\<close>

theorem approval_is_stable:
  assumes "\<And>b. hex64_match (sh_sha (ch_spec CH) b)"
  shows "(complete_approve CH policy p h = Inr q \<longrightarrow>
      validate_complete CH policy q = Inr () \<and> cp_status q = APPROVED \<and> cp_approval_hash q = h \<and> complete_hash CH p = Inr h \<and>
      complete_approve CH policy q h = Inr q) \<and>
    (approve (ch_spec CH) bp h = Inr bq \<longrightarrow>
      validate_proposal (ch_spec CH) bq = Inr () \<and> pp_status bq = APPROVED \<and> pp_approval_hash bq = h \<and>
      calculate_hash (ch_spec CH) bp = Inr h \<and> approve (ch_spec CH) bq h = Inr bq)"
  using complete_approve_stable[OF assms] approve_stable[OF assms] by blast

text \<open>The approval hash determines the proposal: two valid proposals that record the same hash are equal except for
  their status, unless SHA-256 collides on their payloads.\<close>

theorem approval_determines_proposal:
  assumes "validate_proposal H p = Inr ()" and "validate_proposal H q = Inr ()"
    and "pp_approval_hash p \<noteq> []" and "pp_approval_hash p = pp_approval_hash q"
    and "wf_json fr (plain (hash_payload p))" and "wf_json fr (plain (hash_payload q))"
    and "inj_on (sh_sha H) {canonical_bytes (plain (hash_payload p)), canonical_bytes (plain (hash_payload q))}"
  shows "q = p\<lparr>pp_status := pp_status q\<rparr>"
proof -
  have "p\<lparr>pp_status := pp_status q, pp_approval_hash := pp_approval_hash p\<rparr> = q"
    using same_proposal[OF assms(1) base_gate.same_record_same_payload[OF assms]] unfolding assms(4) .
  then show ?thesis by (cases p) simp
qed

text \<open>Modules with equal configuration up to the order of keys.\<close>

definition same_module :: "ProductionModule \<Rightarrow> ProductionModule \<Rightarrow> bool" where
  "same_module m n \<longleftrightarrow> m_module_id m = m_module_id n \<and> m_kind m = m_kind n \<and> m_depends_on m = m_depends_on n \<and>
     m_required_gates m = m_required_gates n \<and> same_value (PDict (m_config m)) (PDict (m_config n))"

lemma same_module_data: "same_json (dict_data (module_dict m)) (dict_data (module_dict n)) \<longleftrightarrow> same_module m n"
proof -
  have "same_json (dict_data (module_dict m)) (dict_data (module_dict n)) \<longleftrightarrow>
      list_all2 (\<lambda>x y. same_value (snd x) (snd y)) (module_dict m) (module_dict n)"
    by (rule same_dict_data) (auto simp: module_dict_def)
  then show ?thesis by (auto simp: module_dict_def same_module_def)
qed

lemma same_base:
  assumes "validate_proposal H p = Inr ()" "same_json (proposal_data p) (proposal_data q)"
  shows "p = q"
proof -
  define fields where "fields r = AList.update ''status'' (JEnum (jstr (status_value (pp_status r))))
     (AList.update ''approval_hash'' (jstr (pp_approval_hash r)) (proposal_fields r))" for r
  have "list_all2 (\<lambda>x y. same_json (snd x) (snd y)) (fields p) (fields q)"
    using assms(2) unfolding proposal_data_def fields_def[symmetric]
    by (subst (asm) same_data[of "map fst (fields p)"]) (simp_all add: fields_def proposal_fields_def)
  then have eq: "list_all2 (\<lambda>x y. same_json (snd x) (snd y)) (proposal_fields p) (proposal_fields q)"
    "status_value (pp_status p) = status_value (pp_status q)" "pp_approval_hash p = pp_approval_hash q"
    by (simp_all add: fields_def proposal_fields_def)
  have "same_json (hash_payload p) (hash_payload q)"
    unfolding hash_payload_def using eq(1) by (subst same_object[of "map fst (proposal_fields p)"]) (simp_all add: proposal_fields_def)
  note same = same_proposal[OF assms(1) this]
  have "pp_status p = pp_status q" using eq(2) by (cases "pp_status p"; cases "pp_status q") auto
  with same eq(3) show ?thesis by (cases p) auto
qed

text \<open>C22. The approval hash determines the complete proposal: two valid complete proposals that record the same hash
  have the same base proposal, prompt, assets and tests, the same modules and the same game design, where the
  dictionaries of game design and module configurations agree up to the order of keys, unless SHA-256 collides on
  their payloads.\<close>

theorem approval_determines_complete_proposal:
  assumes "validate_complete CH policy p = Inr ()" and "validate_complete CH policy q = Inr ()"
    and "cp_approval_hash p \<noteq> []" and "cp_approval_hash p = cp_approval_hash q"
    and "wf_json fr (plain (jobject (complete_fields p)))" and "wf_json fr (plain (jobject (complete_fields q)))"
    and "inj_on (sh_sha (ch_spec CH)) {canonical_bytes (plain (jobject (complete_fields p))), canonical_bytes (plain (jobject (complete_fields q)))}"
  shows "cp_base_proposal p = cp_base_proposal q \<and> list_all2 same_module (cp_modules p) (cp_modules q) \<and>
    same_value (PDict (cp_game_design p)) (PDict (cp_game_design q)) \<and>
    q = p\<lparr>cp_status := cp_status q, cp_modules := cp_modules q, cp_game_design := cp_game_design q\<rparr>"
proof -
  note same = complete_gate.same_record_same_payload[OF assms]
  have eqs: "cp_schema_version p = cp_schema_version q \<and> same_json (py_json (cp_proposal_version p)) (py_json (cp_proposal_version q)) \<and>
      cp_requested_prompt p = cp_requested_prompt q \<and> same_json (proposal_data (cp_base_proposal p)) (proposal_data (cp_base_proposal q)) \<and>
      same_json (py_json (PDict (cp_game_design p))) (py_json (PDict (cp_game_design q))) \<and>
      list_all2 same_module (cp_modules p) (cp_modules q) \<and> cp_acceptance_tests p = cp_acceptance_tests q \<and>
      cp_external_runtime_required p = cp_external_runtime_required q \<and> cp_existing_input_sha256 p = cp_existing_input_sha256 q"
    using same unfolding complete_fields_def by (subst (asm) same_object) (auto simp: same_json_list same_module_data simp del: py_json.simps)
  have "scalar_value (cp_proposal_version p)"
    using assms(1) by (auto simp: validate_complete_def positive_int_value_def scalar_value_def split: pyval.splits)
  then have version: "cp_proposal_version p = cp_proposal_version q" using eqs same_scalar by (simp add: same_value_def)
  have "validate_proposal (ch_spec CH) (cp_base_proposal p) = Inr ()" using assms(1) by (simp add: validate_complete_def)
  then have base: "cp_base_proposal p = cp_base_proposal q" using eqs same_base by blast
  have "cp_assets p = []" "cp_assets q = []" using assms(1,2) by (auto simp: validate_complete_def)
  with eqs version base assms(4) show ?thesis by (simp add: same_value_def)
qed

end
