(* ===== verification/Evidence_Properties.thy ===== *)
theory Evidence_Properties
  imports Evidence_Catalog
begin

text \<open>
  The evidence of a proposal can be trusted: the check accepts exactly the sources of the catalogue, and the
  selection for a target always succeeds with sources the check accepts.
\<close>

section \<open>The catalogue\<close>

lemma catalogue_checked:
  "list_all (\<lambda>r. https_host OFFICIAL_EVIDENCE_HOSTS (cr_url r) = Inr True \<and> cr_minecraft_versions r = [''*'']) CATALOG_RECORDS"
  by code_simp

lemma catalogue_ids: "distinct (map cr_source_id CATALOG_RECORDS)"
  by code_simp

lemma trusted_by_id_iff: "trusted_by_id i = Some r \<longleftrightarrow> r \<in> set CATALOG_RECORDS \<and> cr_source_id r = i"
proof -
  have "distinct (map fst (rev (map (\<lambda>r. (cr_source_id r, r)) CATALOG_RECORDS)))"
    using catalogue_ids by (simp add: rev_map[symmetric] comp_def)
  then show ?thesis unfolding trusted_by_id_def by (subst map_of_eq_Some_iff) auto
qed

lemma catalogue_applies: "r \<in> set CATALOG_RECORDS \<Longrightarrow> applies r v"
  using catalogue_checked by (auto simp: applies_def list_all_iff split: option.splits)

lemma as_evidence_sel [simp]:
  "es_source_id (as_evidence rt r) = cr_source_id r" "es_url (as_evidence rt r) = cr_url r"
  "es_retrieval_policy (as_evidence rt r) = ''data_only''" "es_trust_tier (as_evidence rt r) = ''official_primary''"
  by (simp_all add: as_evidence_def)

lemma trusted_source_iff:
  "trusted_source rt v seen s = Inr seen' \<longleftrightarrow>
     es_source_id s \<notin> set seen \<and> s \<in> as_evidence rt ` set CATALOG_RECORDS \<and> seen' = es_source_id s # seen"
proof
  assume "trusted_source rt v seen s = Inr seen'"
  then obtain r where "es_source_id s \<notin> set seen" "trusted_by_id (es_source_id s) = Some r" "s = as_evidence rt r" "seen' = es_source_id s # seen"
    unfolding trusted_source_def by (cases "trusted_by_id (es_source_id s)") (simp_all split: if_split_asm)
  then show "es_source_id s \<notin> set seen \<and> s \<in> as_evidence rt ` set CATALOG_RECORDS \<and> seen' = es_source_id s # seen"
    by (simp add: trusted_by_id_iff)
next
  assume *: "es_source_id s \<notin> set seen \<and> s \<in> as_evidence rt ` set CATALOG_RECORDS \<and> seen' = es_source_id s # seen"
  then obtain r where r: "r \<in> set CATALOG_RECORDS" "s = as_evidence rt r" by blast
  then have "trusted_by_id (es_source_id s) = Some r" "https_host OFFICIAL_EVIDENCE_HOSTS (es_url s) = Inr True"
    using catalogue_checked by (auto simp: trusted_by_id_iff list_all_iff)
  with * r catalogue_applies[OF r(1)] show "trusted_source rt v seen s = Inr seen'" by (simp add: trusted_source_def)
qed

lemma trusted_sources_iff:
  "(\<exists>seen'. foldM (trusted_source rt v) seen sources = Inr seen') \<longleftrightarrow>
     distinct (map es_source_id sources) \<and> set (map es_source_id sources) \<inter> set seen = {} \<and>
     set sources \<subseteq> as_evidence rt ` set CATALOG_RECORDS"
proof (induction sources arbitrary: seen)
  case (Cons s sources)
  have "(\<exists>seen'. foldM (trusted_source rt v) seen (s # sources) = Inr seen') \<longleftrightarrow>
      es_source_id s \<notin> set seen \<and> s \<in> as_evidence rt ` set CATALOG_RECORDS \<and>
      (\<exists>seen'. foldM (trusted_source rt v) (es_source_id s # seen) sources = Inr seen')"
    by (auto simp: trusted_source_iff)
  then show ?case unfolding Cons.IH by auto
qed simp

lemma trusted_exact:
  "validate_trusted_evidence rt sources v = Inr () \<longleftrightarrow>
     sources \<noteq> [] \<and> distinct (map es_source_id sources) \<and> set sources \<subseteq> as_evidence rt ` set CATALOG_RECORDS"
  using trusted_sources_iff[of rt v "[]" sources] by (auto simp: validate_trusted_evidence_def)

lemma sort_key_set_eq:
  assumes "distinct (map f xs)" "distinct (map f ys)" "set xs = set ys"
  shows "sort_key f xs = sort_key f ys"
proof -
  have d: "distinct (map f (sort_key f zs))" if "distinct (map f zs)" for zs using that by (simp add: distinct_map)
  have "map f (sort_key f xs) = map f (sort_key f ys)"
    by (rule sorted_distinct_set_unique) (use assms d in \<open>simp_all add: sorted_sort_key\<close>)
  moreover have "inj_on f (set xs)" using assms(1) by (simp add: distinct_map)
  ultimately show ?thesis using assms(3) by (intro map_inj_on[of f]) simp_all
qed

section \<open>The selection\<close>

lemma search_all:
  "\<exists>ranked. search_evidence rt q v (int (length CATALOG_RECORDS)) = Inr ranked \<and> set ranked = as_evidence rt ` set CATALOG_RECORDS"
proof -
  have f: "filter (\<lambda>r. applies r v) CATALOG_RECORDS = CATALOG_RECORDS" by (simp add: filter_id_conv catalogue_applies)
  have "CATALOG_RECORDS \<noteq> []" by (simp add: CATALOG_RECORDS_def)
  then have "search_evidence rt q v (int (length CATALOG_RECORDS)) =
      Inr (map (as_evidence rt) (sort_key (rank_of (search_terms q)) (sort_key cr_source_id CATALOG_RECORDS)))"
    unfolding search_evidence_def f by (simp add: Let_def)
  then show ?thesis by simp
qed

definition selection :: "runtime \<Rightarrow> (string \<times> EvidenceSource) list \<Rightarrow> bool" where
  "selection rt sel \<longleftrightarrow> distinct (map fst sel) \<and> (\<forall>(i, s) \<in> set sel. i = es_source_id s) \<and> snd ` set sel \<subseteq> as_evidence rt ` set CATALOG_RECORDS"

lemma add_ranked_spec:
  assumes "selection rt sel" "set ranked \<subseteq> as_evidence rt ` set CATALOG_RECORDS" "length sel < n"
  shows "selection rt (add_ranked n sel ranked) \<and> set sel \<subseteq> set (add_ranked n sel ranked) \<and> length (add_ranked n sel ranked) \<le> n \<and>
    (length (add_ranked n sel ranked) < n \<longrightarrow> es_source_id ` set ranked \<subseteq> set (keys (add_ranked n sel ranked)))"
  using assms
proof (induction ranked arbitrary: sel)
  case (Cons s ranked)
  let ?sel = "if es_source_id s \<in> set (keys sel) then sel else sel @ [(es_source_id s, s)]"
  have sel: "selection rt ?sel" using Cons.prems by (auto simp: selection_def)
  have id: "es_source_id s \<in> set (keys ?sel)" by simp
  show ?case
  proof (cases "n \<le> length ?sel")
    case True
    then show ?thesis using sel Cons.prems(3) by (auto simp: Let_def split: if_splits)
  next
    case False
    define S where "S = add_ranked n ?sel ranked"
    have IH: "selection rt S" "set ?sel \<subseteq> set S" "length S \<le> n" "length S < n \<longrightarrow> es_source_id ` set ranked \<subseteq> set (keys S)"
      using Cons.IH[OF sel] Cons.prems(2) False unfolding S_def by simp_all
    have eq: "add_ranked n sel (s # ranked) = S" using False by (simp add: Let_def S_def)
    have "set (keys ?sel) \<subseteq> set (keys S)" using image_mono[OF IH(2), of fst] by simp
    then have "es_source_id s \<in> set (keys S)" using id by (rule subsetD)
    moreover have "set sel \<subseteq> set S" using IH(2) by (auto split: if_splits)
    ultimately show ?thesis unfolding eq using IH(1,3,4) by simp
  qed
qed simp

lemma core_selection:
  fixes rt
  defines "core \<equiv> foldl (\<lambda>d s. AList.update (es_source_id s) s d) []
    (filter (\<lambda>s. es_source_id s \<in> set CORE_IDS) (map (as_evidence rt) CATALOG_RECORDS))"
  shows "selection rt core \<and> length core = 5 \<and> set (keys core) = set CORE_IDS"
proof -
  have "map cr_source_id (filter (\<lambda>r. cr_source_id r \<in> set CORE_IDS) CATALOG_RECORDS) = CORE_IDS" by code_simp
  then have ids: "map es_source_id (filter (\<lambda>s. es_source_id s \<in> set CORE_IDS) (map (as_evidence rt) CATALOG_RECORDS)) = CORE_IDS"
    by (simp add: filter_map comp_def)
  have build: "foldl (\<lambda>d s. AList.update (es_source_id s) s d) d ss = d @ map (\<lambda>s. (es_source_id s, s)) ss"
    if "distinct (map fst d @ map es_source_id ss)" for d ss
    using that
  proof (induction ss arbitrary: d)
    case (Cons s ss)
    then have "AList.update (es_source_id s) s d = d @ [(es_source_id s, s)]" by (induction d) auto
    with Cons show ?case by simp
  qed simp
  have dist: "distinct CORE_IDS" "length CORE_IDS = 5" by code_simp+
  have core: "core = map (\<lambda>s. (es_source_id s, s)) (filter (\<lambda>s. es_source_id s \<in> set CORE_IDS) (map (as_evidence rt) CATALOG_RECORDS))"
    unfolding core_def by (rule build[of "[]", simplified]) (simp only: ids dist(1))
  have keys: "keys core = CORE_IDS" unfolding core using ids by (simp add: comp_def)
  then have "length core = 5" using dist(2) by (metis length_map)
  moreover have "selection rt core" unfolding selection_def keys using dist(1) by (auto simp: core)
  ultimately show ?thesis using keys by simp
qed

lemma selected_six:
  assumes "selection rt sel" "set (keys sel) = set CORE_IDS" "length sel = 5"
    and "set ranked = as_evidence rt ` set CATALOG_RECORDS"
  shows "length (add_ranked 6 sel ranked) = 6"
proof (rule ccontr)
  assume "length (add_ranked 6 sel ranked) \<noteq> 6"
  with add_ranked_spec[of rt sel ranked 6] assms
  have "es_source_id ` set ranked \<subseteq> set (keys (add_ranked 6 sel ranked))" "length (add_ranked 6 sel ranked) < 6" by auto
  moreover have "es_source_id ` set ranked = set (map cr_source_id CATALOG_RECORDS)" unfolding assms(4) by (auto simp: image_image)
  moreover have "card (set (map cr_source_id CATALOG_RECORDS)) = 8" using distinct_card[OF catalogue_ids] by (simp add: CATALOG_RECORDS_def)
  ultimately have "8 \<le> card (set (keys (add_ranked 6 sel ranked)))" by (metis List.finite_set card_mono)
  moreover have "card (set (keys (add_ranked 6 sel ranked))) \<le> length (add_ranked 6 sel ranked)" by (metis card_length length_map)
  ultimately show False using \<open>length (add_ranked 6 sel ranked) < 6\<close> by simp
qed

section \<open>Properties\<close>

text \<open>C24. The evidence check accepts exactly lists of different official sources: a list passes, for a target version or
  without one, if and only if it is not empty, no source appears twice, and every source is a record of the
  catalogue, digest included. The snapshot hash of such a list does not depend on its order.\<close>

theorem evidence_trust_exact:
  "(validate_trusted_evidence rt sources v = Inr () \<longleftrightarrow>
     sources \<noteq> [] \<and> distinct (map es_source_id sources) \<and> set sources \<subseteq> as_evidence rt ` set CATALOG_RECORDS) \<and>
   (validate_trusted_evidence rt sources v = Inr () \<and> validate_trusted_evidence rt sources' v = Inr () \<and> set sources = set sources' \<longrightarrow>
     (\<exists>h. evidence_snapshot_hash rt sources = Inr h \<and> evidence_snapshot_hash rt sources' = Inr h))"
  using sort_key_set_eq[of es_source_id sources sources'] by (auto simp: trusted_exact evidence_snapshot_hash_def)

text \<open>The selection of evidence for a target always succeeds: for every query and every version that is not blank it
  returns six sources in the order of their identifiers, the five core sources among them, which the check
  accepts for that version.\<close>

theorem evidence_selection_trusted:
  assumes "strip version \<noteq> []"
  shows "\<exists>sources. evidence_for_target rt (Some query) version = Inr sources \<and> length sources = 6 \<and>
    set CORE_IDS \<subseteq> set (map es_source_id sources) \<and> sorted (map es_source_id sources) \<and>
    validate_trusted_evidence rt sources (Some version) = Inr ()"
proof -
  define catalog where "catalog = map (as_evidence rt) CATALOG_RECORDS"
  have f: "filter (\<lambda>r. applies r (Some (strip version))) CATALOG_RECORDS = CATALOG_RECORDS" by (simp add: filter_id_conv catalogue_applies)
  have len: "length CATALOG_RECORDS = 8" by (simp add: CATALOG_RECORDS_def)
  then have catalog: "evidence_catalog_for_version rt version = Inr catalog"
    unfolding evidence_catalog_for_version_def Let_def f using assms by (auto simp: catalog_def)
  obtain ranked where r: "search_evidence rt query (Some version) (int (length catalog)) = Inr ranked" "set ranked = as_evidence rt ` set CATALOG_RECORDS"
    using search_all[of rt query "Some version"] by (auto simp: catalog_def)
  define core where "core = foldl (\<lambda>d s. AList.update (es_source_id s) s d) [] (filter (\<lambda>s. es_source_id s \<in> set CORE_IDS) catalog)"
  have core: "selection rt core" "length core = 5" "set (keys core) = set CORE_IDS"
    using core_selection[of rt] unfolding core_def catalog_def by blast+
  define sel where "sel = add_ranked 6 core ranked"
  have sel: "selection rt sel" "set core \<subseteq> set sel" using add_ranked_spec[OF core(1), of ranked 6] r(2) core(2) unfolding sel_def by auto
  have six: "length sel = 6" unfolding sel_def using selected_six[OF core(1,3,2) r(2)] .
  define sources where "sources = map snd (sort_key fst sel)"
  have ids: "map es_source_id sources = map fst (sort_key fst sel)"
    using sel(1) by (auto simp: sources_def selection_def)
  have run: "ranked_core_plus_topical rt query catalog (Some version) CORE_IDS 6 = Inr sources"
    unfolding ranked_core_plus_topical_def Let_def core_def[symmetric] using r(1) len
    by (simp add: sel_def[symmetric] sources_def catalog_def)
  have "distinct (map es_source_id sources)" unfolding ids using sel(1) by (simp add: selection_def distinct_map)
  moreover have "set sources \<subseteq> as_evidence rt ` set CATALOG_RECORDS" using sel(1) by (auto simp: sources_def selection_def)
  moreover have "sources \<noteq> []" using six by (auto simp: sources_def)
  ultimately have trusted: "validate_trusted_evidence rt sources (Some version) = Inr ()" by (simp add: trusted_exact)
  have "set CORE_IDS \<subseteq> set (map es_source_id sources)"
    unfolding ids using sel(2) core(3) image_mono[OF sel(2), of fst] by simp
  moreover have "sorted (map es_source_id sources)" unfolding ids by (simp add: sorted_sort_key)
  moreover have "length sources = 6" using six by (simp add: sources_def)
  ultimately show ?thesis using catalog run trusted by (simp add: evidence_for_target_def)
qed

definition plain_runtime :: runtime where
  "plain_runtime = \<lparr>sha256_hex = id, json_loads = (\<lambda>_. None), code_digest = id\<rparr>"

theorem evidence_trust_exact_witness:
  "\<exists>sources h. evidence_snapshot_hash plain_runtime sources = Inr h \<and> evidence_snapshot_hash plain_runtime (rev sources) = Inr h \<and> length sources = 8"
proof -
  let ?s = "map (as_evidence plain_runtime) CATALOG_RECORDS"
  have d: "distinct (map es_source_id ?s)" using catalogue_ids by (simp add: comp_def)
  then have d': "distinct (map es_source_id (rev ?s))" by (simp add: rev_map[symmetric])
  have ne: "CATALOG_RECORDS \<noteq> []" "length CATALOG_RECORDS = 8" by (simp_all add: CATALOG_RECORDS_def)
  have "validate_trusted_evidence plain_runtime ?s None = Inr ()" using evidence_trust_exact[of plain_runtime ?s None] d ne by auto
  moreover have "validate_trusted_evidence plain_runtime (rev ?s) None = Inr ()" using evidence_trust_exact[of plain_runtime "rev ?s" None] d' ne by auto
  moreover have "set ?s = set (rev ?s)" by simp
  ultimately obtain h where "evidence_snapshot_hash plain_runtime ?s = Inr h" "evidence_snapshot_hash plain_runtime (rev ?s) = Inr h"
    using evidence_trust_exact[of plain_runtime ?s None "rev ?s"] by blast
  then show ?thesis using ne by (intro exI[of _ ?s]) auto
qed

theorem evidence_selection_trusted_witness:
  "\<exists>sources. evidence_for_target plain_runtime (Some ''boss entity test'') ''1.21.1'' = Inr sources \<and> length sources = 6"
proof -
  have "strip ''1.21.1'' \<noteq> []" by code_simp
  from evidence_selection_trusted[OF this, of plain_runtime "''boss entity test''"] show ?thesis by blast
qed

end
