(* ===== verification/Module_Shards_Proofs.thy ===== *)
theory Module_Shards_Proofs
  imports Module_Shards "HOL-Library.Multiset"
begin

text \<open>
  Correctness of the sharding: the groups partition the modules, respect the size of their stage and
  refer only to earlier groups, so the emission in waves yields every group, each after the groups it
  depends on.
\<close>

section \<open>Emission\<close>

lemma count_list_distinct: "distinct xs \<Longrightarrow> count_list xs x = (if x \<in> set xs then 1 else 0)"
  by (induction xs) auto

lemma distinct_group_deps [simp]: "distinct (group_deps gs i)"
  by (simp add: group_deps_def)

lemma distinct_group_dependents [simp]: "distinct (group_dependents gs i)"
  by (simp add: group_dependents_def)

interpretation group_graph: kahn_graph "{..<length gs}" "group_deps gs" "group_dependents gs" for gs
  by unfold_locales (auto simp: count_list_distinct, auto simp: group_dependents_def)

definition deg_fun :: "int list \<Rightarrow> nat \<Rightarrow> int" where
  "deg_fun deg k = (if k < length deg then deg ! k else 0)"

lemma release_spec:
  assumes "release ds deg next = (deg', next')" "distinct ds" "set ds \<subseteq> {..<length deg}"
  shows "length deg' = length deg \<and> (\<forall>k. deg_fun deg' k = deg_fun deg k - int (count_list ds k)) \<and>
    (\<exists>zs. next' = next @ zs \<and> distinct zs \<and> set zs = {k \<in> set ds. deg ! k = 1 \<and> k \<notin> set next})"
  using assms
proof (induction ds deg "next" rule: release.induct)
  case (1 deg "next")
  then show ?case by auto
next
  case (2 d ds deg "next")
  let ?v = "deg ! d - 1"
  let ?nx = "if ?v = 0 \<and> d \<notin> set next then next @ [d] else next"
  have d: "d < length deg" "d \<notin> set ds" using "2.prems" by auto
  have run: "release ds (deg[d := ?v]) ?nx = (deg', next')" using "2.prems"(1) d by (simp add: Let_def)
  have "length deg' = length (deg[d := ?v]) \<and> (\<forall>k. deg_fun deg' k = deg_fun (deg[d := ?v]) k - int (count_list ds k)) \<and>
    (\<exists>zs. next' = ?nx @ zs \<and> distinct zs \<and> set zs = {k \<in> set ds. deg[d := ?v] ! k = 1 \<and> k \<notin> set ?nx})"
    by (rule "2.IH"(1)[OF d(1) refl run]) (use "2.prems" in auto)
  then obtain zs where len: "length deg' = length deg"
    and deg': "\<And>k. deg_fun deg' k = deg_fun (deg[d := ?v]) k - int (count_list ds k)"
    and zs: "next' = ?nx @ zs" "distinct zs" "set zs = {k \<in> set ds. deg[d := ?v] ! k = 1 \<and> k \<notin> set ?nx}" by auto
  have "deg[d := ?v] ! k = deg ! k" if "k \<in> set ds" for k using that d(2) by (metis nth_list_update_neq)
  then have zs3: "set zs = {k \<in> set ds. deg ! k = 1 \<and> k \<notin> set next}" unfolding zs(3) using d by auto
  have "deg_fun deg' k = deg_fun deg k - int (count_list (d # ds) k)" for k
    using deg'[of k] d by (auto simp: deg_fun_def)
  moreover have "\<exists>ws. next' = next @ ws \<and> distinct ws \<and> set ws = {k \<in> set (d # ds). deg ! k = 1 \<and> k \<notin> set next}"
  proof (cases "?v = 0 \<and> d \<notin> set next")
    case True
    then show ?thesis using zs(1,2) zs3 d by (intro exI[of _ "d # zs"]) auto
  next
    case False
    then show ?thesis using zs(1,2) zs3 by (intro exI[of _ zs]) auto
  qed
  ultimately show ?case using len by blast
qed

abbreviation group_inv :: "shard_group list \<Rightarrow> int list \<Rightarrow> nat list \<Rightarrow> nat list \<Rightarrow> bool" where
  "group_inv gs deg ready acc \<equiv>
     length deg = length gs \<and> kahn_inv {..<length gs} (group_deps gs) (deg_fun deg) ready acc"

lemma kahn_inv_reorder:
  "kahn_inv N D deg ready acc \<Longrightarrow> set ready' = set ready \<Longrightarrow> distinct ready' \<Longrightarrow> kahn_inv N D deg ready' acc"
  by (auto simp: kahn_inv_def)

lemma emit_wave_inv:
  "group_inv gs deg (ready @ next) acc \<Longrightarrow> emit_wave (group_dependents gs) ready deg next = (deg', next') \<Longrightarrow>
     group_inv gs deg' next' (acc @ ready)"
proof (induction "group_dependents gs" ready deg "next" arbitrary: acc rule: emit_wave.induct)
  case (1 deg "next")
  then show ?case by simp
next
  case (2 i ready deg "next")
  let ?out = "group_dependents gs i"
  obtain d1 n1 where r: "release ?out deg next = (d1, n1)" by (rule prod.exhaust)
  have i: "i \<in> set ((i # ready) @ next)" by simp
  then have ni: "i \<in> {..<length gs}" "i \<notin> set acc" using "2.prems"(1) by (auto simp: kahn_inv_def)
  have inv: "kahn_inv {..<length gs} (group_deps gs) (deg_fun deg) ((i # ready) @ next) acc"
    and len: "length deg = length gs" using "2.prems"(1) by auto
  have sub: "set ?out \<subseteq> {..<length deg}" using group_graph.out_nodes[OF ni(1)] len by simp
  from release_spec[OF r _ sub] obtain zs where l1: "length d1 = length deg"
    and d1: "\<And>k. deg_fun d1 k = deg_fun deg k - int (count_list ?out k)"
    and zs: "n1 = next @ zs" "distinct zs" "set zs = {k \<in> set ?out. deg ! k = 1 \<and> k \<notin> set next}" by auto
  have one: "deg_fun deg k = 1 \<longleftrightarrow> deg ! k = 1" if "k \<in> set ?out" for k using that sub by (auto simp: deg_fun_def)
  have fresh: "k \<notin> set ((i # ready) @ next)" if "k \<in> set ?out" "deg_fun deg k = 1" for k
    using inv that group_graph.out_nodes[OF ni(1)] by (auto simp: kahn_inv_def)
  have zs': "set zs = {k \<in> set ?out. deg_fun deg k = int (count_list ?out k)}"
    unfolding zs(3) using one fresh by (auto simp: count_list_distinct)
  have dist: "distinct ((i # ready) @ next)" using inv by (simp add: kahn_inv_def)
  have new: "k \<notin> set ((i # ready) @ next)" if "k \<in> set zs" for k
    using that fresh[of k] unfolding zs' by (auto simp: count_list_distinct)
  have "kahn_inv {..<length gs} (group_deps gs) (deg_fun d1) (ready @ n1) (acc @ [i])"
  proof (rule group_graph.step[OF inv i d1 zs'])
    show "set (ready @ n1) = set ((i # ready) @ next) - {i} \<union> set zs" using dist zs(1) new by auto
    show "distinct (ready @ n1)" using dist zs(1,2) new by auto
  qed
  then have "group_inv gs d1 (ready @ n1) (acc @ [i])" using l1 len by simp
  from "2.hyps"[OF r[symmetric] refl this] "2.prems"(2) r show ?case by simp
qed

lemma emit_loop_inv: "group_inv gs deg ready acc \<Longrightarrow> \<exists>deg'. group_inv gs deg' [] (emit_loop gs ready deg acc)"
proof (induction gs ready deg acc rule: emit_loop.induct)
  case (1 gs ready deg acc)
  show ?case
  proof (cases "ready = []")
    case True
    with 1 show ?thesis by (subst emit_loop.simps) auto
  next
    case False
    obtain deg' nx where w: "emit_wave (group_dependents gs) ready deg [] = (deg', nx)" by (rule prod.exhaust)
    have "group_inv gs deg (ready @ []) acc" using "1.prems" by simp
    then have "group_inv gs deg' nx (acc @ ready)" using w by (rule emit_wave_inv)
    then have "group_inv gs deg' (sort_key (\<lambda>i. g_first_order (gs ! i)) nx) (acc @ ready)"
      by (auto intro: kahn_inv_reorder simp: kahn_inv_def)
    from "1.IH"[OF False w[symmetric] refl this] show ?thesis by (subst emit_loop.simps) (simp add: False w)
  qed
qed

lemma emit_order_inv: "\<exists>deg. group_inv gs deg [] (emit_order gs)"
proof -
  let ?deg = "map (\<lambda>i. int (length (group_deps gs i))) [0..<length gs]"
  let ?ready = "sort_key (\<lambda>i. g_first_order (gs ! i)) (filter (\<lambda>i. ?deg ! i = 0) [0..<length gs])"
  have "kahn_inv {..<length gs} (group_deps gs) (deg_fun ?deg) ?ready []"
    by (rule group_graph.initial) (auto simp: deg_fun_def)
  then show ?thesis unfolding emit_order_def Let_def by (intro emit_loop_inv) simp
qed

lemma emit_order_complete:
  assumes "\<And>i. i < length gs \<Longrightarrow> set (g_external (gs ! i)) \<subseteq> {..<i}"
  shows "distinct (emit_order gs) \<and> set (emit_order gs) = {..<length gs} \<and> deps_before (group_deps gs) (emit_order gs)"
proof -
  obtain deg where inv: "kahn_inv {..<length gs} (group_deps gs) deg [] (emit_order gs)" using emit_order_inv by blast
  have sub: "set (group_deps gs k) \<subseteq> {..<k}" if "k < length gs" for k using assms[OF that] that by (simp add: group_deps_def)
  have "acyclic {(k, d). k \<in> {..<length gs} \<and> d \<in> set (group_deps gs k)}"
    by (rule acyclicI_order[where f = id]) (use sub in fastforce)
  with group_graph.acyclic_complete[OF inv] sub have "set (emit_order gs) = {..<length gs}" by fastforce
  with inv show ?thesis by (simp add: kahn_inv_def)
qed

end
