(* ===== verification/Shard_Properties.thy ===== *)
theory Shard_Properties
  imports Module_Shards_Proofs
begin

text \<open>
  The invariant of the grouping loop of \<open>_module_shards\<close> and the properties of its result.
\<close>

section \<open>The grouping invariant\<close>

definition group_ok ::
    "(string \<Rightarrow> string option) \<Rightarrow> ScalePolicy \<Rightarrow> (string \<Rightarrow> nat option) \<Rightarrow> (ProductionModule \<times> string) list \<Rightarrow> nat
     \<Rightarrow> shard_group \<Rightarrow> bool" where
  "group_ok env policy mg ps i g \<longleftrightarrow> g_members g \<noteq> [] \<and> set (g_external g) \<subseteq> {..<i} \<and>
     (\<forall>cap. shard_size_for env policy (g_stage g) = Inr cap \<longrightarrow> int (length (g_members g)) \<le> cap) \<and>
     (\<forall>m \<in> set (g_members g). mg (m_module_id m) = Some i \<and> (m, g_stage g) \<in> set ps \<and>
        (\<forall>d \<in> set (m_depends_on m). \<exists>j. mg d = Some j \<and> (j = i \<or> j \<in> set (g_external g)))) \<and>
     (\<forall>a < length (g_members g). \<forall>d \<in> set (m_depends_on (g_members g ! a)). mg d = Some i \<longrightarrow>
        d \<in> m_module_id ` set (take a (g_members g)))"

definition open_ok :: "shard_state \<Rightarrow> bool" where
  "open_ok st \<longleftrightarrow> (\<forall>k i. map_of (open_by_key st) k = Some i \<longrightarrow> i < length (groups st) \<and> key_of_group (groups st ! i) = k)"

definition shards_inv ::
    "(string \<Rightarrow> string option) \<Rightarrow> ScalePolicy \<Rightarrow> shard_state \<Rightarrow> (ProductionModule \<times> string) list \<Rightarrow> bool" where
  "shards_inv env policy st ps \<longleftrightarrow>
     set (keys (module_group st)) = (m_module_id \<circ> fst) ` set ps \<and>
     (\<forall>n i. map_of (module_group st) n = Some i \<longrightarrow> i < length (groups st)) \<and>
     (\<forall>i < length (groups st). group_ok env policy (map_of (module_group st)) ps i (groups st ! i)) \<and>
     mset (concat (map g_members (groups st))) = mset (map fst ps) \<and> open_ok st"

lemma shards_inv_empty: "shards_inv env policy empty_shards []"
  by (simp add: shards_inv_def empty_shards_def open_ok_def)

text \<open>A group stays good when a new module is recorded elsewhere.\<close>

lemma group_ok_extend:
  assumes "group_ok env policy mg ps i g" and "mg n = None"
  shows "group_ok env policy (mg(n \<mapsto> j)) (ps @ [p]) i g"
proof -
  have mem: "mg d \<noteq> None \<Longrightarrow> (mg(n \<mapsto> j)) d = mg d" for d using assms(2) by auto
  have "d \<noteq> n" if "m \<in> set (g_members g)" "d \<in> set (m_depends_on m)" for m d
    using assms that by (force simp: group_ok_def)
  moreover have "m_module_id m \<noteq> n" if "m \<in> set (g_members g)" for m
    using assms that by (force simp: group_ok_def)
  ultimately show ?thesis using assms(1) unfolding group_ok_def
    by (auto simp: in_set_conv_nth)
qed

lemma group_ok_snoc:
  assumes ok: "group_ok env policy mg ps i g" and n: "mg (m_module_id m) = None"
    and deps: "\<And>d. d \<in> set (m_depends_on m) \<Longrightarrow> \<exists>j. mg d = Some j \<and> (j = i \<or> j \<in> set (g_external g))"
    and cap: "\<And>cap. shard_size_for env policy (g_stage g) = Inr cap \<Longrightarrow> int (length (g_members g)) < cap"
    and mem: "\<And>d. mg d = Some i \<Longrightarrow> d \<in> m_module_id ` set (g_members g)"
  shows "group_ok env policy (mg(m_module_id m \<mapsto> i)) (ps @ [(m, g_stage g)]) i (g\<lparr>g_members := g_members g @ [m]\<rparr>)"
proof -
  have ext: "group_ok env policy (mg(m_module_id m \<mapsto> i)) (ps @ [(m, g_stage g)]) i g"
    by (rule group_ok_extend[OF ok n])
  have dn: "d \<noteq> m_module_id m" if "d \<in> set (m_depends_on m)" for d using deps[OF that] n by auto
  have "d \<in> m_module_id ` set (take a (g_members g @ [m]))"
    if a: "a < length (g_members g @ [m])" and d: "d \<in> set (m_depends_on ((g_members g @ [m]) ! a))"
      and i: "(mg(m_module_id m \<mapsto> i)) d = Some i" for a d
  proof (cases "a < length (g_members g)")
    case True
    with ext d i show ?thesis by (simp add: group_ok_def nth_append)
  next
    case False
    with a have "a = length (g_members g)" by simp
    with d i dn mem show ?thesis by auto
  qed
  moreover have "int (length (g_members g @ [m])) \<le> c" if "shard_size_for env policy (g_stage g) = Inr c" for c
    using cap[OF that] by simp
  moreover have "\<exists>j. (mg(m_module_id m \<mapsto> i)) d = Some j \<and> (j = i \<or> j \<in> set (g_external g))"
    if "d \<in> set (m_depends_on m)" for d using deps[OF that] dn[OF that] by auto
  ultimately show ?thesis using ext unfolding group_ok_def by simp
qed

lemma group_ok_new:
  assumes n: "mg (m_module_id m) = None" and deps: "set (m_depends_on m) \<subseteq> dom mg"
    and lt: "\<And>d j. mg d = Some j \<Longrightarrow> j < i" and cap: "\<And>c. shard_size_for env policy stage = Inr c \<Longrightarrow> 1 \<le> c"
    and g: "g_members g = [m]" "g_stage g = stage"
      "set (g_external g) = (\<lambda>d. the (mg d)) ` set (m_depends_on m)"
  shows "group_ok env policy (mg(m_module_id m \<mapsto> i)) (ps @ [(m, stage)]) i g"
proof -
  have d: "\<exists>j. mg d = Some j \<and> j < i \<and> j \<in> set (g_external g) \<and> d \<noteq> m_module_id m" if "d \<in> set (m_depends_on m)" for d
    using that deps lt n g(3) by (force simp: dom_def)
  have "set (g_external g) \<subseteq> {..<i}" unfolding g(3) using deps lt by (auto simp: dom_def)
  then show ?thesis using d cap g(1,2) unfolding group_ok_def by (auto, fastforce+)
qed

section \<open>One placement\<close>

lemma shard_size_pos: "shard_size_for env policy stage = Inr c \<Longrightarrow> 1 \<le> c"
  by (auto simp: shard_size_for_def pipeline_shard_size_def Let_def rbind_def split: if_splits option.splits sum.splits)

lemma key_of_group_members [simp]: "key_of_group (g\<lparr>g_members := xs\<rparr>) = key_of_group g"
  by (simp add: key_of_group_def)

lemma join_group_groups [simp]:
  "groups (join_group i m cap st) = (groups st)[i := (groups st ! i)\<lparr>g_members := g_members (groups st ! i) @ [m]\<rparr>]"
  "module_group (join_group i m cap st) = AList.update (m_module_id m) i (module_group st)"
  by (simp_all add: join_group_def Let_def split: option.splits)

lemma open_okI:
  "(\<And>k i. map_of (open_by_key st) k = Some i \<Longrightarrow> i < length (groups st) \<and> key_of_group (groups st ! i) = k) \<Longrightarrow> open_ok st"
  by (simp add: open_ok_def del: split_paired_All)

lemma open_okD: "open_ok st \<Longrightarrow> map_of (open_by_key st) k = Some i \<Longrightarrow> i < length (groups st) \<and> key_of_group (groups st ! i) = k"
  by (simp add: open_ok_def del: split_paired_All)

lemma open_ok_update:
  assumes "open_ok st" "i < length (groups st)" "groups st' = (groups st)[i := g]" "key_of_group g = key_of_group (groups st ! i)"
    and "\<And>k j. map_of (open_by_key st') k = Some j \<Longrightarrow> map_of (open_by_key st) k = Some j \<or> (j = i \<and> k = key_of_group g)"
  shows "open_ok st'"
proof (rule open_okI)
  fix k j assume "map_of (open_by_key st') k = Some j"
  from assms(5)[OF this] have "j < length (groups st) \<and> key_of_group (groups st ! j) = k"
    using assms(2,4) open_okD[OF assms(1), of k j] by auto
  then show "j < length (groups st') \<and> key_of_group (groups st' ! j) = k"
    using assms(2-4) by (cases "j = i") auto
qed

lemma join_group_open:
  assumes "open_ok st" "i < length (groups st)"
  shows "open_ok (join_group i m cap st)"
proof (rule open_ok_update[OF assms join_group_groups(1)])
  fix k j
  assume "map_of (open_by_key (join_group i m cap st)) k = Some j"
  then show "map_of (open_by_key st) k = Some j \<or> (j = i \<and> k = key_of_group ((groups st ! i)\<lparr>g_members := g_members (groups st ! i) @ [m]\<rparr>))"
    by (auto simp: join_group_def Let_def update_conv delete_conv restrict_map_def split: option.splits if_splits)
qed simp

lemma open_ok_append: "open_ok st \<Longrightarrow> open_ok (st\<lparr>groups := groups st @ [g], module_group := x\<rparr>)"
  by (rule open_okI) (auto simp: nth_append dest: open_okD)

lemma open_ok_new:
  "open_ok st \<Longrightarrow> key_of_group g = k \<Longrightarrow>
     open_ok (st\<lparr>groups := groups st @ [g], open_by_key := AList.update k (length (groups st)) (open_by_key st)\<rparr>)"
  by (rule open_okI) (auto simp: nth_append update_conv split: if_splits dest: open_okD)

text \<open>The modules recorded for a group are its members.\<close>

lemma recorded_member:
  assumes "shards_inv env policy st ps" "map_of (module_group st) d = Some i"
  shows "d \<in> m_module_id ` set (g_members (groups st ! i))"
proof -
  have "d \<in> set (keys (module_group st))" using assms(2) by (force dest: map_of_SomeD)
  then obtain m where m: "m \<in> set (map fst ps)" "d = m_module_id m" using assms(1) by (force simp: shards_inv_def)
  then have "m \<in># mset (concat (map g_members (groups st)))" using assms(1) by (simp add: shards_inv_def)
  then obtain g where "g \<in> set (groups st)" "m \<in> set (g_members g)" by auto
  then obtain j where j: "j < length (groups st)" "m \<in> set (g_members (groups st ! j))" by (metis in_set_conv_nth)
  with assms(1) have "map_of (module_group st) (m_module_id m) = Some j" by (auto simp: shards_inv_def group_ok_def)
  with assms(2) m(2) j(2) show ?thesis by auto
qed

lemma shards_inv_step:
  assumes inv: "shards_inv env policy st ps" and new: "map_of (module_group st) (m_module_id m) = None"
    and mg: "module_group st' = AList.update (m_module_id m) j (module_group st)" and op: "open_ok st'"
    and gs: "groups st' = (groups st)[j := g] \<and> j < length (groups st) \<and>
        g = (groups st ! j)\<lparr>g_members := g_members (groups st ! j) @ [m]\<rparr> \<or>
      groups st' = groups st @ [g] \<and> j = length (groups st) \<and> g_members g = [m]"
    and ok: "group_ok env policy ((map_of (module_group st))(m_module_id m \<mapsto> j)) (ps @ [(m, stage)]) j g"
  shows "shards_inv env policy st' (ps @ [(m, stage)])"
proof -
  have mo: "map_of (module_group st') = (map_of (module_group st))(m_module_id m \<mapsto> j)" using mg by (simp add: update_conv')
  have lt: "j < length (groups st')" "length (groups st) \<le> length (groups st')" using gs by auto
  have old: "group_ok env policy (map_of (module_group st')) (ps @ [(m, stage)]) i (groups st ! i)"
    if "i < length (groups st)" for i
    unfolding mo by (rule group_ok_extend) (use inv that new in \<open>simp_all add: shards_inv_def\<close>)
  have "group_ok env policy (map_of (module_group st')) (ps @ [(m, stage)]) i (groups st' ! i)"
    if "i < length (groups st')" for i
  proof (cases "i = j")
    case True
    then have "groups st' ! i = g" using gs by auto
    with True ok mo show ?thesis by simp
  next
    case False
    then have "groups st' ! i = groups st ! i" "i < length (groups st)" using gs that by (auto simp: nth_append)
    with old show ?thesis by simp
  qed
  moreover have "mset (concat (map g_members (groups st'))) = mset (concat (map g_members (groups st))) + {#m#}"
  proof (cases "j < length (groups st)")
    case True
    then have "groups st = take j (groups st) @ groups st ! j # drop (Suc j) (groups st)" by (rule id_take_nth_drop)
    then have "mset (concat (map g_members (groups st))) = mset (concat (map g_members (take j (groups st)))) +
      mset (g_members (groups st ! j)) + mset (concat (map g_members (drop (Suc j) (groups st))))"
      by (metis (no_types, lifting) concat.simps(2) concat_append list.simps(9) map_append mset_append union_assoc)
    with True gs show ?thesis by (auto simp: upd_conv_take_nth_drop)
  next
    case False
    with gs show ?thesis by auto
  qed
  moreover have "i < length (groups st')" if "map_of (module_group st') n = Some i" for n i
    using that inv lt unfolding mo shards_inv_def by (force split: if_splits)
  moreover have "set (keys (module_group st')) = (m_module_id \<circ> fst) ` set (ps @ [(m, stage)])"
    using inv unfolding mg by (auto simp: shards_inv_def dom_update)
  ultimately show ?thesis using inv op unfolding shards_inv_def by simp
qed

lemma candidate_ok:
  assumes op: "open_ok st" and lt: "\<And>d. d \<in> set deps \<Longrightarrow> d < length (groups st)"
    and c: "i \<in> set (candidates st stage bk cap deps)"
  shows "i < length (groups st) \<and> g_stage (groups st ! i) = stage \<and> int (length (g_members (groups st ! i))) < cap \<and>
    (\<forall>d \<in> set deps. d = i \<or> d \<in> set (g_external (groups st ! i)))"
proof (cases "i \<in> set (filter (joinable st stage cap deps) deps)")
  case True
  then show ?thesis using lt by (auto simp: joinable_def Let_def list_all_iff)
next
  case False
  then have "map_of (open_by_key st) (stage, bk, deps) = Some i \<and> int (length (g_members (groups st ! i))) < cap"
    using c by (auto simp: candidates_def split: option.splits if_splits)
  with open_okD[OF op, of "(stage, bk, deps)" i] show ?thesis by (simp add: key_of_group_def)
qed

lemma place_module_inv:
  assumes inv: "shards_inv env policy st ps" and new: "map_of (module_group st) (m_module_id m) = None"
    and run: "place_module env policy st (m, stage) = Inr st'"
  shows "shards_inv env policy st' (ps @ [(m, stage)])"
proof -
  let ?mg = "map_of (module_group st)"
  let ?n = "length (groups st)"
  let ?bk = "module_batch_key m stage"
  let ?deps = "sorted_set (map (\<lambda>d. the (?mg d)) (m_depends_on m))"
  obtain cap where known: "\<forall>d \<in> set (m_depends_on m). ?mg d \<noteq> None" and cap: "shard_size_for env policy stage = Inr cap"
    using run by (auto simp: place_module_def list_ex_iff split: if_splits)
  have lt: "\<And>d j. ?mg d = Some j \<Longrightarrow> j < ?n" and op: "open_ok st" using inv by (simp_all add: shards_inv_def)
  have dep: "the (?mg d) \<in> set ?deps \<and> ?mg d = Some (the (?mg d))" if "d \<in> set (m_depends_on m)" for d
    using that known by auto
  have fresh: "group_ok env policy (?mg(m_module_id m \<mapsto> ?n)) (ps @ [(m, stage)]) ?n (new_group st stage ?bk ?deps [m] seal)" for seal
    by (rule group_ok_new[where mg = ?mg]) (use new lt known shard_size_pos in \<open>auto simp: new_group_def\<close>)
  show ?thesis
  proof (cases "stage = ''host'' \<and> is_typed_host_module m")
    case True
    then have st': "st' = st\<lparr>groups := groups st @ [new_group st stage ?bk ?deps [m] True],
        module_group := AList.update (m_module_id m) ?n (module_group st)\<rparr>"
      using run known cap by (auto simp: place_module_def Let_def list_ex_iff split: if_splits)
    show ?thesis
      by (rule shards_inv_step[OF inv new _ _ _ fresh]) (simp_all add: st' open_ok_append[OF op] new_group_def)
  next
    case no_host: False
    show ?thesis
    proof (cases "candidates st stage ?bk cap ?deps")
      case Nil
      let ?g = "new_group st stage ?bk ?deps [] False"
      let ?st1 = "st\<lparr>groups := groups st @ [?g], open_by_key := AList.update (stage, ?bk, ?deps) ?n (open_by_key st)\<rparr>"
      have st': "st' = join_group ?n m cap ?st1"
        using run known cap no_host Nil by (auto simp: place_module_def Let_def list_ex_iff split: if_splits)
      have "open_ok ?st1" by (rule open_ok_new[OF op]) (simp add: key_of_group_def new_group_def)
      then have "open_ok st'" unfolding st' by (rule join_group_open) simp
      then show ?thesis
        by (intro shards_inv_step[OF inv new _ _ _ fresh[of False]]) (simp_all add: st' new_group_def)
    next
      case (Cons c cs)
      let ?i = "Max (set (c # cs))"
      let ?g = "groups st ! ?i"
      have st': "st' = join_group ?i m cap st"
        using run known cap no_host Cons by (auto simp: place_module_def Let_def list_ex_iff split: if_splits)
      have "?i \<in> set (c # cs)" by (rule Max_in) auto
      then have cand: "?i \<in> set (candidates st stage ?bk cap ?deps)" using Cons by simp
      have i: "?i < ?n \<and> g_stage ?g = stage \<and> int (length (g_members ?g)) < cap \<and> (\<forall>d \<in> set ?deps. d = ?i \<or> d \<in> set (g_external ?g))"
        by (rule candidate_ok[OF op _ cand]) (use known lt in auto)
      have gok: "group_ok env policy ?mg ps ?i ?g" using inv i by (simp add: shards_inv_def)
      have "group_ok env policy (?mg(m_module_id m \<mapsto> ?i)) (ps @ [(m, g_stage ?g)]) ?i (?g\<lparr>g_members := g_members ?g @ [m]\<rparr>)"
      proof (rule group_ok_snoc[OF gok])
        show "?mg (m_module_id m) = None" by (rule new)
        show "\<exists>j. ?mg d = Some j \<and> (j = ?i \<or> j \<in> set (g_external ?g))" if "d \<in> set (m_depends_on m)" for d
          using dep[OF that] i by blast
        show "int (length (g_members ?g)) < c" if "shard_size_for env policy (g_stage ?g) = Inr c" for c
          using that i cap by simp
        show "d \<in> m_module_id ` set (g_members ?g)" if "?mg d = Some ?i" for d
          using that by (rule recorded_member[OF inv])
      qed
      moreover have "open_ok st'" unfolding st' by (rule join_group_open[OF op]) (use i in simp)
      ultimately show ?thesis using i by (intro shards_inv_step[OF inv new, of st' ?i]) (simp_all add: st')
    qed
  qed
qed

section \<open>The whole loop\<close>

lemma staged_modules_fst: "staged_modules routes avail owners ms = Inr staged \<Longrightarrow> map fst staged = ms"
proof (cases routes)
  case None
  assume "staged_modules routes avail owners ms = Inr staged"
  then have "list_all2 (\<lambda>m p. (if m_module_id m \<in> set owners then Inr (m, ''content'')
      else rbind (module_stage m avail) (\<lambda>stage. Inr (m, stage))) = Inr p) ms staged"
    using None by (simp add: staged_modules_def mapM_Inr_iff)
  then show ?thesis by (induction rule: list_all2_induct) (auto split: if_splits)
qed (auto simp: staged_modules_def comp_def split: if_splits)

lemma foldM_place_inv:
  "shards_inv env policy st ps \<Longrightarrow> distinct (map (m_module_id \<circ> fst) (ps @ rest)) \<Longrightarrow>
     foldM (place_module env policy) st rest = Inr st' \<Longrightarrow> shards_inv env policy st' (ps @ rest)"
proof (induction rest arbitrary: st ps)
  case Nil
  then show ?case by simp
next
  case (Cons p rest)
  obtain m stage where p: "p = (m, stage)" by (rule prod.exhaust)
  from Cons.prems(3) obtain st1 where st1: "place_module env policy st (m, stage) = Inr st1"
    and rest: "foldM (place_module env policy) st1 rest = Inr st'" by (auto simp: p)
  have "m_module_id m \<notin> set (keys (module_group st))" using Cons.prems(1,2) by (simp add: shards_inv_def p)
  then have "map_of (module_group st) (m_module_id m) = None" by (simp add: map_of_eq_None_iff)
  from place_module_inv[OF Cons.prems(1) this st1] have "shards_inv env policy st1 (ps @ [p])" by (simp add: p)
  from Cons.IH[OF this _ rest] Cons.prems(2) show ?case by simp
qed

lemma module_shards_groups:
  assumes "distinct (map m_module_id ms)" and "module_shards env policy routes avail owners ms = Inr shards"
  obtains st staged where "shards_inv env policy st staged" "map fst staged = ms" "emit_groups (groups st) = Inr shards"
    "staged_modules routes avail owners ms = Inr staged"
proof -
  from assms(2) obtain staged st where s: "staged_modules routes avail owners ms = Inr staged"
    and st: "foldM (place_module env policy) empty_shards staged = Inr st" and e: "emit_groups (groups st) = Inr shards"
    by (auto simp: module_shards_def)
  note fst = staged_modules_fst[OF s]
  have "shards_inv env policy st ([] @ staged)"
    by (rule foldM_place_inv[OF shards_inv_empty _ st]) (use assms(1) fst in \<open>simp flip: map_map\<close>)
  with that fst e s show ?thesis by simp
qed

lemma shards_inv_external: "shards_inv env policy st ps \<Longrightarrow> i < length (groups st) \<Longrightarrow> set (g_external (groups st ! i)) \<subseteq> {..<i}"
  by (simp add: shards_inv_def group_ok_def)

lemma emit_groups_total:
  assumes "shards_inv env policy st ps"
  shows "emit_groups (groups st) = Inr (map (\<lambda>i. (g_stage (groups st ! i), g_members (groups st ! i))) (emit_order (groups st)))"
proof -
  from emit_order_complete[OF shards_inv_external[OF assms]]
  have "length (emit_order (groups st)) = length (groups st)" by (metis card_lessThan distinct_card)
  then show ?thesis by (simp add: emit_groups_def Let_def)
qed

lemma mset_concat_map: "mset (concat (map h ks)) = sum_mset (image_mset (\<lambda>k. mset (h k)) (mset ks))"
  by (induction ks) auto

lemma mset_concat_permuted:
  assumes "distinct is" "set is = {..<length gs}"
  shows "mset (concat (map (\<lambda>i. f (gs ! i)) is)) = mset (concat (map f gs))"
proof -
  have "set is = set [0..<length gs]" by (simp only: assms(2) set_upt atLeast0LessThan)
  then have "mset is = mset [0..<length gs]"
    by (rule set_eq_iff_mset_eq_distinct[OF assms(1) distinct_upt, THEN iffD1])
  then have "mset (concat (map (\<lambda>i. f (gs ! i)) is)) = mset (concat (map (\<lambda>i. f (gs ! i)) [0..<length gs]))"
    by (simp only: mset_concat_map)
  moreover have "map (\<lambda>i. f (gs ! i)) [0..<length gs] = map f gs" by (rule nth_equalityI) simp_all
  ultimately show ?thesis by simp
qed

lemma concat_position:
  "p < length (concat xss) \<Longrightarrow> \<exists>k a. k < length xss \<and> a < length (xss ! k) \<and> concat xss ! p = xss ! k ! a \<and>
     take p (concat xss) = concat (take k xss) @ take a (xss ! k)"
proof (induction xss arbitrary: p)
  case (Cons xs xss)
  show ?case
  proof (cases "p < length xs")
    case True
    then show ?thesis by (intro exI[of _ 0] exI[of _ p]) (simp add: nth_append)
  next
    case False
    then have "p - length xs < length (concat xss)" using Cons.prems by simp
    from Cons.IH[OF this] obtain k a where "k < length xss" "a < length (xss ! k)"
      "concat xss ! (p - length xs) = xss ! k ! a"
      "take (p - length xs) (concat xss) = concat (take k xss) @ take a (xss ! k)" by blast
    with False show ?thesis by (intro exI[of _ "Suc k"] exI[of _ a]) (simp add: nth_append)
  qed
qed simp

text \<open>The dependencies of a member of an emitted group come earlier in the emission.\<close>

lemma emitted_dependency:
  assumes inv: "shards_inv env policy st ps" and k: "k < length (emit_order (groups st))"
    and i: "i = emit_order (groups st) ! k" and a: "a < length (g_members (groups st ! i))"
    and d: "d \<in> set (m_depends_on (g_members (groups st ! i) ! a))"
  shows "d \<in> m_module_id ` (set (concat (map (\<lambda>i. g_members (groups st ! i)) (take k (emit_order (groups st)))))
    \<union> set (take a (g_members (groups st ! i))))"
proof -
  note eo = emit_order_complete[OF shards_inv_external[OF inv]]
  have il: "i < length (groups st)" using eo k i by (metis lessThan_iff nth_mem)
  then have ok: "group_ok env policy (map_of (module_group st)) ps i (groups st ! i)" using inv by (simp add: shards_inv_def)
  have "g_members (groups st ! i) ! a \<in> set (g_members (groups st ! i))" using a by simp
  with ok d obtain j where j: "map_of (module_group st) d = Some j" "j = i \<or> j \<in> set (g_external (groups st ! i))"
    unfolding group_ok_def by blast
  show ?thesis
  proof (cases "j = i")
    case True
    then have "d \<in> m_module_id ` set (take a (g_members (groups st ! i)))" using ok a d j(1) by (simp add: group_ok_def)
    then show ?thesis by (simp add: image_Un)
  next
    case False
    then have "j \<in> set (group_deps (groups st) i)" using j(2) il by (simp add: group_deps_def)
    then have "j \<in> set (take k (emit_order (groups st)))" using eo k i by (auto simp: deps_before_def)
    with recorded_member[OF inv j(1)] show ?thesis by auto
  qed
qed

section \<open>The emitted shards\<close>

lemma shards_partition:
  assumes "distinct (map m_module_id ms)" and "module_shards env policy (Some rs) avail owners ms = Inr shards"
  shows "mset (concat (map snd shards)) = mset ms"
    and "(stage, members) \<in> set shards \<Longrightarrow> members \<noteq> [] \<and> (\<forall>m \<in> set members. map_of rs (m_module_id m) = Some stage) \<and>
       (\<forall>cap. shard_size_for env policy stage = Inr cap \<longrightarrow> int (length members) \<le> cap)"
proof -
  obtain st staged where inv: "shards_inv env policy st staged" and fst: "map fst staged = ms"
    and e: "emit_groups (groups st) = Inr shards" and staged: "staged_modules (Some rs) avail owners ms = Inr staged"
    by (rule module_shards_groups[OF assms])
  note eo = emit_order_complete[OF shards_inv_external[OF inv]]
  have shards: "shards = map (\<lambda>i. (g_stage (groups st ! i), g_members (groups st ! i))) (emit_order (groups st))"
    using e emit_groups_total[OF inv] by simp
  have "mset (concat (map snd shards)) = mset (concat (map g_members (groups st)))"
    using mset_concat_permuted[of "emit_order (groups st)" "groups st" g_members] eo by (simp add: shards comp_def)
  then show "mset (concat (map snd shards)) = mset ms" using inv fst by (simp add: shards_inv_def)
  have "map_of rs (m_module_id m) = Some stage" if "(m, stage) \<in> set staged" for m stage
    using staged that by (auto simp: staged_modules_def list_ex_iff split: if_splits)
  moreover have "group_ok env policy (map_of (module_group st)) staged i (groups st ! i)" if "i \<in> set (emit_order (groups st))" for i
    using inv eo that by (simp add: shards_inv_def)
  ultimately show "members \<noteq> [] \<and> (\<forall>m \<in> set members. map_of rs (m_module_id m) = Some stage) \<and>
       (\<forall>cap. shard_size_for env policy stage = Inr cap \<longrightarrow> int (length members) \<le> cap)" if "(stage, members) \<in> set shards"
    using that unfolding shards group_ok_def by fastforce
qed

lemma shards_ordered:
  assumes "distinct (map m_module_id ms)" and "module_shards env policy routes avail owners ms = Inr shards"
    and "p < length (concat (map snd shards))"
  shows "set (m_depends_on (concat (map snd shards) ! p)) \<subseteq> m_module_id ` set (take p (concat (map snd shards)))"
proof
  fix d assume d: "d \<in> set (m_depends_on (concat (map snd shards) ! p))"
  obtain st staged where inv: "shards_inv env policy st staged" and e: "emit_groups (groups st) = Inr shards"
    by (rule module_shards_groups[OF assms(1,2)])
  let ?os = "emit_order (groups st)" and ?f = "\<lambda>i. g_members (groups st ! i)"
  have snds: "map snd shards = map ?f ?os" using e emit_groups_total[OF inv] by auto
  from assms(3) obtain k a where k: "k < length ?os" and a: "a < length (?f (?os ! k))"
    and at: "concat (map ?f ?os) ! p = ?f (?os ! k) ! a"
    and pre: "take p (concat (map ?f ?os)) = concat (map ?f (take k ?os)) @ take a (?f (?os ! k))"
    unfolding snds using concat_position[of p "map ?f ?os"] by (auto simp: take_map)
  from emitted_dependency[OF inv k refl a] d show "d \<in> m_module_id ` set (take p (concat (map snd shards)))"
    unfolding snds at pre by simp
qed

lemma shard_dependencies:
  assumes "distinct (map m_module_id ms)" and "module_shards env policy routes avail owners ms = Inr (pre @ (stage, members) # post)"
    and "m \<in> set members"
  shows "set (m_depends_on m) \<subseteq> m_module_id ` (set (concat (map snd pre)) \<union> set members)"
proof -
  from assms(3) obtain a where a: "a < length members" "members ! a = m" by (auto simp: in_set_conv_nth)
  let ?c = "concat (map snd (pre @ (stage, members) # post))" and ?p = "length (concat (map snd pre)) + a"
  have p: "?p < length ?c" "?c ! ?p = m" and earlier: "set (take ?p ?c) \<subseteq> set (concat (map snd pre)) \<union> set members"
    using a by (simp_all add: nth_append) (auto dest: in_set_takeD)
  have "set (m_depends_on m) \<subseteq> m_module_id ` set (take ?p ?c)" using shards_ordered[OF assms(1,2) p(1)] unfolding p(2) .
  also have "\<dots> \<subseteq> m_module_id ` (set (concat (map snd pre)) \<union> set members)" using earlier by (rule image_mono)
  finally show ?thesis .
qed

section \<open>Properties\<close>

text \<open>C28. The shards partition the modules: every module is in exactly one shard, no shard is empty or larger
  than the bound of its stage, and with canonical routes every module is in a shard of its own stage.\<close>

theorem module_shards_partition:
  assumes "distinct (map m_module_id ms)" and "module_shards env policy (Some rs) avail owners ms = Inr shards"
  shows "mset (concat (map snd shards)) = mset ms \<and>
    (\<forall>(stage, members) \<in> set shards. members \<noteq> [] \<and> (\<forall>m \<in> set members. map_of rs (m_module_id m) = Some stage) \<and>
       (\<forall>cap. shard_size_for env policy stage = Inr cap \<longrightarrow> int (length members) \<le> cap))"
  using shards_partition[OF assms] by blast

text \<open>C27. In the sequence of shards every dependency of a module comes before it, in an earlier shard or
  earlier in its own shard.\<close>

theorem module_shards_ordered:
  assumes "distinct (map m_module_id ms)" and "module_shards env policy routes avail owners ms = Inr shards"
    and "p < length (concat (map snd shards))"
  shows "set (m_depends_on (concat (map snd shards) ! p)) \<subseteq> m_module_id ` set (take p (concat (map snd shards)))"
  using assms by (rule shards_ordered)

section \<open>Completeness\<close>

lemma place_module_total:
  assumes "set (m_depends_on m) \<subseteq> set (keys (module_group st))" "shard_size_for env policy stage = Inr cap"
  shows "\<exists>st'. place_module env policy st (m, stage) = Inr st'"
proof -
  have "\<not> list_ex (\<lambda>d. map_of (module_group st) d = None) (m_depends_on m)"
    using assms(1) by (auto simp: list_ex_iff map_of_eq_None_iff)
  then show ?thesis using assms(2) by (auto simp: place_module_def Let_def split: list.splits)
qed

lemma foldM_place_total:
  "shards_inv env policy st ps \<Longrightarrow> distinct (map (m_module_id \<circ> fst) (ps @ rest)) \<Longrightarrow>
     (\<And>i. i < length rest \<Longrightarrow> set (m_depends_on (fst (rest ! i))) \<subseteq> (m_module_id \<circ> fst) ` set (ps @ take i rest)) \<Longrightarrow>
     (\<And>q. q \<in> set rest \<Longrightarrow> \<exists>cap. shard_size_for env policy (snd q) = Inr cap) \<Longrightarrow>
     \<exists>st'. foldM (place_module env policy) st rest = Inr st'"
proof (induction rest arbitrary: st ps)
  case Nil
  then show ?case by simp
next
  case (Cons p rest)
  obtain m stage where p: "p = (m, stage)" by (rule prod.exhaust)
  have keys: "set (keys (module_group st)) = (m_module_id \<circ> fst) ` set ps" using Cons.prems(1) by (simp add: shards_inv_def)
  obtain cap where cap: "shard_size_for env policy stage = Inr cap" using Cons.prems(4)[of p] p by auto
  have "set (m_depends_on m) \<subseteq> set (keys (module_group st))" using Cons.prems(3)[of 0] p keys by simp
  from place_module_total[OF this cap] obtain st1 where st1: "place_module env policy st (m, stage) = Inr st1" by blast
  have "map_of (module_group st) (m_module_id m) = None" using Cons.prems(2) keys p by (simp add: map_of_eq_None_iff)
  from place_module_inv[OF Cons.prems(1) this st1] have inv1: "shards_inv env policy st1 (ps @ [p])" by (simp add: p)
  have "\<exists>st'. foldM (place_module env policy) st1 rest = Inr st'"
  proof (rule Cons.IH[OF inv1])
    show "distinct (map (m_module_id \<circ> fst) ((ps @ [p]) @ rest))" using Cons.prems(2) by (simp add: comp_def)
    show "set (m_depends_on (fst (rest ! i))) \<subseteq> (m_module_id \<circ> fst) ` set ((ps @ [p]) @ take i rest)" if "i < length rest" for i
      using Cons.prems(3)[of "Suc i"] that by simp
    show "\<exists>cap. shard_size_for env policy (snd q) = Inr cap" if "q \<in> set rest" for q using Cons.prems(4) that by simp
  qed
  with st1 show ?case by (simp add: p)
qed

text \<open>Without environment overrides the size of a stage is defined, unless the entity bound is below the default.\<close>

lemma shard_size_default:
  "\<exists>cap. shard_size_for (\<lambda>_. None) policy stage = Inr cap" if "2 \<le> entity_shard_size policy"
  using that by (auto simp: shard_size_for_def pipeline_shard_size_def strip_def Let_def)

lemma shards_complete:
  assumes "distinct (map m_module_id ms)" and "topological_modules ms = Inr os"
    and "set ms \<subseteq> {m. map_of rs (m_module_id m) \<noteq> None}" and "2 \<le> entity_shard_size policy"
  shows "\<exists>shards. module_shards (\<lambda>_. None) policy (Some rs) avail owners os = Inr shards"
proof -
  note topo = topological_modules_spec[OF assms(1,2)]
  let ?staged = "map (\<lambda>m. (m, the (map_of rs (m_module_id m)))) os"
  have "\<not> list_ex (\<lambda>m. map_of rs (m_module_id m) = None) os" using assms(3) topo by (auto simp: list_ex_iff)
  then have staged: "staged_modules (Some rs) avail owners os = Inr ?staged" by (simp add: staged_modules_def)
  have "\<exists>st. foldM (place_module (\<lambda>_. None) policy) empty_shards ?staged = Inr st"
  proof (rule foldM_place_total[OF shards_inv_empty])
    show "distinct (map (m_module_id \<circ> fst) ([] @ ?staged))" using topo by (simp add: comp_def)
    show "set (m_depends_on (fst (?staged ! i))) \<subseteq> (m_module_id \<circ> fst) ` set ([] @ take i ?staged)" if "i < length ?staged" for i
      using topo that by (simp add: take_map image_image)
  qed (use shard_size_default[OF assms(4)] in blast)
  then obtain st where st: "foldM (place_module (\<lambda>_. None) policy) empty_shards ?staged = Inr st" by blast
  have "shards_inv (\<lambda>_. None) policy st ([] @ ?staged)"
    by (rule foldM_place_inv[OF shards_inv_empty _ st]) (use topo in \<open>simp add: comp_def\<close>)
  from emit_groups_total[OF this] staged st show ?thesis by (simp add: module_shards_def)
qed

text \<open>The default entity shard size is not clamped to the policy: a policy with an entity bound of one is
  valid, yet without an override every plan with an entity module fails with the range error.\<close>

theorem entity_default_exceeds_bound:
  assumes "validate_policy policy = Inr ()" and "entity_shard_size policy = 1" and "m_depends_on m = []"
  shows "module_shards (\<lambda>_. None) policy (Some [(m_module_id m, ''entity'')]) avail owners [m] =
    Inl (WorkGraphError ''WORK_GRAPH_SHARD_SIZE_OUT_OF_RANGE'')"
proof -
  have "shard_size_for (\<lambda>_. None) policy ''entity'' = Inl (WorkGraphError ''WORK_GRAPH_SHARD_SIZE_OUT_OF_RANGE'')"
    using assms(2) by (simp add: shard_size_for_def pipeline_shard_size_def)
  then show ?thesis using assms(3) by (simp add: module_shards_def staged_modules_def place_module_def)
qed

section \<open>Chunks\<close>

lemma chunks_spec:
  "0 < k \<Longrightarrow> concat (chunks xs k) = xs \<and> (\<forall>c \<in> set (chunks xs k). c \<noteq> [] \<and> length c \<le> k)"
proof (induction xs k rule: chunks.induct)
  case (1 xs k)
  then show ?case by (subst (1 2) chunks.simps) (cases "xs = []", auto)
qed

section \<open>Examples\<close>

definition sample_policy :: "int \<Rightarrow> ScalePolicy" where
  "sample_policy entity = \<lparr>java_shard_size = 48, entity_shard_size = entity, function_shard_size = 128,
     world_placements_per_tick = 4, model_context_bytes = 1500000, mcp_page_bytes = 262144, max_patch_bytes = 33554432,
     max_single_file_bytes = 67108864, max_texture_dimension = 8192, repair_attempts = 8, nbt_piece_axis = 32,
     nbt_piece_volume = 32768, gradle_min_heap_mb = 2048, gradle_max_heap_mb = 12288, runtime_min_heap_mb = 3072,
     runtime_max_heap_mb = 16384\<rparr>"

definition sample_routes :: "(string \<times> string) list" where
  "sample_routes = [(''a'', ''content''), (''b'', ''entity''), (''c'', ''entity'')]"

definition sample_order :: "ProductionModule list" where
  "sample_order = [sample_module ''a'' ''block'' [], sample_module ''b'' ''entity'' [''a''], sample_module ''c'' ''entity'' []]"

abbreviation sample_shards :: "(string \<times> ProductionModule list) list" where
  "sample_shards \<equiv> [(''content'', [sample_module ''a'' ''block'' []]), (''entity'', [sample_module ''c'' ''entity'' []]),
     (''entity'', [sample_module ''b'' ''entity'' [''a'']])]"

text \<open>The wave order of the repository's own test: the independent entity overtakes the dependent one.\<close>

lemma sample_shards_run: "module_shards (\<lambda>_. None) (sample_policy 24) (Some sample_routes) None [] sample_order = Inr sample_shards"
  by code_simp

theorem module_shards_partition_witness:
  "mset (concat (map snd sample_shards)) = mset sample_order \<and>
     map_of sample_routes (m_module_id (sample_module ''b'' ''entity'' [''a''])) = Some ''entity'' \<and>
     int (length [sample_module ''b'' ''entity'' [''a'']]) \<le> 2"
proof -
  have "distinct (map m_module_id sample_order)" by code_simp
  note shards = module_shards_partition[OF this sample_shards_run]
  have "shard_size_for (\<lambda>_. None) (sample_policy 24) ''entity'' = Inr 2" by code_simp
  with shards show ?thesis by simp
qed

theorem module_shards_ordered_witness:
  "set (m_depends_on (concat (map snd sample_shards) ! 2)) \<subseteq> m_module_id ` set (take 2 (concat (map snd sample_shards)))"
proof -
  have "distinct (map m_module_id sample_order)" by code_simp
  from module_shards_ordered[OF this sample_shards_run, of 2] show ?thesis by simp
qed

theorem entity_default_exceeds_bound_witness:
  "module_shards (\<lambda>_. None) (sample_policy 1) (Some [(''z'', ''entity'')]) None [] [sample_module ''z'' ''entity'' []] =
     Inl (WorkGraphError ''WORK_GRAPH_SHARD_SIZE_OUT_OF_RANGE'')"
proof -
  have "validate_policy (sample_policy 1) = Inr ()" by code_simp
  from entity_default_exceeds_bound[OF this, of "sample_module ''z'' ''entity'' []"] show ?thesis
    by (simp add: sample_policy_def sample_module_def)
qed

end
