(* ===== verification/Spec_Samples.thy ===== *)
theory Spec_Samples
  imports Approval Evidence_Properties Shard_Properties
begin

text \<open>
  A concrete proposal that passes every check, and the properties of approval applied to it. The digest is constant,
  so that no text has to be evaluated to know a hash.
\<close>

section \<open>Well-formed payloads\<close>

lemma scalar_u [simp]: "x \<in> set (u s) \<Longrightarrow> scalar x"
proof -
  have "scalar (of_char c)" for c :: char
    using nat_of_char_less_256[of c] by (simp add: scalar_def surrogate_def del: nat_of_char_less_256)
  then show "x \<in> set (u s) \<Longrightarrow> scalar x" by (auto simp: u_def)
qed

lemma scalars_u [simp]: "list_all scalar (u s)"
  by (simp add: list_all_iff)

lemma wf_jobject: "wf_json fr (plain (jobject d)) \<longleftrightarrow> distinct (map fst d) \<and> list_all (\<lambda>(k, v). wf_json fr (plain v)) d"
proof -
  have "distinct (map (\<lambda>x. u (fst x)) d) \<longleftrightarrow> distinct (map fst d)"
    using distinct_map[of u "map fst d"] by (simp add: inj_on_def comp_def)
  then show ?thesis by (simp add: jobject_def comp_def case_prod_beta list_all_iff)
qed

lemma wf_jdata: "wf_json fr (plain (jdata d)) \<longleftrightarrow> distinct (map fst d) \<and> list_all (\<lambda>(k, v). wf_json fr (plain v)) d"
  using wf_jobject[of fr d] by (simp add: jdata_def jobject_def)

lemma wf_dict_data: "wf_json fr (plain (dict_data d)) \<longleftrightarrow> distinct (map fst d) \<and> list_all (\<lambda>(k, v). wf_json fr (plain (py_json v))) d"
  unfolding dict_data_def wf_jdata by (auto simp: list_all_iff comp_def case_prod_beta)

lemma wf_py_dict: "wf_json fr (plain (py_json (PDict d))) \<longleftrightarrow> distinct (map fst d) \<and> list_all (\<lambda>(k, v). wf_json fr (plain (py_json v))) d"
  using wf_jobject[of fr "map (map_prod id py_json) d"] by (simp add: jobject_def comp_def case_prod_beta list_all_iff)

lemma wf_int [simp]: "wf_json fr (JInt 0)" "wf_json fr (JInt 1)"
proof -
  have "length (show_nat 0) \<le> digit_limit" "length (show_nat 1) \<le> digit_limit" by code_simp+
  then show "wf_json fr (JInt 0)" "wf_json fr (JInt 1)" by simp_all
qed

primrec py_ok :: "pyval \<Rightarrow> bool" where
  "py_ok PNone \<longleftrightarrow> True"
| "py_ok (PBool b) \<longleftrightarrow> True"
| "py_ok (PInt i) \<longleftrightarrow> i \<in> {0, 1}"
| "py_ok (PFloat r) \<longleftrightarrow> False"
| "py_ok (PStr s) \<longleftrightarrow> True"
| "py_ok (PList xs) \<longleftrightarrow> list_all py_ok xs"
| "py_ok (PDict d) \<longleftrightarrow> distinct (map fst d) \<and> list_all snd (map (map_prod id py_ok) d)"

lemma wf_py: "py_ok v \<Longrightarrow> wf_json fr (plain (py_json v))"
proof (induction v)
  case (PInt i)
  then show ?case by (auto simp del: wf_json.simps(1))
next
  case (PList xs)
  then show ?case by (simp add: list_all_iff)
next
  case (PDict d)
  then show ?case unfolding wf_py_dict by (auto simp: list_all_iff)
qed simp_all

lemma wf_strs [simp]: "wf_json fr (plain (jstr s))" "wf_json fr (plain (jstrs ss))"
  by (simp_all add: jstr_def jstrs_def list_all_iff)

lemmas wf_payload = wf_jobject wf_jdata wf_dict_data wf_py hash_payload_def proposal_fields_def spec_data_def content_data_def
  to_dict_lock_def asdict_deferred_def asdict_source_def asdict_boss_def proposal_data_def complete_fields_def module_dict_def

section \<open>A valid base proposal\<close>

definition zero_digest :: string where
  "zero_digest = replicate 64 (CHR ''0'')"

definition zero_hash :: string where
  "zero_hash = ''sha256:'' @ zero_digest"

lemma zero_hash_ok: "hex64_match zero_digest" "SHA256_match zero_hash" "zero_hash \<noteq> []"
  by code_simp+

definition sample_spec_host :: spec_host where
  "sample_spec_host = \<lparr>sh_runtime = \<lparr>sha256_hex = (\<lambda>_. zero_digest), json_loads = (\<lambda>_. None), code_digest = id\<rparr>,
     sh_sha = (\<lambda>_. zero_digest), sh_manifest_hash = zero_hash\<rparr>"

definition sample_lock :: PlatformLock where
  "sample_lock = \<lparr>pk_edition = ''java'', pk_loader = ''fabric'', pk_minecraft_version = ''1.21.1'', pk_java_version = ''21'',
     pk_yarn_mappings = ''1.21.1+build.3'', pk_fabric_loader = ''0.16.5'', pk_fabric_api = ''0.105.0+1.21.1'', pk_fabric_loom = ''1.7.4'',
     pk_gradle = ''8.8'', pk_adapter_id = [], pk_mappings_kind = [], pk_mappings_version = [], pk_gradle_sha256 = [],
     pk_gradle_distribution_url = [], pk_data_pack_version = [], pk_resource_pack_version = [], pk_resource_pack_format = PInt 0,
     pk_release_metadata_url = [], pk_source_api_family = [], pk_deterministic_module_kinds = [], pk_receipt_sha256 = [],
     pk_host_facts_json = []\<rparr>"

definition sample_spec :: ModSpec where
  "sample_spec = \<lparr>ms_mod_id = ''gem_mod'', ms_mod_name = ''Gems'', ms_package_name = ''org.gems'', ms_version = ''1.0.0'',
     ms_summary = ''gems'', ms_contents = [], ms_boss = None, ms_platform = sample_lock\<rparr>"

definition sample_source :: EvidenceSource where
  "sample_source = \<lparr>es_source_id = ''fabric-project-creation'', es_title = ''Fabric Documentation - Creating a Project'',
     es_url = ''https://docs.fabricmc.net/develop/getting-started/creating-a-project'', es_authority = ''Fabric official documentation'',
     es_version_scope = ''Version-selected Fabric documentation; exact coordinates are frozen by the live platform receipt'',
     es_verified_on = ''2026-08-12'', es_trust_tier = ''official_primary'', es_retrieval_policy = ''data_only'', es_record_sha256 = zero_hash\<rparr>"

lemma sample_source: "sample_source = as_evidence (sh_runtime sample_spec_host) (hd CATALOG_RECORDS)"
  by (simp add: sample_source_def as_evidence_def CATALOG_RECORDS_def catalog_record_def record_sha256_def hash_json_def sha256_of_def
      sample_spec_host_def zero_hash_def)

definition sample_base :: Proposal where
  "sample_base = \<lparr>pp_schema_version = ''minecraft-mod-ai/proposal-v1'', pp_proposal_version = PInt 1, pp_status = AWAITING_APPROVAL,
     pp_requested_prompt = ''gems'', pp_spec = sample_spec, pp_assumptions = [], pp_exclusions = [], pp_deferred_requests = [],
     pp_acceptance_tests = [''it loads''], pp_evidence_sources = [sample_source],
     pp_evidence_snapshot_hash = zero_hash, pp_capability_manifest_hash = zero_hash, pp_imported_source_snapshot_hash = [],
     pp_risk_approvals = [], pp_approval_hash = []\<rparr>"

lemma sample_spec_valid: "validate_spec sample_spec_host sample_spec = Inr ()"
  by code_simp

lemma sample_evidence:
  "validate_trusted_evidence (sh_runtime sample_spec_host) [sample_source] v = Inr ()"
  unfolding trusted_exact sample_source by (simp add: CATALOG_RECORDS_def)

lemma sample_base_valid: "validate_proposal sample_spec_host sample_base = Inr ()"
proof -
  have snapshot: "evidence_snapshot_hash (sh_runtime sample_spec_host) [sample_source] = Inr zero_hash"
    using sample_evidence by (simp add: evidence_snapshot_hash_def hash_json_def sha256_of_def sample_spec_host_def zero_hash_def)
  show ?thesis unfolding validate_proposal_def
    by (simp add: sample_base_def sample_spec_valid sample_evidence snapshot zero_hash_ok positive_int_value_def approval_check_def strip_def is_space_def)
qed

section \<open>Valid complete proposals\<close>

definition sample_complete_host :: complete_host where
  "sample_complete_host = \<lparr>ch_spec = sample_spec_host, ch_env = (\<lambda>_. None), ch_sidecar = (\<lambda>_. True), ch_research = (\<lambda>_ _. True),
     ch_contract = (\<lambda>_ _ _ _ _. True), ch_visual = (\<lambda>_ _. True), ch_resolve = (\<lambda>d. Inr (''context'', d)), ch_stored = (\<lambda>_. Inr ''context''),
     ch_base_from_dict = (\<lambda>_. Inr sample_base)\<rparr>"

definition host_module :: "string \<Rightarrow> string list \<Rightarrow> ProductionModule" where
  "host_module i deps = \<lparr>m_module_id = i, m_kind = ''typed_host'', m_config = [(''typed_plan_ir'', PDict [])], m_depends_on = deps,
     m_required_gates = []\<rparr>"

definition sample_contract :: pydict where
  "sample_contract = [(''contract_sha256'', PStr ''c''), (''quality_dimension_catalog'', PList [
     PDict [(''dimension_id'', PStr ''build''), (''evidence_route_ref'', PStr ''r1'')],
     PDict [(''dimension_id'', PStr ''game_feel''), (''evidence_route_ref'', PStr ''r2'')]])]"

definition sample_proposal :: CompleteProposal where
  "sample_proposal = \<lparr>cp_schema_version = ''mmm/complete-proposal-v2'', cp_proposal_version = PInt 1, cp_status = APPROVED,
     cp_requested_prompt = ''gems'', cp_base_proposal = sample_base, cp_game_design = [(''_production_contract'', PDict sample_contract)],
     cp_modules = [host_module ''bb'' [''aa''], host_module ''aa'' []], cp_assets = [], cp_acceptance_tests = [''it loads''],
     cp_external_runtime_required = False, cp_existing_input_sha256 = [], cp_approval_hash = zero_hash\<rparr>"

text \<open>A proposal without modules, which only a fixture may be.\<close>

definition bare_design :: pydict where
  "bare_design = [(''mode'', PStr ''debug_fixture''), (''fixture'', PDict [(''deterministic'', PBool True), (''source_contract'', PDict [])])]"

definition bare_proposal :: CompleteProposal where
  "bare_proposal = sample_proposal\<lparr>cp_schema_version := ''mmm/complete-proposal-v1'', cp_modules := [], cp_game_design := bare_design\<rparr>"

lemma wf_sample_base: "wf_json fr (plain (hash_payload sample_base))"
  by (simp add: wf_payload sample_base_def sample_spec_def sample_lock_def del: py_json.simps)

lemma wf_sample: "wf_json fr (plain (jobject (complete_fields sample_proposal)))"
  by (simp add: wf_payload sample_proposal_def host_module_def sample_contract_def sample_base_def sample_spec_def sample_lock_def del: py_json.simps)

lemma wf_bare: "wf_json fr (plain (jobject (complete_fields bare_proposal)))"
  by (simp add: wf_payload bare_proposal_def sample_proposal_def bare_design_def sample_base_def sample_spec_def sample_lock_def del: py_json.simps)

lemma sample_hash:
  "wf_json id (plain (jobject (complete_fields p))) \<Longrightarrow> complete_hash sample_complete_host p = Inr zero_hash"
  using payload_hash_wf[of id "jobject (complete_fields p)" "sh_sha sample_spec_host"]
  by (simp add: payload_hash_def complete_hash_def sample_complete_host_def sample_spec_host_def zero_hash_def)

lemma design_json_ok: "py_ok (PDict d) \<Longrightarrow> design_json_check d = Inr ()"
  using iter_value_text[OF wf_py[of "PDict d" id]] unfolding iter_value_plain
  by (auto simp: design_json_check_def validate_canonical_json_def iter_canonical_json_def stream_result_def simp del: py_json.simps py_ok.simps)

lemma sample_designs: "design_json_check (cp_game_design sample_proposal) = Inr ()" "design_json_check bare_design = Inr ()"
  by (rule design_json_ok, simp add: sample_proposal_def sample_contract_def bare_design_def)+

text \<open>One evaluation for all checks of the two proposals.\<close>

lemma sample_eval:
  "(validate_policy (sample_policy 24), host_fixture_only bare_design,
    foldM (module_step sample_complete_host (sample_policy 24)) [] (cp_modules sample_proposal),
    mapM (dependency_check [''bb'', ''aa'']) (cp_modules sample_proposal),
    validate_acyclic (cp_modules sample_proposal), validate_acyclic [],
    design_jobs (cp_game_design sample_proposal) [''bb'', ''aa''], design_jobs bare_design [],
    routing_checks sample_proposal [], routing_checks bare_proposal [],
    context_checks sample_complete_host sample_proposal, contract_check sample_complete_host sample_proposal,
    context_checks sample_complete_host bare_proposal, contract_check sample_complete_host bare_proposal,
    strip ''gems'' = [], strip ''it loads'' = []) =
   (Inr (), True, Inr [''bb'', ''aa''], Inr [(), ()], Inr (), Inr (), Inr [], Inr [], Inr (), Inr (), Inr (), Inr (), Inr (), Inr (), False, False)"
  by code_simp

lemmas sample_steps = sample_eval[unfolded prod.inject]

lemma sample_host_spec: "ch_spec sample_complete_host = sample_spec_host"
  by (simp add: sample_complete_host_def)

lemma sample_fields:
  "cp_schema_version sample_proposal = ''mmm/complete-proposal-v2''" "cp_schema_version bare_proposal = ''mmm/complete-proposal-v1''"
  "cp_game_design sample_proposal \<noteq> []" "cp_game_design bare_proposal = bare_design" "bare_design \<noteq> []"
  "cp_modules sample_proposal \<noteq> []" "cp_modules bare_proposal = []"
  "cp_proposal_version sample_proposal = PInt 1" "cp_status sample_proposal = APPROVED" "cp_requested_prompt sample_proposal = ''gems''" "cp_base_proposal sample_proposal = sample_base"
  "cp_assets sample_proposal = []" "cp_acceptance_tests sample_proposal = [''it loads'']" "cp_existing_input_sha256 sample_proposal = []" "cp_approval_hash sample_proposal = zero_hash"
  "cp_proposal_version bare_proposal = PInt 1" "cp_status bare_proposal = APPROVED" "cp_requested_prompt bare_proposal = ''gems''" "cp_base_proposal bare_proposal = sample_base"
  "cp_assets bare_proposal = []" "cp_acceptance_tests bare_proposal = [''it loads'']" "cp_existing_input_sha256 bare_proposal = []" "cp_approval_hash bare_proposal = zero_hash"
  "bootstrap_ids (pp_spec sample_base) = []"
  by (simp_all add: sample_proposal_def bare_proposal_def bare_design_def bootstrap_ids_def sample_base_def sample_spec_def sample_complete_host_def)

lemmas sample_facts = sample_host_spec sample_designs sample_steps sample_fields sample_base_valid zero_hash_ok approval_check_def positive_int_value_def

lemma sample_valid: "validate_complete sample_complete_host (sample_policy 24) sample_proposal = Inr ()"
  unfolding validate_complete_def by (simp add: sample_facts sample_hash[OF wf_sample])

lemma bare_valid: "validate_complete sample_complete_host (sample_policy 24) bare_proposal = Inr ()"
  unfolding validate_complete_def by (simp add: sample_facts sample_hash[OF wf_bare])

section \<open>Witnesses\<close>

lemma sample_digest: "hex64_match (sh_sha (ch_spec sample_complete_host) b)"
  by (simp add: sample_complete_host_def sample_spec_host_def zero_hash_ok)

lemma sample_base_hash: "calculate_hash sample_spec_host sample_base = Inr zero_hash"
  using payload_hash_wf[OF wf_sample_base[of id], of "sh_sha sample_spec_host"]
  by (simp add: payload_hash_def calculate_hash_def sample_spec_host_def zero_hash_def)

definition sample_approved :: Proposal where
  "sample_approved = sample_base\<lparr>pp_status := APPROVED, pp_approval_hash := zero_hash\<rparr>"

lemma sample_base_approved: "approve sample_spec_host sample_base zero_hash = Inr sample_approved"
  by (simp add: approve_def sample_base_valid sample_base_hash sample_approved_def)

lemma sample_complete_approved: "complete_approve sample_complete_host (sample_policy 24) sample_proposal zero_hash = Inr sample_proposal"
  by (simp add: complete_approve_def sample_valid sample_hash[OF wf_sample]) (simp add: sample_proposal_def)

theorem approval_is_stable_witness:
  "hex64_match zero_digest \<and> validate_complete sample_complete_host (sample_policy 24) sample_proposal = Inr () \<and>
   validate_proposal sample_spec_host sample_approved = Inr () \<and> pp_approval_hash sample_approved = zero_hash"
  using approval_is_stable[where CH = sample_complete_host and policy = "sample_policy 24" and p = sample_proposal and h = zero_hash and q = sample_proposal
    and bp = sample_base and bq = sample_approved, OF sample_digest] sample_complete_approved sample_base_approved sample_host_spec zero_hash_ok(1)
  by simp

text \<open>The two stages of a proposal share their payload, so they record the same hash.\<close>

definition sample_draft :: Proposal where
  "sample_draft = sample_base\<lparr>pp_approval_hash := zero_hash\<rparr>"

lemma sample_draft_payload: "hash_payload sample_draft = hash_payload sample_base" "hash_payload sample_approved = hash_payload sample_base"
  by (simp_all add: hash_payload_def proposal_fields_def sample_draft_def sample_approved_def)

lemma sample_draft_valid: "validate_proposal sample_spec_host sample_draft = Inr ()"
proof -
  have "calculate_hash sample_spec_host sample_draft = Inr zero_hash"
    using sample_base_hash by (simp add: calculate_hash_def sample_draft_payload)
  then show ?thesis using sample_base_valid unfolding validate_proposal_def
    by (auto simp: sample_draft_def sample_base_def approval_check_def zero_hash_ok)
qed

theorem approval_determines_proposal_witness:
  "sample_approved = sample_draft\<lparr>pp_status := pp_status sample_approved\<rparr> \<and> pp_status sample_draft \<noteq> pp_status sample_approved"
proof -
  have valid: "validate_proposal sample_spec_host sample_approved = Inr ()"
    using approve_stable[OF _ sample_base_approved] sample_digest sample_host_spec by simp
  have "pp_approval_hash sample_draft \<noteq> []" "pp_approval_hash sample_draft = pp_approval_hash sample_approved"
    "pp_status sample_draft \<noteq> pp_status sample_approved"
    by (simp_all add: sample_draft_def sample_approved_def zero_hash_ok sample_base_def)
  with approval_determines_proposal[OF sample_draft_valid valid, of id] show ?thesis by (simp add: sample_draft_payload wf_sample_base)
qed

definition complete_draft :: CompleteProposal where
  "complete_draft = sample_proposal\<lparr>cp_status := AWAITING_APPROVAL\<rparr>"

lemma draft_fields:
  "cp_status complete_draft = AWAITING_APPROVAL" "cp_proposal_version complete_draft = PInt 1" "cp_requested_prompt complete_draft = ''gems''"
  "cp_base_proposal complete_draft = sample_base" "cp_assets complete_draft = []" "cp_acceptance_tests complete_draft = [''it loads'']"
  "cp_existing_input_sha256 complete_draft = []" "cp_approval_hash complete_draft = zero_hash"
  "cp_schema_version complete_draft = ''mmm/complete-proposal-v2''" "cp_game_design complete_draft = cp_game_design sample_proposal"
  "cp_modules complete_draft = cp_modules sample_proposal"
  by (simp_all add: complete_draft_def sample_fields)

lemma complete_draft_fields: "complete_fields complete_draft = complete_fields sample_proposal"
  by (simp add: complete_fields_def complete_draft_def)

lemma complete_draft_checks:
  "(context_checks sample_complete_host complete_draft, contract_check sample_complete_host complete_draft, routing_checks complete_draft []) =
   (Inr (), Inr (), Inr ())"
  by code_simp

lemma complete_draft_hash: "complete_hash CH complete_draft = complete_hash CH sample_proposal"
  by (simp add: complete_hash_def complete_draft_fields)

lemma complete_draft_valid: "validate_complete sample_complete_host (sample_policy 24) complete_draft = Inr ()"
  unfolding validate_complete_def by (simp add: draft_fields sample_facts complete_draft_checks[unfolded prod.inject] complete_draft_hash sample_hash[OF wf_sample])

theorem approval_determines_complete_proposal_witness:
  "cp_base_proposal complete_draft = cp_base_proposal sample_proposal \<and> list_all2 same_module (cp_modules complete_draft) (cp_modules sample_proposal) \<and>
   sample_proposal = complete_draft\<lparr>cp_status := APPROVED\<rparr>"
proof -
  have "cp_approval_hash complete_draft \<noteq> []" "cp_approval_hash complete_draft = cp_approval_hash sample_proposal"
    by (simp_all add: draft_fields sample_fields zero_hash_ok)
  from approval_determines_complete_proposal[OF complete_draft_valid sample_valid this, of id]
  show ?thesis by (simp add: complete_draft_fields wf_sample) (simp add: complete_draft_def sample_fields)
qed

end
