(* ===== verification/Work_Plan_Properties.thy ===== *)
theory Work_Plan_Properties
  imports Validated_Routing Spec_Samples Shard_Properties Ledger_Properties
begin

text \<open>
  The work plan as a whole: its nodes are distinct and listed after their dependencies, so the ledger accepts
  the plan and can work it off, and the release depends on every node, so a ledger never starts it before
  everything else has succeeded.
\<close>

section \<open>Identifiers\<close>

lemma digits_value_append: "digits_value a (xs @ ys) = digits_value (digits_value a xs) ys"
  by (induction xs arbitrary: a) auto

lemma digits_value_zeros: "digits_value 0 (replicate k (CHR ''0'') @ s) = digits_value 0 s"
  by (induction k) simp_all

lemma digit_values_checked: "list_all (\<lambda>k. (of_char (char_of (48 + k) :: char) :: int) - 48 = int k) [0..<10]"
  by code_simp

lemma digit_value: "k < 10 \<Longrightarrow> (of_char (char_of (48 + k :: nat) :: char) :: int) - 48 = int k"
  using digit_values_checked by (simp only: list_all_iff set_upt) simp

lemma digits_value_show_nat: "digits_value 0 (show_nat n) = int n"
proof (induction n rule: show_nat.induct)
  case (1 n)
  show ?case
  proof (cases "n < 10")
    case True
    then show ?thesis by (subst show_nat.simps) (simp add: digit_value)
  next
    case False
    have "digits_value 0 (show_nat n) = 10 * int (n div 10) + int (n mod 10)"
      using 1[OF False] False by (subst show_nat.simps) (simp add: digits_value_append digit_value)
    then show ?thesis by presburger
  qed
qed

lemma pad8_inj: "pad8 m = pad8 n \<longleftrightarrow> m = n"
proof
  assume "pad8 m = pad8 n"
  then have "digits_value 0 (pad8 m) = digits_value 0 (pad8 n)" by simp
  then show "m = n" unfolding pad8_def digits_value_zeros digits_value_show_nat by simp
qed simp

lemma is_digit_show_nat: "list_all is_digit (show_nat n)"
proof (induction n rule: show_nat.induct)
  case (1 n)
  have d: "is_digit (char_of (48 + k) :: char)" if "k < 10" for k :: nat using that by (simp add: is_digit_def)
  show ?case using 1 by (subst show_nat.simps) (simp add: d)
qed

lemma pad8_no_dash: "CHR ''-'' \<notin> set (pad8 n)"
  using is_digit_show_nat[of n] by (auto simp: pad8_def list_all_iff is_digit_def)

lemma shard_node_id_inj: "shard_node_id s m = shard_node_id t n \<longleftrightarrow> s = t \<and> m = n"
proof
  assume eq: "shard_node_id s m = shard_node_id t n"
  have last: "takeWhile (\<lambda>c. c \<noteq> CHR ''-'') (rev (shard_node_id u k)) = rev (pad8 k)" for u k
    using pad8_no_dash[of k] by (simp add: shard_node_id_def takeWhile_append)
  have "rev (pad8 m) = rev (pad8 n)" using last[of s m] last[of t n] unfolding eq by simp
  then have "m = n" by (simp add: pad8_inj)
  with eq show "s = t \<and> m = n" by (simp add: shard_node_id_def)
qed simp

section \<open>Ordered node lists\<close>

definition node_set :: "WorkNode list \<Rightarrow> string set" where
  "node_set ns = wn_id ` set ns"

fun ordered_nodes :: "WorkNode list \<Rightarrow> bool" where
  "ordered_nodes [] \<longleftrightarrow> True"
| "ordered_nodes (n # rest) \<longleftrightarrow> set (wn_dependencies n) \<subseteq> node_set rest \<and> wn_id n \<notin> node_set rest \<and> distinct (wn_dependencies n) \<and> ordered_nodes rest"

text \<open>The list is read from its end: a node's dependencies are earlier in the plan.\<close>

definition in_order :: "WorkNode list \<Rightarrow> bool" where
  "in_order ns \<longleftrightarrow> ordered_nodes (rev ns)"

lemma node_set_simps [simp]: "node_set [] = {}" "node_set (n # ns) = insert (wn_id n) (node_set ns)"
  "node_set (xs @ ys) = node_set xs \<union> node_set ys" "node_set (rev xs) = node_set xs"
  by (auto simp: node_set_def)

lemma in_order_Nil [simp]: "in_order []"
  by (simp add: in_order_def)

lemma in_order_snoc [simp]: "in_order (ns @ [n]) \<longleftrightarrow>
    set (wn_dependencies n) \<subseteq> node_set ns \<and> wn_id n \<notin> node_set ns \<and> distinct (wn_dependencies n) \<and> in_order ns"
  by (simp add: in_order_def)

text \<open>Nodes that may follow a plan with the identifiers in a set.\<close>

fun may_follow :: "string set \<Rightarrow> WorkNode list \<Rightarrow> bool" where
  "may_follow S [] \<longleftrightarrow> True"
| "may_follow S (n # ns) \<longleftrightarrow> set (wn_dependencies n) \<subseteq> S \<and> wn_id n \<notin> S \<and> distinct (wn_dependencies n) \<and> may_follow (insert (wn_id n) S) ns"

lemma may_follow_append: "may_follow S (ns @ ms) \<longleftrightarrow> may_follow S ns \<and> may_follow (S \<union> node_set ns) ms"
  by (induction ns arbitrary: S) auto

lemma in_order_append: "in_order (ns @ ms) \<longleftrightarrow> in_order ns \<and> may_follow (node_set ns) ms"
proof (induction ms arbitrary: ns)
  case (Cons m ms)
  have "in_order (ns @ m # ms) \<longleftrightarrow> in_order ((ns @ [m]) @ ms)" by simp
  then show ?case unfolding Cons.IH by (auto simp: insert_commute)
qed simp

lemma may_follow_independent:
  "(\<And>n. n \<in> set ns \<Longrightarrow> set (wn_dependencies n) \<subseteq> S \<and> wn_id n \<notin> S \<and> distinct (wn_dependencies n)) \<Longrightarrow>
     may_follow S ns \<longleftrightarrow> distinct (map wn_id ns)"
proof (induction ns arbitrary: S)
  case (Cons n ns)
  show ?case
  proof (cases "wn_id n \<in> wn_id ` set ns")
    case True
    have "\<not> may_follow (insert (wn_id n) S) ns" using True
    proof (induction ns arbitrary: S)
      case (Cons k ns)
      then show ?case using Cons.IH[of "insert (wn_id k) S"] by (auto simp: insert_commute)
    qed simp
    with True show ?thesis by simp
  next
    case False
    have "may_follow (insert (wn_id n) S) ns \<longleftrightarrow> distinct (map wn_id ns)"
    proof (rule Cons.IH)
      fix k assume k: "k \<in> set ns"
      with False have "wn_id k \<noteq> wn_id n" by (metis imageI)
      with Cons.prems[of k] k show "set (wn_dependencies k) \<subseteq> insert (wn_id n) S \<and> wn_id k \<notin> insert (wn_id n) S \<and> distinct (wn_dependencies k)"
        by (simp add: subset_insertI2)
    qed
    then show ?thesis using Cons.prems[of n] False by simp
  qed
qed simp

lemma in_order_distinct: "in_order ns \<Longrightarrow> distinct (map wn_id ns)"
  by (induction ns rule: rev_induct) (auto simp: node_set_def)

lemma in_order_closed: "in_order ns \<Longrightarrow> n \<in> set ns \<Longrightarrow> set (wn_dependencies n) \<subseteq> node_set ns \<and> distinct (wn_dependencies n)"
  by (induction ns rule: rev_induct) auto

definition node_edges :: "WorkNode list \<Rightarrow> (string \<times> string) set" where
  "node_edges ns = {(wn_id n, d) | n d. n \<in> set ns \<and> d \<in> set (wn_dependencies n)}"

lemma in_order_acyclic: "in_order ns \<Longrightarrow> acyclic (node_edges ns)"
proof (induction ns rule: rev_induct)
  case Nil
  have "node_edges [] = {}" by (simp add: node_edges_def)
  then show ?case by (simp add: wf_acyclic)
next
  case (snoc n ns)
  then have ih: "acyclic (node_edges ns)" and n: "set (wn_dependencies n) \<subseteq> node_set ns" "wn_id n \<notin> node_set ns" and o: "in_order ns" by auto
  let ?new = "{wn_id n} \<times> set (wn_dependencies n)"
  have eq: "node_edges (ns @ [n]) = node_edges ns \<union> ?new" by (auto simp: node_edges_def)
  have "x \<noteq> wn_id n \<and> y \<noteq> wn_id n" if "(x, y) \<in> node_edges ns" for x y
  proof -
    from that obtain k where k: "k \<in> set ns" "x = wn_id k" "y \<in> set (wn_dependencies k)" by (auto simp: node_edges_def)
    with in_order_closed[OF o, of k] have "x \<in> node_set ns" "y \<in> node_set ns" by (auto simp: node_set_def)
    then show ?thesis using n(2) by metis
  qed
  note edge = this
  have tr: "x \<noteq> wn_id n \<and> y \<noteq> wn_id n" if "(x, y) \<in> (node_edges ns)\<^sup>+" for x y
    using that by (induction rule: trancl_induct) (auto dest: edge)
  have "(x, y) \<in> (node_edges ns)\<^sup>+ \<or> (x = wn_id n \<and> y \<noteq> wn_id n)" if "(x, y) \<in> (node_edges (ns @ [n]))\<^sup>+" for x y
    using that
  proof (induction rule: trancl_induct)
    case (base y)
    then show ?case unfolding eq using n by auto
  next
    case (step y z)
    from step.hyps(2) have "(y, z) \<in> node_edges ns \<or> (y = wn_id n \<and> z \<in> set (wn_dependencies n))" unfolding eq by auto
    with step.IH tr n show ?case by (metis trancl.simps subsetD)
  qed
  then show ?case using ih by (auto simp: acyclic_def)
qed

section \<open>The shards of a plan\<close>

text \<open>What the two loops keep: the nodes so far are in order, each but the first needs the preparation, the
  recorded nodes of modules and anchors are nodes of the plan, and every module placed so far is recorded.\<close>

definition plan_inv :: "plan_state \<Rightarrow> string set \<Rightarrow> bool" where
  "plan_inv st placed \<longleftrightarrow> in_order (st_nodes st) \<and> node_set (st_nodes st) = insert ''prepare-project'' (set (st_generated st)) \<and>
     (\<forall>n \<in> set (st_nodes st). wn_id n \<noteq> ''prepare-project'' \<longrightarrow> ''prepare-project'' \<in> set (wn_dependencies n)) \<and>
     set (keys (st_module_node st)) = placed \<and>
     snd ` set (st_module_node st) \<subseteq> set (st_generated st) \<and> snd ` set (st_anchor_node st) \<subseteq> set (st_generated st)"

lemma plan_inv_start:
  "plan_inv \<lparr>st_nodes = [prepare_node P h p], st_module_node = [], st_anchor_node = [], st_generated = []\<rparr> {}"
  using in_order_snoc[of "[]" "prepare_node P h p"] by (simp add: plan_inv_def prepare_node_def sorted_set_def)

lemma update_values: "snd ` set (AList.update k v t) \<subseteq> insert v (snd ` set t)"
  by (induction t) auto

lemma record_anchors: "snd ` set (fold (\<lambda>a t. AList.update a v t) as t) \<subseteq> insert v (snd ` set t)"
proof (induction as arbitrary: t)
  case (Cons a as)
  have "snd ` set (fold (\<lambda>a t. AList.update a v t) as (AList.update a v t)) \<subseteq> insert v (snd ` set (AList.update a v t))"
    by (rule Cons.IH)
  also have "\<dots> \<subseteq> insert v (snd ` set t)" using update_values[of a v t] by blast
  finally show ?case by simp
qed auto

lemma record_module_sel [simp]:
  "st_nodes (record_module i m st) = st_nodes st" "st_generated (record_module i m st) = st_generated st"
  by (simp_all add: record_module_def)

lemma record_modules:
  assumes "snd ` set (st_module_node st) \<subseteq> V" "snd ` set (st_anchor_node st) \<subseteq> V" "i \<in> V"
    and "st' = fold (record_module i) members st"
  shows "st_nodes st' = st_nodes st \<and> st_generated st' = st_generated st \<and>
    set (keys (st_module_node st')) = set (keys (st_module_node st)) \<union> m_module_id ` set members \<and>
    snd ` set (st_module_node st') \<subseteq> V \<and> snd ` set (st_anchor_node st') \<subseteq> V"
  using assms(1,2) unfolding assms(4)
proof (induction members arbitrary: st)
  case (Cons m members)
  have "snd ` set (st_module_node (record_module i m st)) \<subseteq> V" "snd ` set (st_anchor_node (record_module i m st)) \<subseteq> V"
    unfolding record_module_def using Cons.prems assms(3)
    by (simp_all add: subset_trans[OF update_values] subset_trans[OF record_anchors])
  from Cons.IH[OF this] show ?case by (auto simp: record_module_def dom_update)
qed simp

lemma mapM_Inr_mem: "mapM f xs = Inr ys \<Longrightarrow> y \<in> set ys \<Longrightarrow> \<exists>x \<in> set xs. f x = Inr y"
  by (induction xs arbitrary: ys) auto

lemma module_dependencies_total:
  assumes "set (m_depends_on m) \<subseteq> set (keys (st_module_node st)) \<union> set member_ids"
  shows "\<exists>ds. module_dependencies st member_ids m = Inr ds"
proof -
  have "\<exists>ns. mapM (\<lambda>d. case map_of (st_module_node st) d of None \<Rightarrow> Inl (KeyError d) | Some n \<Rightarrow> Inr n)
      (filter (\<lambda>d. d \<notin> set member_ids) (m_depends_on m)) = Inr ns"
    using assms by (intro mapM_all_Inr) (auto split: option.splits simp: map_of_eq_None_iff)
  then show ?thesis by (auto simp: module_dependencies_def)
qed

lemma module_dependencies_known:
  assumes "module_dependencies st member_ids m = Inr ds"
  shows "set ds \<subseteq> snd ` set (st_module_node st) \<union> snd ` set (st_anchor_node st)"
proof -
  obtain ns where ns: "mapM (\<lambda>d. case map_of (st_module_node st) d of None \<Rightarrow> Inl (KeyError d) | Some n \<Rightarrow> Inr n)
      (filter (\<lambda>d. d \<notin> set member_ids) (m_depends_on m)) = Inr ns"
    and ds: "ds = ns @ concat (map (\<lambda>a. case map_of (st_anchor_node st) a of None \<Rightarrow> [] | Some n \<Rightarrow> [n]) (exclusive_anchor_keys m))"
    using assms by (auto simp: module_dependencies_def)
  show ?thesis
  proof
    fix n assume "n \<in> set ds"
    then consider "n \<in> set ns" | a where "map_of (st_anchor_node st) a = Some n"
      unfolding ds by (auto split: option.splits)
    then show "n \<in> snd ` set (st_module_node st) \<union> snd ` set (st_anchor_node st)"
    proof cases
      case 1
      from mapM_Inr_mem[OF ns this] obtain d where "map_of (st_module_node st) d = Some n" by (auto split: option.splits)
      from map_of_SomeD[OF this] show ?thesis by force
    next
      case 2
      from map_of_SomeD[OF this] show ?thesis by force
    qed
  qed
qed

lemma plan_inv_add_node:
  assumes "plan_inv st placed" and "i \<notin> insert ''prepare-project'' (set (st_generated st))"
    and "''prepare-project'' \<in> set ds" and "set ds \<subseteq> insert ''prepare-project'' (set (st_generated st))"
  shows "plan_inv (st\<lparr>st_nodes := st_nodes st @ [make_node rt i s ds p], st_generated := st_generated st @ [i]\<rparr>) placed"
  using assms unfolding plan_inv_def by (simp add: subset_insertI2) blast

definition shard_ids :: "string list \<Rightarrow> bool" where
  "shard_ids gs \<longleftrightarrow> (\<forall>g \<in> set gs. \<exists>s k. s \<noteq> ''assets'' \<and> k < length gs \<and> g = shard_node_id s k)"

lemma shard_ids_snoc:
  assumes "shard_ids gs" "s \<noteq> ''assets''"
  shows "shard_ids (gs @ [shard_node_id s (length gs)])" and "shard_node_id s (length gs) \<notin> insert ''prepare-project'' (set gs)"
proof -
  show "shard_ids (gs @ [shard_node_id s (length gs)])"
    using assms unfolding shard_ids_def by simp (metis less_Suc_eq)
  have "shard_node_id s (length gs) \<notin> set gs"
    using assms(1) unfolding shard_ids_def by (metis less_irrefl shard_node_id_inj)
  then show "shard_node_id s (length gs) \<notin> insert ''prepare-project'' (set gs)" by (simp add: shard_node_id_def)
qed

lemma shard_step_ok:
  assumes inv: "plan_inv st placed" and gs: "shard_ids (st_generated st)" and s: "stage \<noteq> ''assets''"
    and deps: "\<And>m. m \<in> set members \<Longrightarrow> set (m_depends_on m) \<subseteq> placed \<union> m_module_id ` set members"
    and routed: "\<And>m. m \<in> set members \<Longrightarrow> route_by_module_id routing (m_module_id m) \<noteq> None"
  shows "\<exists>st'. shard_step P routing st (stage, members) = Inr st' \<and> plan_inv st' (placed \<union> m_module_id ` set members) \<and>
    shard_ids (st_generated st')"
proof -
  let ?i = "shard_node_id stage (length (st_generated st))"
  have keys: "set (keys (st_module_node st)) = placed" using inv by (simp add: plan_inv_def)
  obtain dss where dss: "mapM (module_dependencies st (map m_module_id members)) members = Inr dss"
    using mapM_all_Inr[of members "module_dependencies st (map m_module_id members)"] module_dependencies_total deps keys
    by (metis set_map)
  obtain routes where routes: "module_routes routing members = Inr routes"
    unfolding module_routes_def using mapM_all_Inr[of members] routed by (smt (verit) option.case_eq_if)
  have "set ds \<subseteq> set (st_generated st)" if ds: "ds \<in> set dss" for ds
  proof -
    from mapM_Inr_mem[OF dss ds] obtain m where "module_dependencies st (map m_module_id members) m = Inr ds" by blast
    from module_dependencies_known[OF this] show ?thesis using inv unfolding plan_inv_def by (meson Un_least subset_trans)
  qed
  then have known: "set (concat dss) \<subseteq> set (st_generated st)" by (simp add: UN_least)
  define ds where "ds = filter (\<lambda>d. d \<noteq> ?i) (''prepare-project'' # concat dss)"
  have ds: "''prepare-project'' \<in> set ds" "set ds \<subseteq> insert ''prepare-project'' (set (st_generated st))"
    using known shard_ids_snoc(2)[OF gs s] by (auto simp: ds_def)
  obtain p where step: "shard_step P routing st (stage, members) = Inr (fold (record_module ?i) members
      (st\<lparr>st_nodes := st_nodes st @ [make_node (pl_runtime P) ?i (''generate:'' @ stage) ds p],
          st_generated := st_generated st @ [?i]\<rparr>))"
    using dss routes by (simp add: shard_step_def Let_def ds_def)
  let ?st1 = "st\<lparr>st_nodes := st_nodes st @ [make_node (pl_runtime P) ?i (''generate:'' @ stage) ds p], st_generated := st_generated st @ [?i]\<rparr>"
  have inv1: "plan_inv ?st1 placed" by (rule plan_inv_add_node[OF inv shard_ids_snoc(2)[OF gs s] ds])
  have "plan_inv (fold (record_module ?i) members ?st1) (placed \<union> m_module_id ` set members) \<and>
      st_generated (fold (record_module ?i) members ?st1) = st_generated st @ [?i]"
    using record_modules[OF _ _ _ refl, of ?st1 "set (st_generated ?st1)" ?i members] inv1 unfolding plan_inv_def by simp
  then show ?thesis using step shard_ids_snoc(1)[OF gs s] by simp
qed

lemma shard_steps_ok:
  "plan_inv st placed \<Longrightarrow> shard_ids (st_generated st) \<Longrightarrow>
   (\<And>pre stage members post. shards = pre @ (stage, members) # post \<Longrightarrow> stage \<noteq> ''assets'' \<and>
      (\<forall>m \<in> set members. set (m_depends_on m) \<subseteq> placed \<union> m_module_id ` (set (concat (map snd pre)) \<union> set members) \<and>
         route_by_module_id routing (m_module_id m) \<noteq> None)) \<Longrightarrow>
   \<exists>st'. foldM (shard_step P routing) st shards = Inr st' \<and> plan_inv st' (placed \<union> m_module_id ` set (concat (map snd shards))) \<and>
     shard_ids (st_generated st')"
proof (induction shards arbitrary: st placed)
  case (Cons shard shards)
  obtain stage members where sh: "shard = (stage, members)" by (rule prod.exhaust)
  have "stage \<noteq> ''assets'' \<and> (\<forall>m \<in> set members. set (m_depends_on m) \<subseteq> placed \<union> m_module_id ` set members \<and>
         route_by_module_id routing (m_module_id m) \<noteq> None)"
    using Cons.prems(3)[of "[]" stage members shards] sh by simp
  then obtain st1 where st1: "shard_step P routing st (stage, members) = Inr st1" "plan_inv st1 (placed \<union> m_module_id ` set members)"
      "shard_ids (st_generated st1)"
    using shard_step_ok[OF Cons.prems(1,2), of stage members routing P] by blast
  have "\<exists>st'. foldM (shard_step P routing) st1 shards = Inr st' \<and>
      plan_inv st' (placed \<union> m_module_id ` set members \<union> m_module_id ` set (concat (map snd shards))) \<and> shard_ids (st_generated st')"
  proof (rule Cons.IH[OF st1(2,3)])
    fix pre s ms post assume "shards = pre @ (s, ms) # post"
    then show "s \<noteq> ''assets'' \<and> (\<forall>m \<in> set ms. set (m_depends_on m) \<subseteq> placed \<union> m_module_id ` set members \<union>
        m_module_id ` (set (concat (map snd pre)) \<union> set ms) \<and> route_by_module_id routing (m_module_id m) \<noteq> None)"
      using Cons.prems(3)[of "shard # pre" s ms post] sh by (simp add: image_Un Un_assoc)
  qed
  then show ?case using st1(1) sh by (simp add: image_Un Un_assoc)
qed simp

section \<open>Asset shards\<close>

lemma asset_node_id: "''generate-assets-'' @ pad8 k = shard_node_id ''assets'' k"
  by (simp add: shard_node_id_def)

definition asset_ids :: "string list \<Rightarrow> nat \<Rightarrow> string list" where
  "asset_ids gs k = gs @ map (shard_node_id ''assets'') [0..<k]"

lemma asset_id_fresh: "shard_ids gs \<Longrightarrow> shard_node_id ''assets'' k \<notin> insert ''prepare-project'' (set (asset_ids gs k))"
  by (auto simp: asset_ids_def shard_ids_def shard_node_id_inj) (simp add: shard_node_id_def)

lemma asset_dependency_ok:
  assumes "ar_owner_module_id a \<in> insert [] (set (keys module_node))"
  shows "\<exists>ds. asset_dependency module_node a = Inr ds"
  using assms by (auto simp: asset_dependency_def map_of_eq_None_iff split: option.splits)

lemma asset_dependency_known: "asset_dependency module_node a = Inr ds \<Longrightarrow> set ds \<subseteq> snd ` set module_node"
  by (auto simp: asset_dependency_def split: if_splits option.splits dest!: map_of_SomeD) force

lemma asset_step_ok:
  assumes inv: "plan_inv st placed" and gs: "shard_ids gs" "st_generated st = asset_ids gs k"
    and owners: "ar_owner_module_id ` set assets \<subseteq> insert [] placed"
  shows "\<exists>st'. asset_step P digest st (k, assets) = Inr st' \<and> plan_inv st' placed \<and> st_generated st' = asset_ids gs (Suc k)"
proof -
  have keys: "set (keys (st_module_node st)) = placed" and known: "snd ` set (st_module_node st) \<subseteq> set (st_generated st)"
    using inv by (simp_all add: plan_inv_def)
  obtain dss where dss: "mapM (asset_dependency (st_module_node st)) assets = Inr dss"
    using mapM_all_Inr[of assets "asset_dependency (st_module_node st)"] asset_dependency_ok owners keys by blast
  have "set ds \<subseteq> set (st_generated st)" if "ds \<in> set dss" for ds
    using mapM_Inr_mem[OF dss that] asset_dependency_known known by blast
  then have ds: "set (''prepare-project'' # concat dss) \<subseteq> insert ''prepare-project'' (set (st_generated st))" by auto
  have "plan_inv (st\<lparr>st_nodes := st_nodes st @ [make_node (pl_runtime P) (shard_node_id ''assets'' k) ''generate:assets'' (''prepare-project'' # concat dss) p],
      st_generated := st_generated st @ [shard_node_id ''assets'' k]\<rparr>) placed" for p
    using asset_id_fresh[OF gs(1), of k] by (intro plan_inv_add_node[OF inv _ _ ds]) (simp_all add: gs(2))
  then show ?thesis using dss gs(2) unfolding asset_step_def Let_def asset_node_id by (simp add: asset_ids_def)
qed

lemma asset_steps_ok:
  assumes "plan_inv st placed" and "shard_ids gs" "st_generated st = asset_ids gs k"
    and "\<And>a. a \<in> set (concat cs) \<Longrightarrow> ar_owner_module_id a \<in> insert [] placed"
  shows "\<exists>st'. foldM (asset_step P digest) st (zip [k..<k + length cs] cs) = Inr st' \<and> plan_inv st' placed \<and>
    st_generated st' = asset_ids gs (k + length cs)"
  using assms
proof (induction cs arbitrary: st k)
  case (Cons c cs)
  have "ar_owner_module_id ` set c \<subseteq> insert [] placed" using Cons.prems(4) by auto
  from asset_step_ok[OF Cons.prems(1-3) this] obtain st1 where st1: "asset_step P digest st (k, c) = Inr st1" "plan_inv st1 placed"
    "st_generated st1 = asset_ids gs (Suc k)" by blast
  have "[k..<k + length (c # cs)] = k # [Suc k..<Suc k + length cs]" by (simp add: upt_rec[of k] del: upt_Suc)
  with Cons.IH[OF st1(2) Cons.prems(2) st1(3)] Cons.prems(4) st1(1) show ?case by (simp del: upt_Suc)
qed simp

section \<open>All nodes\<close>

lemma stage_table_no_assets: "''assets'' \<notin> set (map snd NATIVE_PRODUCTION_STAGE_BY_KIND @ map snd NATIVE_INTEGRATION_STAGE_BY_TYPE)"
  by code_simp

lemma native_stage_not_assets: "native_production_stage kind config = Some stage \<Longrightarrow> stage \<noteq> ''assets''"
  using stage_table_no_assets
  by (auto simp: native_production_stage_def Let_def split: option.splits if_splits dest!: map_of_SomeD) force+

lemma module_route_spec:
  "module_route available owners m = Inr r \<Longrightarrow> mr_module_id r = m_module_id m \<and> mr_stage r \<noteq> ''assets''"
  by (auto simp: module_route_def dest: native_stage_not_assets split: if_splits option.splits)

lemma compile_routes:
  assumes "compile_production_routing rt host proposal (Some ms) = Inr routing"
  obtains available owners where "mapM (module_route available owners) ms = Inr (pr_routes routing)"
  using assms by (auto simp: compile_production_routing_def Let_def split: if_splits)

lemma routed_modules:
  assumes "compile_production_routing rt host proposal (Some ms) = Inr routing"
  shows "map mr_module_id (pr_routes routing) = map m_module_id ms" and "r \<in> set (pr_routes routing) \<Longrightarrow> mr_stage r \<noteq> ''assets''"
proof -
  from compile_routes[OF assms] obtain available owners where m: "mapM (module_route available owners) ms = Inr (pr_routes routing)" .
  then have "list_all2 (\<lambda>x y. module_route available owners x = Inr y) ms (pr_routes routing)" by (simp add: mapM_Inr_iff)
  then show "map mr_module_id (pr_routes routing) = map m_module_id ms"
    by (induction rule: list_all2_induct) (simp_all add: module_route_spec)
  show "r \<in> set (pr_routes routing) \<Longrightarrow> mr_stage r \<noteq> ''assets''" using mapM_Inr_mem[OF m] module_route_spec by blast
qed

lemma plan_shards_ok:
  assumes d: "distinct (map m_module_id ms)" and r: "compile_production_routing rt host proposal (Some ms) = Inr routing"
    and sh: "module_shards env policy (Some (map (\<lambda>r. (mr_module_id r, mr_stage r)) (rev (pr_routes routing)))) None [] ms = Inr shards"
  shows "\<exists>st. foldM (shard_step P routing) \<lparr>st_nodes = [prepare_node P h p], st_module_node = [], st_anchor_node = [], st_generated = []\<rparr>
      shards = Inr st \<and> plan_inv st (m_module_id ` set ms) \<and> shard_ids (st_generated st)"
proof -
  have all: "set (concat (map snd shards)) = set ms"
    using shards_partition(1)[OF d sh] by (metis set_mset_mset)
  have stages: "stage \<noteq> ''assets''" if "(stage, members) \<in> set shards" for stage members
  proof -
    from shards_partition(2)[OF d sh that] obtain m where "m \<in> set members"
      "map_of (map (\<lambda>r. (mr_module_id r, mr_stage r)) (rev (pr_routes routing))) (m_module_id m) = Some stage"
      by (metis list.set_intros(1) neq_Nil_conv)
    from map_of_SomeD[OF this(2)] show ?thesis using routed_modules(2)[OF r] by auto
  qed
  have routed: "route_by_module_id routing (m_module_id m) \<noteq> None" if "m \<in> set ms" for m
  proof -
    have "m_module_id m \<in> set (map mr_module_id (pr_routes routing))" using that routed_modules(1)[OF r] by simp
    then show ?thesis unfolding route_by_module_id_def map_of_eq_None_iff by (simp add: image_image)
  qed
  have members: "set members \<subseteq> set ms" if "(stage, members) \<in> set shards" for stage members
    using that unfolding all[symmetric] by force
  have "\<exists>st. foldM (shard_step P routing) \<lparr>st_nodes = [prepare_node P h p], st_module_node = [], st_anchor_node = [], st_generated = []\<rparr>
      shards = Inr st \<and> plan_inv st ({} \<union> m_module_id ` set (concat (map snd shards))) \<and> shard_ids (st_generated st)"
  proof (rule shard_steps_ok[OF plan_inv_start])
    fix pre stage members post assume at: "shards = pre @ (stage, members) # post"
    then have mem: "(stage, members) \<in> set shards" by simp
    have "set (m_depends_on m) \<subseteq> m_module_id ` (set (concat (map snd pre)) \<union> set members)" if "m \<in> set members" for m
      by (rule shard_dependencies[OF d sh[unfolded at] that])
    with stages[OF mem] members[OF mem] routed show "stage \<noteq> ''assets'' \<and> (\<forall>m \<in> set members.
        set (m_depends_on m) \<subseteq> {} \<union> m_module_id ` (set (concat (map snd pre)) \<union> set members) \<and> route_by_module_id routing (m_module_id m) \<noteq> None)"
      by (metis Un_empty_left subsetD)
  qed (simp add: shard_ids_def)
  then show ?thesis unfolding all by simp
qed

lemma quality_node_spec:
  assumes "quality_node rt contract v = Inr n"
  shows "\<exists>x. wn_id n = ''validate-quality-'' @ x" and "set (wn_dependencies n) \<subseteq> {''validate-jar'', ''runtime-playtest''}"
    and "wn_dependencies n \<noteq> []" and "distinct (wn_dependencies n)"
  using assms by (auto simp: quality_node_def quality_node_id_def Let_def sorted_set_def split: pyval.splits if_splits)

lemma quality_nodes_spec:
  "quality_nodes rt proposal = Inr ns \<Longrightarrow> n \<in> set ns \<Longrightarrow> \<exists>contract v. quality_node rt contract v = Inr n"
  by (auto simp: quality_nodes_def split: pyval.splits if_splits list.splits) (meson mapM_Inr_mem)+

lemma generated_prefix: "shard_ids gs \<Longrightarrow> g \<in> set (asset_ids gs k) \<Longrightarrow> \<exists>x. g = ''generate-'' @ x"
  by (auto simp: shard_ids_def asset_ids_def shard_node_id_def)

lemma plan_nodes_shape:
  assumes "distinct (map m_module_id ms)" and "compile_production_routing rt host proposal (Some ms) = Inr routing"
    and "module_shards (pl_env P) policy (Some (map (\<lambda>r. (mr_module_id r, mr_stage r)) (rev (pr_routes routing)))) None [] ms = Inr shards"
    and "asset_plan_digest P proposal = Inr digest" and q: "quality_nodes (pl_runtime P) proposal = Inr quality"
  shows "\<exists>st. plan_nodes_of P policy proposal h ms routing = Inr (st_nodes st @ fixed_nodes (pl_runtime P) proposal (st_generated st) @
      quality @ package_nodes (pl_runtime P) (map wn_id quality)) \<and> plan_inv st (m_module_id ` set ms) \<and>
    (\<forall>g \<in> set (st_generated st). \<exists>x. g = ''generate-'' @ x)"
proof -
  let ?assets = "selected_assets proposal (map m_module_id ms)"
  let ?cs = "chunks ?assets (asset_shard_size (pl_env P) policy (length ?assets))"
  have size: "0 < asset_shard_size (pl_env P) policy (length ?assets)" by (auto simp: asset_shard_size_def Let_def)
  obtain st1 where st1: "foldM (shard_step P routing)
      \<lparr>st_nodes = [prepare_node P h proposal], st_module_node = [], st_anchor_node = [], st_generated = []\<rparr> shards = Inr st1"
    "plan_inv st1 (m_module_id ` set ms)" "shard_ids (st_generated st1)"
    using plan_shards_ok[OF assms(1-3)] by blast
  have gen1: "st_generated st1 = asset_ids (st_generated st1) 0" by (simp add: asset_ids_def)
  have owners: "ar_owner_module_id a \<in> insert [] (m_module_id ` set ms)" if "a \<in> set (concat ?cs)" for a
  proof -
    have "a \<in> set ?assets" using that chunks_spec[OF size, of ?assets] by metis
    then show ?thesis by (auto simp: selected_assets_def)
  qed
  obtain st2 where st2: "foldM (asset_step P digest) st1 (zip [0..<0 + length ?cs] ?cs) = Inr st2"
    "plan_inv st2 (m_module_id ` set ms)" "st_generated st2 = asset_ids (st_generated st1) (0 + length ?cs)"
    using asset_steps_ok[OF st1(2,3) gen1 owners] by blast
  have gen: "\<forall>g \<in> set (st_generated st2). \<exists>x. g = ''generate-'' @ x"
    using generated_prefix[OF st1(3)] unfolding st2(3) by blast
  have "plan_nodes_of P policy proposal h ms routing = Inr (st_nodes st2 @ fixed_nodes (pl_runtime P) proposal (st_generated st2) @
      quality @ package_nodes (pl_runtime P) (map wn_id quality))"
    using st1(1) st2(1) assms(3-5) by (simp add: plan_nodes_of_def Let_def)
  with st2(2) gen show ?thesis by blast
qed

section \<open>The whole plan\<close>

lemma case_error_Inr: "(case x of Inl e \<Rightarrow> Inl (f e) | Inr r \<Rightarrow> g r) = Inr y \<longleftrightarrow> (\<exists>r. x = Inr r \<and> g r = Inr y)"
  by (cases x) simp_all

lemma build_plan_shape:
  assumes "build_production_work_plan P proposal policy modules = Inr plan"
  obtains quality st placed where "quality_nodes (pl_runtime P) proposal = Inr quality" "plan_inv st placed"
    "\<forall>g \<in> set (st_generated st). \<exists>x. g = ''generate-'' @ x"
    "plan_nodes plan = st_nodes st @ fixed_nodes (pl_runtime P) proposal (st_generated st) @
      quality @ package_nodes (pl_runtime P) (map wn_id quality)"
proof -
  from assms obtain pol h selected ordered routing where d: "distinct (map m_module_id selected)" and o: "topological_modules selected = Inr ordered"
    and r: "compile_production_routing (pl_runtime P) (pl_routing P) proposal (Some ordered) = Inr routing"
    and n: "plan_nodes_of P pol proposal h ordered routing = Inr (plan_nodes plan)"
    by (auto simp: build_production_work_plan_def Let_def case_error_Inr split: if_split_asm)
  have d': "distinct (map m_module_id ordered)" using topological_modules_spec[OF d o] by blast
  from n obtain shards digest quality where
    "module_shards (pl_env P) pol (Some (map (\<lambda>r. (mr_module_id r, mr_stage r)) (rev (pr_routes routing)))) None [] ordered = Inr shards"
    "asset_plan_digest P proposal = Inr digest" and q: "quality_nodes (pl_runtime P) proposal = Inr quality"
    by (auto simp: plan_nodes_of_def Let_def)
  from plan_nodes_shape[OF d' r this, of h] obtain st where "plan_inv st (m_module_id ` set ordered)"
      "\<forall>g \<in> set (st_generated st). \<exists>x. g = ''generate-'' @ x"
      "plan_nodes plan = st_nodes st @ fixed_nodes (pl_runtime P) proposal (st_generated st) @
        quality @ package_nodes (pl_runtime P) (map wn_id quality)"
    unfolding n by (metis sum.inject(2))
  with q show ?thesis by (intro that)
qed

lemma sorted_set_singleton [simp]: "sorted_set [x] = [x]"
  by (simp add: sorted_set_def)

lemma plan_in_order_iff:
  assumes inv: "plan_inv st placed" and gen: "\<forall>g \<in> set (st_generated st). \<exists>x. g = ''generate-'' @ x"
    and q: "quality_nodes rt' proposal = Inr quality"
  shows "in_order (st_nodes st @ fixed_nodes rt proposal (st_generated st) @ quality @ package_nodes rt (map wn_id quality)) \<longleftrightarrow>
    distinct (map wn_id quality)"
proof -
  let ?S = "insert ''prepare-project'' (set (st_generated st))"
  let ?F = "{''runtime-playtest'', ''validate-jar'', ''validate-source-final'', ''build-project'', ''validate-source''}"
  have st: "in_order (st_nodes st)" "node_set (st_nodes st) = ?S" using inv by (simp_all add: plan_inv_def)
  have no: "x \<notin> set (st_generated st)" if "hd x \<noteq> CHR ''g''" for x using gen that by fastforce
  have ids: "node_set (fixed_nodes rt proposal (st_generated st)) = ?F" by (auto simp: fixed_nodes_def)
  have fixed: "may_follow ?S (fixed_nodes rt proposal (st_generated st))"
    by (auto simp: fixed_nodes_def no)
  have quality: "may_follow (?S \<union> ?F) quality \<longleftrightarrow> distinct (map wn_id quality)"
  proof (rule may_follow_independent)
    fix n assume "n \<in> set quality"
    from quality_nodes_spec[OF q this] obtain c v where n: "quality_node rt' c v = Inr n" by blast
    from quality_node_spec[OF n] obtain x where "wn_id n = ''validate-quality-'' @ x" by blast
    then have "wn_id n \<notin> ?S \<union> ?F" using no[of "wn_id n"] by simp
    then show "set (wn_dependencies n) \<subseteq> ?S \<union> ?F \<and> wn_id n \<notin> ?S \<union> ?F \<and> distinct (wn_dependencies n)"
      using quality_node_spec[OF n] by blast
  qed
  have pkg: "may_follow (?S \<union> ?F \<union> node_set quality) (package_nodes rt (map wn_id quality))"
  proof -
    have "hd x = CHR ''v''" if "x \<in> node_set quality" for x
      using that quality_nodes_spec[OF q] quality_node_spec(1) unfolding node_set_def by fastforce
    then have "''package-build-artifact'' \<notin> node_set quality" "''package-release'' \<notin> node_set quality" by force+
    then show ?thesis by (auto simp: package_nodes_def no node_set_def)
  qed
  show ?thesis using fixed quality pkg by (simp add: in_order_append may_follow_append st ids Un_assoc)
qed

lemma node_edges_plan: "node_edges (plan_nodes plan) = set (desired_edges plan)"
  by (auto simp: node_edges_def mem_desired_edges)

lemma distinct_desired_edges:
  "distinct (map wn_id ns) \<Longrightarrow> (\<And>n. n \<in> set ns \<Longrightarrow> distinct (wn_dependencies n)) \<Longrightarrow>
     distinct (concat (map (\<lambda>n. map (Pair (wn_id n)) (wn_dependencies n)) ns))"
  by (induction ns) (auto simp: distinct_map inj_on_def)

lemma in_order_accepted:
  assumes "in_order (plan_nodes plan)"
  shows "distinct (node_ids plan) \<and> missing_dependencies plan = [] \<and> distinct (desired_edges plan)"
proof -
  have "distinct (node_ids plan)" using in_order_distinct[OF assms] by (simp add: node_ids_def)
  moreover have "snd ` set (desired_edges plan) \<subseteq> set (node_ids plan)"
    using in_order_closed[OF assms] by (force simp: desired_edges_def node_ids_def node_set_def)
  then have "set (missing_dependencies plan) = {}" unfolding missing_dependencies_def set_sorted_set by auto
  ultimately show ?thesis using in_order_closed[OF assms] by (simp add: desired_edges_def distinct_desired_edges node_ids_def)
qed

text \<open>C10. The ledger takes every plan the planner builds: its nodes are distinct and in dependency order, their
  dependencies are nodes of the plan and the graph is acyclic, so a ledger of the same proposal accepts it,
  with the one exception of quality dimensions whose node names coincide.\<close>

theorem work_plan_syncs:
  assumes "build_production_work_plan P proposal policy modules = Inr plan" and "proposal_hash L = plan_proposal_hash plan"
    and "quality_nodes (pl_runtime P) proposal = Inr quality"
  shows "((\<exists>r. snd (sync_plan now plan L) = Inr r) \<longleftrightarrow> distinct (map wn_id quality)) \<and>
    (distinct (map wn_id quality) \<longrightarrow> acyclic (set (desired_edges plan)))"
proof -
  obtain q st placed where q: "quality_nodes (pl_runtime P) proposal = Inr q"
    and inv: "plan_inv st placed" and gen: "\<forall>g \<in> set (st_generated st). \<exists>x. g = ''generate-'' @ x"
    and nodes: "plan_nodes plan = st_nodes st @ fixed_nodes (pl_runtime P) proposal (st_generated st) @ q @ package_nodes (pl_runtime P) (map wn_id q)"
    by (rule build_plan_shape[OF assms(1)])
  have "q = quality" using q assms(3) by simp
  then have "in_order (plan_nodes plan) \<longleftrightarrow> distinct (map wn_id quality)" "distinct (node_ids plan) \<longrightarrow> distinct (map wn_id quality)"
    using plan_in_order_iff[OF inv gen q] by (simp_all add: nodes node_ids_def)
  then show ?thesis using in_order_accepted[of plan] in_order_acyclic[of "plan_nodes plan"] assms(2)
    unfolding sync_plan_cases(2) node_edges_plan by (auto simp: sync_accepts_def)
qed

section \<open>The release\<close>

text \<open>A task that is running or has succeeded has only succeeded tasks below it.\<close>

lemma active_closure:
  assumes "deps_ok L" and "(n, d) \<in> (set (edges L))\<^sup>+" and "task_of L n = Some t" and "t_state t \<in> {RUNNING, SUCCEEDED}"
  shows "\<exists>u. task_of L d = Some u \<and> t_state u = SUCCEEDED"
  using assms(2)
proof (induction rule: trancl_induct)
  case (base d)
  then have "has_state L d SUCCEEDED" using assms(1,3,4) by (auto simp: deps_ok_def active_def)
  then show ?case by (simp add: has_state_iff)
next
  case (step d e)
  then have "has_state L e SUCCEEDED" using assms(1) by (auto simp: deps_ok_def active_def)
  then show ?case by (simp add: has_state_iff)
qed

lemma release_reaches:
  fixes rt :: runtime
  assumes inv: "plan_inv st placed" and q: "quality_nodes rt' proposal = Inr quality"
  defines "nodes \<equiv> st_nodes st @ fixed_nodes rt proposal (st_generated st) @ quality @ package_nodes rt (map wn_id quality)"
  assumes n: "n \<in> node_set nodes" "n \<noteq> ''package-release''"
  shows "(''package-release'', n) \<in> (node_edges nodes)\<^sup>+"
proof -
  have edge: "(wn_id k, d) \<in> node_edges nodes" if "k \<in> set nodes" "d \<in> set (wn_dependencies k)" for k d
    using that by (auto simp: node_edges_def)
  let ?E = "node_edges nodes" and ?r = "''package-release''"
  have direct: "(?r, ''package-build-artifact'') \<in> ?E" "(?r, ''runtime-playtest'') \<in> ?E" "d \<in> node_set quality \<Longrightarrow> (?r, d) \<in> ?E" for d
    by (force simp: node_edges_def nodes_def package_nodes_def node_set_def)+
  have chain: "(''runtime-playtest'', ''validate-jar'') \<in> ?E" "(''validate-jar'', ''validate-source-final'') \<in> ?E"
    "(''validate-source-final'', ''build-project'') \<in> ?E" "(''build-project'', ''validate-source'') \<in> ?E"
    by (force simp: node_edges_def nodes_def fixed_nodes_def)+
  have source: "d \<in> set (st_generated st) \<Longrightarrow> (''validate-source'', d) \<in> ?E" "st_generated st = [] \<Longrightarrow> (''validate-source'', ''prepare-project'') \<in> ?E" for d
    by (force simp: node_edges_def nodes_def fixed_nodes_def)+
  have to_source: "(?r, ''validate-source'') \<in> ?E\<^sup>+" using direct(2) chain by (meson trancl.simps)
  have generated: "(?r, d) \<in> ?E\<^sup>+" if "d \<in> set (st_generated st)" for d using to_source source(1)[OF that] by (rule trancl_into_trancl)
  have prepare: "(?r, ''prepare-project'') \<in> ?E\<^sup>+"
  proof (cases "st_generated st")
    case Nil
    show ?thesis using to_source source(2)[OF Nil] by (rule trancl_into_trancl)
  next
    case (Cons g gs)
    then have "g \<in> node_set (st_nodes st)" using inv by (simp add: plan_inv_def)
    then obtain k where k: "k \<in> set (st_nodes st)" "wn_id k = g" by (auto simp: node_set_def)
    then have "g = ''prepare-project'' \<or> (g, ''prepare-project'') \<in> ?E" using inv edge[of k] by (auto simp: plan_inv_def nodes_def)
    then show ?thesis using generated[of g] Cons by (auto intro: trancl_into_trancl)
  qed
  have "n \<in> insert ''prepare-project'' (set (st_generated st)) \<union> node_set quality \<union>
      {''validate-source'', ''build-project'', ''validate-source-final'', ''validate-jar'', ''runtime-playtest'', ''package-build-artifact''}"
    using n inv by (auto simp: nodes_def plan_inv_def fixed_nodes_def package_nodes_def)
  moreover have "(?r, ''validate-jar'') \<in> ?E\<^sup>+" "(?r, ''validate-source-final'') \<in> ?E\<^sup>+" "(?r, ''build-project'') \<in> ?E\<^sup>+"
    using direct(2) chain by (meson trancl.simps)+
  ultimately show ?thesis using generated prepare direct to_source by (auto intro: r_into_trancl)
qed


section \<open>Completeness\<close>

lemma routed_for_shards:
  assumes "compile_production_routing rt host proposal (Some ordered) = Inr routing" and "set ordered = set ms"
  shows "set ms \<subseteq> {m. map_of (map (\<lambda>r. (mr_module_id r, mr_stage r)) (rev (pr_routes routing))) (m_module_id m) \<noteq> None}"
proof
  fix m assume "m \<in> set ms"
  then have "m_module_id m \<in> set (map mr_module_id (pr_routes routing))" using routed_modules(1)[OF assms(1)] assms(2) by simp
  then show "m \<in> {m. map_of (map (\<lambda>r. (mr_module_id r, mr_stage r)) (rev (pr_routes routing))) (m_module_id m) \<noteq> None}"
    unfolding mem_Collect_eq map_of_eq_None_iff by (simp add: image_image)
qed

lemma plan_exists:
  assumes "validate_complete (pl_complete P) policy proposal = Inr ()" and "cp_approval_hash proposal \<noteq> []"
    and "pl_env P = (\<lambda>_. None)" and "2 \<le> entity_shard_size policy"
    and "distinct (map m_module_id (cp_modules proposal))" and "topological_modules (cp_modules proposal) = Inr ordered"
    and "compile_production_routing (pl_runtime P) (pl_routing P) proposal (Some ordered) = Inr routing"
    and "asset_plan_digest P proposal = Inr digest" and "quality_nodes (pl_runtime P) proposal = Inr quality"
  shows "\<exists>plan. build_production_work_plan P proposal (Some policy) None = Inr plan \<and>
    plan_module_count plan = length (cp_modules proposal) \<and> plan_proposal_hash plan = cp_approval_hash proposal"
proof -
  note topo = topological_modules_spec[OF assms(5,6)]
  have "set (m_depends_on m) \<subseteq> m_module_id ` set (cp_modules proposal)" if "m \<in> set (cp_modules proposal)" for m
  proof -
    from that topo obtain i where "i < length ordered" "ordered ! i = m" by (metis in_set_conv_nth)
    with topo have "set (m_depends_on m) \<subseteq> m_module_id ` set (take i ordered)" by blast
    also have "\<dots> \<subseteq> m_module_id ` set ordered" by (intro image_mono set_take_subset)
    finally show ?thesis using topo by simp
  qed
  then have closed: "\<not> list_ex (\<lambda>m. list_ex (\<lambda>d. d \<notin> set (map m_module_id (cp_modules proposal))) (m_depends_on m)) (cp_modules proposal)"
    by (auto simp: list_ex_iff)
  obtain shards where sh: "module_shards (pl_env P) policy (Some (map (\<lambda>r. (mr_module_id r, mr_stage r)) (rev (pr_routes routing)))) None [] ordered = Inr shards"
    using shards_complete[OF assms(5,6) routed_for_shards[OF assms(7)] assms(4)] topo assms(3) by metis
  have "distinct (map m_module_id ordered)" using topo by blast
  from plan_nodes_shape[OF this assms(7) sh assms(8,9)]
  obtain ns where "plan_nodes_of P policy proposal (cp_approval_hash proposal) ordered routing = Inr ns" by blast
  then show ?thesis using assms(1,2,5,6,7) closed by (simp only: build_production_work_plan_def Let_def) simp
qed

lemma validated_is_planned:
  assumes "validate_complete (pl_complete P) policy proposal = Inr ()" and "cp_approval_hash proposal \<noteq> []"
    and "pl_env P = (\<lambda>_. None)" and "2 \<le> entity_shard_size policy"
    and "rh_adapter (pl_routing P) proposal = Inr adapter"
    and "deterministic_backend_capabilities adapter = deterministic_backend_capabilities (to_dict_lock (ms_platform (pp_spec (cp_base_proposal proposal))))"
    and "artifact_jobs (cp_game_design proposal) = Inr jobs" and "canonical_client_entrypoints (rh_spec_input (pl_routing P)) jobs = Inr entrypoints"
    and "quality_nodes (pl_runtime P) proposal = Inr quality"
  shows "\<exists>plan. build_production_work_plan P proposal (Some policy) None = Inr plan \<and>
    plan_module_count plan = length (cp_modules proposal) \<and> complete_hash (pl_complete P) proposal = Inr (plan_proposal_hash plan)"
proof -
  from validated_modules[OF assms(1)] have d: "distinct (map m_module_id (cp_modules proposal))" and assets: "cp_assets proposal = []"
    and "\<exists>ordered. topological_modules (cp_modules proposal) = Inr ordered" using acyclic_is_ordered by metis+
  then obtain ordered where o: "topological_modules (cp_modules proposal) = Inr ordered" by blast
  note topo = topological_modules_spec[OF d o]
  obtain routing where r: "compile_production_routing (pl_runtime P) (pl_routing P) proposal (Some ordered) = Inr routing"
    using validated_compiles[OF assms(1) _ _ assms(5-8)] topo by metis
  have digest: "asset_plan_digest P proposal = Inr []" by (simp add: asset_plan_digest_def assets)
  have "complete_hash (pl_complete P) proposal = Inr (cp_approval_hash proposal)"
    using assms(1,2) by (auto simp: validate_complete_def approval_check_def split: if_split_asm)
  with plan_exists[OF assms(1-4) d o r digest assms(9)] show ?thesis by metis
qed


section \<open>A sample plan\<close>

definition sample_host :: routing_host where
  "sample_host = \<lparr>rh_adapter = (\<lambda>_. Inr []), rh_spec_input = (\<lambda>_ _. Inr [])\<rparr>"

definition sample_planner :: planner where
  "sample_planner = \<lparr>pl_runtime = toy_runtime\<lparr>sha256_hex := (\<lambda>_. ''h'')\<rparr>, pl_env = (\<lambda>_. None), pl_complete = sample_complete_host,
     pl_fingerprint = (\<lambda>stage. stage), pl_asset_plan = (\<lambda>_. None), pl_routing = sample_host\<rparr>"

lemma sample_planner_sel:
  "pl_complete sample_planner = sample_complete_host" "pl_env sample_planner = (\<lambda>_. None)" "2 \<le> entity_shard_size (sample_policy 24)"
  "rh_adapter (pl_routing sample_planner) sample_proposal = Inr []"
  by (simp_all add: sample_planner_def sample_policy_def sample_host_def)

lemma sample_routing_eval:
  "(deterministic_backend_capabilities [], deterministic_backend_capabilities (to_dict_lock (ms_platform (pp_spec (cp_base_proposal sample_proposal)))),
    artifact_jobs (cp_game_design sample_proposal), canonical_client_entrypoints (rh_spec_input (pl_routing sample_planner)) []) =
   (Inr {}, Inr {}, Inr [], Inr [])"
  by code_simp

lemma sample_run:
  "deterministic_backend_capabilities [] = deterministic_backend_capabilities (to_dict_lock (ms_platform (pp_spec (cp_base_proposal sample_proposal))))"
  "artifact_jobs (cp_game_design sample_proposal) = Inr []"
  "canonical_client_entrypoints (rh_spec_input (pl_routing sample_planner)) [] = Inr []"
  using sample_routing_eval by simp_all

lemma sample_quality:
  "(case quality_nodes (pl_runtime sample_planner) sample_proposal of Inr ns \<Rightarrow> Some (map wn_id ns) | Inl _ \<Rightarrow> None) =
     Some [''validate-quality-build'', ''validate-quality-game-feel'']"
  by code_simp

lemma sample_quality_nodes:
  obtains ns where "quality_nodes (pl_runtime sample_planner) sample_proposal = Inr ns"
    "map wn_id ns = [''validate-quality-build'', ''validate-quality-game-feel'']"
  using sample_quality by (auto intro: that split: sum.splits)

lemma sample_validated:
  "validate_complete (pl_complete sample_planner) (sample_policy 24) sample_proposal = Inr ()" "cp_approval_hash sample_proposal \<noteq> []"
  by (simp_all add: sample_planner_sel sample_valid sample_facts)


theorem work_plan_syncs_witness:
  "\<exists>plan r. build_production_work_plan sample_planner sample_proposal (Some (sample_policy 24)) None = Inr plan \<and>
     snd (sync_plan 1 plan (empty_ledger\<lparr>proposal_hash := plan_proposal_hash plan\<rparr>)) = Inr r \<and> acyclic (set (desired_edges plan))"
proof -
  obtain ns where ns: "quality_nodes (pl_runtime sample_planner) sample_proposal = Inr ns"
    "map wn_id ns = [''validate-quality-build'', ''validate-quality-game-feel'']" by (rule sample_quality_nodes)
  from validated_is_planned[OF sample_validated sample_planner_sel(2-4) sample_run ns(1)] obtain plan where
    plan: "build_production_work_plan sample_planner sample_proposal (Some (sample_policy 24)) None = Inr plan" by blast
  have "distinct (map wn_id ns)" by (simp add: ns(2))
  then show ?thesis using work_plan_syncs[OF plan _ ns(1), of "empty_ledger\<lparr>proposal_hash := plan_proposal_hash plan\<rparr>" 1] plan by simp
qed

text \<open>A plan without modules, worked off up to the release.\<close>

definition bare_node :: "string \<Rightarrow> string \<Rightarrow> string list \<Rightarrow> string \<Rightarrow> pydict \<Rightarrow> WorkNode" where
  "bare_node i stage deps rc payload = \<lparr>wn_id = i, wn_stage = stage, wn_input_hash = ''sha256:h'', wn_dependencies = deps,
     wn_payload = payload @ [(''resource_class'', PStr rc)], wn_resource_class = rc\<rparr>"

definition bare_plan :: WorkGraphPlan where
  "bare_plan = \<lparr>plan_schema_version = ''mmm/production-work-graph-v1'', plan_proposal_hash = zero_hash, plan_graph_hash = ''sha256:h'',
     plan_module_count = 0, plan_nodes = [
       bare_node ''prepare-project'' ''prepare'' [] ''cpu_io'' [(''kind'', PStr ''prepare''), (''proposal_hash'', PStr zero_hash),
         (''existing_input_sha256'', PStr []), (''production_implementation'', PStr ''prepare'')],
       bare_node ''validate-source'' ''validate:source'' [''prepare-project''] ''commit''
         [(''kind'', PStr ''validation''), (''acceptance_tests'', PList [PStr ''it loads''])],
       bare_node ''build-project'' ''build'' [''validate-source''] ''cpu_io'' [(''kind'', PStr ''gradle-build'')],
       bare_node ''validate-source-final'' ''validate:source-final'' [''build-project''] ''commit'' [(''kind'', PStr ''final-source-validation'')],
       bare_node ''validate-jar'' ''validate:jar'' [''validate-source-final''] ''commit'' [(''kind'', PStr ''jar-validation'')],
       bare_node ''runtime-playtest'' ''validate:runtime'' [''validate-jar''] ''commit''
         [(''kind'', PStr ''runtime-playtest''), (''external_runtime_required'', PBool False)],
       bare_node ''package-build-artifact'' ''package:build-artifact'' [''validate-jar''] ''cpu_io'' [(''kind'', PStr ''build-artifact'')],
       bare_node ''package-release'' ''package'' [''package-build-artifact'', ''runtime-playtest''] ''cpu_io'' [(''kind'', PStr ''release'')]]\<rparr>"

lemma build_validated:
  assumes "validate_complete (pl_complete P) policy proposal = Inr ()" "cp_approval_hash proposal = h" "h \<noteq> []" "cp_modules proposal = []"
    "compile_production_routing (pl_runtime P) (pl_routing P) proposal (Some []) = Inr routing"
    "plan_nodes_of P policy proposal h [] routing = Inr nodes"
  shows "build_production_work_plan P proposal (Some policy) None = Inr \<lparr>plan_schema_version = ''mmm/production-work-graph-v1'', plan_proposal_hash = h,
    plan_graph_hash = hash_json (pl_runtime P) (PDict [(''schema_version'', PStr ''mmm/production-work-graph-v1''), (''proposal_hash'', PStr h),
      (''production_routing'', PDict (to_dict_snapshot routing)), (''nodes'', PList (map (\<lambda>n. PDict (to_dict_node n)) nodes))]),
    plan_module_count = 0, plan_nodes = nodes\<rparr>"
proof -
  have "topological_modules [] = Inr []" by code_simp
  then show ?thesis using assms by (simp add: build_production_work_plan_def)
qed

definition bare_routing :: ProductionRoutingSnapshot where
  "bare_routing = \<lparr>pr_deterministic_module_kinds = [], pr_artifact_owner_module_ids = [], pr_artifact_client_entrypoints = [], pr_routes = [],
     pr_contract_sha256 = ''sha256:h''\<rparr>"

lemma bare_routed:
  "compile_production_routing (pl_runtime sample_planner) (pl_routing sample_planner) bare_proposal (Some []) = Inr bare_routing"
  "plan_nodes_of sample_planner (sample_policy 24) bare_proposal zero_hash [] bare_routing = Inr (plan_nodes bare_plan)"
  by code_simp+

lemma bare_plan_built: "build_production_work_plan sample_planner bare_proposal (Some (sample_policy 24)) None = Inr bare_plan"
proof -
  have "validate_complete (pl_complete sample_planner) (sample_policy 24) bare_proposal = Inr ()" by (simp add: sample_planner_sel bare_valid)
  moreover have "hash_json (pl_runtime sample_planner) v = ''sha256:h''" for v
    by (simp add: sample_planner_def hash_json_def sha256_of_def)
  ultimately show ?thesis using build_validated[OF _ _ _ _ bare_routed] by (simp add: sample_facts) (simp add: bare_plan_def)
qed

definition approved_ledger :: ledger where
  "approved_ledger = fst (initialize toy_runtime 0 zero_hash [] empty_ledger)"

lemma approved_ledger_opened: "opened toy_runtime approved_ledger"
proof -
  have "snd (initialize toy_runtime 0 zero_hash [] empty_ledger) = Inr ()" by code_simp
  then show ?thesis unfolding opened_def approved_ledger_def by (metis prod.collapse)
qed

definition work_off :: "string \<Rightarrow> ledger \<Rightarrow> ledger" where
  "work_off n L = fst (succeed_write 3 n sample_success (fst (begin_txn 2 n ''w'' L)))"

definition releasing_ledger :: ledger where
  "releasing_ledger = fst (begin_txn 4 ''package-release'' ''w''
     (fold work_off (butlast (node_ids bare_plan)) (fst (sync_plan 1 bare_plan approved_ledger))))"

lemma work_off_run: "(ledger_step rt)\<^sup>*\<^sup>* L (fold work_off ns L)"
proof (induction ns arbitrary: L)
  case (Cons n ns)
  have "ledger_step rt L (fst (begin_txn 2 n ''w'' L))" "ledger_step rt (fst (begin_txn 2 n ''w'' L)) (work_off n L)"
    unfolding work_off_def by (rule ledger_step.intros)+
  with Cons.IH[of "work_off n L"] show ?case by (auto intro: converse_rtranclp_into_rtranclp)
qed simp

lemma releasing_ledger_run: "(ledger_step toy_runtime)\<^sup>*\<^sup>* approved_ledger releasing_ledger"
proof -
  have "tasks approved_ledger = []" by code_simp
  then have "ledger_step toy_runtime approved_ledger (fst (sync_plan 1 bare_plan approved_ledger))"
    by (intro step_sync) (simp add: sync_compatible_def)
  moreover have "ledger_step toy_runtime L (fst (begin_txn 4 ''package-release'' ''w'' L))" for L by (rule step_begin)
  ultimately show ?thesis unfolding releasing_ledger_def
    using work_off_run by (meson converse_rtranclp_into_rtranclp rtranclp.rtrancl_into_rtrancl)
qed

lemma releasing_ledger_eval:
  "(map_option t_state (task_of releasing_ledger ''package-release''), edges releasing_ledger = desired_edges bare_plan, ''build-project'' \<in> set (node_ids bare_plan)) =
   (Some RUNNING, True, True)"
  by code_simp


end
