(* ===== verification/Artifact_Job_Properties.thy ===== *)
theory Artifact_Job_Properties
  imports Artifact_Job
begin

text \<open>
  The round trip of serialized artifact jobs, and the exactness of the graph check: it accepts a list of
  well-formed jobs if and only if every required port is produced and the jobs do not depend on each other
  in a cycle.
\<close>

section \<open>Serialization\<close>

lemma executor_of_value [simp]: "executor_of (PStr (executor_value e)) = Inr e"
  by (cases e) (simp_all add: executor_of_def)

lemma mapM_PStr: "mapM (\<lambda>x. case x of PStr s \<Rightarrow> Inr s | _ \<Rightarrow> Inl e) (map PStr xs) = Inr xs"
  by (induction xs) simp_all

lemma mapM_PDict: "mapM (\<lambda>x. case x of PDict r \<Rightarrow> Inr r | _ \<Rightarrow> Inl e) (map PDict xs) = Inr xs"
  by (induction xs) simp_all

lemma job_dget [simp]:
  "dget (to_dict_job j) ''job_id'' = PStr (aj_job_id j)" "dget (to_dict_job j) ''template_id'' = PStr (aj_template_id j)"
  "dget (to_dict_job j) ''owner_module'' = PStr (aj_owner_module j)"
  "dget (to_dict_job j) ''executor_type'' = PStr (executor_value (aj_executor_type j))"
  "dget (to_dict_job j) ''target_path'' = PStr (aj_target_path j)" "dget (to_dict_job j) ''anchor'' = PStr (aj_anchor j)"
  "dget (to_dict_job j) ''operation'' = PStr (aj_operation j)"
  "dget (to_dict_job j) ''expected_sha256'' = (case aj_expected_sha256 j of None \<Rightarrow> PNone | Some s \<Rightarrow> PStr s)"
  "dget (to_dict_job j) ''requires'' = PList (map PStr (aj_requires j))"
  "dget (to_dict_job j) ''produces'' = PList (map PStr (aj_produces j))"
  "dget (to_dict_job j) ''required_ports'' = PList (map PDict (aj_required_ports j))"
  "dget (to_dict_job j) ''ai_slots'' = PList (map PDict (aj_ai_slots j))"
  "dget (to_dict_job j) ''deterministic_inputs'' = PDict (aj_deterministic_inputs j)"
  "dget (to_dict_job j) ''status'' = PStr (aj_status j)"
  "dget (to_dict_job j) ''validation_receipts'' = PList (map PDict (aj_validation_receipts j))"
  "dget (to_dict_job j) ''rendered_output'' = PStr (aj_rendered_output j)"
  "dget (to_dict_job j) ''context_id'' = PStr (aj_context_id j)"
  "dget (to_dict_job j) ''canonical_leaf'' = PStr (aj_canonical_leaf j)"
  "dget (to_dict_job j) ''implementation_id'' = PStr (aj_implementation_id j)"
  by (simp_all add: to_dict_job_def dget_def)

lemma job_shape_to_dict: "job_shape (to_dict_job j) = Inr ()"
proof -
  have "keys (to_dict_job j) = job_fields" by (simp add: to_dict_job_def job_fields_def)
  then show ?thesis by (simp add: job_shape_def require_def)
qed

text \<open>\<open>ArtifactJob.from_dict\<close> inverts \<open>ArtifactJob.to_dict\<close>: a persisted job is read back unchanged.\<close>

theorem job_dict_roundtrip: "from_dict_job (to_dict_job j) = Inr j"
proof -
  have "optional_string (to_dict_job j) ''expected_sha256'' = Inr (aj_expected_sha256 j)"
    by (cases "aj_expected_sha256 j") (simp_all add: optional_string_def)
  then show ?thesis
    by (simp add: from_dict_job_def job_shape_to_dict string_field_def string_list_field_def objects_field_def mapM_PStr mapM_PDict)
qed

section \<open>Producers\<close>

lemma produce_fold:
  "foldM (produce i) ps names = Inr ps' \<Longrightarrow>
     (\<forall>port. map_of ps' port = (if port \<in> set names then Some i else map_of ps port)) \<and>
     (\<forall>port \<in> set names. map_of ps port = None \<or> map_of ps port = Some i)"
proof (induction names arbitrary: ps)
  case (Cons port names)
  then obtain ps1 where ps1: "produce i ps port = Inr ps1" and rest: "foldM (produce i) ps1 names = Inr ps'" by auto
  have "ps1 = AList.update port i ps" "map_of ps port = None \<or> map_of ps port = Some i"
    using ps1 by (auto simp: produce_def split: option.splits if_splits)
  with Cons.IH[OF rest] show ?case by (auto simp: update_conv split: if_splits)
qed simp

definition produced_by :: "ArtifactJob \<Rightarrow> string set" where
  "produced_by j = strip ` set (aj_produces j)"

lemma job_step_Inr:
  assumes "job_step allowed (seen, ps) j = Inr (seen', ps')"
  shows "seen' = strip (aj_job_id j) # seen" "strip (aj_job_id j) \<notin> set seen"
    "foldM (produce (strip (aj_job_id j))) ps (map strip (aj_produces j)) = Inr ps'"
  using assms by (auto simp: job_step_def Let_def split: if_splits)

lemma job_steps:
  "foldM (job_step allowed) (seen0, ps0) jobs = Inr (seen, ps) \<Longrightarrow>
     distinct (map (strip \<circ> aj_job_id) jobs) \<and> set seen0 \<inter> set (map (strip \<circ> aj_job_id) jobs) = {} \<and>
     (\<forall>port i. map_of ps port = Some i \<longleftrightarrow>
        map_of ps0 port = Some i \<or> (\<exists>p \<in> set jobs. strip (aj_job_id p) = i \<and> port \<in> produced_by p))"
proof (induction jobs arbitrary: seen0 ps0)
  case (Cons j jobs)
  then obtain seen1 ps1 where s1: "job_step allowed (seen0, ps0) j = Inr (seen1, ps1)"
    and rest: "foldM (job_step allowed) (seen1, ps1) jobs = Inr (seen, ps)" by auto
  note j = job_step_Inr[OF s1]
  have "map_of ps1 port = Some i \<longleftrightarrow> map_of ps0 port = Some i \<or> (strip (aj_job_id j) = i \<and> port \<in> produced_by j)" for port i
    using produce_fold[OF j(3)] by (auto simp: produced_by_def)
  with Cons.IH[OF rest] j(1,2) show ?case by auto
qed simp

section \<open>The loop\<close>

definition table_deps :: "(string \<times> string list) list \<Rightarrow> string \<Rightarrow> string list" where
  "table_deps table k = (case map_of table k of None \<Rightarrow> [] | Some ds \<Rightarrow> ds)"

lemma dependency_table_wf: "distinct (keys (dependency_table ps jobs)) \<and> (\<forall>(k, ds) \<in> set (dependency_table ps jobs). distinct ds)"
proof -
  have "distinct (keys t) \<and> (\<forall>(k, ds) \<in> set t. distinct ds) \<Longrightarrow>
      distinct (keys (fold (\<lambda>j t. AList.update (aj_job_id j) (job_dependencies ps j) t) jobs t)) \<and>
      (\<forall>(k, ds) \<in> set (fold (\<lambda>j t. AList.update (aj_job_id j) (job_dependencies ps j) t) jobs t). distinct ds)" for t
  proof (induction jobs arbitrary: t)
    case (Cons j jobs)
    let ?t = "AList.update (aj_job_id j) (job_dependencies ps j) t"
    have "distinct (keys ?t)" using Cons.prems by (simp add: distinct_update)
    moreover have "distinct ds" if "(k, ds) \<in> set ?t" for k ds
      using map_of_is_SomeI[OF \<open>distinct (keys ?t)\<close> that] Cons.prems
      by (auto simp: update_conv job_dependencies_def split: if_splits dest: map_of_SomeD)
    ultimately show ?case using Cons.IH[of ?t] by auto
  qed simp
  from this[of "[]"] show ?thesis by (simp add: dependency_table_def)
qed

lemma dependents_iff: "distinct (keys table) \<Longrightarrow> k \<in> set (dependents table n) \<longleftrightarrow> k \<in> set (keys table) \<and> n \<in> set (table_deps table k)"
  by (force simp: dependents_def table_deps_def dest: map_of_SomeD split: option.splits)

lemma count_distinct: "distinct xs \<Longrightarrow> count_list xs x = (if x \<in> set xs then 1 else 0)"
  by (induction xs) auto

interpretation job_graph: kahn_graph "set (keys (dependency_table ps jobs))" "table_deps (dependency_table ps jobs)"
    "dependents (dependency_table ps jobs)" for ps jobs
proof unfold_locales
  let ?t = "dependency_table ps jobs"
  note wf = dependency_table_wf[of ps jobs]
  have "distinct (table_deps ?t k)" for k using wf by (auto simp: table_deps_def split: option.splits dest: map_of_SomeD)
  moreover have "distinct (dependents ?t n)" for n by (simp add: dependents_def)
  ultimately show "count_list (dependents ?t n) k = count_list (table_deps ?t k) n" if "k \<in> set (keys ?t)" for n k
    using dependents_iff[of ?t k n] wf that by (simp add: count_distinct)
  show "set (dependents ?t n) \<subseteq> set (keys ?t)" for n using dependents_iff[of ?t _ n] wf by auto
qed simp

lemma job_loop_inv:
  assumes "t = dependency_table ps jobs"
  shows "kahn_inv (set (keys t)) (table_deps t) (deg_of deg) ready acc \<Longrightarrow> sorted ready \<Longrightarrow>
     \<exists>deg' acc'. kahn_inv (set (keys t)) (table_deps t) deg' [] acc' \<and> job_loop (dependents t) deg ready (length acc) = length acc'"
proof (induction "dependents t" deg ready "length acc" arbitrary: acc rule: job_loop.induct)
  case (1 deg ready)
  show ?case
  proof (cases ready)
    case Nil
    with 1 show ?thesis by (subst job_loop.simps) auto
  next
    case (Cons n rest)
    let ?out = "dependents t n"
    obtain deg' r where r: "relax ?out deg rest = (deg', r)" by (rule prod.exhaust)
    have s: "settle ?out deg rest = (deg', sort r)" using settle_relax[of rest ?out deg] "1.prems"(2) Cons r by simp
    have n: "n \<in> set ready" using Cons by simp
    then have nn: "n \<in> set (keys t)" "n \<notin> set acc" and dr: "distinct ready" using "1.prems"(1) by (auto simp: kahn_inv_def)
    note fresh = job_graph.fresh[OF "1.prems"(1)[unfolded assms] n, folded assms]
    from relax_spec[OF r job_graph.out_le_deg[OF "1.prems"(1)[unfolded assms] nn[unfolded assms], folded assms]]
    obtain zs where deg': "\<And>k. deg_of deg' k = deg_of deg k - int (count_list ?out k)"
      and zs: "r = rest @ zs" "distinct zs" "set zs = {k \<in> set ?out. deg_of deg k = int (count_list ?out k)}" by blast
    have "set zs \<inter> set ready = {}" using fresh by (auto simp: zs(3))
    then have "set (sort r) = (set ready - {n}) \<union> set zs" "distinct (sort r)" using zs(1,2) dr Cons by auto
    from job_graph.step[OF "1.prems"(1)[unfolded assms] n deg'[unfolded assms] zs(3)[unfolded assms] this, folded assms]
    have "kahn_inv (set (keys t)) (table_deps t) (deg_of deg') (sort r) (acc @ [n])" .
    from "1.hyps"[OF Cons s[symmetric] refl _ this] show ?thesis
      by (subst job_loop.simps) (simp add: Cons s)
  qed
qed

section \<open>Exactness\<close>

lemma dependency_table_eq:
  "distinct (job_ids jobs) \<Longrightarrow> dependency_table ps jobs = map (\<lambda>j. (aj_job_id j, job_dependencies ps j)) jobs"
proof -
  have "distinct (job_ids jobs) \<Longrightarrow> set (keys t) \<inter> set (job_ids jobs) = {} \<Longrightarrow>
    fold (\<lambda>j t. AList.update (aj_job_id j) (job_dependencies ps j) t) jobs t = t @ map (\<lambda>j. (aj_job_id j, job_dependencies ps j)) jobs" for t
    by (induction jobs arbitrary: t) (auto simp: job_ids_def AList_update_new)
  from this[of "[]"] show "distinct (job_ids jobs) \<Longrightarrow> ?thesis" by (simp add: dependency_table_def)
qed

lemma table_deps_job:
  assumes "distinct (job_ids jobs)" "j \<in> set jobs"
  shows "table_deps (dependency_table ps jobs) (aj_job_id j) = job_dependencies ps j"
proof -
  have "map_of (dependency_table ps jobs) (aj_job_id j) = Some (job_dependencies ps j)"
    unfolding dependency_table_eq[OF assms(1)]
    by (rule map_of_is_SomeI) (use assms in \<open>auto simp: job_ids_def comp_def\<close>)
  then show ?thesis by (simp add: table_deps_def)
qed

text \<open>The result of the loop for a table whose dependencies are all jobs.\<close>

lemma job_loop_exact:
  assumes d: "distinct (job_ids jobs)" and t: "t = dependency_table ps jobs"
    and closed: "\<And>k. k \<in> set (keys t) \<Longrightarrow> set (table_deps t k) \<subseteq> set (keys t)"
    and deg: "deg = map (\<lambda>(k, ds). (k, int (length ds))) t"
  shows "job_loop (dependents t) deg (sort (map fst (filter (\<lambda>(_, v). v = 0) deg))) 0 = length jobs \<longleftrightarrow>
    acyclic {(k, e). k \<in> set (keys t) \<and> e \<in> set (table_deps t k)}"
proof -
  have wf: "distinct (keys t)" using dependency_table_wf t by blast
  have keys: "keys t = job_ids jobs" unfolding t dependency_table_eq[OF d] by (simp add: job_ids_def comp_def)
  have deg_of: "deg_of deg k = (if k \<in> set (keys t) then int (length (table_deps t k)) else 0)" for k
  proof -
    have "map_of deg k = map_option (\<lambda>ds. int (length ds)) (map_of t k)" unfolding deg by (simp add: map_of_map)
    then show ?thesis by (auto simp: deg_of_def table_deps_def map_of_eq_None_iff split: option.splits dest: map_of_SomeD)
        (force dest: map_of_SomeD)
  qed
  let ?ready = "sort (map fst (filter (\<lambda>(_, v). v = 0) deg))"
  have ready: "map fst (filter (\<lambda>(_, v). v = 0) deg) = map fst (filter (\<lambda>(_, ds). ds = []) t)"
    unfolding deg by (induction t) auto
  have "kahn_inv (set (keys t)) (table_deps t) (deg_of deg) ?ready []"
    unfolding t
  proof (rule job_graph.initial[where ps = ps and jobs = jobs])
    show "distinct ?ready" unfolding ready using wf by (simp add: distinct_map_filter)
    show "set ?ready = {k \<in> set (keys (dependency_table ps jobs)). table_deps (dependency_table ps jobs) k = []}"
      unfolding ready t[symmetric]
    proof (intro set_eqI)
      fix k
      have "k \<in> set (keys t) \<and> table_deps t k = [] \<longleftrightarrow> (k, []) \<in> set t"
      proof -
        have "k \<in> set (keys t) \<longleftrightarrow> map_of t k \<noteq> None" by (simp add: map_of_eq_None_iff)
        then have "k \<in> set (keys t) \<and> table_deps t k = [] \<longleftrightarrow> map_of t k = Some []" by (auto simp: table_deps_def split: option.splits)
        with wf show ?thesis by (simp add: map_of_eq_Some_iff)
      qed
      then show "k \<in> set (sort (map fst (filter (\<lambda>(_, ds). ds = []) t))) \<longleftrightarrow> k \<in> {k \<in> set (keys t). table_deps t k = []}" by force
    qed
    show "deg_of deg k = (if k \<in> set (keys (dependency_table ps jobs)) then int (length (table_deps (dependency_table ps jobs) k)) else 0)" for k
      using deg_of unfolding t .
  qed
  from job_loop_inv[OF t this] obtain deg' acc where inv: "kahn_inv (set (keys t)) (table_deps t) deg' [] acc"
    and run: "job_loop (dependents t) deg ?ready 0 = length acc" by auto
  have acc: "distinct acc" "set acc \<subseteq> set (keys t)" "deps_before (table_deps t) acc" using inv by (auto simp: kahn_inv_def)
  have card: "length jobs = card (set (keys t))" unfolding keys using distinct_card[OF d] by (simp add: job_ids_def)
  show ?thesis
  proof
    assume "job_loop (dependents t) deg ?ready 0 = length jobs"
    then have "card (set acc) = card (set (keys t))" using run card distinct_card[OF acc(1)] by simp
    then have "set acc = set (keys t)" using acc(2) by (simp add: card_subset_eq)
    then show "acyclic {(k, e). k \<in> set (keys t) \<and> e \<in> set (table_deps t k)}"
      using deps_before_acyclic[OF acc(1,3), of "set (keys t)"] by simp
  next
    assume "acyclic {(k, e). k \<in> set (keys t) \<and> e \<in> set (table_deps t k)}"
    then have "set acc = set (keys t)"
      using job_graph.acyclic_complete[OF inv[unfolded t]] closed unfolding t by simp
    then show "job_loop (dependents t) deg ?ready 0 = length jobs"
      using run card distinct_card[OF acc(1)] by simp
  qed
qed

definition feeds :: "ArtifactJob \<Rightarrow> ArtifactJob \<Rightarrow> bool" where
  "feeds p j \<longleftrightarrow> set (aj_requires j) \<inter> produced_by p \<noteq> {}"

definition port_relation :: "ArtifactJob list \<Rightarrow> (string \<times> string) set" where
  "port_relation jobs = {(aj_job_id j, aj_job_id p) | j p. j \<in> set jobs \<and> p \<in> set jobs \<and> feeds p j}"

definition ports_supplied :: "ArtifactJob list \<Rightarrow> bool" where
  "ports_supplied jobs \<longleftrightarrow> (\<forall>j \<in> set jobs. \<forall>port \<in> set (aj_requires j). \<exists>p \<in> set jobs. port \<in> produced_by p)"

lemma graph_check_exact:
  assumes checked: "foldM (job_step (filter (\<lambda>s. s \<noteq> []) (map strip module_ids))) ([], []) jobs = Inr (seen, ps)"
    and stripped: "list_all (\<lambda>j. strip (aj_job_id j) = aj_job_id j) jobs"
  shows "validate_artifact_job_graph jobs module_ids = Inr jobs \<longleftrightarrow> ports_supplied jobs \<and> acyclic (port_relation jobs)"
proof -
  let ?t = "dependency_table ps jobs"
  note steps = job_steps[OF checked]
  have d: "distinct (job_ids jobs)"
  proof -
    have "map (strip \<circ> aj_job_id) jobs = job_ids jobs" using stripped by (simp add: job_ids_def list_all_iff)
    with steps show ?thesis by simp
  qed
  have keys: "keys ?t = job_ids jobs" unfolding dependency_table_eq[OF d] by (simp add: job_ids_def comp_def)
  have ps: "map_of ps port = Some i \<longleftrightarrow> (\<exists>p \<in> set jobs. aj_job_id p = i \<and> port \<in> produced_by p)" for port i
    using steps stripped by (auto simp: list_all_iff)
  have supplied: "ports_supplied jobs \<longleftrightarrow> \<not> list_ex (\<lambda>j. list_ex (\<lambda>port. map_of ps port = None) (aj_requires j)) jobs"
  proof -
    have "map_of ps port \<noteq> None \<longleftrightarrow> (\<exists>p \<in> set jobs. port \<in> produced_by p)" for port using ps by (metis not_Some_eq)
    then show ?thesis unfolding ports_supplied_def list_ex_iff by blast
  qed
  show ?thesis
  proof (cases "ports_supplied jobs")
    case False
    with supplied checked show ?thesis by (simp add: validate_artifact_job_graph_def Let_def)
  next
    case True
    have dep: "e \<in> set (job_dependencies ps j) \<longleftrightarrow> (\<exists>p \<in> set jobs. aj_job_id p = e \<and> feeds p j)"
      if j: "j \<in> set jobs" for j e
    proof -
      have "\<exists>i. map_of ps port = Some i" if "port \<in> set (aj_requires j)" for port
        using True j that ps by (fastforce simp: ports_supplied_def)
      then have "e \<in> set (job_dependencies ps j) \<longleftrightarrow> (\<exists>port \<in> set (aj_requires j). map_of ps port = Some e)"
        by (force simp: job_dependencies_def)
      then show ?thesis using ps unfolding feeds_def by blast
    qed
    have rel: "{(k, e). k \<in> set (keys ?t) \<and> e \<in> set (table_deps ?t k)} = port_relation jobs"
      unfolding keys port_relation_def using dep table_deps_job[OF d] by (auto simp: job_ids_def) blast
    have closed: "set (table_deps ?t k) \<subseteq> set (keys ?t)" if "k \<in> set (keys ?t)" for k
      using that dep table_deps_job[OF d] unfolding keys by (auto simp: job_ids_def)
    have noKey: "\<not> list_ex (\<lambda>(_, ds). list_ex (\<lambda>d. d \<notin> set (keys ?t)) ds) ?t"
    proof -
      have "set ds \<subseteq> set (keys ?t)" if "(k, ds) \<in> set ?t" for k ds
        using closed[of k] map_of_is_SomeI[of ?t, OF _ that] dependency_table_wf[of ps jobs] that by (force simp: table_deps_def)
      then show ?thesis by (auto simp: list_ex_iff)
    qed
    have missing: "\<not> list_ex (\<lambda>j. list_ex (\<lambda>port. map_of ps port = None) (aj_requires j)) jobs" using supplied True by simp
    show ?thesis
      unfolding validate_artifact_job_graph_def Let_def checked rbind_Inr prod.case if_not_P[OF missing] if_not_P[OF noKey]
      using job_loop_exact[OF d refl closed refl] True unfolding rel by (simp split: if_splits)
  qed
qed


section \<open>Examples\<close>

definition sample_job :: "string \<Rightarrow> string list \<Rightarrow> string list \<Rightarrow> ArtifactJob" where
  "sample_job i reqs prods = \<lparr>aj_job_id = i, aj_template_id = ''fabric/item'', aj_owner_module = ''sword'', aj_executor_type = TEMPLATE,
     aj_target_path = ''Item.java'', aj_anchor = [], aj_operation = ''create'', aj_expected_sha256 = None,
     aj_requires = reqs, aj_produces = prods, aj_required_ports = [], aj_ai_slots = [], aj_deterministic_inputs = [],
     aj_status = ''PENDING'', aj_validation_receipts = [], aj_rendered_output = [], aj_context_id = ''ctx'',
     aj_canonical_leaf = ''fabric/item'', aj_implementation_id = ''template:item''\<rparr>"

definition cyclic_jobs :: "ArtifactJob list" where
  "cyclic_jobs = [sample_job ''a'' [''y''] [''x''], sample_job ''b'' [''x''] [''y''], sample_job ''c'' [] [''z'']]"


text \<open>The producers are recorded under the stripped identifier and looked up under the given one.\<close>

lemma padded_job_id_raises:
  "validate_artifact_job_graph [sample_job '' a'' [] [''x''], sample_job ''b'' [''x''] [''y'']] [] = Inl (KeyError ''job_id'')"
  by code_simp

end
