(* ===== verification/Typed_Plan_IR.thy ===== *)
theory Typed_Plan_IR
  imports Py_Float
begin

text \<open>
  The typed plan checker (\<^verbatim>\<open>typed_plan_ir.py\<close>): names, types, literals, the host capability contracts, and
  the expressions and statement blocks of \<open>_Validator\<close>. A plan is the JSON value the planner wrote; every
  check reads it exactly as the source does. The validator object's two fixed tables are the record
  \<open>validator\<close>; the call edges it accumulates are returned beside the type. The \<open>where\<close> path, which only
  enters messages, is left out. \<open>re_ok\<close> stands for \<open>re.compile\<close> succeeding on a pattern.
\<close>

section \<open>Names and types\<close>

definition SCALAR_TYPES :: "string list" where
  "SCALAR_TYPES = [''boolean'', ''int'', ''long'', ''double'', ''string'', ''object'']"

definition CAPABILITY_ARGUMENT_CONSTRAINT_FIELDS :: "string list" where
  "CAPABILITY_ARGUMENT_CONSTRAINT_FIELDS =
     [''description'', ''minimum'', ''maximum'', ''minLength'', ''maxLength'', ''pattern'', ''enum'']"

definition JAVA_RESERVED :: "string list" where
  "JAVA_RESERVED = [
     ''abstract'', ''assert'', ''boolean'', ''break'', ''byte'', ''case'', ''catch'', ''char'',
     ''class'', ''const'', ''continue'', ''default'', ''do'', ''double'', ''else'', ''enum'',
     ''exports'', ''extends'', ''false'', ''final'', ''finally'', ''float'', ''for'', ''goto'',
     ''if'', ''implements'', ''import'', ''instanceof'', ''int'', ''interface'', ''long'',
     ''module'', ''native'', ''new'', ''non-sealed'', ''null'', ''open'', ''opens'', ''package'',
     ''permits'', ''private'', ''protected'', ''provides'', ''public'', ''record'', ''requires'',
     ''return'', ''sealed'', ''short'', ''static'', ''strictfp'', ''super'', ''switch'',
     ''synchronized'', ''this'', ''throw'', ''throws'', ''to'', ''transient'', ''transitive'',
     ''true'', ''try'', ''uses'', ''var'', ''void'', ''volatile'', ''when'', ''while'', ''with'',
     ''yield'', ''_'']"

definition ident_start :: "char \<Rightarrow> bool" where
  "ident_start c \<longleftrightarrow> is_lower_az c \<or> is_upper_az c \<or> c = CHR ''_'' \<or> c = CHR 0x24"

definition ident_char :: "char \<Rightarrow> bool" where
  "ident_char c \<longleftrightarrow> ident_start c \<or> is_digit c"

text \<open>\<open>_NAME.fullmatch\<close>.\<close>

definition NAME_match :: "string \<Rightarrow> bool" where
  "NAME_match s \<longleftrightarrow> s \<noteq> [] \<and> ident_start (hd s) \<and> list_all ident_char (tl s)"

definition owner_match :: "string \<Rightarrow> bool" where
  "owner_match s \<longleftrightarrow> s \<noteq> [] \<and> ident_start (hd s) \<and> list_all (\<lambda>c. ident_char c \<or> c = CHR ''.'') (tl s)"

definition sha256_match :: "string \<Rightarrow> bool" where
  "sha256_match s \<longleftrightarrow> (let t = (if startswith s ''sha256:'' then drop 7 s else s)
     in length t = 64 \<and> list_all (\<lambda>c. c \<in> set ''0123456789abcdefABCDEF'') t)"

definition as_map :: "pyval \<Rightarrow> pydict result" where
  "as_map v = (case v of PDict d \<Rightarrow> Inr d | _ \<Rightarrow> Inl (ValueError ''expected object''))"

definition as_seq :: "pyval \<Rightarrow> pyval list result" where
  "as_seq v = (case v of PList xs \<Rightarrow> Inr xs | _ \<Rightarrow> Inl (ValueError ''expected array''))"

definition check_keys :: "pydict \<Rightarrow> string list \<Rightarrow> string list \<Rightarrow> unit result" where
  "check_keys d allowed required =
     (if list_ex (\<lambda>k. k \<notin> set allowed) (keys d) then Inl (ValueError ''unknown fields'')
      else if list_ex (\<lambda>k. \<not> has_key d k) required then Inl (ValueError ''missing fields'') else Inr ())"

definition name_of :: "pyval \<Rightarrow> string result" where
  "name_of v = (let text = str_or_empty v
     in if \<not> NAME_match text \<or> text \<in> set JAVA_RESERVED then Inl (ValueError ''invalid identifier'') else Inr text)"

definition symbol_of :: "pyval \<Rightarrow> string result" where
  "symbol_of v = (let text = str_or_empty v
     in if \<not> NAME_match text then Inl (ValueError ''invalid symbol'') else Inr text)"

definition type_of :: "pyval \<Rightarrow> bool \<Rightarrow> string result" where
  "type_of v allow_void = (let text = str_or_empty v
     in if text \<in> set SCALAR_TYPES \<or> (allow_void \<and> text = ''void'') then Inr text
        else Inl (ValueError ''unsupported type''))"

definition assignable :: "string \<Rightarrow> string \<Rightarrow> bool" where
  "assignable expected actual \<longleftrightarrow> expected = actual \<or> expected = ''object''"

definition require_type :: "string \<Rightarrow> string \<Rightarrow> unit result" where
  "require_type expected actual = require (assignable expected actual) (ValueError ''type mismatch'')"

definition numeric_types :: "string list" where
  "numeric_types = [''int'', ''long'', ''double'']"

definition literal_check :: "string \<Rightarrow> pyval \<Rightarrow> unit result" where
  "literal_check kind v =
     (if kind = ''boolean'' then
        (case v of PBool _ \<Rightarrow> Inr () | _ \<Rightarrow> Inl (ValueError ''type mismatch for boolean literal''))
      else if kind = ''int'' then
        (case v of
           PInt i \<Rightarrow> if - (2 ^ 31) \<le> i \<and> i \<le> 2 ^ 31 - 1 then Inr () else Inl (ValueError ''int literal out of range'')
         | _ \<Rightarrow> Inl (ValueError ''type mismatch for int literal''))
      else if kind = ''long'' then
        (case v of
           PInt i \<Rightarrow> if - (2 ^ 63) \<le> i \<and> i \<le> 2 ^ 63 - 1 then Inr () else Inl (ValueError ''long literal out of range'')
         | _ \<Rightarrow> Inl (ValueError ''type mismatch for long literal''))
      else if kind = ''double'' then
        (case v of
           PInt i \<Rightarrow> if float_overflows i then Inl (OverflowError ''int too large to convert to float'') else Inr ()
         | PFloat r \<Rightarrow> if is_finite_repr r then Inr () else Inl (ValueError ''double literal must be finite'')
         | _ \<Rightarrow> Inl (ValueError ''type mismatch for double literal''))
      else if kind = ''string'' then
        (case v of PStr _ \<Rightarrow> Inr () | _ \<Rightarrow> Inl (ValueError ''type mismatch for string literal''))
      else if kind = ''object'' \<and> (is_mapping v \<or> is_list v) then Inl (ValueError ''object literal must be a scalar'')
      else Inr ())"

definition literal_type :: "pydict \<Rightarrow> string result" where
  "literal_type node =
     rbind (check_keys node [''op'', ''type'', ''value''] [''op'', ''type'', ''value'']) (\<lambda>_.
     rbind (type_of (dget node ''type'') False) (\<lambda>kind.
     rbind (literal_check kind (dget node ''value'')) (\<lambda>_. Inr kind)))"

section \<open>Capability contracts\<close>

record capability_contract =
  cc_owner :: string
  cc_method :: string
  cc_parameters :: "string list"
  cc_return_type :: string
  cc_gameplay_mutation :: bool

definition capability_parameter_type :: "pyval \<Rightarrow> string result" where
  "capability_parameter_type v = (if v = PStr ''map'' then Inr ''map'' else type_of v False)"

definition finite_bound :: "pydict \<Rightarrow> string \<Rightarrow> unit result" where
  "finite_bound c field =
     (if \<not> has_key c field then Inr ()
      else if \<not> is_number (dget c field) then Inl (ValueError ''finite numeric value required'')
      else rbind (py_isfinite (dget c field)) (\<lambda>ok. require ok (ValueError ''finite numeric value required'')))"

definition length_bound :: "pydict \<Rightarrow> string \<Rightarrow> unit result" where
  "length_bound c field =
     (if \<not> has_key c field then Inr ()
      else case dget c field of
        PInt i \<Rightarrow> require (i \<ge> 0) (ValueError ''nonnegative integer required'')
      | _ \<Rightarrow> Inl (ValueError ''nonnegative integer required''))"

definition numeric_constraint :: "string \<Rightarrow> pydict \<Rightarrow> unit result" where
  "numeric_constraint argument_type c =
     (if \<not> (has_key c ''minimum'' \<or> has_key c ''maximum'') then Inr ()
      else if argument_type \<notin> set numeric_types then Inl (ValueError ''numeric bounds require numeric parameter'')
      else rbind (finite_bound c ''minimum'') (\<lambda>_. rbind (finite_bound c ''maximum'') (\<lambda>_.
        require (\<not> (has_key c ''minimum'' \<and> has_key c ''maximum'' \<and>
            num_value (dget c ''minimum'') > num_value (dget c ''maximum'')))
          (ValueError ''minimum exceeds maximum''))))"

definition string_constraint :: "(string \<Rightarrow> bool) \<Rightarrow> string \<Rightarrow> pydict \<Rightarrow> unit result" where
  "string_constraint re_ok argument_type c =
     (if \<not> (has_key c ''minLength'' \<or> has_key c ''maxLength'' \<or> has_key c ''pattern'') then Inr ()
      else if argument_type \<noteq> ''string'' then Inl (ValueError ''string constraints require string parameter'')
      else rbind (length_bound c ''minLength'') (\<lambda>_. rbind (length_bound c ''maxLength'') (\<lambda>_.
        if has_key c ''minLength'' \<and> has_key c ''maxLength'' \<and>
            num_value (dget c ''minLength'') > num_value (dget c ''maxLength'')
          then Inl (ValueError ''minLength exceeds maxLength'')
        else if has_key c ''pattern'' then
          (case dget c ''pattern'' of
             PStr p \<Rightarrow> require (re_ok p) (ValueError ''invalid regular expression'')
           | _ \<Rightarrow> Inl (ValueError ''pattern: expected string''))
        else Inr ())))"

definition constraint_check :: "(string \<Rightarrow> bool) \<Rightarrow> string \<Rightarrow> pyval \<Rightarrow> unit result" where
  "constraint_check re_ok argument_type raw = (case raw of
     PDict c \<Rightarrow>
       if list_ex (\<lambda>k. k \<notin> set CAPABILITY_ARGUMENT_CONSTRAINT_FIELDS) (keys c) then Inl (ValueError ''unsupported fields'')
       else if argument_type = ''object'' \<and> c \<noteq> []
         then Inl (ValueError ''object-bound parameter cannot have scalar constraints'')
       else rbind (numeric_constraint argument_type c) (\<lambda>_. rbind (string_constraint re_ok argument_type c) (\<lambda>_.
         if has_key c ''enum'' \<and> (\<not> is_list (dget c ''enum'') \<or> \<not> truthy (dget c ''enum''))
           then Inl (ValueError ''enum: nonempty list required'')
         else if has_key c ''description'' \<and> \<not> is_str (dget c ''description'')
           then Inl (ValueError ''description: expected string'')
         else Inr ()))
   | _ \<Rightarrow> Inl (ValueError ''constraint must be an object''))"

definition parameter_constraints_check :: "(string \<Rightarrow> bool) \<Rightarrow> string list \<Rightarrow> pyval \<Rightarrow> unit result" where
  "parameter_constraints_check re_ok params raw =
     (if raw = PNone then Inr ()
      else rbind (as_seq raw) (\<lambda>cs.
        if length cs \<noteq> length params then Inl (ValueError ''parameter constraint count mismatch'')
        else rbind (mapM (\<lambda>(t, c). constraint_check re_ok t c) (zip params cs)) (\<lambda>_. Inr ())))"

definition capability_contract_of :: "(string \<Rightarrow> bool) \<Rightarrow> pyval \<Rightarrow> capability_contract result" where
  "capability_contract_of re_ok v = (case v of
     PDict raw \<Rightarrow>
       rbind (check_keys raw
         [''owner'', ''method'', ''parameters'', ''parameter_constraints'', ''return_type'', ''gameplay_mutation'']
         [''owner'', ''method'', ''parameters'', ''return_type'']) (\<lambda>_.
       (case (if has_key raw ''gameplay_mutation'' then dget raw ''gameplay_mutation'' else PBool False) of
          PBool mutation \<Rightarrow>
            (let owner = py_str (dget raw ''owner''); meth = py_str (dget raw ''method'')
             in if \<not> owner_match owner then Inl (ValueError ''invalid owner'')
                else rbind (name_of (PStr meth)) (\<lambda>_.
                  rbind (as_seq (dget raw ''parameters'')) (\<lambda>ps.
                  rbind (mapM capability_parameter_type ps) (\<lambda>params.
                  rbind (parameter_constraints_check re_ok params (dget raw ''parameter_constraints'')) (\<lambda>_.
                  rbind (type_of (dget raw ''return_type'') True) (\<lambda>ret.
                  Inr \<lparr>cc_owner = owner, cc_method = meth, cc_parameters = params, cc_return_type = ret,
                       cc_gameplay_mutation = mutation\<rparr>))))))
        | _ \<Rightarrow> Inl (ValueError ''gameplay_mutation: expected boolean'')))
   | _ \<Rightarrow> Inl (ValueError ''contract must be an object''))"

definition capability_contracts ::
    "(string \<Rightarrow> bool) \<Rightarrow> pydict option \<Rightarrow> (string \<times> capability_contract) list result" where
  "capability_contracts re_ok capabilities =
     mapM (\<lambda>(cap_id, raw). rbind (capability_contract_of re_ok raw) (\<lambda>c. Inr (cap_id, c)))
       (case capabilities of None \<Rightarrow> [] | Some d \<Rightarrow> d)"

section \<open>Expressions\<close>

type_synonym type_env = "(string \<times> string) list"
type_synonym signatures = "(string \<times> (string list \<times> string)) list"

record validator =
  v_signatures :: signatures
  v_capabilities :: "(string \<times> capability_contract) list"

text \<open>The type of an expression and the functions it calls.\<close>

type_synonym typed = "string \<times> string list"

definition expr_ref :: "type_env \<Rightarrow> pydict \<Rightarrow> typed result" where
  "expr_ref env node =
     rbind (check_keys node [''op'', ''name''] [''op'', ''name'']) (\<lambda>_.
     rbind (name_of (dget node ''name'')) (\<lambda>name.
     case map_of env name of None \<Rightarrow> Inl (ValueError ''unknown reference'') | Some t \<Rightarrow> Inr (t, [])))"

definition expr_unary :: "(pyval \<Rightarrow> typed result) \<Rightarrow> pydict \<Rightarrow> typed result" where
  "expr_unary sub node =
     rbind (check_keys node [''op'', ''operator'', ''value''] [''op'', ''operator'', ''value'']) (\<lambda>_.
     rbind (sub (dget node ''value'')) (\<lambda>(t, cs).
     (let operator = py_str (dget node ''operator'')
      in if operator = ''!'' then rbind (require_type ''boolean'' t) (\<lambda>_. Inr (''boolean'', cs))
         else if operator = ''-'' \<and> t \<in> set numeric_types then Inr (t, cs)
         else Inl (ValueError ''unsupported unary operator''))))"

definition binary_type :: "string \<Rightarrow> string \<Rightarrow> string \<Rightarrow> string result" where
  "binary_type operator l r =
     (if operator \<in> {''&&'', ''||''} then
        rbind (require_type ''boolean'' l) (\<lambda>_. rbind (require_type ''boolean'' r) (\<lambda>_. Inr ''boolean''))
      else if operator \<in> {''=='', ''!=''} then
        (if \<not> (assignable l r \<or> assignable r l) then Inl (ValueError ''type mismatch in equality'') else Inr ''boolean'')
      else if operator \<in> {''<'', ''<='', ''>'', ''>=''} then
        (if l \<noteq> r \<or> l \<notin> set numeric_types then Inl (ValueError ''type mismatch in comparison'') else Inr ''boolean'')
      else if operator = ''+'' \<and> l = r \<and> r = ''string'' then Inr ''string''
      else if operator \<in> {''+'', ''-'', ''*'', ''/'', ''%''} then
        (if l \<noteq> r \<or> l \<notin> set numeric_types then Inl (ValueError ''type mismatch in arithmetic'') else Inr l)
      else Inl (ValueError ''unsupported binary operator''))"

definition expr_binary :: "(pyval \<Rightarrow> typed result) \<Rightarrow> pydict \<Rightarrow> typed result" where
  "expr_binary sub node =
     rbind (check_keys node [''op'', ''operator'', ''left'', ''right''] [''op'', ''operator'', ''left'', ''right'']) (\<lambda>_.
     rbind (sub (dget node ''left'')) (\<lambda>(l, cs1).
     rbind (sub (dget node ''right'')) (\<lambda>(r, cs2).
     rbind (binary_type (py_str (dget node ''operator'')) l r) (\<lambda>t. Inr (t, cs1 @ cs2)))))"

definition expr_list :: "(pyval \<Rightarrow> typed result) \<Rightarrow> pydict \<Rightarrow> typed result" where
  "expr_list sub node =
     rbind (check_keys node [''op'', ''items''] [''op'', ''items'']) (\<lambda>_.
     rbind (as_seq (dget node ''items'')) (\<lambda>items.
     rbind (mapM sub items) (\<lambda>ts.
     (case map fst ts of
        [] \<Rightarrow> Inr (''list<object>'', [])
      | first # rest \<Rightarrow>
          if list_ex (\<lambda>t. t \<noteq> first) rest then Inl (ValueError ''list items have incompatible types'')
          else Inr (''list<'' @ first @ ''>'', concat (map snd ts))))))"

definition map_entry :: "(pyval \<Rightarrow> typed result) \<Rightarrow> pyval \<Rightarrow> string list result" where
  "map_entry sub raw =
     rbind (as_map raw) (\<lambda>entry.
     rbind (check_keys entry [''key'', ''value''] [''key'', ''value'']) (\<lambda>_.
     rbind (sub (dget entry ''key'')) (\<lambda>(k, cs1).
     rbind (require_type ''string'' k) (\<lambda>_.
     rbind (sub (dget entry ''value'')) (\<lambda>(_, cs2). Inr (cs1 @ cs2))))))"

definition expr_map :: "(pyval \<Rightarrow> typed result) \<Rightarrow> pydict \<Rightarrow> typed result" where
  "expr_map sub node =
     rbind (check_keys node [''op'', ''entries''] [''op'', ''entries'']) (\<lambda>_.
     rbind (as_seq (dget node ''entries'')) (\<lambda>entries.
     rbind (mapM (map_entry sub) entries) (\<lambda>css. Inr (''map'', concat css))))"

definition typed_args :: "(pyval \<Rightarrow> typed result) \<Rightarrow> pyval list \<Rightarrow> string list \<Rightarrow> string list result" where
  "typed_args sub args params =
     rbind (mapM (\<lambda>(arg, expected). rbind (sub arg) (\<lambda>(actual, cs). rbind (require_type expected actual) (\<lambda>_. Inr cs)))
       (zip args params)) (\<lambda>css. Inr (concat css))"

definition expr_call :: "signatures \<Rightarrow> (pyval \<Rightarrow> typed result) \<Rightarrow> pydict \<Rightarrow> typed result" where
  "expr_call sigs sub node =
     rbind (check_keys node [''op'', ''function'', ''args''] [''op'', ''function'', ''args'']) (\<lambda>_.
     rbind (symbol_of (dget node ''function'')) (\<lambda>f.
     (case map_of sigs f of
        None \<Rightarrow> Inl (ValueError ''unknown function'')
      | Some (params, ret) \<Rightarrow>
          rbind (as_seq (dget node ''args'')) (\<lambda>args.
          if length args \<noteq> length params then Inl (ValueError ''function argument count mismatch'')
          else rbind (typed_args sub args params) (\<lambda>cs. Inr (ret, cs @ [f]))))))"

definition expr_capability ::
    "(string \<times> capability_contract) list \<Rightarrow> (pyval \<Rightarrow> typed result) \<Rightarrow> pydict \<Rightarrow> typed result" where
  "expr_capability caps sub node =
     rbind (check_keys node [''op'', ''id'', ''args''] [''op'', ''id'', ''args'']) (\<lambda>_.
     (case map_of caps (py_str (dget node ''id'')) of
        None \<Rightarrow> Inl (ValueError ''unknown capability'')
      | Some contract \<Rightarrow>
          rbind (as_seq (dget node ''args'')) (\<lambda>args.
          if length args \<noteq> length (cc_parameters contract) then Inl (ValueError ''capability argument count mismatch'')
          else rbind (typed_args sub args (cc_parameters contract)) (\<lambda>cs. Inr (cc_return_type contract, cs)))))"

definition expr_state_get :: "(pyval \<Rightarrow> typed result) \<Rightarrow> pydict \<Rightarrow> typed result" where
  "expr_state_get sub node =
     rbind (check_keys node [''op'', ''key'', ''type'', ''context''] [''op'', ''key'', ''type'', ''context'']) (\<lambda>_.
     rbind (sub (dget node ''key'')) (\<lambda>(k, cs1).
     rbind (require_type ''string'' k) (\<lambda>_.
     rbind (sub (dget node ''context'')) (\<lambda>(c, cs2).
     if c \<noteq> ''map'' then Inl (ValueError ''context: type mismatch, expected map'')
     else rbind (type_of (dget node ''type'') False) (\<lambda>t. Inr (t, cs1 @ cs2))))))"

text \<open>One node of \<open>_Validator.expression\<close>; \<open>sub\<close> is the recursive call.\<close>

definition expression_node ::
    "validator \<Rightarrow> type_env \<Rightarrow> (pyval \<Rightarrow> typed result) \<Rightarrow> pyval \<Rightarrow> typed result" where
  "expression_node V env sub raw =
     rbind (as_map raw) (\<lambda>node.
     (let opn = str_or_empty (dget node ''op'')
      in if opn = ''literal'' then rbind (literal_type node) (\<lambda>t. Inr (t, []))
         else if opn = ''ref'' then expr_ref env node
         else if opn = ''unary'' then expr_unary sub node
         else if opn = ''binary'' then expr_binary sub node
         else if opn = ''list'' then expr_list sub node
         else if opn = ''map'' then expr_map sub node
         else if opn = ''call'' then expr_call (v_signatures V) sub node
         else if opn = ''capability'' then expr_capability (v_capabilities V) sub node
         else if opn = ''state_get'' then expr_state_get sub node
         else Inl (ValueError ''unsupported expression op'')))"

subsection \<open>Recursion on the size of the value\<close>

lemma size_dget_less: "size (dget d k) < size (PDict d)"
  by (auto simp: dget_def dest: size_map_of_less split: option.splits)

lemma size_dget_item_less: "v \<in> set xs \<Longrightarrow> dget d k = PList xs \<Longrightarrow> size v < size (PDict d)"
  using size_mem_list_less[of v xs] size_dget_less[of d k] by simp

lemma as_seq_Inr [simp]: "as_seq v = Inr xs \<longleftrightarrow> v = PList xs"
  by (cases v) (auto simp: as_seq_def)

lemma as_map_Inr [simp]: "as_map v = Inr d \<longleftrightarrow> v = PDict d"
  by (cases v) (auto simp: as_map_def)

lemma map_entry_cong:
  assumes "\<And>x. size x < size raw \<Longrightarrow> f x = g x"
  shows "map_entry f raw = map_entry g raw"
proof (cases raw)
  case (PDict d)
  have "f (dget d k) = g (dget d k)" for k using assms size_dget_less[of d k] PDict by simp
  then show ?thesis by (simp add: map_entry_def PDict as_map_def)
qed (simp_all add: map_entry_def as_map_def)

lemma typed_args_cong:
  assumes "\<And>x. x \<in> set args \<Longrightarrow> f x = g x"
  shows "typed_args f args params = typed_args g args params"
proof -
  have "mapM (\<lambda>(arg, expected). rbind (f arg) (\<lambda>(actual, cs). rbind (require_type expected actual) (\<lambda>_. Inr cs))) (zip args params) =
    mapM (\<lambda>(arg, expected). rbind (g arg) (\<lambda>(actual, cs). rbind (require_type expected actual) (\<lambda>_. Inr cs))) (zip args params)"
    by (rule mapM_cong[OF refl]) (auto dest!: set_zip_leftD simp: assms)
  then show ?thesis by (simp add: typed_args_def)
qed

lemma expression_node_cong [fundef_cong]:
  assumes "V = V'" "env = env'" "raw = raw'" and f: "\<And>x. size x < size raw' \<Longrightarrow> f x = g x"
  shows "expression_node V env f raw = expression_node V' env' g raw'"
proof (cases raw')
  case (PDict node)
  have d: "f (dget node k) = g (dget node k)" for k using f size_dget_less[of node k] PDict by simp
  have item: "f x = g x" if "dget node k = PList xs" "x \<in> set xs" for k xs x
    using f size_dget_item_less[OF that(2,1)] PDict by simp
  have entry: "map_entry f x = map_entry g x" if "dget node k = PList xs" "x \<in> set xs" for k xs x
    using f size_dget_item_less[OF that(2,1)] PDict by (intro map_entry_cong) simp
  have "expr_unary f node = expr_unary g node" "expr_binary f node = expr_binary g node"
    "expr_state_get f node = expr_state_get g node"
    by (simp_all add: expr_unary_def expr_binary_def expr_state_get_def d)
  moreover have "expr_list f node = expr_list g node"
    unfolding expr_list_def by (intro rbind_cong refl mapM_cong) (auto intro: item)
  moreover have "expr_map f node = expr_map g node"
    unfolding expr_map_def by (intro rbind_cong refl mapM_cong) (auto intro: entry)
  moreover have "expr_call (v_signatures V) f node = expr_call (v_signatures V) g node"
    unfolding expr_call_def using item
    by (intro rbind_cong refl) (auto split: option.splits intro!: rbind_cong typed_args_cong)
  moreover have "expr_capability (v_capabilities V) f node = expr_capability (v_capabilities V) g node"
    unfolding expr_capability_def using item
    by (intro rbind_cong refl) (auto split: option.splits intro!: rbind_cong typed_args_cong)
  ultimately show ?thesis using assms(1-3) PDict by (simp add: expression_node_def Let_def as_map_def)
qed (auto simp: expression_node_def as_map_def assms(3))

text \<open>\<open>_Validator.expression\<close>.\<close>

function expression :: "validator \<Rightarrow> type_env \<Rightarrow> pyval \<Rightarrow> typed result" where
  "expression V env raw = expression_node V env (\<lambda>x. expression V env x) raw"
  by pat_completeness auto
termination by (relation "measure (\<lambda>(V, env, raw). size raw)") auto

declare expression.simps [simp del, code del]

lemma expression_code [code]: "expression V env raw = expression_node V env (expression V env) raw"
  by (rule expression.simps)

end
