(* ===== verification/Typed_Plan_Block.thy ===== *)
theory Typed_Plan_Block
  imports Typed_Plan_IR
begin

text \<open>
  Statement blocks of the typed plan checker (\<open>_Validator.block\<close>). A statement takes the local environment
  and gives the extended one, whether it definitely returns, and the functions it calls; \<open>blk\<close> is the
  recursive call on a nested block, which starts from a copy of the environment.
\<close>

section \<open>Statements\<close>

type_synonym flow = "type_env \<times> bool \<times> string list"
type_synonym subblock = "type_env \<Rightarrow> pyval \<Rightarrow> (bool \<times> string list) result"

record block_context =
  bc_validator :: validator
  bc_return_type :: string
  bc_initialize :: bool

abbreviation typed_expr :: "block_context \<Rightarrow> type_env \<Rightarrow> pyval \<Rightarrow> typed result" where
  "typed_expr B \<equiv> expression (bc_validator B)"

definition stmt_let :: "block_context \<Rightarrow> type_env \<Rightarrow> pydict \<Rightarrow> flow result" where
  "stmt_let B env s =
     rbind (check_keys s [''op'', ''name'', ''type'', ''value''] [''op'', ''name'', ''type'', ''value'']) (\<lambda>_.
     rbind (name_of (dget s ''name'')) (\<lambda>name.
     if name \<in> set (keys env) then Inl (ValueError ''duplicate local'')
     else rbind (type_of (dget s ''type'') False) (\<lambda>declared.
       rbind (typed_expr B env (dget s ''value'')) (\<lambda>(actual, cs).
       rbind (require_type declared actual) (\<lambda>_. Inr (AList.update name declared env, False, cs))))))"

definition stmt_set :: "block_context \<Rightarrow> type_env \<Rightarrow> pydict \<Rightarrow> flow result" where
  "stmt_set B env s =
     rbind (check_keys s [''op'', ''name'', ''value''] [''op'', ''name'', ''value'']) (\<lambda>_.
     rbind (name_of (dget s ''name'')) (\<lambda>name.
     (case map_of env name of
        None \<Rightarrow> Inl (ValueError ''unknown local'')
      | Some t \<Rightarrow>
          rbind (typed_expr B env (dget s ''value'')) (\<lambda>(actual, cs).
          rbind (require_type t actual) (\<lambda>_. Inr (env, False, cs))))))"

definition stmt_return :: "block_context \<Rightarrow> type_env \<Rightarrow> pydict \<Rightarrow> flow result" where
  "stmt_return B env s =
     rbind (check_keys s [''op'', ''value''] [''op'']) (\<lambda>_.
     if bc_initialize B then Inl (ValueError ''return is not allowed in initialize'')
     else if bc_return_type B = ''void'' then
       (if has_key s ''value'' \<and> dget s ''value'' \<noteq> PNone then Inl (ValueError ''type mismatch returning value from void'')
        else Inr (env, True, []))
     else if \<not> has_key s ''value'' then Inl (ValueError ''missing return value'')
     else rbind (typed_expr B env (dget s ''value'')) (\<lambda>(actual, cs).
       rbind (require_type (bc_return_type B) actual) (\<lambda>_. Inr (env, True, cs))))"

definition condition :: "block_context \<Rightarrow> type_env \<Rightarrow> pydict \<Rightarrow> string list result" where
  "condition B env s =
     rbind (typed_expr B env (dget s ''condition'')) (\<lambda>(actual, cs).
     rbind (require_type ''boolean'' actual) (\<lambda>_. Inr cs))"

definition stmt_assert :: "block_context \<Rightarrow> type_env \<Rightarrow> pydict \<Rightarrow> flow result" where
  "stmt_assert B env s =
     rbind (check_keys s [''op'', ''condition'', ''message''] [''op'', ''condition'', ''message'']) (\<lambda>_.
     rbind (condition B env s) (\<lambda>cs.
     if \<not> is_str (dget s ''message'') then Inl (ValueError ''message: expected string'') else Inr (env, False, cs)))"

definition stmt_if :: "block_context \<Rightarrow> subblock \<Rightarrow> type_env \<Rightarrow> pydict \<Rightarrow> flow result" where
  "stmt_if B blk env s =
     rbind (check_keys s [''op'', ''condition'', ''then'', ''else''] [''op'', ''condition'', ''then'', ''else'']) (\<lambda>_.
     rbind (condition B env s) (\<lambda>cs.
     rbind (blk env (dget s ''then'')) (\<lambda>(then_returns, cs1).
     rbind (blk env (dget s ''else'')) (\<lambda>(else_returns, cs2).
     Inr (env, then_returns \<and> else_returns, cs @ cs1 @ cs2)))))"

definition stmt_while :: "block_context \<Rightarrow> subblock \<Rightarrow> type_env \<Rightarrow> pydict \<Rightarrow> flow result" where
  "stmt_while B blk env s =
     rbind (check_keys s [''op'', ''condition'', ''max_iterations'', ''body'']
       [''op'', ''condition'', ''max_iterations'', ''body'']) (\<lambda>_.
     rbind (condition B env s) (\<lambda>cs.
     rbind (case dget s ''max_iterations'' of
              PInt limit \<Rightarrow> require (1 \<le> limit \<and> limit \<le> 1000000) (ValueError ''invalid bounded loop limit'')
            | _ \<Rightarrow> Inl (ValueError ''invalid bounded loop limit'')) (\<lambda>_.
     rbind (blk env (dget s ''body'')) (\<lambda>(_, cs1). Inr (env, False, cs @ cs1)))))"

definition stmt_foreach :: "block_context \<Rightarrow> subblock \<Rightarrow> type_env \<Rightarrow> pydict \<Rightarrow> flow result" where
  "stmt_foreach B blk env s =
     rbind (check_keys s [''op'', ''name'', ''type'', ''collection'', ''body'']
       [''op'', ''name'', ''type'', ''collection'', ''body'']) (\<lambda>_.
     rbind (name_of (dget s ''name'')) (\<lambda>name.
     rbind (type_of (dget s ''type'') False) (\<lambda>item_type.
     rbind (typed_expr B env (dget s ''collection'')) (\<lambda>(t, cs).
     if t \<noteq> ''list<'' @ item_type @ ''>'' \<and> t \<noteq> ''list<object>''
       then Inl (ValueError ''collection: type mismatch for foreach'')
     else if name \<in> set (keys env) then Inl (ValueError ''duplicate local'')
     else rbind (blk (AList.update name item_type env) (dget s ''body'')) (\<lambda>(_, cs1). Inr (env, False, cs @ cs1))))))"

definition stmt_state_set :: "block_context \<Rightarrow> type_env \<Rightarrow> pydict \<Rightarrow> flow result" where
  "stmt_state_set B env s =
     rbind (check_keys s [''op'', ''key'', ''value'', ''context''] [''op'', ''key'', ''value'', ''context'']) (\<lambda>_.
     rbind (typed_expr B env (dget s ''key'')) (\<lambda>(k, cs1).
     rbind (require_type ''string'' k) (\<lambda>_.
     rbind (typed_expr B env (dget s ''value'')) (\<lambda>(_, cs2).
     rbind (typed_expr B env (dget s ''context'')) (\<lambda>(c, cs3).
     if c \<noteq> ''map'' then Inl (ValueError ''context: type mismatch, expected map'')
     else Inr (env, False, cs1 @ cs2 @ cs3))))))"

definition stmt_expr :: "block_context \<Rightarrow> type_env \<Rightarrow> pydict \<Rightarrow> flow result" where
  "stmt_expr B env s =
     rbind (check_keys s [''op'', ''value''] [''op'', ''value'']) (\<lambda>_.
     rbind (typed_expr B env (dget s ''value'')) (\<lambda>(_, cs). Inr (env, False, cs)))"

definition statement :: "block_context \<Rightarrow> subblock \<Rightarrow> type_env \<Rightarrow> pyval \<Rightarrow> flow result" where
  "statement B blk env raw =
     rbind (as_map raw) (\<lambda>s.
     (let opn = str_or_empty (dget s ''op'')
      in if opn = ''let'' then stmt_let B env s
         else if opn = ''set'' then stmt_set B env s
         else if opn = ''return'' then stmt_return B env s
         else if opn = ''assert'' then stmt_assert B env s
         else if opn = ''if'' then stmt_if B blk env s
         else if opn = ''while'' then stmt_while B blk env s
         else if opn = ''foreach'' then stmt_foreach B blk env s
         else if opn = ''state_set'' then stmt_state_set B env s
         else if opn = ''expr'' then stmt_expr B env s
         else Inl (ValueError ''unsupported statement op'')))"

text \<open>One turn of the loop over the statements: the statement after a definite return is rejected.\<close>

definition block_step :: "block_context \<Rightarrow> subblock \<Rightarrow> flow \<Rightarrow> pyval \<Rightarrow> flow result" where
  "block_step B blk st raw = (case st of (env, returned, calls) \<Rightarrow>
     if returned then Inl (ValueError ''unreachable statement'')
     else rbind (statement B blk env raw) (\<lambda>(env', returned', cs). Inr (env', returned', calls @ cs)))"

definition block_body :: "block_context \<Rightarrow> subblock \<Rightarrow> type_env \<Rightarrow> pyval \<Rightarrow> (bool \<times> string list) result" where
  "block_body B blk env raw =
     rbind (as_seq raw) (\<lambda>statements.
     rbind (foldM (block_step B blk) (env, False, []) statements) (\<lambda>(_, returned, calls). Inr (returned, calls)))"

lemma statement_cong:
  assumes "\<And>env x. size x < size raw \<Longrightarrow> f env x = g env x"
  shows "statement B f env raw = statement B g env raw"
proof (cases raw)
  case (PDict s)
  have "f env (dget s k) = g env (dget s k)" for env k using assms size_dget_less[of s k] PDict by simp
  then have "stmt_if B f env s = stmt_if B g env s" "stmt_while B f env s = stmt_while B g env s"
    "stmt_foreach B f env s = stmt_foreach B g env s"
    by (simp_all add: stmt_if_def stmt_while_def stmt_foreach_def cong del: if_weak_cong)
  then show ?thesis by (simp add: statement_def PDict as_map_def Let_def)
qed (simp_all add: statement_def as_map_def)

lemma block_body_cong [fundef_cong]:
  assumes "B = B'" "env = env'" "raw = raw'" and f: "\<And>env x. size x < size raw' \<Longrightarrow> f env x = g env x"
  shows "block_body B f env raw = block_body B' g env' raw'"
proof (cases raw')
  case (PList xs)
  have "block_step B f st x = block_step B g st x" if "x \<in> set xs" for st x
    using size_mem_list_less[OF that] f PList unfolding block_step_def
    by (cases st) (auto intro!: arg_cong2[where f = rbind] statement_cong)
  then have "foldM (block_step B f) (env, False, []) xs = foldM (block_step B g) (env, False, []) xs"
    by (intro foldM_cong refl) simp
  then show ?thesis using assms(1-3) PList by (simp add: block_body_def as_seq_def)
qed (auto simp: block_body_def as_seq_def assms(3))

text \<open>\<open>_Validator.block\<close>.\<close>

function block :: "block_context \<Rightarrow> type_env \<Rightarrow> pyval \<Rightarrow> (bool \<times> string list) result" where
  "block B env raw = block_body B (\<lambda>env x. block B env x) env raw"
  by pat_completeness auto
termination by (relation "measure (\<lambda>(B, env, raw). size raw)") auto

declare block.simps [simp del, code del]

lemma block_code [code]: "block B env raw = block_body B (block B) env raw"
  by (rule block.simps)

end
