(* ===== verification/Typed_Events.thy ===== *)
theory Typed_Events
  imports Typed_Plan_Block
begin

text \<open>
  Event bindings and actions of a typed plan: the binding contract of \<^verbatim>\<open>typed_event_ir.py\<close>
  (\<open>EVENT_PARAMETERS\<close>, \<open>EVENT_SIGNATURES\<close>, \<open>validate_event_bindings\<close>, \<open>event_config_schema\<close>) and the action ABI
  of \<^verbatim>\<open>typed_action_contract.py\<close>. Strings of the model are always encodable, so the Unicode check of the
  choices cannot fail. The trigger inference by regular expressions is not modelled.
\<close>

section \<open>Events\<close>

definition EVENT_PARAMETERS :: "(string \<times> (string \<times> string) list) list" where
  "EVENT_PARAMETERS = [
     (''server_started'', [(''server'', ''object'')]),
     (''server_stopping'', [(''server'', ''object'')]),
     (''server_tick'', [(''server'', ''object'')]),
     (''player_join'', [(''player'', ''object'')]),
     (''player_disconnect'', [(''player'', ''object'')]),
     (''player_respawn'', [(''oldPlayer'', ''object''), (''newPlayer'', ''object''), (''alive'', ''boolean'')]),
     (''command'', [(''source'', ''object'')])]"

definition EVENT_SIGNATURES :: signatures where
  "EVENT_SIGNATURES =
     map (\<lambda>(event, parameters). (event, (map snd parameters, if event = ''command'' then ''int'' else ''void''))) EVENT_PARAMETERS"

definition COMMAND_LITERAL_match :: "string \<Rightarrow> bool" where
  "COMMAND_LITERAL_match s \<longleftrightarrow> 1 \<le> length s \<and> length s \<le> 64 \<and>
     list_all (\<lambda>c. is_lower_az c \<or> is_digit c \<or> c = CHR ''_'') s"

definition event_config_schema :: "string \<Rightarrow> pyval result" where
  "event_config_schema event =
     (if event = ''command'' then
        Inr (PDict [(''type'', PStr ''object''),
          (''properties'', PDict [
             (''literal'', PDict [(''type'', PStr ''string''), (''pattern'', PStr ''^[a-z0-9_]{1,64}$'')]),
             (''permission_level'', PDict [(''type'', PStr ''integer''), (''minimum'', PInt 0), (''maximum'', PInt 4)])]),
          (''required'', PList [PStr ''literal'']),
          (''additionalProperties'', PBool False)])
      else if event \<in> set (keys EVENT_SIGNATURES) then
        Inr (PDict [(''type'', PStr ''object''), (''properties'', PDict []), (''required'', PList []),
          (''additionalProperties'', PBool False)])
      else Inl (ValueError ''TYPED_EVENT_UNSUPPORTED''))"

section \<open>Actions\<close>

definition SCALARS :: "string list" where
  "SCALARS = [''boolean'', ''int'', ''long'', ''double'', ''string'']"

definition MAX_COMMAND_LENGTH :: int where
  "MAX_COMMAND_LENGTH = 32767"

text \<open>\<open>_NAME.fullmatch\<close> of the action contract: no dollar sign, at most 64 characters.\<close>

definition action_name_match :: "string \<Rightarrow> bool" where
  "action_name_match s \<longleftrightarrow> NAME_match s \<and> CHR 0x24 \<notin> set s \<and> length s \<le> 64"

definition same_keys :: "pydict \<Rightarrow> string list \<Rightarrow> bool" where
  "same_keys d ks \<longleftrightarrow> set (keys d) = set ks"

fun raw_bytes :: "pydict \<Rightarrow> int" where
  "raw_bytes row =
     (if dget row ''type'' = PStr ''string'' then (case dget row ''max_length'' of PInt i \<Rightarrow> i * 4 | _ \<Rightarrow> 0)
      else if dget row ''type'' = PStr ''int'' then 11
      else if dget row ''type'' = PStr ''long'' then 20
      else if dget row ''type'' = PStr ''double'' then 25 else 5)"

definition row_of :: "pyval \<Rightarrow> pydict" where
  "row_of v = (case v of PDict d \<Rightarrow> d | _ \<Rightarrow> [])"

text \<open>Called on rows whose type and length have been checked.\<close>

definition action_command_bound :: "pyval list \<Rightarrow> int \<Rightarrow> int" where
  "action_command_bound inputs literal_length =
     fold (\<lambda>row total. total + (2 + (raw_bytes (row_of row) * 4 + 2) div 3)) inputs literal_length"

definition label_ok :: "pyval \<Rightarrow> bool" where
  "label_ok v = (case v of PStr s \<Rightarrow> 1 \<le> length s \<and> length s \<le> 160 | _ \<Rightarrow> False)"

definition finite_number :: "pyval \<Rightarrow> bool result" where
  "finite_number v = (if is_number v then py_isfinite v else Inr False)"

definition action_range :: "pydict \<Rightarrow> string \<Rightarrow> unit result" where
  "action_range row kind =
     (let low = dget row ''minimum''; high = dget row ''maximum''; bits = (if kind = ''int'' then 32 else 64 :: nat)
      in rbind (finite_number low) (\<lambda>lok.
         rbind (if lok then finite_number high else Inr False) (\<lambda>ok.
         if \<not> ok \<or> num_value low > num_value high then Inl (ValueError ''ACTION_INPUT_RANGE_INVALID'')
         else if kind = ''double'' then Inr ()
         else (case (low, high) of
                 (PInt l, PInt h) \<Rightarrow>
                   require (\<not> (l < - (2 ^ (bits - 1)) \<or> h \<ge> 2 ^ (bits - 1))) (ValueError ''ACTION_INPUT_INTEGER_RANGE_INVALID'')
               | _ \<Rightarrow> Inl (ValueError ''ACTION_INPUT_INTEGER_RANGE_INVALID'')))))"

definition action_choices :: "pydict \<Rightarrow> unit result" where
  "action_choices row =
     (case dget row ''max_length'' of
        PInt len \<Rightarrow>
          if \<not> (0 \<le> len \<and> len \<le> 4096) then Inl (ValueError ''ACTION_INPUT_STRING_BOUND_INVALID'')
          else (case dget row ''choices'' of
                  PList cs \<Rightarrow>
                    require (length cs \<le> 32 \<and> list_all (\<lambda>c. case c of PStr s \<Rightarrow> int (length s) \<le> len | _ \<Rightarrow> False) cs \<and> distinct cs)
                      (ValueError ''ACTION_INPUT_CHOICES_INVALID'')
                | _ \<Rightarrow> Inl (ValueError ''ACTION_INPUT_CHOICES_INVALID''))
      | _ \<Rightarrow> Inl (ValueError ''ACTION_INPUT_STRING_BOUND_INVALID''))"

definition action_input :: "string list \<Rightarrow> pyval \<Rightarrow> string list result" where
  "action_input names raw = (case raw of
     PDict row \<Rightarrow>
       (case dget row ''name'' of
          PStr name \<Rightarrow>
            if \<not> action_name_match name \<or> name \<in> set names then Inl (ValueError ''ACTION_INPUT_NAME_INVALID_OR_DUPLICATE'')
            else (case dget row ''type'' of
              PStr kind \<Rightarrow>
                if kind \<notin> set SCALARS then Inl (ValueError ''ACTION_INPUT_TYPE_INVALID'')
                else if \<not> label_ok (dget row ''label'') then Inl (ValueError ''ACTION_INPUT_LABEL_INVALID'')
                else rbind (if kind \<in> set numeric_types then action_range row kind
                            else if kind = ''string'' then action_choices row else Inr ()) (\<lambda>_.
                  if \<not> same_keys row ([''name'', ''type'', ''label''] @
                       (if kind \<in> set numeric_types then [''minimum'', ''maximum'']
                        else if kind = ''string'' then [''max_length'', ''choices''] else []))
                    then Inl (ValueError ''ACTION_INPUT_FIELDS'')
                  else Inr (names @ [name]))
            | _ \<Rightarrow> Inl (ValueError ''ACTION_INPUT_TYPE_INVALID''))
        | _ \<Rightarrow> Inl (ValueError ''ACTION_INPUT_NAME_INVALID_OR_DUPLICATE''))
   | _ \<Rightarrow> Inl (ValueError ''ACTION_INPUT_FIELDS''))"

definition is_parameter :: "pyval \<Rightarrow> pyval \<Rightarrow> bool" where
  "is_parameter p row = (case p of
     PDict d \<Rightarrow> same_keys d [''name'', ''type''] \<and> dget d ''name'' = dget (row_of row) ''name'' \<and>
       dget d ''type'' = dget (row_of row) ''type''
   | _ \<Rightarrow> False)"

text \<open>The comparison with the parameters of the bound function: a first parameter of type object, whose
  name is none of the inputs, then one parameter per input.\<close>

definition action_parameters :: "string list \<Rightarrow> pyval list \<Rightarrow> pyval \<Rightarrow> unit result" where
  "action_parameters names inputs parameters = (case parameters of
     PList (p # ps) \<Rightarrow>
       if length ps \<noteq> length inputs then Inl (ValueError ''ACTION_FUNCTION_SIGNATURE_MISMATCH'')
       else (case p of
         PDict d \<Rightarrow>
           if dget d ''type'' \<noteq> PStr ''object'' then Inl (ValueError ''ACTION_FUNCTION_SIGNATURE_MISMATCH'')
           else if is_list (dget d ''name'') \<or> is_mapping (dget d ''name'') then Inl (TypeError ''unhashable type'')
           else require (\<not> ((case dget d ''name'' of PStr n \<Rightarrow> n \<in> set names | _ \<Rightarrow> False) \<or> \<not> list_all2 is_parameter ps inputs))
             (ValueError ''ACTION_FUNCTION_SIGNATURE_MISMATCH'')
       | _ \<Rightarrow> Inl (AttributeError ''get''))
   | _ \<Rightarrow> Inl (ValueError ''ACTION_FUNCTION_SIGNATURE_MISMATCH''))"

definition validate_action_contract :: "pyval \<Rightarrow> pyval option \<Rightarrow> pydict result" where
  "validate_action_contract v parameters = (case v of
     PDict raw \<Rightarrow>
       if \<not> same_keys raw [''id'', ''label'', ''inputs''] then Inl (ValueError ''ACTION_CONTRACT_FIELDS'')
       else if \<not> (case dget raw ''id'' of PStr s \<Rightarrow> action_name_match s | _ \<Rightarrow> False) then Inl (ValueError ''ACTION_ID_INVALID'')
       else if \<not> label_ok (dget raw ''label'') then Inl (ValueError ''ACTION_LABEL_INVALID'')
       else (case dget raw ''inputs'' of
         PList inputs \<Rightarrow>
           if length inputs > 16 then Inl (ValueError ''ACTION_INPUTS_INVALID'')
           else rbind (foldM action_input [] inputs) (\<lambda>names.
             if action_command_bound inputs 128 > MAX_COMMAND_LENGTH then Inl (ValueError ''ACTION_COMMAND_TOO_LARGE'')
             else rbind (case parameters of None \<Rightarrow> Inr () | Some ps \<Rightarrow> action_parameters names inputs ps) (\<lambda>_. Inr raw))
       | _ \<Rightarrow> Inl (ValueError ''ACTION_INPUTS_INVALID''))
   | _ \<Rightarrow> Inl (ValueError ''ACTION_CONTRACT_FIELDS''))"

section \<open>Bindings\<close>

definition action_of_config :: "string \<Rightarrow> pyval \<Rightarrow> pydict option result" where
  "action_of_config event config = (case config of
     PDict c \<Rightarrow>
       if event = ''command'' \<and> has_key c ''action''
       then rbind (validate_action_contract (dget c ''action'') None) (\<lambda>a. Inr (Some a)) else Inr None
   | _ \<Rightarrow> Inr None)"

definition action_input_types :: "pydict \<Rightarrow> string list" where
  "action_input_types a = (case dget a ''inputs'' of
     PList rows \<Rightarrow> map (\<lambda>r. py_str (dget (row_of r) ''type'')) rows | _ \<Rightarrow> [])"

definition binding_config :: "string \<Rightarrow> pydict option \<Rightarrow> pyval \<Rightarrow> pydict result" where
  "binding_config event action v = (case v of
     PDict config \<Rightarrow>
       if event = ''command'' then
         (if list_ex (\<lambda>k. k \<notin> {''literal'', ''permission_level'', ''action''}) (keys config)
            then Inl (ValueError ''config: invalid command fields'')
          else if \<not> COMMAND_LITERAL_match (str_or_empty (dget config ''literal'')) then Inl (ValueError ''invalid command literal'')
          else (case (if has_key config ''permission_level'' then dget config ''permission_level'' else PInt 0) of
                  PInt permission \<Rightarrow>
                    if 0 \<le> permission \<and> permission \<le> 4 then
                      (let c1 = AList.update ''permission_level'' (PInt permission) config
                       in Inr (case action of None \<Rightarrow> c1 | Some a \<Rightarrow> AList.update ''action'' (PDict a) c1))
                    else Inl (ValueError ''permission_level: expected integer 0-4'')
                | _ \<Rightarrow> Inl (ValueError ''permission_level: expected integer 0-4'')))
       else if config \<noteq> [] then Inl (ValueError ''event takes no config'')
       else Inr config
   | _ \<Rightarrow> Inl (ValueError ''config: expected object''))"

definition event_binding :: "signatures \<Rightarrow> int list \<Rightarrow> pyval \<Rightarrow> (int \<times> pydict) result" where
  "event_binding sigs seen v = (case v of
     PDict raw \<Rightarrow>
       if \<not> same_keys raw [''event'', ''function'', ''entry_point_index'', ''config''] then Inl (ValueError ''invalid fields'')
       else (let event = py_str (dget raw ''event''); fn = py_str (dget raw ''function'') in
         case map_of EVENT_SIGNATURES event of
           None \<Rightarrow> Inl (ValueError ''unsupported event'')
         | Some contract \<Rightarrow>
             rbind (action_of_config event (dget raw ''config'')) (\<lambda>action.
             (let expected = (case action of None \<Rightarrow> contract | Some a \<Rightarrow> (''object'' # action_input_types a, ''int''))
              in case map_of sigs fn of
                   None \<Rightarrow> Inl (ValueError ''unknown function'')
                 | Some actual \<Rightarrow>
                     if actual \<noteq> expected then
                       Inl (ValueError (if action \<noteq> None then ''ACTION_FUNCTION_SIGNATURE_MISMATCH'' else ''function has another signature''))
                     else (case dget raw ''entry_point_index'' of
                       PInt i \<Rightarrow>
                         if i < 0 then Inl (ValueError ''entry_point_index: expected nonnegative integer'')
                         else if i \<in> set seen then Inl (ValueError ''duplicate entry_point_index'')
                         else rbind (binding_config event action (dget raw ''config'')) (\<lambda>config.
                           Inr (i, [(''event'', PStr event), (''function'', PStr fn), (''entry_point_index'', PInt i),
                                    (''config'', PDict config)]))
                     | _ \<Rightarrow> Inl (ValueError ''entry_point_index: expected nonnegative integer'')))))
   | _ \<Rightarrow> Inl (ValueError ''expected object''))"

definition validate_event_bindings :: "pyval \<Rightarrow> signatures \<Rightarrow> pyval list result" where
  "validate_event_bindings raw_bindings sigs = (case raw_bindings of
     PNone \<Rightarrow> Inr []
   | PList rows \<Rightarrow>
       rbind (foldM (\<lambda>(seen, acc) raw. rbind (event_binding sigs seen raw) (\<lambda>(i, b). Inr (i # seen, acc @ [PDict b]))) ([], []) rows)
         (\<lambda>(_, acc). Inr acc)
   | _ \<Rightarrow> Inl (ValueError ''event_bindings: expected array''))"

text \<open>\<open>action_bindings\<close>, on a plan whose functions and bindings have been validated.\<close>

definition plan_rows :: "pydict \<Rightarrow> string \<Rightarrow> pydict list" where
  "plan_rows plan field = (case dget plan field of PList xs \<Rightarrow> map row_of xs | _ \<Rightarrow> [])"

definition function_row :: "pydict \<Rightarrow> pyval \<Rightarrow> pydict option" where
  "function_row plan f = map_of (rev (map (\<lambda>fn. (dget fn ''id'', fn)) (plan_rows plan ''functions''))) f"

definition command_literals :: "pydict \<Rightarrow> pyval list" where
  "command_literals plan =
     map (\<lambda>b. dget (row_of (dget b ''config'')) ''literal'')
       (filter (\<lambda>b. dget b ''event'' = PStr ''command'') (plan_rows plan ''event_bindings''))"

definition py_len :: "pyval \<Rightarrow> int result" where
  "py_len v = (case v of PStr s \<Rightarrow> Inr (int (length s)) | PList xs \<Rightarrow> Inr (int (length xs))
     | PDict d \<Rightarrow> Inr (int (length d)) | _ \<Rightarrow> Inl (TypeError ''object has no len()''))"

definition first_parameter_name :: "pydict \<Rightarrow> pyval" where
  "first_parameter_name fn = (case dget fn ''parameters'' of PList (p # _) \<Rightarrow> dget (row_of p) ''name'' | _ \<Rightarrow> PNone)"

definition action_binding :: "pydict \<Rightarrow> pyval list \<times> pyval list \<Rightarrow> pydict \<Rightarrow> (pyval list \<times> pyval list) result" where
  "action_binding plan st b = (case st of (ids, acc) \<Rightarrow>
     (let config = row_of (dget b ''config'') in
      if \<not> has_key config ''action'' then Inr (ids, acc)
      else (case function_row plan (dget b ''function'') of
        None \<Rightarrow> Inl (ValueError ''ACTION_FUNCTION_TARGET_REQUIRED'')
      | Some fn \<Rightarrow>
          if dget fn ''return_type'' \<noteq> PStr ''int'' then Inl (ValueError ''ACTION_FUNCTION_TARGET_REQUIRED'')
          else rbind (validate_action_contract (dget config ''action'') (Some (dget fn ''parameters''))) (\<lambda>action.
            rbind (py_len (dget config ''literal'')) (\<lambda>len.
            if action_command_bound (case dget action ''inputs'' of PList xs \<Rightarrow> xs | _ \<Rightarrow> []) len > MAX_COMMAND_LENGTH
              then Inl (ValueError ''ACTION_COMMAND_TOO_LARGE'')
            else if dget action ''id'' \<in> set ids \<or> count_list (command_literals plan) (dget config ''literal'') \<noteq> 1
              then Inl (ValueError ''ACTION_ID_OR_TRANSPORT_DUPLICATE'')
            else Inr (dget action ''id'' # ids,
              acc @ [PDict (AList.update ''literal'' (dget config ''literal'')
                (AList.update ''actor_parameter'' (first_parameter_name fn)
                  (AList.update ''function'' (dget fn ''id'') action)))]))))))"

definition action_bindings :: "pydict \<Rightarrow> pyval list result" where
  "action_bindings plan =
     rbind (foldM (action_binding plan) ([], []) (plan_rows plan ''event_bindings'')) (\<lambda>(_, acc). Inr acc)"

end
