(* ===== verification/Typed_Plan_Check.thy ===== *)
theory Typed_Plan_Check
  imports Typed_Events
begin

text \<open>
  The whole validator (\<open>_Validator.run\<close> and \<open>validate_typed_plan_ir\<close> of \<^verbatim>\<open>typed_plan_ir.py\<close>): the function
  signatures, the bodies, the initializer, the search for recursive calls, and the normalized plan. The
  argument \<open>platform\<close> is \<open>validate_platform_modules\<close> of \<^verbatim>\<open>typed_platform_ir.py\<close>. The callees of a function are a
  set in the source; the model visits them in the order of the calls, which only decides the function an
  error message names.
\<close>

section \<open>Signatures\<close>

definition parameter :: "string list \<Rightarrow> pyval \<Rightarrow> (string \<times> string) result" where
  "parameter names raw =
     rbind (as_map raw) (\<lambda>param.
     rbind (check_keys param [''name'', ''type''] [''name'', ''type'']) (\<lambda>_.
     rbind (name_of (dget param ''name'')) (\<lambda>name.
     if name \<in> set names then Inl (ValueError ''duplicate parameter'')
     else rbind (type_of (dget param ''type'') False) (\<lambda>t. Inr (name, t)))))"

definition parameters :: "pyval \<Rightarrow> (string \<times> string) list result" where
  "parameters raw =
     rbind (as_seq raw) (\<lambda>xs.
     foldM (\<lambda>acc x. rbind (parameter (keys acc) x) (\<lambda>p. Inr (acc @ [p]))) [] xs)"

definition function_fields :: "string list" where
  "function_fields = [''id'', ''parameters'', ''return_type'', ''body'', ''covers'']"

definition signature :: "signatures \<Rightarrow> pyval \<Rightarrow> signatures result" where
  "signature sigs raw =
     rbind (as_map raw) (\<lambda>fn.
     rbind (check_keys fn function_fields function_fields) (\<lambda>_.
     rbind (symbol_of (dget fn ''id'')) (\<lambda>f.
     if f \<in> set (keys sigs) then Inl (ValueError ''duplicate function'')
     else rbind (parameters (dget fn ''parameters'')) (\<lambda>ps.
       rbind (type_of (dget fn ''return_type'') True) (\<lambda>ret. Inr (sigs @ [(f, (map snd ps, ret))]))))))"

section \<open>Bodies\<close>

definition param_env :: "pyval \<Rightarrow> string list \<Rightarrow> type_env" where
  "param_env raw types = (case raw of
     PList xs \<Rightarrow> fold (\<lambda>(x, t) env. AList.update (py_str (dget (row_of x) ''name'')) t env) (zip xs types) []
   | _ \<Rightarrow> [])"

definition covers_ok :: "pyval list \<Rightarrow> bool" where
  "covers_ok covers \<longleftrightarrow> list_all (\<lambda>v. case v of PStr s \<Rightarrow> strip s \<noteq> [] | _ \<Rightarrow> False) covers"

definition check_function :: "validator \<Rightarrow> pyval \<Rightarrow> (string \<times> string list) result" where
  "check_function V raw =
     rbind (as_map raw) (\<lambda>fn.
     (let f = py_str (dget fn ''id'') in
      case map_of (v_signatures V) f of
        None \<Rightarrow> Inl (KeyError f)
      | Some (types, ret) \<Rightarrow>
          rbind (as_seq (dget fn ''covers'')) (\<lambda>covers.
          if \<not> covers_ok covers then Inl (ValueError ''covers: expected non-empty strings'')
          else rbind (block \<lparr>bc_validator = V, bc_return_type = ret, bc_initialize = False\<rparr>
                 (param_env (dget fn ''parameters'') types) (dget fn ''body'')) (\<lambda>(definitely_returns, cs).
            if ret \<noteq> ''void'' \<and> \<not> definitely_returns then Inl (ValueError ''non-void function must return'')
            else Inr (f, cs)))))"

section \<open>Recursive calls\<close>

text \<open>\<open>self.calls.get(function, ())\<close>, and the nested function \<open>visit\<close>: \<open>visiting\<close> is restored when a call
  returns, \<open>visited\<close> is handed on.\<close>

definition callees :: "(string \<times> string list) list \<Rightarrow> string \<Rightarrow> string list" where
  "callees calls f = (case map_of calls f of None \<Rightarrow> [] | Some cs \<Rightarrow> cs)"

lemma callees_Nil: "f \<notin> set (keys calls) \<Longrightarrow> callees calls f = []"
  by (simp add: callees_def map_of_eq_None_iff[THEN iffD2])

function visit :: "(string \<times> string list) list \<Rightarrow> string list \<Rightarrow> string list \<Rightarrow> string \<Rightarrow> string list result" where
  "visit calls visiting visited f =
     (if f \<in> set visiting then Inl (ValueError ''recursive function call'')
      else if f \<in> set visited then Inr visited
      else rbind (foldM (\<lambda>visited target. visit calls (f # visiting) visited target) visited (callees calls f))
             (\<lambda>visited. Inr (visited @ [f])))"
  by pat_completeness auto
termination
proof (relation "measure (\<lambda>(calls, visiting, visited, f). card (set (keys calls) - set visiting))")
  fix calls visiting visited f a x
  assume "f \<notin> set visiting" "x \<in> set (callees calls f)"
  then have "f \<in> set (keys calls) - set visiting" using callees_Nil[of f calls] by (cases "f \<in> set (keys calls)") auto
  then have "set (keys calls) - set (f # visiting) \<subset> set (keys calls) - set visiting" by auto
  then have "card (set (keys calls) - set (f # visiting)) < card (set (keys calls) - set visiting)"
    by (rule psubset_card_mono[rotated]) simp
  then show "((calls, f # visiting, a, x), calls, visiting, visited, f)
      \<in> measure (\<lambda>(calls, visiting, visited, f). card (set (keys calls) - set visiting))" by simp
qed simp

declare visit.simps [simp del]

definition check_recursion :: "(string \<times> string list) list \<Rightarrow> string list \<Rightarrow> string list result" where
  "check_recursion calls fs = foldM (\<lambda>visited f. visit calls [] visited f) [] fs"

section \<open>The plan\<close>

definition plan_fields :: "string list" where
  "plan_fields = [''schema_version'', ''source_sha256'', ''functions'', ''initialize'', ''platform_modules'', ''event_bindings'']"

text \<open>Everything \<open>run\<close> checks before it normalizes: the signatures and the calls of each function.\<close>

definition check_plan ::
    "(string \<times> capability_contract) list \<Rightarrow> pydict \<Rightarrow> (signatures \<times> (string \<times> string list) list) result" where
  "check_plan caps plan =
     rbind (check_keys plan plan_fields [''schema_version'', ''source_sha256'', ''functions'', ''initialize'']) (\<lambda>_.
     rbind (require (dget plan ''schema_version'' = PStr ''mmm/typed-plan-ir-v1'') (ValueError ''unsupported schema_version'')) (\<lambda>_.
     rbind (require (sha256_match (str_or_empty (dget plan ''source_sha256''))) (ValueError ''invalid sha256'')) (\<lambda>_.
     rbind (as_seq (dget plan ''functions'')) (\<lambda>functions.
     rbind (foldM signature [] functions) (\<lambda>sigs.
     (let V = \<lparr>v_signatures = sigs, v_capabilities = caps\<rparr> in
      rbind (mapM (check_function V) functions) (\<lambda>calls.
      rbind (block \<lparr>bc_validator = V, bc_return_type = ''void'', bc_initialize = True\<rparr> [] (dget plan ''initialize'')) (\<lambda>_.
      rbind (check_recursion calls (keys sigs)) (\<lambda>_. Inr (sigs, calls))))))))))"

definition run ::
    "(pyval \<Rightarrow> pyval result) \<Rightarrow> (string \<times> capability_contract) list \<Rightarrow> pyval \<Rightarrow> pydict result" where
  "run platform caps v =
     rbind (as_map v) (\<lambda>plan.
     rbind (check_plan caps plan) (\<lambda>(sigs, calls).
     rbind (if has_key plan ''platform_modules''
            then rbind (platform (dget plan ''platform_modules'')) (\<lambda>m. Inr (AList.update ''platform_modules'' m plan))
            else Inr plan) (\<lambda>n1.
     if has_key plan ''event_bindings''
     then rbind (validate_event_bindings (dget plan ''event_bindings'') sigs) (\<lambda>bs.
            let n2 = AList.update ''event_bindings'' (PList bs) n1
            in rbind (action_bindings n2) (\<lambda>_. Inr n2))
     else Inr n1)))"

definition validate_typed_plan_ir ::
    "(string \<Rightarrow> bool) \<Rightarrow> (pyval \<Rightarrow> pyval result) \<Rightarrow> pyval \<Rightarrow> pydict option \<Rightarrow> pydict result" where
  "validate_typed_plan_ir re_ok platform plan capabilities =
     rbind (capability_contracts re_ok capabilities) (\<lambda>caps. run platform caps plan)"

end
