(* ===== verification/Typed_Plan_Queries.thy ===== *)
theory Typed_Plan_Queries
  imports Typed_Plan_Check
begin

text \<open>
  The queries of \<^verbatim>\<open>typed_plan_ir.py\<close> over a plan: \<open>_walk_nodes\<close>, the functions reachable from events and the
  initializer, the mutations reachable at run time and per event, the capabilities used; with the host
  capability table of \<^verbatim>\<open>typed_host_capabilities.py\<close>. The queries are read on validated plans, whose \<open>op\<close>
  and \<open>operator\<close> fields are strings, so the hash errors of other field values do not occur.
\<close>

section \<open>Walking a plan\<close>

function walk_nodes :: "pyval \<Rightarrow> pydict list" where
  "walk_nodes (PDict d) = d # concat (map (\<lambda>(k, v). walk_nodes v) d)"
| "walk_nodes (PList xs) = concat (map walk_nodes xs)"
| "walk_nodes PNone = []"
| "walk_nodes (PBool b) = []"
| "walk_nodes (PInt i) = []"
| "walk_nodes (PFloat r) = []"
| "walk_nodes (PStr s) = []"
  by pat_completeness auto
termination
  by (relation "measure size") (auto dest: size_mem_list_less size_dict_item_less)

text \<open>\<open>plan.get(field, ())\<close>; an absent field is an empty tuple.\<close>

definition pget :: "pydict \<Rightarrow> string \<Rightarrow> pyval" where
  "pget d k = (case map_of d k of None \<Rightarrow> PList [] | Some v \<Rightarrow> v)"

definition execution_ast :: "pydict \<Rightarrow> pyval" where
  "execution_ast plan = PDict [(''functions'', pget plan ''functions''), (''initialize'', pget plan ''initialize'')]"

definition node_op :: "pydict \<Rightarrow> string \<Rightarrow> bool" where
  "node_op d opn \<longleftrightarrow> dget d ''op'' = PStr opn"

definition typed_plan_uses_state :: "pydict \<Rightarrow> bool" where
  "typed_plan_uses_state plan \<longleftrightarrow>
     list_ex (\<lambda>d. node_op d ''state_get'' \<or> node_op d ''state_set'') (walk_nodes (execution_ast plan))"

definition typed_plan_capability_ids :: "pydict \<Rightarrow> string list" where
  "typed_plan_capability_ids plan = fromkeys (filter (\<lambda>s. s \<noteq> [])
     (map (\<lambda>d. str_or_empty (dget d ''id'')) (filter (\<lambda>d. node_op d ''capability'') (walk_nodes (execution_ast plan)))))"

section \<open>Reachable functions\<close>

definition mapping_rows :: "pyval \<Rightarrow> pydict list" where
  "mapping_rows v = (case v of PList xs \<Rightarrow> concat (map (\<lambda>x. case x of PDict d \<Rightarrow> [d] | _ \<Rightarrow> []) xs) | _ \<Rightarrow> [])"

definition plan_functions :: "pydict \<Rightarrow> (string \<times> pydict) list" where
  "plan_functions plan =
     fold (\<lambda>f acc. if str_or_empty (dget f ''id'') \<noteq> [] then AList.update (str_or_empty (dget f ''id'')) f acc else acc)
       (mapping_rows (pget plan ''functions'')) []"

definition calls_in :: "pyval \<Rightarrow> string list" where
  "calls_in v = fromkeys (filter (\<lambda>s. s \<noteq> [])
     (map (\<lambda>d. str_or_empty (dget d ''function'')) (filter (\<lambda>d. node_op d ''call'') (walk_nodes v))))"

definition reach_roots :: "pydict \<Rightarrow> bool \<Rightarrow> string list" where
  "reach_roots plan runtime_only =
     filter (\<lambda>s. s \<noteq> []) (map (\<lambda>b. str_or_empty (dget b ''function'')) (mapping_rows (pget plan ''event_bindings'')))
     @ (if runtime_only then [] else calls_in (pget plan ''initialize''))"

definition body_calls :: "(string \<times> pydict) list \<Rightarrow> string \<Rightarrow> string list" where
  "body_calls fs f = (case map_of fs f of None \<Rightarrow> [] | Some d \<Rightarrow> calls_in (pget d ''body''))"

function reach_loop :: "(string \<times> pydict) list \<Rightarrow> string list \<Rightarrow> string list \<Rightarrow> string list" where
  "reach_loop fs reachable [] = reachable"
| "reach_loop fs reachable (f # pending) =
     (if f \<in> set reachable then reach_loop fs reachable pending
      else reach_loop fs (reachable @ [f])
             (pending @ filter (\<lambda>t. t \<in> set (keys fs) \<and> t \<notin> set (reachable @ [f])) (body_calls fs f)))"
  by pat_completeness auto
termination
proof (relation "measures [\<lambda>(fs, reachable, pending). card (set (keys fs) - set reachable), \<lambda>(fs, reachable, pending). length pending]", goal_cases)
  case (3 fs reachable f pending)
  show ?case
  proof (cases "f \<in> set (keys fs)")
    case True
    then have "set (keys fs) - set (reachable @ [f]) \<subset> set (keys fs) - set reachable" using 3 by auto
    then have "card (set (keys fs) - set (reachable @ [f])) < card (set (keys fs) - set reachable)"
      by (rule psubset_card_mono[rotated]) simp
    then show ?thesis by simp
  next
    case False
    then have "set (keys fs) - set (reachable @ [f]) = set (keys fs) - set reachable" by auto
    moreover have "body_calls fs f = []" using False by (simp add: body_calls_def map_of_eq_None_iff[THEN iffD2])
    ultimately show ?thesis by simp
  qed
qed auto

text \<open>The queue holds each root once; \<open>seen\<close> and \<open>reachable\<close> have the same elements.\<close>

definition typed_plan_reachable_function_ids :: "pydict \<Rightarrow> bool \<Rightarrow> string list" where
  "typed_plan_reachable_function_ids plan runtime_only =
     (let fs = plan_functions plan
      in reach_loop fs [] (fromkeys (filter (\<lambda>r. r \<in> set (keys fs)) (reach_roots plan runtime_only))))"

section \<open>Mutations\<close>

definition host_capability :: "string \<Rightarrow> string list \<Rightarrow> pyval list \<Rightarrow> string \<Rightarrow> bool \<Rightarrow> pyval" where
  "host_capability meth params constraints ret mutation =
     PDict ((if mutation then [(''gameplay_mutation'', PBool True)] else []) @
       [(''owner'', PStr ''AuthoredHostCapabilities''), (''method'', PStr meth), (''parameters'', PList (map PStr params)),
        (''parameter_constraints'', PList constraints), (''return_type'', PStr ret)])"

definition CAPABILITIES :: pydict where
  "CAPABILITIES = [
     (''player.uuid'', host_capability ''playerUuid'' [''object''] [PDict []] ''string'' False),
     (''player.send_message'', host_capability ''sendMessage'' [''object'', ''string'']
        [PDict [], PDict [(''maxLength'', PInt 256),
           (''description'', PStr ''Message text shown to the player, including notifications such as insufficient currency.'')]] ''void'' False),
     (''player.grant_item'', host_capability ''grantItem'' [''object'', ''string'', ''int'']
        [PDict [],
         PDict [(''description'', PStr ''Registered item identifier in namespace:path form.''),
           (''pattern'', PStr ''^[a-z0-9_.-]+:[a-z0-9_./-]+$''), (''maxLength'', PInt 64)],
         PDict [(''minimum'', PInt 1), (''maximum'', PInt (2 ^ 31 - 1)),
           (''description'', PStr ''Number of items to grant; strictly positive.'')]] ''boolean'' True),
     (''player.add_status_effect'', host_capability ''addStatusEffect'' [''object'', ''string'', ''int'', ''int'']
        [PDict [],
         PDict [(''description'', PStr ''Registered Minecraft status-effect identifier, such as minecraft:speed; not a message or an invented status label.''),
           (''pattern'', PStr ''^[a-z0-9_.-]+:[a-z0-9_./-]+$''), (''maxLength'', PInt 64)],
         PDict [(''minimum'', PInt 1), (''maximum'', PInt (2 ^ 31 - 1)),
           (''description'', PStr ''Effect duration in ticks (20 ticks = 1 second); strictly positive.'')],
         PDict [(''minimum'', PInt 0), (''maximum'', PInt 255),
           (''description'', PStr ''Zero-based effect amplifier; 0 means level I, 1 means level II.'')]] ''boolean'' True),
     (''command.has_permission'', host_capability ''hasPermission'' [''object'', ''int'']
        [PDict [], PDict [(''minimum'', PInt 0), (''maximum'', PInt 4)]] ''boolean'' False)]"

definition mutating_capabilities :: "string list" where
  "mutating_capabilities =
     map fst (filter (\<lambda>(k, v). dget (row_of v) ''gameplay_mutation'' = PBool True) CAPABILITIES)"

definition node_mutation :: "pydict \<Rightarrow> string list" where
  "node_mutation d =
     (if node_op d ''state_set'' then [''state_set'']
      else if node_op d ''capability'' \<and> str_or_empty (dget d ''id'') \<in> set mutating_capabilities
        then [''capability:'' @ py_str (dget d ''id'')] else [])"

definition typed_plan_runtime_mutations :: "pydict \<Rightarrow> string list" where
  "typed_plan_runtime_mutations plan =
     (let reachable = typed_plan_reachable_function_ids plan True
      in sorted_set (concat (map (\<lambda>f. concat (map node_mutation (walk_nodes (pget f ''body''))))
           (filter (\<lambda>f. str_or_empty (dget f ''id'') \<in> set reachable) (mapping_rows (pget plan ''functions''))))))"

section \<open>Mutations of an event\<close>

text \<open>\<open>tested_event\<close>: the value of a host-authored guard that compares the variable \<open>event\<close> with a string.\<close>

definition event_constant :: "pyval \<Rightarrow> pyval \<Rightarrow> string \<Rightarrow> bool option" where
  "event_constant variable constant event = (case (variable, constant) of
     (PDict v, PDict c) \<Rightarrow>
       if node_op v ''ref'' \<and> dget v ''name'' = PStr ''event'' \<and> node_op c ''literal'' \<and> dget c ''type'' = PStr ''string''
       then Some (dget c ''value'' = PStr event) else None
   | _ \<Rightarrow> None)"

definition tested_event :: "pyval \<Rightarrow> string \<Rightarrow> bool option" where
  "tested_event cond event = (case cond of
     PDict c \<Rightarrow>
       if \<not> node_op c ''binary'' \<or> (dget c ''operator'' \<noteq> PStr ''=='' \<and> dget c ''operator'' \<noteq> PStr ''!='') then None
       else (case (case event_constant (dget c ''left'') (dget c ''right'') event of
                     Some b \<Rightarrow> Some b | None \<Rightarrow> event_constant (dget c ''right'') (dget c ''left'') event) of
               None \<Rightarrow> None
             | Some equal \<Rightarrow> Some (if dget c ''operator'' = PStr ''=='' then equal else \<not> equal))
   | _ \<Rightarrow> None)"

text \<open>The event a callee sees: the literal passed for a first parameter named \<open>event\<close>.\<close>

definition callee_event :: "pydict \<Rightarrow> pydict \<Rightarrow> string \<Rightarrow> string" where
  "callee_event callee node event =
     (case (pget callee ''parameters'', pget node ''args'') of
        (PList (PDict p # _), PList (PDict a # _)) \<Rightarrow>
          if dget p ''name'' = PStr ''event'' \<and> node_op a ''literal'' \<and> dget a ''type'' = PStr ''string''
          then str_or_empty (dget a ''value'') else event
      | _ \<Rightarrow> event)"

lemma size_pget_less: "d \<noteq> [] \<Longrightarrow> size (pget d k) < size (PDict d)"
  by (cases d) (auto simp: pget_def dest: size_map_of_less split: option.splits)

lemma node_op_nonempty: "node_op d opn \<Longrightarrow> d \<noteq> []"
  by (auto simp: node_op_def dget_def)

lemmas node_size = size_pget_less[OF node_op_nonempty] size_dget_less

function mutations_at :: "(string \<times> pydict) list \<Rightarrow> string list \<Rightarrow> string \<Rightarrow> pyval \<Rightarrow> string list" where
  "mutations_at fs stack event (PList xs) = concat (map (mutations_at fs stack event) xs)"
| "mutations_at fs stack event (PDict d) =
     (if node_op d ''if'' then
        (case tested_event (dget d ''condition'') event of
           Some True \<Rightarrow> mutations_at fs stack event (pget d ''then'')
         | Some False \<Rightarrow> mutations_at fs stack event (pget d ''else'')
         | None \<Rightarrow> mutations_at fs stack event (dget d ''condition'')
             @ mutations_at fs stack event (pget d ''then'') @ mutations_at fs stack event (pget d ''else''))
      else node_mutation d
        @ (if node_op d ''call'' then
             (let called = str_or_empty (dget d ''function'') in
              case map_of fs called of
                None \<Rightarrow> []
              | Some callee \<Rightarrow>
                  if called \<in> set stack then []
                  else mutations_at fs (called # stack) (callee_event callee d event) (pget callee ''body''))
           else [])
        @ concat (map (\<lambda>(k, v). if node_op d ''call'' \<and> k = ''function'' then [] else mutations_at fs stack event v) d))"
| "mutations_at fs stack event PNone = []"
| "mutations_at fs stack event (PBool b) = []"
| "mutations_at fs stack event (PInt i) = []"
| "mutations_at fs stack event (PFloat r) = []"
| "mutations_at fs stack event (PStr s) = []"
  by pat_completeness auto
termination
proof (relation "measures [\<lambda>(fs, stack, event, node). card (set (keys fs) - set stack), \<lambda>(fs, stack, event, node). size node]", goal_cases)
  case (8 fs stack event d called callee)
  then have "called \<in> set (keys fs)" by (force dest: map_of_SomeD)
  then have "set (keys fs) - set (called # stack) \<subset> set (keys fs) - set stack" using 8 by auto
  then have "card (set (keys fs) - set (called # stack)) < card (set (keys fs) - set stack)"
    by (rule psubset_card_mono[rotated]) simp
  then show ?case by simp
next
  case (9 fs stack event d x k v)
  then show ?case using size_dict_item_less[of k v d] by (simp del: pyval.size)
qed (simp_all add: size_mem_list_less node_size del: pyval.size)

definition binding_mutations :: "(string \<times> pydict) list \<Rightarrow> (string \<times> string list) list \<Rightarrow> pydict \<Rightarrow> (string \<times> string list) list" where
  "binding_mutations fs acc b =
     (let event = str_or_empty (dget b ''event''); f = str_or_empty (dget b ''function'') in
      case map_of fs f of
        None \<Rightarrow> acc
      | Some fn \<Rightarrow>
          if event = [] then acc
          else AList.update event (sorted_set ((case map_of acc event of None \<Rightarrow> [] | Some xs \<Rightarrow> xs)
                 @ mutations_at fs [f] event (pget fn ''body''))) acc)"

definition typed_plan_mutating_events :: "pydict \<Rightarrow> (string \<times> string list) list" where
  "typed_plan_mutating_events plan =
     foldl (binding_mutations (plan_functions plan)) [] (mapping_rows (pget plan ''event_bindings''))"

end
