(* ===== verification/Typed_Plan_Walk.thy ===== *)
theory Typed_Plan_Walk
  imports Typed_Plan_Queries
begin

text \<open>
  What the checker of a typed plan guarantees about every node the queries walk over: the functions it
  records as called are exactly the call targets in the text, all of them declared, and every capability
  used is one of the contracts. The lemmas assume values as Python has them (\<open>wf_value\<close>: distinct keys,
  float reprs).
\<close>

section \<open>Well-formed values\<close>

definition wf_float :: "string \<Rightarrow> bool" where
  "wf_float r \<longleftrightarrow> \<not> is_finite_repr r \<or> (r \<noteq> [] \<and> (is_digit (hd r) \<or> hd r = CHR ''-''))"

function wf_value :: "pyval \<Rightarrow> bool" where
  "wf_value (PDict d) \<longleftrightarrow> distinct (keys d) \<and> list_all (\<lambda>(k, v). wf_value v) d"
| "wf_value (PList xs) \<longleftrightarrow> list_all wf_value xs"
| "wf_value (PFloat r) \<longleftrightarrow> wf_float r"
| "wf_value PNone \<longleftrightarrow> True"
| "wf_value (PBool b) \<longleftrightarrow> True"
| "wf_value (PInt i) \<longleftrightarrow> True"
| "wf_value (PStr s) \<longleftrightarrow> True"
  by pat_completeness auto
termination
  by (relation "measure size") (auto dest: size_mem_list_less size_dict_item_less)

lemma wf_value_dget [simp]: "wf_value (PDict d) \<Longrightarrow> wf_value (dget d k)"
  by (auto simp: dget_def list_all_iff split: option.splits dest: map_of_SomeD)

lemma wf_value_item: "wf_value (PList xs) \<Longrightarrow> x \<in> set xs \<Longrightarrow> wf_value x"
  by (auto simp: list_all_iff)

lemma show_nat_digit: "is_digit (hd (show_nat n))"
proof (induction n rule: show_nat.induct)
  case (1 n)
  show ?case
  proof (cases "n < 10")
    case True
    then show ?thesis by (subst show_nat.simps) (simp add: is_digit_def)
  next
    case False
    with 1 show ?thesis by (subst show_nat.simps) (simp add: hd_append)
  qed
qed

text \<open>A word the source compares \<open>str(value)\<close> with is the string itself, unless the value was a string already.\<close>

definition word_like :: "string \<Rightarrow> bool" where
  "word_like s \<longleftrightarrow> s \<noteq> [] \<and> is_lower_az (hd s) \<and> s \<noteq> ''inf'' \<and> s \<noteq> ''nan''"

lemma py_str_word: "wf_value v \<Longrightarrow> word_like (py_str v) \<Longrightarrow> v = PStr (py_str v)"
proof (cases v)
  case (PInt i)
  have "\<not> is_lower_az (hd (show_nat n))" for n using show_nat_digit[of n] by (auto simp: is_digit_def is_lower_az_def Let_def)
  then show "wf_value v \<Longrightarrow> word_like (py_str v) \<Longrightarrow> v = PStr (py_str v)"
    using PInt by (auto simp: word_like_def show_int_def is_lower_az_def Let_def split: if_splits)
next
  case (PFloat r)
  have "\<not> is_lower_az c" if "is_digit c" for c using that by (auto simp: is_digit_def is_lower_az_def Let_def)
  then show "wf_value v \<Longrightarrow> word_like (py_str v) \<Longrightarrow> v = PStr (py_str v)"
    using PFloat by (auto simp: word_like_def wf_float_def is_finite_repr_def is_lower_az_def Let_def)
qed (auto simp: word_like_def is_lower_az_def Let_def split: if_splits)

lemma str_or_empty_word: "wf_value v \<Longrightarrow> word_like s \<Longrightarrow> str_or_empty v = s \<longleftrightarrow> v = PStr s"
  using py_str_word[of v] by (auto simp: str_or_empty_def word_like_def split: if_splits)

text \<open>A text that does not open with a bracket is that of a scalar.\<close>

definition plain :: "string \<Rightarrow> bool" where
  "plain s \<longleftrightarrow> s \<noteq> [] \<and> hd s \<noteq> CHR 0x7B \<and> hd s \<noteq> CHR ''[''"

lemma walk_plain: "plain (py_str v) \<Longrightarrow> walk_nodes v = []"
  by (cases v) (auto simp: plain_def)

lemma walk_plain_or_empty: "plain (str_or_empty v) \<Longrightarrow> walk_nodes v = []"
  by (auto simp: str_or_empty_def plain_def split: if_splits intro!: walk_plain)

lemma word_like_plain: "word_like s \<Longrightarrow> plain s"
  by (auto simp: word_like_def plain_def is_lower_az_def Let_def)

lemma NAME_plain: "NAME_match s \<Longrightarrow> plain s"
  by (auto simp: NAME_match_def plain_def ident_start_def is_lower_az_def is_upper_az_def Let_def)

lemma name_of_walk: "name_of v = Inr n \<Longrightarrow> walk_nodes v = []"
  by (auto simp: name_of_def Let_def split: if_splits intro: walk_plain_or_empty NAME_plain)

lemma symbol_of_walk: "symbol_of v = Inr n \<Longrightarrow> walk_nodes v = []"
  by (auto simp: symbol_of_def Let_def split: if_splits intro: walk_plain_or_empty NAME_plain)

lemma type_word: "t \<in> set SCALAR_TYPES \<Longrightarrow> word_like t"
  by (auto simp: SCALAR_TYPES_def word_like_def is_lower_az_def Let_def)

lemma type_of_walk: "type_of v b = Inr t \<Longrightarrow> walk_nodes v = []"
  using word_like_plain[of "str_or_empty v"] type_word[of "str_or_empty v"]
  by (auto simp: type_of_def Let_def plain_def split: if_splits intro!: walk_plain_or_empty)

lemma type_of_PStr: "wf_value v \<Longrightarrow> type_of v b = Inr t \<Longrightarrow> v = PStr t"
proof -
  assume "wf_value v" "type_of v b = Inr t"
  moreover then have "word_like t"
    using type_word[of t] by (auto simp: type_of_def Let_def word_like_def is_lower_az_def split: if_splits)
  ultimately show ?thesis using str_or_empty_word by (auto simp: type_of_def Let_def split: if_splits)
qed

lemma op_word: "wf_value (PDict d) \<Longrightarrow> word_like s \<Longrightarrow> str_or_empty (dget d ''op'') = s \<longleftrightarrow> node_op d s"
  using str_or_empty_word[of "dget d ''op''" s] by (auto simp: node_op_def)

section \<open>Targets of the nodes\<close>

definition node_target :: "string \<Rightarrow> string \<Rightarrow> pydict \<Rightarrow> string set" where
  "node_target opn field d =
     (if node_op d opn \<and> str_or_empty (dget d field) \<noteq> [] then {str_or_empty (dget d field)} else {})"

definition targets :: "string \<Rightarrow> string \<Rightarrow> pyval \<Rightarrow> string set" where
  "targets opn field v = (\<Union>d \<in> set (walk_nodes v). node_target opn field d)"

abbreviation called :: "pyval \<Rightarrow> string set" where
  "called \<equiv> targets ''call'' ''function''"

abbreviation used :: "pyval \<Rightarrow> string set" where
  "used \<equiv> targets ''capability'' ''id''"

lemma set_calls_in: "set (calls_in v) = called v"
  by (auto simp: calls_in_def targets_def node_target_def)

lemma targets_scalar [simp]: "walk_nodes v = [] \<Longrightarrow> targets opn field v = {}"
  by (simp add: targets_def)

lemma targets_PList [simp]: "targets opn field (PList xs) = (\<Union>x \<in> set xs. targets opn field x)"
  by (auto simp: targets_def)

lemma targets_PDict:
  assumes "distinct (keys d)" "set (keys d) \<subseteq> set A"
  shows "targets opn field (PDict d) = node_target opn field d \<union> (\<Union>k \<in> set A. targets opn field (dget d k))"
proof -
  have "(\<Union>(k, v) \<in> set d. targets opn field v) = (\<Union>k \<in> set A. targets opn field (dget d k))" (is "?l = ?r")
  proof
    have "dget d k = v" if "(k, v) \<in> set d" for k v using that assms(1) by (simp add: dget_def)
    then show "?l \<subseteq> ?r" using assms(2) by fastforce
    have "x \<in> ?l" if "x \<in> targets opn field (dget d k)" for x k
      using that by (auto simp: dget_def split: option.splits dest!: map_of_SomeD)
    then show "?r \<subseteq> ?l" by blast
  qed
  moreover have "targets opn field (PDict d) = node_target opn field d \<union> (\<Union>(k, v) \<in> set d. targets opn field v)"
    by (auto simp: targets_def)
  ultimately show ?thesis by (simp only:)
qed

text \<open>The condition the checker establishes for an accepted value.\<close>

definition walk_ok :: "validator \<Rightarrow> pyval \<Rightarrow> string list \<Rightarrow> bool" where
  "walk_ok V v cs \<longleftrightarrow> called v = set cs \<and> set cs \<subseteq> set (keys (v_signatures V)) \<and> used v \<subseteq> set (keys (v_capabilities V))"

lemma walk_ok_scalar: "walk_nodes v = [] \<Longrightarrow> walk_ok V v []"
  by (simp add: walk_ok_def)

lemma walk_ok_PList:
  assumes "list_all2 (walk_ok V) xs css"
  shows "walk_ok V (PList xs) (concat css)"
  using assms by (induction rule: list_all2_induct) (auto simp: walk_ok_def)

lemma check_keys_Inr: "check_keys d allowed required = Inr () \<longleftrightarrow> set (keys d) \<subseteq> set allowed \<and> (\<forall>k \<in> set required. has_key d k)"
  by (auto simp: check_keys_def list_ex_iff)

text \<open>A node that is neither a call nor a capability: the children decide.\<close>

lemma walk_ok_node:
  assumes "wf_value (PDict d)" "check_keys d allowed required = Inr ()" "node_op d opn" "opn \<noteq> ''call''" "opn \<noteq> ''capability''"
    and "\<And>k. k \<in> set allowed \<Longrightarrow> walk_ok V (dget d k) (css k)" and "set cs = (\<Union>k \<in> set allowed. set (css k))"
  shows "walk_ok V (PDict d) cs"
proof -
  have d: "distinct (keys d)" "set (keys d) \<subseteq> set allowed" using assms(1,2) by (auto simp: check_keys_Inr)
  have "\<not> node_op d ''call''" "\<not> node_op d ''capability''" using assms(3-5) by (auto simp: node_op_def)
  then have t: "called (PDict d) = (\<Union>k \<in> set allowed. called (dget d k))" "used (PDict d) = (\<Union>k \<in> set allowed. used (dget d k))"
    by (simp_all add: targets_PDict[OF d] node_target_def)
  show ?thesis unfolding walk_ok_def t assms(7) using assms(6) by (fastforce simp: walk_ok_def)
qed

lemma node_op_scalar: "node_op d opn \<Longrightarrow> walk_ok V (dget d ''op'') []"
  by (rule walk_ok_scalar) (simp add: node_op_def)

section \<open>Accepted expressions\<close>

lemma literal_walk:
  assumes "wf_value (PDict d)" "node_op d ''literal''" "literal_type d = Inr t"
  shows "walk_ok V (PDict d) []"
proof (rule walk_ok_node[OF assms(1) _ assms(2), where css = "\<lambda>_. []"])
  show "check_keys d [''op'', ''type'', ''value''] [''op'', ''type'', ''value''] = Inr ()"
    using assms(3) by (simp add: literal_type_def)
  obtain kind where kind: "type_of (dget d ''type'') False = Inr kind" "literal_check kind (dget d ''value'') = Inr ()"
    using assms(3) by (auto simp: literal_type_def)
  then have "kind \<in> set SCALAR_TYPES" by (auto simp: type_of_def Let_def split: if_splits)
  then have "walk_nodes (dget d ''value'') = []" using kind(2)
    by (cases "dget d ''value''") (auto simp: literal_check_def SCALAR_TYPES_def)
  then show "walk_ok V (dget d k) []" if "k \<in> set [''op'', ''type'', ''value'']" for k
    using that node_op_scalar[OF assms(2)] type_of_walk[OF kind(1)] by (auto intro: walk_ok_scalar)
qed simp_all

lemma ref_walk:
  assumes "wf_value (PDict d)" "node_op d ''ref''" "expr_ref env d = Inr (t, cs)"
  shows "walk_ok V (PDict d) cs"
proof (rule walk_ok_node[OF assms(1) _ assms(2), where css = "\<lambda>_. []"])
  show "check_keys d [''op'', ''name''] [''op'', ''name''] = Inr ()" using assms(3) by (simp add: expr_ref_def)
  show "walk_ok V (dget d k) []" if "k \<in> set [''op'', ''name'']" for k
    using that node_op_scalar[OF assms(2)] assms(3) by (auto simp: expr_ref_def intro: walk_ok_scalar name_of_walk)
  show "set cs = (\<Union>k \<in> set [''op'', ''name'']. set [])" using assms(3) by (auto simp: expr_ref_def split: option.splits)
qed simp_all

lemma operator_walk: "py_str v \<in> {''!'', ''-'', ''&&'', ''||'', ''=='', ''!='', ''<'', ''<='', ''>'', ''>='', ''+'', ''*'', ''/'', ''%''} \<Longrightarrow> walk_ok V v []"
  by (auto intro!: walk_ok_scalar walk_plain simp: plain_def)

lemma unary_walk:
  assumes wf: "wf_value (PDict d)" "node_op d ''unary''" and run: "expr_unary sub d = Inr (t, cs)"
    and sub: "\<And>k t cs. sub (dget d k) = Inr (t, cs) \<Longrightarrow> walk_ok V (dget d k) cs"
  shows "walk_ok V (PDict d) cs"
proof (rule walk_ok_node[OF wf(1) _ wf(2), where css = "\<lambda>k. if k = ''value'' then cs else []"])
  show "check_keys d [''op'', ''operator'', ''value''] [''op'', ''operator'', ''value''] = Inr ()"
    using run by (simp add: expr_unary_def)
  have "py_str (dget d ''operator'') \<in> {''!'', ''-''}" and "\<exists>t. sub (dget d ''value'') = Inr (t, cs)"
    using run by (auto simp: expr_unary_def Let_def split: if_splits)
  then show "walk_ok V (dget d k) (if k = ''value'' then cs else [])" if "k \<in> set [''op'', ''operator'', ''value'']" for k
    using that node_op_scalar[OF wf(2)] sub[of "''value''"] operator_walk[of "dget d ''operator''"] by auto
qed simp_all

lemma binary_walk:
  assumes wf: "wf_value (PDict d)" "node_op d ''binary''" and run: "expr_binary sub d = Inr (t, cs)"
    and sub: "\<And>k t cs. sub (dget d k) = Inr (t, cs) \<Longrightarrow> walk_ok V (dget d k) cs"
  shows "walk_ok V (PDict d) cs"
proof -
  let ?ks = "[''op'', ''operator'', ''left'', ''right'']"
  obtain l cs1 r cs2 where sides: "sub (dget d ''left'') = Inr (l, cs1)" "sub (dget d ''right'') = Inr (r, cs2)"
    and cs: "cs = cs1 @ cs2" and op: "\<exists>t. binary_type (py_str (dget d ''operator'')) l r = Inr t"
    using run by (auto simp: expr_binary_def)
  have "walk_ok V (dget d ''operator'') []" using op by (intro operator_walk) (auto simp: binary_type_def split: if_splits)
  then show ?thesis
    using node_op_scalar[OF wf(2)] sub[OF sides(1)] sub[OF sides(2)] run
    by (intro walk_ok_node[OF wf(1) _ wf(2), where allowed = ?ks and required = ?ks
          and css = "\<lambda>k. if k = ''left'' then cs1 else if k = ''right'' then cs2 else []"])
      (auto simp: expr_binary_def cs)
qed

lemma walk_ok_mapM:
  assumes "mapM f xs = Inr ys" and "\<And>x y. x \<in> set xs \<Longrightarrow> f x = Inr y \<Longrightarrow> walk_ok V x (g y)"
  shows "walk_ok V (PList xs) (concat (map g ys))"
  using assms by (intro walk_ok_PList) (auto simp: mapM_Inr_iff list_all2_conv_all_nth)

lemma list_walk:
  assumes wf: "wf_value (PDict d)" "node_op d ''list''" and run: "expr_list sub d = Inr (t, cs)"
    and sub: "\<And>k xs x t cs. dget d k = PList xs \<Longrightarrow> x \<in> set xs \<Longrightarrow> sub x = Inr (t, cs) \<Longrightarrow> walk_ok V x cs"
  shows "walk_ok V (PDict d) cs"
proof (rule walk_ok_node[OF wf(1) _ wf(2), where css = "\<lambda>k. if k = ''items'' then cs else []"])
  show "check_keys d [''op'', ''items''] [''op'', ''items''] = Inr ()" using run by (simp add: expr_list_def)
  obtain xs ts where xs: "dget d ''items'' = PList xs" "mapM sub xs = Inr ts"
    and res: "(case map fst ts of [] \<Rightarrow> Inr (''list<object>'', []) | first # rest \<Rightarrow>
        if list_ex (\<lambda>t. t \<noteq> first) rest then Inl (ValueError ''list items have incompatible types'')
        else Inr (''list<'' @ first @ ''>'', concat (map snd ts))) = Inr (t, cs)"
    using run unfolding expr_list_def rbind_eq_Inr as_seq_Inr by blast
  have cs: "cs = concat (map snd ts)" using res by (cases ts) (auto split: if_splits)
  have "walk_ok V (dget d ''items'') cs" unfolding xs(1) cs
    by (rule walk_ok_mapM[OF xs(2)]) (use sub[OF xs(1)] in auto)
  then show "walk_ok V (dget d k) (if k = ''items'' then cs else [])" if "k \<in> set [''op'', ''items'']" for k
    using that node_op_scalar[OF wf(2)] by auto
qed simp_all

lemma entry_walk:
  assumes wf: "wf_value x" and run: "map_entry sub x = Inr cs"
    and sub: "\<And>y t cs. size y < size x \<Longrightarrow> wf_value y \<Longrightarrow> sub y = Inr (t, cs) \<Longrightarrow> walk_ok V y cs"
  shows "walk_ok V x cs"
proof -
  obtain e k cs1 v cs2 where e: "x = PDict e" and keys: "check_keys e [''key'', ''value''] [''key'', ''value''] = Inr ()"
    and parts: "sub (dget e ''key'') = Inr (k, cs1)" "sub (dget e ''value'') = Inr (v, cs2)" and cs: "cs = cs1 @ cs2"
    using run by (auto simp: map_entry_def)
  have ok: "walk_ok V (dget e ''key'') cs1" "walk_ok V (dget e ''value'') cs2"
    using sub[OF _ _ parts(1)] sub[OF _ _ parts(2)] wf e size_dget_less[of e] by auto
  have d: "distinct (keys e)" "set (keys e) \<subseteq> set [''key'', ''value'']" using wf keys by (auto simp: e check_keys_Inr)
  then have "\<not> has_key e ''op''" by (auto simp: has_key_def)
  then have "\<not> node_op e opn" for opn by (auto simp: node_op_def dget_def has_key_map_of)
  then show ?thesis using ok unfolding e cs by (simp add: walk_ok_def targets_PDict[OF d] node_target_def)
qed

lemma map_walk:
  assumes wf: "wf_value (PDict d)" "node_op d ''map''" and run: "expr_map sub d = Inr (t, cs)"
    and sub: "\<And>y t cs. size y < size (PDict d) \<Longrightarrow> wf_value y \<Longrightarrow> sub y = Inr (t, cs) \<Longrightarrow> walk_ok V y cs"
  shows "walk_ok V (PDict d) cs"
proof (rule walk_ok_node[OF wf(1) _ wf(2), where css = "\<lambda>k. if k = ''entries'' then cs else []"])
  show "check_keys d [''op'', ''entries''] [''op'', ''entries''] = Inr ()" using run by (simp add: expr_map_def)
  obtain xs css where xs: "dget d ''entries'' = PList xs" "mapM (map_entry sub) xs = Inr css" and cs: "cs = concat css"
    using run by (auto simp: expr_map_def)
  have "walk_ok V (PList xs) (concat (map (\<lambda>c. c) css))"
  proof (rule walk_ok_mapM[OF xs(2)])
    fix x c assume x: "x \<in> set xs" "map_entry sub x = Inr c"
    have "wf_value (PList xs)" using wf(1) xs(1) wf_value_dget by metis
    then have "wf_value x" using x(1) by (rule wf_value_item)
    then show "walk_ok V x c" using x(2) by (rule entry_walk) (use sub size_dget_item_less[OF x(1) xs(1)] in auto)
  qed
  then show "walk_ok V (dget d k) (if k = ''entries'' then cs else [])" if "k \<in> set [''op'', ''entries'']" for k
    using that node_op_scalar[OF wf(2)] xs(1) cs by auto
qed simp_all

lemma typed_args_walk:
  assumes run: "typed_args sub args params = Inr cs" and len: "length args = length params"
    and sub: "\<And>x t cs. x \<in> set args \<Longrightarrow> sub x = Inr (t, cs) \<Longrightarrow> walk_ok V x cs"
  shows "walk_ok V (PList args) cs"
proof -
  obtain css where css: "mapM (\<lambda>(arg, expected). rbind (sub arg) (\<lambda>(actual, cs). rbind (require_type expected actual) (\<lambda>_. Inr cs)))
      (zip args params) = Inr css" and cs: "cs = concat css" using run by (auto simp: typed_args_def)
  have l: "length css = length args" using mapM_Inr_length[OF css] len by simp
  have "\<exists>t. sub (args ! i) = Inr (t, css ! i)" if "i < length args" for i
    using css that len unfolding mapM_Inr_iff list_all2_conv_all_nth by auto
  then have "list_all2 (walk_ok V) args css" using l sub by (metis list_all2_conv_all_nth nth_mem)
  then show ?thesis unfolding cs by (rule walk_ok_PList)
qed

lemma call_walk:
  assumes wf: "wf_value (PDict d)" "node_op d ''call''" and run: "expr_call (v_signatures V) sub d = Inr (t, cs)"
    and sub: "\<And>k xs x t cs. dget d k = PList xs \<Longrightarrow> x \<in> set xs \<Longrightarrow> sub x = Inr (t, cs) \<Longrightarrow> walk_ok V x cs"
  shows "walk_ok V (PDict d) cs"
proof -
  obtain f params args cs1 where keys: "check_keys d [''op'', ''function'', ''args''] [''op'', ''function'', ''args''] = Inr ()"
    and f: "symbol_of (dget d ''function'') = Inr f" "map_of (v_signatures V) f = Some (params, t)"
    and args: "dget d ''args'' = PList args" "length args = length params" "typed_args sub args params = Inr cs1"
    and cs: "cs = cs1 @ [f]"
    using run by (auto simp: expr_call_def split: option.splits if_splits)
  have "walk_ok V (dget d ''args'') cs1" unfolding args(1)
    by (rule typed_args_walk[OF args(3,2)]) (rule sub[OF args(1)])
  moreover have "f \<in> set (keys (v_signatures V))" using f(2) by (force dest: map_of_SomeD)
  moreover have "str_or_empty (dget d ''function'') = f" "f \<noteq> []"
    using f(1) by (auto simp: symbol_of_def NAME_match_def Let_def split: if_splits)
  moreover have d: "distinct (keys d)" "set (keys d) \<subseteq> set [''op'', ''function'', ''args'']" using wf keys by (auto simp: check_keys_Inr)
  moreover have "\<not> node_op d ''capability''" using wf(2) by (simp add: node_op_def)
  ultimately show ?thesis
    using wf(2) symbol_of_walk[OF f(1)] node_op_scalar[OF wf(2), of V]
    by (auto simp: walk_ok_def targets_PDict[OF d] node_target_def cs)
qed

lemma capability_walk:
  assumes wf: "wf_value (PDict d)" "node_op d ''capability''" and run: "expr_capability (v_capabilities V) sub d = Inr (t, cs)"
    and plain: "\<And>k. k \<in> set (keys (v_capabilities V)) \<Longrightarrow> plain k"
    and sub: "\<And>k xs x t cs. dget d k = PList xs \<Longrightarrow> x \<in> set xs \<Longrightarrow> sub x = Inr (t, cs) \<Longrightarrow> walk_ok V x cs"
  shows "walk_ok V (PDict d) cs"
proof -
  obtain c args where keys: "check_keys d [''op'', ''id'', ''args''] [''op'', ''id'', ''args''] = Inr ()"
    and c: "map_of (v_capabilities V) (py_str (dget d ''id'')) = Some c"
    and args: "dget d ''args'' = PList args" "length args = length (cc_parameters c)" "typed_args sub args (cc_parameters c) = Inr cs"
    using run by (auto simp: expr_capability_def split: option.splits if_splits)
  have i: "py_str (dget d ''id'') \<in> set (keys (v_capabilities V))" using c by (force dest: map_of_SomeD)
  have "walk_ok V (dget d ''args'') cs" unfolding args(1)
    by (rule typed_args_walk[OF args(3,2)]) (rule sub[OF args(1)])
  moreover have "walk_nodes (dget d ''id'') = []" by (rule walk_plain[OF plain[OF i]])
  moreover have "str_or_empty (dget d ''id'') \<noteq> [] \<Longrightarrow> str_or_empty (dget d ''id'') \<in> set (keys (v_capabilities V))"
    using i by (auto simp: str_or_empty_def)
  moreover have d: "distinct (keys d)" "set (keys d) \<subseteq> set [''op'', ''id'', ''args'']" using wf keys by (auto simp: check_keys_Inr)
  moreover have "\<not> node_op d ''call''" using wf(2) by (simp add: node_op_def)
  ultimately show ?thesis
    using wf(2) node_op_scalar[OF wf(2), of V] by (auto simp: walk_ok_def targets_PDict[OF d] node_target_def)
qed

lemma state_get_walk:
  assumes wf: "wf_value (PDict d)" "node_op d ''state_get''" and run: "expr_state_get sub d = Inr (t, cs)"
    and sub: "\<And>k t cs. sub (dget d k) = Inr (t, cs) \<Longrightarrow> walk_ok V (dget d k) cs"
  shows "walk_ok V (PDict d) cs"
proof -
  let ?ks = "[''op'', ''key'', ''type'', ''context'']"
  obtain k cs1 c cs2 where sides: "sub (dget d ''key'') = Inr (k, cs1)" "sub (dget d ''context'') = Inr (c, cs2)"
    and cs: "cs = cs1 @ cs2" and ty: "type_of (dget d ''type'') False = Inr t"
    using run by (auto simp: expr_state_get_def split: if_splits)
  show ?thesis
    using node_op_scalar[OF wf(2)] sub[OF sides(1)] sub[OF sides(2)] run walk_ok_scalar[OF type_of_walk[OF ty]]
    by (intro walk_ok_node[OF wf(1) _ wf(2), where allowed = ?ks and required = ?ks
          and css = "\<lambda>k. if k = ''key'' then cs1 else if k = ''context'' then cs2 else []"])
      (auto simp: expr_state_get_def cs)
qed

definition plain_capabilities :: "validator \<Rightarrow> bool" where
  "plain_capabilities V \<longleftrightarrow> list_all plain (keys (v_capabilities V))"

lemma words [simp]:
  "word_like ''literal''" "word_like ''ref''" "word_like ''unary''" "word_like ''binary''" "word_like ''list''"
  "word_like ''map''" "word_like ''call''" "word_like ''capability''" "word_like ''state_get''" "word_like ''let''"
  "word_like ''set''" "word_like ''return''" "word_like ''assert''" "word_like ''if''" "word_like ''while''"
  "word_like ''foreach''" "word_like ''state_set''" "word_like ''expr''"
  by (simp_all add: word_like_def is_lower_az_def)

lemma expression_node_walk:
  assumes wf: "wf_value raw" and plain: "plain_capabilities V" and run: "expression_node V env sub raw = Inr (t, cs)"
    and sub: "\<And>y t cs. size y < size raw \<Longrightarrow> wf_value y \<Longrightarrow> sub y = Inr (t, cs) \<Longrightarrow> walk_ok V y cs"
  shows "walk_ok V raw cs"
proof -
  obtain d where d: "raw = PDict d" using run by (auto simp: expression_node_def)
  have wd: "wf_value (PDict d)" using wf d by simp
  have s1: "walk_ok V (dget d k) cs" if "sub (dget d k) = Inr (t, cs)" for k t cs
    using that size_dget_less[of d k] wd by (intro sub) (auto simp: d)
  have s2: "walk_ok V x cs" if "dget d k = PList xs" "x \<in> set xs" "sub x = Inr (t, cs)" for k xs x t cs
  proof -
    have "wf_value (PList xs)" using wd that(1) wf_value_dget by metis
    then have "wf_value x" using that(2) by (rule wf_value_item)
    then show ?thesis using that size_dget_item_less[OF that(2,1)] by (intro sub) (auto simp: d)
  qed
  have pl: "plain k" if "k \<in> set (keys (v_capabilities V))" for k
    using plain that by (auto simp: plain_capabilities_def list_all_iff)
  note run' = run[unfolded d expression_node_def as_map_def Let_def, simplified]
  consider (lit) "node_op d ''literal''" "literal_type d = Inr t" "cs = []"
    | (ref) "node_op d ''ref''" "expr_ref env d = Inr (t, cs)"
    | (un) "node_op d ''unary''" "expr_unary sub d = Inr (t, cs)"
    | (bin) "node_op d ''binary''" "expr_binary sub d = Inr (t, cs)"
    | (list) "node_op d ''list''" "expr_list sub d = Inr (t, cs)"
    | (map) "node_op d ''map''" "expr_map sub d = Inr (t, cs)"
    | (call) "node_op d ''call''" "expr_call (v_signatures V) sub d = Inr (t, cs)"
    | (cap) "node_op d ''capability''" "expr_capability (v_capabilities V) sub d = Inr (t, cs)"
    | (get) "node_op d ''state_get''" "expr_state_get sub d = Inr (t, cs)"
    using run' by (simp add: op_word[OF wd] split: if_splits)
  then show ?thesis unfolding d
  proof cases
    case lit
    then show "walk_ok V (PDict d) cs" using literal_walk[OF wd lit(1,2)] by simp
  next
    case map
    then show "walk_ok V (PDict d) cs" using sub[unfolded d] by (rule map_walk[OF wd])
  next
    case cap
    then show "walk_ok V (PDict d) cs" using pl s2 by (rule capability_walk[OF wd])
  qed (rule ref_walk[OF wd] unary_walk[OF wd _ _ s1] binary_walk[OF wd _ _ s1] list_walk[OF wd _ _ s2]
      call_walk[OF wd _ _ s2] state_get_walk[OF wd _ _ s1], assumption+)+
qed

lemma expression_walk:
  "expression V env raw = Inr (t, cs) \<Longrightarrow> wf_value raw \<Longrightarrow> plain_capabilities V \<Longrightarrow> walk_ok V raw cs"
proof (induction V env raw arbitrary: t cs rule: expression.induct)
  case (1 V env raw)
  from "1.prems"(1) have "expression_node V env (expression V env) raw = Inr (t, cs)" by (simp add: expression.simps[of V env raw])
  from expression_node_walk[OF "1.prems"(2,3) this] "1.IH" "1.prems"(3) show ?case by blast
qed

end
