(* ===== verification/Typed_Plan_Flow.thy ===== *)
theory Typed_Plan_Flow
  imports Typed_Plan_Walk
begin

text \<open>
  The walk of accepted statement blocks and functions, and what it gives for a whole accepted plan: the
  recorded calls are the calls in the text.
\<close>

section \<open>Statements\<close>

text \<open>A statement: its expressions and nested blocks are the fields in \<open>css\<close>; every other field is a scalar.\<close>

lemma statement_fields:
  assumes wf: "wf_value (PDict d)" "node_op d opn" "opn \<noteq> ''call''" "opn \<noteq> ''capability''"
    and keys: "check_keys d allowed required = Inr ()" and sub: "set (map fst css) \<subseteq> set allowed"
    and parts: "list_all (\<lambda>(k, c). walk_ok V (dget d k) c) css"
    and scalars: "\<And>k. k \<in> set allowed \<Longrightarrow> k \<notin> set (map fst css) \<Longrightarrow> walk_nodes (dget d k) = []"
    and cs: "set cs = (\<Union>c \<in> set (map snd css). set c)" and dist: "distinct (map fst css)"
  shows "walk_ok V (PDict d) cs"
proof (rule walk_ok_node[OF wf(1) keys wf(2-4)])
  let ?f = "\<lambda>k. case map_of css k of None \<Rightarrow> [] | Some c \<Rightarrow> c"
  show "walk_ok V (dget d k) (?f k)" if "k \<in> set allowed" for k
  proof (cases "map_of css k")
    case None
    then have "k \<notin> set (map fst css)" by (simp add: map_of_eq_None_iff)
    from scalars[OF that this] None show ?thesis by (simp add: walk_ok_scalar)
  next
    case (Some c)
    then show ?thesis using parts by (auto simp: list_all_iff dest!: map_of_SomeD)
  qed
  have "(\<Union>k \<in> set allowed. set (?f k)) = (\<Union>c \<in> set (map snd css). set c)"
  proof
    have "set (?f k) \<subseteq> (\<Union>c \<in> set (map snd css). set c)" for k
      by (cases "map_of css k") (force dest: map_of_SomeD)+
    then show "(\<Union>k \<in> set allowed. set (?f k)) \<subseteq> (\<Union>c \<in> set (map snd css). set c)" by blast
    have "set c \<subseteq> (\<Union>k \<in> set allowed. set (?f k))" if "(k, c) \<in> set css" for k c
      using map_of_is_SomeI[OF dist that] that sub by (force intro: bexI[of _ k])
    then show "(\<Union>c \<in> set (map snd css). set c) \<subseteq> (\<Union>k \<in> set allowed. set (?f k))" by fastforce
  qed
  with cs show "set cs = (\<Union>k \<in> set allowed. set (?f k))" by simp
qed

text \<open>The hypothesis the statement lemmas share: a well-formed statement under a context with plain
  capability identifiers.\<close>

definition stmt_at :: "block_context \<Rightarrow> pydict \<Rightarrow> string \<Rightarrow> bool" where
  "stmt_at B d opn \<longleftrightarrow> wf_value (PDict d) \<and> node_op d opn \<and> plain_capabilities (bc_validator B)"

lemma part: "stmt_at B d opn \<Longrightarrow> typed_expr B env (dget d k) = Inr (t, cs) \<Longrightarrow> walk_ok (bc_validator B) (dget d k) cs"
  by (rule expression_walk) (auto simp: stmt_at_def simp del: wf_value.simps)

lemma condition_part: "stmt_at B d opn \<Longrightarrow> condition B env d = Inr cs \<Longrightarrow> walk_ok (bc_validator B) (dget d ''condition'') cs"
  by (auto simp: condition_def intro: part)

lemma op_scalar: "stmt_at B d opn \<Longrightarrow> walk_nodes (dget d ''op'') = []"
  by (simp add: stmt_at_def node_op_def)

lemma stmt_fields:
  assumes "stmt_at B d opn" "opn \<noteq> ''call''" "opn \<noteq> ''capability''" "check_keys d allowed required = Inr ()"
    and "set (map fst css) \<subseteq> set allowed" "list_all (\<lambda>(k, c). walk_ok (bc_validator B) (dget d k) c) css"
    and "\<And>k. k \<in> set allowed \<Longrightarrow> k \<notin> set (map fst css) \<Longrightarrow> walk_nodes (dget d k) = []"
    and "set cs = (\<Union>c \<in> set (map snd css). set c)" "distinct (map fst css)"
  shows "walk_ok (bc_validator B) (PDict d) cs"
  by (rule statement_fields[OF _ _ assms(2-9)]) (use assms(1) in \<open>auto simp: stmt_at_def simp del: wf_value.simps\<close>)

lemma let_walk:
  assumes at: "stmt_at B d ''let''" and "stmt_let B env d = Inr (env', r, cs)"
  shows "walk_ok (bc_validator B) (PDict d) cs"
  using assms(2)
  by (intro stmt_fields[OF at, of "[''op'', ''name'', ''type'', ''value'']" "[''op'', ''name'', ''type'', ''value'']" "[(''value'', cs)]"])
    (auto simp: stmt_let_def op_scalar[OF at] name_of_walk type_of_walk part[OF at] split: if_splits)

lemma set_walk:
  assumes at: "stmt_at B d ''set''" and "stmt_set B env d = Inr (env', r, cs)"
  shows "walk_ok (bc_validator B) (PDict d) cs"
  using assms(2)
  by (intro stmt_fields[OF at, of "[''op'', ''name'', ''value'']" "[''op'', ''name'', ''value'']" "[(''value'', cs)]"])
    (auto simp: stmt_set_def op_scalar[OF at] name_of_walk part[OF at] split: option.splits)

lemma return_walk:
  assumes at: "stmt_at B d ''return''" and run: "stmt_return B env d = Inr (env', r, cs)"
  shows "walk_ok (bc_validator B) (PDict d) cs"
proof -
  have "walk_ok (bc_validator B) (dget d ''value'') cs"
    using run part[OF at, of env "''value''"]
    by (auto simp: stmt_return_def walk_ok_scalar dget_def has_key_map_of split: if_splits option.splits)
  with run show ?thesis
    by (intro stmt_fields[OF at, of "[''op'', ''value'']" "[''op'']" "[(''value'', cs)]"]) (auto simp: stmt_return_def op_scalar[OF at])
qed

lemma assert_walk:
  assumes at: "stmt_at B d ''assert''" and "stmt_assert B env d = Inr (env', r, cs)"
  shows "walk_ok (bc_validator B) (PDict d) cs"
  using assms(2)
  by (intro stmt_fields[OF at, of "[''op'', ''condition'', ''message'']" "[''op'', ''condition'', ''message'']" "[(''condition'', cs)]"])
    (auto simp: stmt_assert_def op_scalar[OF at] condition_part[OF at] is_str_iff split: if_splits)

lemma state_set_walk:
  assumes at: "stmt_at B d ''state_set''" and run: "stmt_state_set B env d = Inr (env', r, cs)"
  shows "walk_ok (bc_validator B) (PDict d) cs"
proof -
  obtain k cs1 v cs2 c cs3 where "typed_expr B env (dget d ''key'') = Inr (k, cs1)" "typed_expr B env (dget d ''value'') = Inr (v, cs2)"
    "typed_expr B env (dget d ''context'') = Inr (c, cs3)" "cs = cs1 @ cs2 @ cs3"
    using run by (auto simp: stmt_state_set_def split: if_splits)
  with run show ?thesis
    by (intro stmt_fields[OF at, of "[''op'', ''key'', ''value'', ''context'']" "[''op'', ''key'', ''value'', ''context'']"
          "[(''key'', cs1), (''value'', cs2), (''context'', cs3)]"])
      (auto simp: stmt_state_set_def op_scalar[OF at] part[OF at])
qed

lemma expr_walk:
  assumes at: "stmt_at B d ''expr''" and "stmt_expr B env d = Inr (env', r, cs)"
  shows "walk_ok (bc_validator B) (PDict d) cs"
  using assms(2)
  by (intro stmt_fields[OF at, of "[''op'', ''value'']" "[''op'', ''value'']" "[(''value'', cs)]"])
    (auto simp: stmt_expr_def op_scalar[OF at] part[OF at])

text \<open>Statements with nested blocks.\<close>

lemma if_walk:
  assumes at: "stmt_at B d ''if''" and run: "stmt_if B blk env d = Inr (env', r, cs)"
    and blk: "\<And>k env r cs. blk env (dget d k) = Inr (r, cs) \<Longrightarrow> walk_ok (bc_validator B) (dget d k) cs"
  shows "walk_ok (bc_validator B) (PDict d) cs"
proof -
  obtain cs0 p1 p2 where c: "condition B env d = Inr cs0" and p: "blk env (dget d ''then'') = Inr p1" "blk env (dget d ''else'') = Inr p2"
    and cs: "cs = cs0 @ snd p1 @ snd p2"
    using run unfolding stmt_if_def rbind_eq_Inr case_prod_unfold by blast
  have "walk_ok (bc_validator B) (dget d ''then'') (snd p1)" "walk_ok (bc_validator B) (dget d ''else'') (snd p2)"
    using p by (metis blk prod.collapse)+
  with run cs condition_part[OF at c] show ?thesis
    by (intro stmt_fields[OF at, of "[''op'', ''condition'', ''then'', ''else'']" "[''op'', ''condition'', ''then'', ''else'']"
          "[(''condition'', cs0), (''then'', snd p1), (''else'', snd p2)]"])
      (auto simp: stmt_if_def op_scalar[OF at])
qed

lemma while_walk:
  assumes at: "stmt_at B d ''while''" and run: "stmt_while B blk env d = Inr (env', r, cs)"
    and blk: "\<And>k env r cs. blk env (dget d k) = Inr (r, cs) \<Longrightarrow> walk_ok (bc_validator B) (dget d k) cs"
  shows "walk_ok (bc_validator B) (PDict d) cs"
proof -
  let ?ks = "[''op'', ''condition'', ''max_iterations'', ''body'']"
  have keys: "check_keys d ?ks ?ks = Inr ()" using run by (simp add: stmt_while_def)
  obtain cs0 m p where c: "condition B env d = Inr cs0"
    and m: "(case dget d ''max_iterations'' of
        PInt limit \<Rightarrow> require (1 \<le> limit \<and> limit \<le> 1000000) (ValueError ''invalid bounded loop limit'')
      | _ \<Rightarrow> Inl (ValueError ''invalid bounded loop limit'')) = Inr m"
    and p: "blk env (dget d ''body'') = Inr p" and cs: "cs = cs0 @ snd p"
    using run unfolding stmt_while_def rbind_eq_Inr case_prod_unfold by blast
  have "walk_nodes (dget d ''max_iterations'') = []" using m by (cases "dget d ''max_iterations''") simp_all
  moreover have "walk_ok (bc_validator B) (dget d ''body'') (snd p)" using p by (metis blk prod.collapse)
  ultimately show ?thesis using cs condition_part[OF at c]
    by (intro stmt_fields[OF at _ _ keys, of "[(''condition'', cs0), (''body'', snd p)]"]) (auto simp: op_scalar[OF at])
qed

lemma foreach_walk:
  assumes at: "stmt_at B d ''foreach''" and run: "stmt_foreach B blk env d = Inr (env', r, cs)"
    and blk: "\<And>k env r cs. blk env (dget d k) = Inr (r, cs) \<Longrightarrow> walk_ok (bc_validator B) (dget d k) cs"
  shows "walk_ok (bc_validator B) (PDict d) cs"
proof -
  let ?ks = "[''op'', ''name'', ''type'', ''collection'', ''body'']"
  obtain n t q env1 p where keys: "check_keys d ?ks ?ks = Inr ()" and n: "name_of (dget d ''name'') = Inr n"
    and t: "type_of (dget d ''type'') False = Inr t" and q: "typed_expr B env (dget d ''collection'') = Inr q"
    and p: "blk env1 (dget d ''body'') = Inr p" and cs: "cs = snd q @ snd p"
    using run unfolding stmt_foreach_def rbind_eq_Inr case_prod_unfold by (auto split: if_splits)
  have "walk_ok (bc_validator B) (dget d ''collection'') (snd q)" "walk_ok (bc_validator B) (dget d ''body'') (snd p)"
    using p q by (metis blk part[OF at] prod.collapse)+
  with cs name_of_walk[OF n] type_of_walk[OF t] show ?thesis
    by (intro stmt_fields[OF at _ _ keys, of "[(''collection'', snd q), (''body'', snd p)]"]) (auto simp: op_scalar[OF at])
qed

section \<open>Blocks\<close>

lemma statement_walk:
  assumes wf: "wf_value raw" and plain: "plain_capabilities (bc_validator B)" and run: "statement B blk env raw = Inr (env', r, cs)"
    and blk: "\<And>x env r cs. size x < size raw \<Longrightarrow> wf_value x \<Longrightarrow> blk env x = Inr (r, cs) \<Longrightarrow> walk_ok (bc_validator B) x cs"
  shows "walk_ok (bc_validator B) raw cs"
proof -
  obtain d where d: "raw = PDict d" using run by (auto simp: statement_def)
  have wd: "wf_value (PDict d)" using wf d by simp
  have sub: "walk_ok (bc_validator B) (dget d k) cs" if "blk env (dget d k) = Inr (r, cs)" for k env r cs
    using that size_dget_less[of d k] wd by (intro blk) (auto simp: d)
  have at: "stmt_at B d opn" if "node_op d opn" for opn using that wd plain by (simp add: stmt_at_def del: wf_value.simps)
  note run' = run[unfolded d statement_def as_map_def Let_def, simplified]
  consider (let1) "node_op d ''let''" "stmt_let B env d = Inr (env', r, cs)"
    | (set1) "node_op d ''set''" "stmt_set B env d = Inr (env', r, cs)"
    | (return) "node_op d ''return''" "stmt_return B env d = Inr (env', r, cs)"
    | (assert) "node_op d ''assert''" "stmt_assert B env d = Inr (env', r, cs)"
    | (if1) "node_op d ''if''" "stmt_if B blk env d = Inr (env', r, cs)"
    | (while) "node_op d ''while''" "stmt_while B blk env d = Inr (env', r, cs)"
    | (foreach) "node_op d ''foreach''" "stmt_foreach B blk env d = Inr (env', r, cs)"
    | (state) "node_op d ''state_set''" "stmt_state_set B env d = Inr (env', r, cs)"
    | (expr) "node_op d ''expr''" "stmt_expr B env d = Inr (env', r, cs)"
    using run' by (simp add: op_word[OF wd] split: if_splits)
  then show ?thesis unfolding d
    by cases (rule let_walk[OF at] set_walk[OF at] return_walk[OF at] assert_walk[OF at] if_walk[OF at _ sub] while_walk[OF at _ sub]
      foreach_walk[OF at _ sub] state_set_walk[OF at] expr_walk[OF at], assumption+)+
qed

lemma block_step_eq: "block_step B blk (env, r, cs) x = (if r then Inl (ValueError ''unreachable statement'')
    else rbind (statement B blk env x) (\<lambda>(env', r', cs'). Inr (env', r', cs @ cs')))"
  by (simp add: block_step_def)

lemma steps_walk:
  "foldM (block_step B blk) (env, r0, cs0) xs = Inr (env', r, cs) \<Longrightarrow>
   (\<And>x env env' r cs. x \<in> set xs \<Longrightarrow> statement B blk env x = Inr (env', r, cs) \<Longrightarrow> walk_ok V x cs) \<Longrightarrow>
   \<exists>cs'. cs = cs0 @ cs' \<and> walk_ok V (PList xs) cs'"
proof (induction xs arbitrary: env r0 cs0)
  case Nil
  then show ?case by (simp add: walk_ok_def)
next
  case (Cons x xs)
  from Cons.prems(1) obtain env1 r1 cs1 where x: "statement B blk env x = Inr (env1, r1, cs1)"
    and rest: "foldM (block_step B blk) (env1, r1, cs0 @ cs1) xs = Inr (env', r, cs)"
    by (auto simp: block_step_eq split: if_splits)
  from Cons.IH[OF rest] Cons.prems(2) obtain cs' where "cs = (cs0 @ cs1) @ cs'" "walk_ok V (PList xs) cs'"
    by (metis list.set_intros(2))
  moreover have "walk_ok V x cs1" using Cons.prems(2)[OF _ x] by simp
  ultimately show ?case by (intro exI[of _ "cs1 @ cs'"]) (auto simp: walk_ok_def)
qed

lemma block_walk:
  "block B env raw = Inr (r, cs) \<Longrightarrow> wf_value raw \<Longrightarrow> plain_capabilities (bc_validator B) \<Longrightarrow> walk_ok (bc_validator B) raw cs"
proof (induction B env raw arbitrary: r cs rule: block.induct)
  case (1 B env raw)
  from "1.prems"(1) obtain xs env' where xs: "raw = PList xs"
    and run: "foldM (block_step B (block B)) (env, False, []) xs = Inr (env', r, cs)"
    by (auto simp: block.simps[of B env raw] block_body_def)
  have "walk_ok (bc_validator B) x c" if x: "x \<in> set xs" and s: "statement B (block B) e x = Inr (e', r', c)" for x e e' r' c
  proof (rule statement_walk[OF _ "1.prems"(3) s])
    show "wf_value x" using "1.prems"(2) x by (auto simp: xs list_all_iff)
    show "walk_ok (bc_validator B) y cs" if "size y < size x" "wf_value y" "block B env y = Inr (r, cs)" for y env r cs
      by (rule "1.IH"[OF _ that(3,2) "1.prems"(3)]) (use that(1) size_mem_list_less[OF x] xs in simp)
  qed
  from steps_walk[OF run this] show ?case by (simp add: xs)
qed

end
