(* ===== verification/Typed_Plan_Calls.thy ===== *)
theory Typed_Plan_Calls
  imports Typed_Plan_Flow Kahn
begin

text \<open>
  The call graph of a typed plan: the depth-first search of the validator accepts exactly the acyclic
  graphs, and the queue of \<open>typed_plan_reachable_function_ids\<close> finds exactly the reachable functions.
\<close>

section \<open>The depth-first search\<close>

definition call_edges :: "(string \<times> string list) list \<Rightarrow> (string \<times> string) set" where
  "call_edges calls = {(f, g). g \<in> set (callees calls f)}"

text \<open>What a completed visit adds: a postorder, free of the functions being visited.\<close>

definition visit_ok :: "(string \<times> string list) list \<Rightarrow> string list \<Rightarrow> string list \<Rightarrow> string list \<Rightarrow> bool" where
  "visit_ok calls visiting visited visited' \<longleftrightarrow>
     (distinct visited \<and> deps_before (callees calls) visited \<longrightarrow>
        distinct visited' \<and> deps_before (callees calls) visited' \<and>
        (\<exists>zs. visited' = visited @ zs \<and> set zs \<inter> set visiting = {}))"

lemma visit_ok_refl: "visit_ok calls visiting visited visited"
  by (simp add: visit_ok_def)

lemma visit_ok_trans: "visit_ok calls visiting a b \<Longrightarrow> visit_ok calls visiting b c \<Longrightarrow> visit_ok calls visiting a c"
  by (auto simp: visit_ok_def)

lemma fold_visits:
  assumes "foldM (\<lambda>visited t. visit calls visiting visited t) visited ts = Inr visited'"
    and "\<And>v v' t. t \<in> set ts \<Longrightarrow> visit calls visiting v t = Inr v' \<Longrightarrow> visit_ok calls visiting v v' \<and> t \<in> set v' \<and> set v \<subseteq> set v'"
  shows "visit_ok calls visiting visited visited' \<and> set ts \<subseteq> set visited' \<and> set visited \<subseteq> set visited'"
  using assms
proof (induction ts arbitrary: visited)
  case Nil
  then show ?case by (simp add: visit_ok_refl)
next
  case (Cons t ts)
  from Cons.prems(1) obtain v where v: "visit calls visiting visited t = Inr v"
    and rest: "foldM (\<lambda>visited t. visit calls visiting visited t) v ts = Inr visited'" by auto
  have "visit_ok calls visiting v visited' \<and> set ts \<subseteq> set visited' \<and> set v \<subseteq> set visited'"
    by (rule Cons.IH[OF rest]) (rule Cons.prems(2), simp)
  moreover have "visit_ok calls visiting visited v \<and> t \<in> set v \<and> set visited \<subseteq> set v" by (rule Cons.prems(2)[OF _ v]) simp
  ultimately show ?case using visit_ok_trans[of calls visiting visited v visited'] by auto
qed

lemma visit_sound:
  "visit calls visiting visited f = Inr visited' \<Longrightarrow>
     visit_ok calls visiting visited visited' \<and> f \<in> set visited' \<and> set visited \<subseteq> set visited'"
proof (induction calls visiting visited f arbitrary: visited' rule: visit.induct)
  case (1 calls visiting visited f)
  show ?case
  proof (cases "f \<in> set visited")
    case True
    with "1.prems" show ?thesis by (auto simp: visit.simps[of calls visiting visited f] visit_ok_refl split: if_splits)
  next
    case False
    have nv: "f \<notin> set visiting" using "1.prems" by (auto simp: visit.simps[of calls visiting visited f])
    from "1.prems" False nv obtain v where v: "foldM (\<lambda>visited t. visit calls (f # visiting) visited t) visited (callees calls f) = Inr v"
      and v': "visited' = v @ [f]" by (auto simp: visit.simps[of calls visiting visited f])
    have step: "visit_ok calls (f # visiting) visited v \<and> set (callees calls f) \<subseteq> set v \<and> set visited \<subseteq> set v"
      by (rule fold_visits[OF v]) (rule "1.IH"[OF nv False])
    have "visit_ok calls visiting visited visited'"
      using step False nv unfolding visit_ok_def v' by (auto intro: deps_before_snoc)
    with step v' show ?thesis by auto
  qed
qed

lemma check_recursion_sound:
  assumes "check_recursion calls fs = Inr vs" "set (keys calls) \<subseteq> set fs"
  shows "acyclic (call_edges calls)"
proof -
  have "visit_ok calls [] [] vs \<and> set fs \<subseteq> set vs \<and> set [] \<subseteq> set vs"
    using assms(1) unfolding check_recursion_def by (rule fold_visits) (rule visit_sound)
  then have vs: "distinct vs" "deps_before (callees calls) vs" "set (keys calls) \<subseteq> set vs"
    using assms(2) by (auto simp: visit_ok_def deps_before_def)
  have "call_edges calls = {(k, d). k \<in> set (keys calls) \<and> d \<in> set (callees calls k)}"
    using callees_Nil[of _ calls] by (force simp: call_edges_def)
  then show ?thesis using deps_before_acyclic[OF vs] by simp
qed

lemma visit_complete:
  "acyclic (call_edges calls) \<Longrightarrow> (\<And>g. g \<in> set visiting \<Longrightarrow> (g, f) \<in> (call_edges calls)\<^sup>+) \<Longrightarrow>
     \<exists>visited'. visit calls visiting visited f = Inr visited'"
proof (induction calls visiting visited f rule: visit.induct)
  case (1 calls visiting visited f)
  have nv: "f \<notin> set visiting" using "1.prems" by (auto simp: acyclic_def)
  show ?case
  proof (cases "f \<in> set visited")
    case True
    with nv show ?thesis by (simp add: visit.simps[of calls visiting visited f])
  next
    case False
    have each: "\<exists>v'. visit calls (f # visiting) v t = Inr v'" if t: "t \<in> set (callees calls f)" for v t
    proof (rule "1.IH"[OF nv False t "1.prems"(1)])
      have ft: "(f, t) \<in> call_edges calls" using t by (simp add: call_edges_def)
      show "(g, t) \<in> (call_edges calls)\<^sup>+" if "g \<in> set (f # visiting)" for g
        using that ft "1.prems"(2) by (auto intro: trancl_into_trancl)
    qed
    have "\<exists>v'. foldM (\<lambda>visited t. visit calls (f # visiting) visited t) v ts = Inr v'" if "set ts \<subseteq> set (callees calls f)" for v ts
      using that
    proof (induction ts arbitrary: v)
      case (Cons t ts)
      then obtain v1 where "visit calls (f # visiting) v t = Inr v1" using each[of t v] by auto
      with Cons show ?case by simp
    qed simp
    then obtain v' where "foldM (\<lambda>visited t. visit calls (f # visiting) visited t) visited (callees calls f) = Inr v'" by blast
    with nv False show ?thesis by (simp add: visit.simps[of calls visiting visited f])
  qed
qed

lemma check_recursion_complete:
  assumes "acyclic (call_edges calls)"
  shows "\<exists>vs. check_recursion calls fs = Inr vs"
proof -
  have "\<exists>vs. foldM (\<lambda>visited f. visit calls [] visited f) v fs = Inr vs" for v
  proof (induction fs arbitrary: v)
    case (Cons f fs)
    obtain v1 where "visit calls [] v f = Inr v1" using visit_complete[OF assms, of "[]" f v] by auto
    with Cons show ?case by simp
  qed simp
  then show ?thesis by (simp add: check_recursion_def)
qed

section \<open>Reachable functions\<close>

definition plan_calls :: "(string \<times> pydict) list \<Rightarrow> (string \<times> string) set" where
  "plan_calls fs = {(f, g). g \<in> set (body_calls fs f)}"

abbreviation known_calls :: "(string \<times> pydict) list \<Rightarrow> (string \<times> string) set" where
  "known_calls fs \<equiv> plan_calls fs \<inter> UNIV \<times> set (keys fs)"

lemma reach_loop_distinct: "distinct reachable \<Longrightarrow> distinct (reach_loop fs reachable pending)"
  by (induction fs reachable pending rule: reach_loop.induct) auto

lemma Image_rtrancl_absorb:
  assumes "S \<subseteq> r\<^sup>* `` T" "T \<subseteq> S"
  shows "r\<^sup>* `` S = r\<^sup>* `` T"
proof
  show "r\<^sup>* `` S \<subseteq> r\<^sup>* `` T"
  proof
    fix y assume "y \<in> r\<^sup>* `` S"
    then obtain x where "x \<in> S" "(x, y) \<in> r\<^sup>*" by blast
    with assms(1) obtain z where "z \<in> T" "(z, x) \<in> r\<^sup>*" by blast
    with \<open>(x, y) \<in> r\<^sup>*\<close> show "y \<in> r\<^sup>* `` T" by (blast intro: rtrancl_trans)
  qed
qed (use assms(2) in blast)

lemma reach_loop_spec:
  "(\<And>f g. f \<in> set reachable \<Longrightarrow> (f, g) \<in> known_calls fs \<Longrightarrow> g \<in> set reachable \<union> set pending) \<Longrightarrow>
     set (reach_loop fs reachable pending) = (known_calls fs)\<^sup>* `` (set reachable \<union> set pending)"
proof (induction fs reachable pending rule: reach_loop.induct)
  case (1 fs reachable)
  have "g \<in> set reachable" if "(f, g) \<in> (known_calls fs)\<^sup>*" "f \<in> set reachable" for f g
    using that by (induction rule: rtrancl_induct) (use 1 in auto)
  then show ?case by auto
next
  case (2 fs reachable f pending)
  show ?case
  proof (cases "f \<in> set reachable")
    case True
    have "set (reach_loop fs reachable pending) = (known_calls fs)\<^sup>* `` (set reachable \<union> set pending)"
      by (rule "2.IH"(1)[OF True]) (use "2.prems" True in force)
    with True show ?thesis by (simp add: insert_absorb)
  next
    case False
    let ?new = "filter (\<lambda>t. t \<in> set (keys fs) \<and> t \<notin> set (reachable @ [f])) (body_calls fs f)"
    have "set (reach_loop fs (reachable @ [f]) (pending @ ?new)) =
        (known_calls fs)\<^sup>* `` (set (reachable @ [f]) \<union> set (pending @ ?new))"
    proof (rule "2.IH"(2)[OF False])
      fix a g assume "a \<in> set (reachable @ [f])" "(a, g) \<in> known_calls fs"
      then show "g \<in> set (reachable @ [f]) \<union> set (pending @ ?new)"
        using "2.prems"[of a g] by (cases "a = f") (auto simp: plan_calls_def)
    qed
    moreover have "(known_calls fs)\<^sup>* `` (set (reachable @ [f]) \<union> set (pending @ ?new)) =
        (known_calls fs)\<^sup>* `` (set reachable \<union> set (f # pending))"
      by (rule Image_rtrancl_absorb) (auto simp: plan_calls_def)
    ultimately show ?thesis using False by simp
  qed
qed

end
