(* ===== verification/Typed_Plan_Properties.thy ===== *)
theory Typed_Plan_Properties
  imports Typed_Plan_Calls
begin

text \<open>
  The properties of accepted typed plans: no recursion, every call and capability resolved, and the
  functions reachable at run time.
\<close>

section \<open>The functions of an accepted plan\<close>

definition function_ok :: "pydict \<Rightarrow> string \<Rightarrow> bool" where
  "function_ok fn f \<longleftrightarrow> check_keys fn function_fields function_fields = Inr () \<and> symbol_of (dget fn ''id'') = Inr f \<and>
     (\<exists>ps. parameters (dget fn ''parameters'') = Inr ps) \<and> (\<exists>t. type_of (dget fn ''return_type'') True = Inr t)"

lemma signature_Inr:
  assumes "signature sigs raw = Inr sigs'"
  shows "\<exists>fn f s. raw = PDict fn \<and> function_ok fn f \<and> sigs' = sigs @ [(f, s)] \<and> f \<notin> set (keys sigs)"
  using assms unfolding signature_def function_ok_def by (auto split: if_splits)

lemma signatures_fold:
  "foldM signature s0 fs = Inr sigs \<Longrightarrow> distinct (keys s0) \<Longrightarrow>
     \<exists>new. sigs = s0 @ new \<and> distinct (keys sigs) \<and> list_all2 (\<lambda>raw p. \<exists>fn. raw = PDict fn \<and> function_ok fn (fst p)) fs new"
proof (induction fs arbitrary: s0)
  case Nil
  then show ?case by simp
next
  case (Cons raw fs)
  then obtain s1 where s1: "signature s0 raw = Inr s1" and rest: "foldM signature s1 fs = Inr sigs" by auto
  from signature_Inr[OF s1] obtain fn f s where fn: "raw = PDict fn" "function_ok fn f" "s1 = s0 @ [(f, s)]" "f \<notin> set (keys s0)" by blast
  have "distinct (keys s1)" using fn Cons.prems(2) by simp
  from Cons.IH[OF rest this] obtain new where "sigs = s1 @ new" "distinct (keys sigs)"
    "list_all2 (\<lambda>raw p. \<exists>fn. raw = PDict fn \<and> function_ok fn (fst p)) fs new" by blast
  with fn show ?case by (intro exI[of _ "(f, s) # new"]) simp
qed

lemma symbol_of_py_str: "symbol_of v = Inr f \<Longrightarrow> str_or_empty v = f \<and> py_str v = f \<and> f \<noteq> []"
  by (auto simp: symbol_of_def str_or_empty_def NAME_match_def Let_def split: if_splits)

lemma check_function_Inr:
  assumes "check_function V raw = Inr (f, cs)" "wf_value raw" "plain_capabilities V"
  shows "\<exists>fn. raw = PDict fn \<and> f = py_str (dget fn ''id'') \<and> walk_ok V (dget fn ''body'') cs \<and>
    (\<exists>xs. dget fn ''covers'' = PList xs \<and> covers_ok xs)"
proof -
  from assms(1) obtain fn sig xs B env r where fn: "raw = PDict fn" "f = py_str (dget fn ''id'')"
    and xs: "dget fn ''covers'' = PList xs" "covers_ok xs"
    and b: "block B env (dget fn ''body'') = Inr (r, cs)" "bc_validator B = V"
    unfolding check_function_def Let_def by (fastforce split: option.splits if_splits)
  have "walk_ok V (dget fn ''body'') cs"
    using block_walk[OF b(1)] assms(2,3) b(2) fn(1) by (simp del: wf_value.simps)
  with fn xs show ?thesis by blast
qed

text \<open>The facts about an accepted plan the properties rest on.\<close>

lemma accepted_plan:
  assumes "check_plan caps plan = Inr (sigs, calls)" "wf_value (PDict plan)" "list_all plain (keys caps)"
  obtains fs vs cs where "dget plan ''functions'' = PList (map PDict fs)" "has_key plan ''functions''" "has_key plan ''initialize''"
    "list_all2 (\<lambda>fn p. function_ok fn (fst p)) fs sigs" "distinct (keys sigs)"
    "list_all2 (\<lambda>fn p. fst p = py_str (dget fn ''id'') \<and> walk_ok \<lparr>v_signatures = sigs, v_capabilities = caps\<rparr> (dget fn ''body'') (snd p) \<and>
       (\<exists>xs. dget fn ''covers'' = PList xs \<and> covers_ok xs)) fs calls"
    "walk_ok \<lparr>v_signatures = sigs, v_capabilities = caps\<rparr> (dget plan ''initialize'') cs"
    "check_recursion calls (keys sigs) = Inr vs"
proof -
  let ?V = "\<lparr>v_signatures = sigs, v_capabilities = caps\<rparr>"
  let ?B = "\<lparr>bc_validator = ?V, bc_return_type = ''void'', bc_initialize = True\<rparr>"
  from assms(1) obtain raws p vs where keys: "check_keys plan plan_fields [''schema_version'', ''source_sha256'', ''functions'', ''initialize''] = Inr ()"
    and raws: "dget plan ''functions'' = PList raws" and sigs: "foldM signature [] raws = Inr sigs"
    and calls: "mapM (check_function ?V) raws = Inr calls" and init: "block ?B [] (dget plan ''initialize'') = Inr p"
    and vs: "check_recursion calls (keys sigs) = Inr vs"
    unfolding check_plan_def by (auto simp: Let_def)
  have plain: "plain_capabilities ?V" using assms(3) by (simp add: plain_capabilities_def)
  have wraws: "wf_value (PList raws)" using assms(2) raws wf_value_dget by metis
  from signatures_fold[OF sigs] have s: "distinct (keys sigs)"
    "list_all2 (\<lambda>raw p. \<exists>fn. raw = PDict fn \<and> function_ok fn (fst p)) raws sigs" by auto
  define fs where "fs = map row_of raws"
  have "map PDict fs = raws" using s(2) unfolding fs_def
    by (induction rule: list_all2_induct) (auto simp: row_of_def)
  moreover from this have "list_all2 (\<lambda>fn p. function_ok fn (fst p)) fs sigs" using s(2) by (auto simp: list_all2_conv_all_nth)
  moreover have "list_all2 (\<lambda>fn p. fst p = py_str (dget fn ''id'') \<and> walk_ok ?V (dget fn ''body'') (snd p) \<and>
       (\<exists>xs. dget fn ''covers'' = PList xs \<and> covers_ok xs)) fs calls"
    unfolding list_all2_conv_all_nth
  proof (intro conjI allI impI)
    show len: "length fs = length calls" using mapM_Inr_length[OF calls] by (simp add: fs_def)
    fix i assume i: "i < length fs"
    then have raw: "raws ! i = PDict (fs ! i)" using \<open>map PDict fs = raws\<close> by auto
    have ri: "i < length raws" using i by (simp add: fs_def)
    have c: "check_function ?V (raws ! i) = Inr (fst (calls ! i), snd (calls ! i))"
      using calls ri unfolding mapM_Inr_iff list_all2_conv_all_nth by simp
    have w: "wf_value (raws ! i)" using wf_value_item[OF wraws nth_mem[OF ri]] .
    from check_function_Inr[OF c w plain] raw
    show "fst (calls ! i) = py_str (dget (fs ! i) ''id'')" "walk_ok ?V (dget (fs ! i) ''body'') (snd (calls ! i))"
      "\<exists>xs. dget (fs ! i) ''covers'' = PList xs \<and> covers_ok xs" by auto
  qed
  moreover have "walk_ok ?V (dget plan ''initialize'') (snd p)"
    using block_walk[of ?B "[]" "dget plan ''initialize''" "fst p" "snd p"] init assms(2) plain by (simp del: wf_value.simps)
  ultimately show ?thesis using that raws keys s(1) vs by (auto simp: check_keys_Inr)
qed

section \<open>The table of functions\<close>

definition add_function :: "pydict \<Rightarrow> (string \<times> pydict) list \<Rightarrow> (string \<times> pydict) list" where
  "add_function f acc = (if str_or_empty (dget f ''id'') \<noteq> [] then AList.update (str_or_empty (dget f ''id'')) f acc else acc)"

lemma plan_functions_fold: "plan_functions plan = fold add_function (mapping_rows (pget plan ''functions'')) []"
proof -
  have "add_function = (\<lambda>f acc. if str_or_empty (dget f ''id'') \<noteq> [] then AList.update (str_or_empty (dget f ''id'')) f acc else acc)"
    by (intro ext) (simp add: add_function_def)
  then show ?thesis by (simp add: plan_functions_def)
qed

lemma fold_add_function:
  "map_of (fold add_function fs acc) f = Some d \<Longrightarrow> map_of acc f = Some d \<or> (d \<in> set fs \<and> str_or_empty (dget d ''id'') = f)"
proof (induction fs arbitrary: acc)
  case (Cons x fs)
  from Cons.IH[of "add_function x acc"] Cons.prems show ?case by (auto simp: add_function_def split: if_splits)
qed simp

lemma keys_fold_add_function:
  "set (keys (fold add_function fs acc)) = set (keys acc) \<union> (\<lambda>d. str_or_empty (dget d ''id'')) ` {d \<in> set fs. str_or_empty (dget d ''id'') \<noteq> []}"
proof (induction fs arbitrary: acc)
  case (Cons x fs)
  have "set (keys (add_function x acc)) = set (keys acc) \<union> {s. s = str_or_empty (dget x ''id'') \<and> s \<noteq> []}"
    unfolding add_function_def if_distrib[of "\<lambda>xs. set (keys xs)"] set_keys_AList_update by auto
  then show ?case unfolding fold_simps o_apply Cons.IH by auto
qed simp

lemma mapping_rows_PDict: "mapping_rows (PList (map PDict fs)) = fs"
  by (induction fs) (simp_all add: mapping_rows_def)

lemma pget_dget: "has_key d k \<Longrightarrow> pget d k = dget d k"
  by (auto simp: pget_def dget_def has_key_map_of)

text \<open>A function of the table is checked, and its recorded calls are those of its body.\<close>

lemma table_function:
  assumes "check_plan caps plan = Inr (sigs, calls)" "wf_value (PDict plan)" "list_all plain (keys caps)"
    and "map_of (plan_functions plan) f = Some d"
  shows "function_ok d f \<and> (\<exists>cs. map_of calls f = Some cs \<and> called (dget d ''body'') = set cs)"
proof -
  obtain fs vs cs where fs: "dget plan ''functions'' = PList (map PDict fs)" "has_key plan ''functions''"
    "list_all2 (\<lambda>fn p. function_ok fn (fst p)) fs sigs" "distinct (keys sigs)"
    "list_all2 (\<lambda>fn p. fst p = py_str (dget fn ''id'') \<and> walk_ok \<lparr>v_signatures = sigs, v_capabilities = caps\<rparr> (dget fn ''body'') (snd p) \<and>
       (\<exists>xs. dget fn ''covers'' = PList xs \<and> covers_ok xs)) fs calls"
    by (rule accepted_plan[OF assms(1-3)])
  have "plan_functions plan = fold add_function fs []"
    by (simp add: plan_functions_fold pget_dget fs(1,2) mapping_rows_PDict)
  then have "d \<in> set fs" and f: "str_or_empty (dget d ''id'') = f" using fold_add_function[of fs "[]" f d] assms(4) by auto
  then obtain i where i: "i < length fs" "fs ! i = d" by (auto simp: in_set_conv_nth)
  have ok: "function_ok d (fst (sigs ! i))" using fs(3) i by (auto simp: list_all2_conv_all_nth)
  then have si: "fst (sigs ! i) = f" "py_str (dget d ''id'') = f"
    using f symbol_of_py_str[of "dget d ''id''"] by (auto simp: function_ok_def)
  have keys: "keys calls = keys sigs"
  proof (rule nth_equalityI)
    show len: "length (keys calls) = length (keys sigs)" using fs(3,5) by (auto dest!: list_all2_lengthD)
    fix j assume "j < length (keys calls)"
    then have j: "j < length fs" "j < length calls" "j < length sigs" using fs(3,5) by (auto dest!: list_all2_lengthD)
    have "function_ok (fs ! j) (fst (sigs ! j))" using fs(3) j by (auto simp: list_all2_conv_all_nth)
    then have "py_str (dget (fs ! j) ''id'') = fst (sigs ! j)" using symbol_of_py_str by (auto simp: function_ok_def)
    with fs(5) j show "keys calls ! j = keys sigs ! j" by (simp add: list_all2_conv_all_nth)
  qed
  have ci: "i < length calls" "fst (calls ! i) = f" "walk_ok \<lparr>v_signatures = sigs, v_capabilities = caps\<rparr> (dget d ''body'') (snd (calls ! i))"
    using fs(5) i si by (auto simp: list_all2_conv_all_nth)
  then have "(f, snd (calls ! i)) \<in> set calls" by (metis nth_mem prod.collapse)
  then have "map_of calls f = Some (snd (calls ! i))" using fs(4) keys by (intro map_of_is_SomeI) simp_all
  with ok si ci show ?thesis by (auto simp: walk_ok_def)
qed

lemma validated_checked:
  assumes "validate_typed_plan_ir re_ok platform (PDict plan) capabilities = Inr normalized"
  obtains caps sigs calls where "capability_contracts re_ok capabilities = Inr caps" "check_plan caps plan = Inr (sigs, calls)"
  using assms by (auto simp: validate_typed_plan_ir_def run_def as_map_def)

lemma contract_keys: "capability_contracts re_ok (Some d) = Inr caps \<Longrightarrow> keys caps = keys d"
proof -
  assume "capability_contracts re_ok (Some d) = Inr caps"
  then have "list_all2 (\<lambda>(cap_id, raw) p. fst p = cap_id) d caps"
    unfolding capability_contracts_def mapM_Inr_iff by (auto elim!: list_all2_mono)
  then show ?thesis by (induction rule: list_all2_induct) auto
qed

lemma foldM_each: "foldM f s xs = Inr t \<Longrightarrow> x \<in> set xs \<Longrightarrow> \<exists>a b. f a x = Inr b"
  by (induction xs arbitrary: s) auto

lemma parameters_rows:
  assumes "parameters raw = Inr ps"
  obtains xs where "raw = PList xs"
    "\<And>x. x \<in> set xs \<Longrightarrow> \<exists>d n t. x = PDict d \<and> check_keys d [''name'', ''type''] [''name'', ''type''] = Inr () \<and>
       name_of (dget d ''name'') = Inr n \<and> type_of (dget d ''type'') False = Inr t"
proof -
  obtain xs where xs: "raw = PList xs" using assms by (auto simp: parameters_def)
  have run: "foldM (\<lambda>acc x. rbind (parameter (keys acc) x) (\<lambda>p. Inr (acc @ [p]))) [] xs = Inr ps"
    using assms by (simp add: parameters_def xs as_seq_def)
  have "\<exists>d n t. x = PDict d \<and> check_keys d [''name'', ''type''] [''name'', ''type''] = Inr () \<and>
      name_of (dget d ''name'') = Inr n \<and> type_of (dget d ''type'') False = Inr t" if "x \<in> set xs" for x
  proof -
    from foldM_each[OF run that] obtain acc :: "(string \<times> string) list" and b where "parameter (keys acc) x = Inr b"
      unfolding rbind_eq_Inr by blast
    then show ?thesis by (auto simp: parameter_def split: if_splits)
  qed
  with xs that show thesis by blast
qed

lemma parameters_targets:
  assumes "parameters raw = Inr ps" "wf_value raw" "opn = ''call'' \<or> opn = ''capability''"
  shows "targets opn field raw = {}"
proof (rule parameters_rows[OF assms(1)])
  fix xs assume xs: "raw = PList xs"
    "\<And>x. x \<in> set xs \<Longrightarrow> \<exists>d n t. x = PDict d \<and> check_keys d [''name'', ''type''] [''name'', ''type''] = Inr () \<and>
       name_of (dget d ''name'') = Inr n \<and> type_of (dget d ''type'') False = Inr t"
  have "targets opn field x = {}" if x: "x \<in> set xs" for x
  proof -
    obtain d n t where d: "x = PDict d" "check_keys d [''name'', ''type''] [''name'', ''type''] = Inr ()"
      "name_of (dget d ''name'') = Inr n" "type_of (dget d ''type'') False = Inr t" using xs(2)[OF x] by blast
    have "wf_value x" using assms(2) x unfolding xs(1) by (rule wf_value_item)
    then have k: "distinct (keys d)" "set (keys d) \<subseteq> set [''name'', ''type'']" using d(1,2) by (auto simp: check_keys_Inr)
    then have "\<not> has_key d ''op''" by (auto simp: has_key_def)
    then have "\<not> node_op d opn" by (auto simp: node_op_def dget_def has_key_map_of)
    then show ?thesis using name_of_walk[OF d(3)] type_of_walk[OF d(4)] by (simp add: d(1) targets_PDict[OF k] node_target_def)
  qed
  then show ?thesis by (simp add: xs)
qed

lemma covers_walk: "covers_ok xs \<Longrightarrow> walk_nodes (PList xs) = []"
  by (induction xs) (auto simp: covers_ok_def split: pyval.splits)

text \<open>Of the fields of a function only its body has targets.\<close>

lemma function_targets:
  assumes ok: "function_ok fn f" and wf: "wf_value (PDict fn)" and op: "opn = ''call'' \<or> opn = ''capability''"
    and covers: "dget fn ''covers'' = PList xs" "covers_ok xs"
  shows "targets opn field (PDict fn) = targets opn field (dget fn ''body'')"
proof -
  obtain ps t where parts: "symbol_of (dget fn ''id'') = Inr f" "parameters (dget fn ''parameters'') = Inr ps"
    "type_of (dget fn ''return_type'') True = Inr t" and keys: "check_keys fn function_fields function_fields = Inr ()"
    using ok by (auto simp: function_ok_def)
  have k: "distinct (keys fn)" "set (keys fn) \<subseteq> set function_fields" using wf keys by (auto simp: check_keys_Inr)
  then have "\<not> has_key fn ''op''" by (auto simp: has_key_def function_fields_def)
  then have "\<not> node_op fn opn" by (auto simp: node_op_def dget_def has_key_map_of)
  moreover have "targets opn field (dget fn ''parameters'') = {}"
    by (rule parameters_targets[OF parts(2) _ op]) (use wf in \<open>simp del: wf_value.simps\<close>)
  ultimately show ?thesis
    using symbol_of_walk[OF parts(1)] type_of_walk[OF parts(3)] covers_walk[OF covers(2)]
    by (simp add: targets_PDict[OF k] node_target_def function_fields_def covers(1) del: targets_PList)
qed

lemma execution_ast_targets:
  "targets opn field (execution_ast plan) = targets opn field (pget plan ''functions'') \<union> targets opn field (pget plan ''initialize'')"
proof -
  have "\<not> node_op [(''functions'', a), (''initialize'', b)] opn" for a b by (simp add: node_op_def dget_def)
  then show ?thesis by (simp add: execution_ast_def targets_PDict[where A = "[''functions'', ''initialize'']"] node_target_def)
    (simp add: dget_def)
qed

lemma accepted_targets:
  assumes "check_plan caps plan = Inr (sigs, calls)" "wf_value (PDict plan)" "list_all plain (keys caps)"
  shows "called (execution_ast plan) \<subseteq> set (keys sigs) \<and> used (execution_ast plan) \<subseteq> set (keys caps) \<and>
    set (keys (plan_functions plan)) = set (keys sigs)"
proof -
  let ?V = "\<lparr>v_signatures = sigs, v_capabilities = caps\<rparr>"
  obtain fs vs cs where fs: "dget plan ''functions'' = PList (map PDict fs)" "has_key plan ''functions''" "has_key plan ''initialize''"
    "list_all2 (\<lambda>fn p. function_ok fn (fst p)) fs sigs"
    "list_all2 (\<lambda>fn p. fst p = py_str (dget fn ''id'') \<and> walk_ok ?V (dget fn ''body'') (snd p) \<and>
       (\<exists>xs. dget fn ''covers'' = PList xs \<and> covers_ok xs)) fs calls"
    "walk_ok ?V (dget plan ''initialize'') cs"
    by (rule accepted_plan[OF assms])
  have wfs: "wf_value (PList (map PDict fs))" using fs(1) assms(2) wf_value_dget by metis
  have each: "called (PDict fn) \<subseteq> set (keys sigs) \<and> used (PDict fn) \<subseteq> set (keys caps) \<and> str_or_empty (dget fn ''id'') \<in> set (keys sigs)"
    if fn: "fn \<in> set fs" for fn
  proof -
    obtain i where i: "i < length fs" "fs ! i = fn" using fn by (auto simp: in_set_conv_nth)
    have ok: "function_ok fn (fst (sigs ! i))" "i < length sigs" using fs(4) i by (auto simp: list_all2_conv_all_nth)
    obtain xs where b: "walk_ok ?V (dget fn ''body'') (snd (calls ! i))" and xs: "dget fn ''covers'' = PList xs" "covers_ok xs"
      using fs(5) i by (auto simp: list_all2_conv_all_nth)
    have wf: "wf_value (PDict fn)" using wf_value_item[OF wfs, of "PDict fn"] fn by (simp del: wf_value.simps)
    have "str_or_empty (dget fn ''id'') = fst (sigs ! i)" using ok(1) symbol_of_py_str by (auto simp: function_ok_def)
    moreover have "fst (sigs ! i) \<in> set (keys sigs)" using ok(2) by (metis length_map nth_map nth_mem)
    ultimately show ?thesis using b function_targets[OF ok(1) wf _ xs] by (auto simp: walk_ok_def)
  qed
  have "called (PList (map PDict fs)) \<subseteq> set (keys sigs) \<and> used (PList (map PDict fs)) \<subseteq> set (keys caps)"
    using each by (simp only: targets_PList set_map) blast
  then have "called (execution_ast plan) \<subseteq> set (keys sigs) \<and> used (execution_ast plan) \<subseteq> set (keys caps)"
    unfolding execution_ast_targets pget_dget[OF fs(2)] pget_dget[OF fs(3)] fs(1) using fs(6) by (simp add: walk_ok_def)
  moreover have "set (keys (plan_functions plan)) \<subseteq> set (keys sigs)"
    unfolding plan_functions_fold pget_dget[OF fs(2)] fs(1) mapping_rows_PDict keys_fold_add_function using each by auto
  moreover have "set (keys sigs) \<subseteq> set (keys (plan_functions plan))"
  proof
    fix f assume "f \<in> set (keys sigs)"
    then obtain i where i: "i < length sigs" "fst (sigs ! i) = f" by (auto simp: in_set_conv_nth)
    then have "function_ok (fs ! i) f" "i < length fs" using fs(4) by (auto simp: list_all2_conv_all_nth)
    then have "fs ! i \<in> set fs" "str_or_empty (dget (fs ! i) ''id'') = f" "f \<noteq> []"
      using symbol_of_py_str by (auto simp: function_ok_def)
    then show "f \<in> set (keys (plan_functions plan))"
      unfolding plan_functions_fold pget_dget[OF fs(2)] fs(1) mapping_rows_PDict keys_fold_add_function by blast
  qed
  ultimately show ?thesis by blast
qed

section \<open>Properties\<close>

text \<open>C34. The search for recursive calls is exact: \<open>_Validator.run\<close> reports recursion if and only if the
  recorded call graph has a cycle.\<close>

theorem recursion_check_exact:
  assumes "set (keys calls) \<subseteq> set fs"
  shows "(\<exists>vs. check_recursion calls fs = Inr vs) \<longleftrightarrow> acyclic (call_edges calls)"
  using check_recursion_sound[OF _ assms] check_recursion_complete by blast

text \<open>C29. An accepted typed plan has no recursion: in the text of its function bodies, the relation ``calls''
  is acyclic, so the generated Java methods cannot call themselves.\<close>

theorem validated_plan_not_recursive:
  assumes "validate_typed_plan_ir re_ok platform (PDict plan) (Some capabilities) = Inr normalized"
    and "wf_value (PDict plan)" and "list_all plain (keys capabilities)"
  shows "acyclic (plan_calls (plan_functions plan))"
proof -
  obtain caps sigs calls where caps: "capability_contracts re_ok (Some capabilities) = Inr caps"
    and chk: "check_plan caps plan = Inr (sigs, calls)" by (rule validated_checked[OF assms(1)])
  have plain: "list_all plain (keys caps)" using assms(3) contract_keys[OF caps] by simp
  have "plan_calls (plan_functions plan) \<subseteq> call_edges calls"
  proof (clarsimp simp: plan_calls_def call_edges_def)
    fix f g assume "g \<in> set (body_calls (plan_functions plan) f)"
    then obtain d where d: "map_of (plan_functions plan) f = Some d" "g \<in> set (calls_in (pget d ''body''))"
      by (cases "map_of (plan_functions plan) f") (auto simp: body_calls_def)
    from table_function[OF chk assms(2) plain d(1)] obtain cs where ok: "function_ok d f" "map_of calls f = Some cs"
      "called (dget d ''body'') = set cs" by blast
    have "has_key d ''body''" using ok(1) by (auto simp: function_ok_def check_keys_Inr function_fields_def)
    with d(2) ok show "g \<in> set (callees calls f)" by (simp add: callees_def pget_dget set_calls_in)
  qed
  moreover have "acyclic (call_edges calls)"
  proof -
    obtain fs vs cs where *: "check_recursion calls (keys sigs) = Inr vs"
      "list_all2 (\<lambda>fn p. function_ok fn (fst p)) fs sigs"
      "list_all2 (\<lambda>fn p. fst p = py_str (dget fn ''id'') \<and> walk_ok \<lparr>v_signatures = sigs, v_capabilities = caps\<rparr> (dget fn ''body'') (snd p) \<and>
         (\<exists>xs. dget fn ''covers'' = PList xs \<and> covers_ok xs)) fs calls"
      by (rule accepted_plan[OF chk assms(2) plain])
    have "set (keys calls) \<subseteq> set (keys sigs)"
    proof
      fix f assume "f \<in> set (keys calls)"
      then obtain i where i: "i < length calls" "fst (calls ! i) = f" by (auto simp: in_set_conv_nth)
      with *(2,3) have "i < length sigs" "fst (sigs ! i) = f"
        using symbol_of_py_str by (force simp: list_all2_conv_all_nth function_ok_def)+
      then show "f \<in> set (keys sigs)" by (metis length_map nth_map nth_mem)
    qed
    with check_recursion_sound[OF *(1)] show ?thesis by blast
  qed
  ultimately show ?thesis by (rule acyclic_subset[rotated])
qed

text \<open>C30. Nothing in an accepted plan dangles: every capability \<open>typed_plan_capability_ids\<close> finds has a host
  contract, and every function called anywhere in the plan is one of its functions.\<close>

theorem validated_plan_resolved:
  assumes "validate_typed_plan_ir re_ok platform (PDict plan) (Some capabilities) = Inr normalized"
    and "wf_value (PDict plan)" and "list_all plain (keys capabilities)"
  shows "set (typed_plan_capability_ids plan) \<subseteq> set (keys capabilities) \<and>
    set (calls_in (execution_ast plan)) \<subseteq> set (keys (plan_functions plan))"
proof -
  obtain caps sigs calls where caps: "capability_contracts re_ok (Some capabilities) = Inr caps"
    and chk: "check_plan caps plan = Inr (sigs, calls)" by (rule validated_checked[OF assms(1)])
  have keys: "keys caps = keys capabilities" by (rule contract_keys[OF caps])
  have "set (typed_plan_capability_ids plan) = used (execution_ast plan)"
    by (auto simp: typed_plan_capability_ids_def targets_def node_target_def)
  with accepted_targets[OF chk assms(2)] assms(3) keys show ?thesis by (simp add: set_calls_in del: list.set_map)
qed

text \<open>\<open>typed_plan_reachable_function_ids\<close> returns exactly the functions reachable by calls from the roots
  (the event bindings and, unless only run time counts, the initializer), each once.\<close>

theorem reachable_functions_exact:
  "distinct (typed_plan_reachable_function_ids plan runtime_only) \<and>
   set (typed_plan_reachable_function_ids plan runtime_only) =
     (plan_calls (plan_functions plan) \<inter> UNIV \<times> set (keys (plan_functions plan)))\<^sup>* ``
       (set (reach_roots plan runtime_only) \<inter> set (keys (plan_functions plan)))"
proof -
  let ?fs = "plan_functions plan"
  let ?roots = "fromkeys (filter (\<lambda>r. r \<in> set (keys ?fs)) (reach_roots plan runtime_only))"
  have "set (reach_loop ?fs [] ?roots) = (known_calls ?fs)\<^sup>* `` (set [] \<union> set ?roots)" by (rule reach_loop_spec) simp
  moreover have "set [] \<union> set ?roots = set (reach_roots plan runtime_only) \<inter> set (keys ?fs)" by auto
  moreover have "distinct (reach_loop ?fs [] ?roots)" by (rule reach_loop_distinct) simp
  ultimately show ?thesis unfolding typed_plan_reachable_function_ids_def Let_def by simp
qed

section \<open>Examples\<close>

text \<open>A plan with an event function that calls a helper and uses a host capability.\<close>

definition lit_node :: "string \<Rightarrow> pyval \<Rightarrow> pyval" where
  "lit_node t v = PDict [(''op'', PStr ''literal''), (''type'', PStr t), (''value'', v)]"

definition ref_node :: "string \<Rightarrow> pyval" where
  "ref_node n = PDict [(''op'', PStr ''ref''), (''name'', PStr n)]"

definition call_node :: "string \<Rightarrow> pyval list \<Rightarrow> pyval" where
  "call_node f args = PDict [(''op'', PStr ''call''), (''function'', PStr f), (''args'', PList args)]"

definition cap_node :: "string \<Rightarrow> pyval list \<Rightarrow> pyval" where
  "cap_node c args = PDict [(''op'', PStr ''capability''), (''id'', PStr c), (''args'', PList args)]"

definition stmt_node :: "string \<Rightarrow> pyval \<Rightarrow> pyval" where
  "stmt_node opn e = PDict [(''op'', PStr opn), (''value'', e)]"

definition function_node :: "string \<Rightarrow> (string \<times> string) list \<Rightarrow> string \<Rightarrow> pyval list \<Rightarrow> pyval" where
  "function_node f params ret body =
     PDict [(''id'', PStr f), (''parameters'', PList (map (\<lambda>(n, t). PDict [(''name'', PStr n), (''type'', PStr t)]) params)),
       (''return_type'', PStr ret), (''body'', PList body), (''covers'', PList [PStr ''goal''])]"

definition plan_node :: "pyval list \<Rightarrow> pyval list \<Rightarrow> pyval list \<Rightarrow> pydict" where
  "plan_node functions init bindings =
     [(''schema_version'', PStr ''mmm/typed-plan-ir-v1''), (''source_sha256'', PStr (replicate 64 (CHR ''a''))),
      (''functions'', PList functions), (''initialize'', PList init), (''event_bindings'', PList bindings)]"

definition sample_plan :: pydict where
  "sample_plan = plan_node
     [function_node ''greet'' [(''player'', ''object'')] ''void''
        [stmt_node ''expr'' (cap_node ''player.send_message'' [ref_node ''player'', lit_node ''string'' (PStr ''hi'')]),
         stmt_node ''expr'' (call_node ''two'' [])],
      function_node ''two'' [] ''int'' [stmt_node ''return'' (lit_node ''int'' (PInt 2))],
      function_node ''idle'' [] ''void'' [stmt_node ''expr'' (call_node ''two'' [])]]
     []
     [PDict [(''event'', PStr ''player_join''), (''function'', PStr ''greet''), (''entry_point_index'', PInt 0), (''config'', PDict [])]]"

text \<open>The two host capabilities that talk to a player.\<close>

abbreviation talk_capabilities :: pydict where
  "talk_capabilities \<equiv> take 2 CAPABILITIES"

lemma sample_plan_run: "\<not> isl (validate_typed_plan_ir (\<lambda>_. True) Inr (PDict sample_plan) (Some talk_capabilities))"
  by code_simp

lemma sample_plan_accepted:
  obtains n where "validate_typed_plan_ir (\<lambda>_. True) Inr (PDict sample_plan) (Some talk_capabilities) = Inr n"
  using sample_plan_run by (cases "validate_typed_plan_ir (\<lambda>_. True) Inr (PDict sample_plan) (Some talk_capabilities)") auto

lemma sample_plan_wf: "wf_value (PDict sample_plan)"
  by code_simp

lemma talk_capabilities_plain: "list_all plain (keys talk_capabilities)"
  by code_simp

theorem recursion_check_exact_witness:
  "\<not> acyclic (call_edges [(''f'', [''g'']), (''g'', [''h'', ''f'']), (''h'', [])])"
proof -
  have "check_recursion [(''f'', [''g'']), (''g'', [''h'', ''f'']), (''h'', [])] [''f'', ''g'', ''h''] = Inl (ValueError ''recursive function call'')"
    by code_simp
  then show ?thesis
    using recursion_check_exact[of "[(''f'', [''g'']), (''g'', [''h'', ''f'']), (''h'', [])]" "[''f'', ''g'', ''h'']"] by simp
qed

theorem validated_plan_not_recursive_witness:
  "acyclic (plan_calls (plan_functions sample_plan)) \<and> body_calls (plan_functions sample_plan) ''greet'' = [''two'']"
proof
  show "acyclic (plan_calls (plan_functions sample_plan))"
    by (rule sample_plan_accepted) (rule validated_plan_not_recursive[OF _ sample_plan_wf talk_capabilities_plain])
  show "body_calls (plan_functions sample_plan) ''greet'' = [''two'']" by code_simp
qed

theorem validated_plan_resolved_witness:
  "set (typed_plan_capability_ids sample_plan) \<subseteq> set (keys talk_capabilities) \<and> typed_plan_capability_ids sample_plan = [''player.send_message'']"
proof
  show "set (typed_plan_capability_ids sample_plan) \<subseteq> set (keys talk_capabilities)"
    by (rule sample_plan_accepted) (use validated_plan_resolved[OF _ sample_plan_wf talk_capabilities_plain] in blast)
  show "typed_plan_capability_ids sample_plan = [''player.send_message'']" by code_simp
qed

end
