(* ===== verification/Typed_Plan_Java.thy ===== *)
theory Typed_Plan_Java
  imports Typed_Plan_Queries
begin

text \<open>
  The Java backend of typed plans (\<open>_Renderer\<close> and \<open>render_typed_plan_java\<close> of \<^verbatim>\<open>typed_plan_java.py\<close>, with
  \<open>render_action_command_registration\<close> of \<^verbatim>\<open>typed_action_java.py\<close>). The renderer object's counter and set of
  string-valued names are the record \<open>rstate\<close>. The renderer runs on validated plans; where a value of
  another kind than a validated plan can hold would raise, the model raises \<open>TypeError\<close>.
\<close>

section \<open>Pieces of Java text\<close>

definition quoted :: "string \<Rightarrow> string" where
  "quoted s = [CHR 0x22] @ s @ [CHR 0x22]"

definition JAVA_TYPES :: "(string \<times> string) list" where
  "JAVA_TYPES = [(''void'', ''void''), (''boolean'', ''boolean''), (''int'', ''int''), (''long'', ''long''),
     (''double'', ''double''), (''string'', ''String''), (''object'', ''Object'')]"

text \<open>\<open>_string_expr\<close>: every code point of the model is one UTF-16 unit.\<close>

definition string_expr :: "string \<Rightarrow> string" where
  "string_expr s = (if s = [] then quoted []
     else ''new String(new char[]{'' @ join '', '' (map (\<lambda>c. ''(char)'' @ show_nat (of_char c)) s) @ ''})'')"

definition string_expr_of :: "pyval \<Rightarrow> string result" where
  "string_expr_of v = (case v of PStr s \<Rightarrow> Inr (string_expr s) | _ \<Rightarrow> Inl (AttributeError ''encode''))"

definition java_type :: "pyval \<Rightarrow> string result" where
  "java_type v = (case v of
     PStr kind \<Rightarrow>
       (case map_of JAVA_TYPES kind of
          Some t \<Rightarrow> Inr t
        | None \<Rightarrow> if startswith kind ''list<'' then Inr ''java.util.List<?>''
            else if kind = ''map'' then Inr ''java.util.Map<String, Object>''
            else Inl (ValueError ''unsupported Java type''))
   | _ \<Rightarrow> Inl (TypeError ''type''))"

definition boxed_type :: "string \<Rightarrow> string result" where
  "boxed_type kind = (case map_of [(''boolean'', ''Boolean''), (''int'', ''Integer''), (''long'', ''Long''),
      (''double'', ''Double''), (''string'', ''String''), (''object'', ''Object'')] kind of
     Some t \<Rightarrow> Inr t | None \<Rightarrow> Inl (KeyError kind))"

definition unbox :: "pyval \<Rightarrow> string \<Rightarrow> string result" where
  "unbox kind e =
     (if kind = PStr ''boolean'' then Inr (''((Boolean) '' @ e @ '').booleanValue()'')
      else if kind = PStr ''int'' then Inr (''((Integer) '' @ e @ '').intValue()'')
      else if kind = PStr ''long'' then Inr (''((Long) '' @ e @ '').longValue()'')
      else if kind = PStr ''double'' then Inr (''((Double) '' @ e @ '').doubleValue()'')
      else if kind = PStr ''string'' then Inr (''((String) '' @ e @ '')'')
      else if kind = PStr ''object'' then Inr e
      else Inl (ValueError ''cannot unbox''))"

definition default_check :: "string \<Rightarrow> string \<Rightarrow> string result" where
  "default_check kind e =
     (if kind = ''object'' then Inr ''true''
      else rbind (boxed_type kind) (\<lambda>t. Inr (e @ '' instanceof '' @ t)))"

definition state_read :: "pyval \<Rightarrow> string \<Rightarrow> string result" where
  "state_read kind e =
     (if kind = PStr ''boolean'' then Inr (''((Boolean) '' @ e @ '').booleanValue()'')
      else if kind = PStr ''int'' then Inr (''((Number) '' @ e @ '').intValue()'')
      else if kind = PStr ''long'' then Inr (''((Number) '' @ e @ '').longValue()'')
      else if kind = PStr ''double'' then Inr (''((Number) '' @ e @ '').doubleValue()'')
      else if kind = PStr ''string'' then Inr (''((String) '' @ e @ '')'')
      else if kind = PStr ''object'' then Inr e
      else Inl (ValueError ''cannot read state''))"

section \<open>Expressions\<close>

record renderer =
  r_functions :: "pydict list"
  r_capabilities :: pydict
  r_version :: string

definition item :: "pydict \<Rightarrow> string \<Rightarrow> pyval result" where
  "item d k = (case map_of d k of None \<Rightarrow> Inl (KeyError k) | Some v \<Rightarrow> Inr v)"

definition row_list :: "pyval \<Rightarrow> pyval list result" where
  "row_list v = (case v of PList xs \<Rightarrow> Inr xs | _ \<Rightarrow> Inl (TypeError ''not an array''))"

definition row_fields :: "pyval \<Rightarrow> pydict result" where
  "row_fields v = (case v of PDict d \<Rightarrow> Inr d | _ \<Rightarrow> Inl (TypeError ''not an object''))"

lemma item_Inr [simp]: "item d k = Inr v \<longleftrightarrow> map_of d k = Some v"
  by (auto simp: item_def split: option.splits)

lemma row_list_Inr [simp]: "row_list v = Inr xs \<longleftrightarrow> v = PList xs"
  by (cases v) (auto simp: row_list_def)

lemma row_fields_Inr [simp]: "row_fields v = Inr d \<longleftrightarrow> v = PDict d"
  by (cases v) (auto simp: row_fields_def)

function string_value :: "renderer \<Rightarrow> pyval list \<Rightarrow> pyval \<Rightarrow> bool" where
  "string_value R names (PDict d) =
     (if node_op d ''literal'' then dget d ''type'' = PStr ''string''
      else if node_op d ''ref'' then dget d ''name'' \<in> set names
      else if node_op d ''state_get'' then dget d ''type'' = PStr ''string''
      else if node_op d ''binary'' \<and> dget d ''operator'' = PStr ''+'' then
        string_value R names (dget d ''left'') \<and> string_value R names (dget d ''right'')
      else if node_op d ''call'' then
        list_ex (\<lambda>fn. dget fn ''id'' = dget d ''function'' \<and> dget fn ''return_type'' = PStr ''string'') (r_functions R)
      else False)"
| "string_value R names (PList xs) = False"
| "string_value R names PNone = False"
| "string_value R names (PBool b) = False"
| "string_value R names (PInt i) = False"
| "string_value R names (PFloat r) = False"
| "string_value R names (PStr s) = False"
  by pat_completeness auto
termination
  by (relation "measure (\<lambda>(R, names, v). size v)") (simp_all add: size_dget_less del: pyval.size)

declare string_value.simps(1) [simp del]

definition double_text :: "pyval \<Rightarrow> string result" where
  "double_text v = (case v of
     PInt i \<Rightarrow> if float_overflows i then Inl (OverflowError ''int too large to convert to float'') else Inr (repr_of_int i @ ''d'')
   | PFloat r \<Rightarrow> if is_finite_repr r then Inr (r @ ''d'') else Inl (ValueError ''double literal must be finite'')
   | _ \<Rightarrow> Inl (TypeError ''float''))"

definition object_text :: "pyval \<Rightarrow> string result" where
  "object_text v = (case v of
     PNone \<Rightarrow> Inr ''null''
   | PStr s \<Rightarrow> Inr (string_expr s)
   | PBool b \<Rightarrow> Inr (if b then ''Boolean.TRUE'' else ''Boolean.FALSE'')
   | PInt i \<Rightarrow> Inr (''Integer.valueOf('' @ show_int i @ '')'')
   | PFloat r \<Rightarrow> Inr (''Double.valueOf('' @ r @ ''d)'')
   | _ \<Rightarrow> Inl (ValueError ''unsupported object literal''))"

definition literal_text :: "pydict \<Rightarrow> string result" where
  "literal_text d =
     rbind (item d ''type'') (\<lambda>kind.
     rbind (item d ''value'') (\<lambda>v.
     if kind = PStr ''string'' then string_expr_of v
     else if kind = PStr ''boolean'' then Inr (if truthy v then ''true'' else ''false'')
     else if kind = PStr ''long'' then Inr (py_str v @ ''L'')
     else if kind = PStr ''double'' then double_text v
     else if kind = PStr ''int'' then Inr (py_str v)
     else if kind = PStr ''object'' then object_text v
     else Inl (ValueError ''unsupported expression op'')))"

definition sub_item :: "(pyval \<Rightarrow> string result) \<Rightarrow> pydict \<Rightarrow> string \<Rightarrow> string result" where
  "sub_item sub d k = rbind (item d k) sub"

definition render_list :: "(pyval \<Rightarrow> string result) \<Rightarrow> pydict \<Rightarrow> string \<Rightarrow> string result" where
  "render_list sub d k =
     rbind (item d k) (\<lambda>v. rbind (row_list v) (\<lambda>xs. rbind (mapM sub xs) (\<lambda>ts. Inr (join '', '' ts))))"

definition binary_text :: "renderer \<Rightarrow> pyval list \<Rightarrow> (pyval \<Rightarrow> string result) \<Rightarrow> pydict \<Rightarrow> string result" where
  "binary_text R names sub d =
     rbind (item d ''operator'') (\<lambda>operator.
     rbind (sub_item sub d ''left'') (\<lambda>l.
     rbind (sub_item sub d ''right'') (\<lambda>r.
     if (operator = PStr ''=='' \<or> operator = PStr ''!='') \<and>
        (string_value R names (dget d ''left'') \<or> string_value R names (dget d ''right'')) then
       (let equality = ''java.util.Objects.equals('' @ l @ '', '' @ r @ '')''
        in Inr (if operator = PStr ''=='' then equality else ''(!'' @ equality @ '')''))
     else Inr (''('' @ l @ '' '' @ py_str operator @ '' '' @ r @ '')''))))"

definition entry_text :: "(pyval \<Rightarrow> string result) \<Rightarrow> pyval \<Rightarrow> string result" where
  "entry_text sub v =
     rbind (row_fields v) (\<lambda>entry.
     rbind (sub_item sub entry ''key'') (\<lambda>k.
     rbind (sub_item sub entry ''value'') (\<lambda>x.
     Inr (''java.util.Map.entry('' @ k @ '', (Object) ('' @ x @ ''))''))))"

definition map_text :: "(pyval \<Rightarrow> string result) \<Rightarrow> pydict \<Rightarrow> string result" where
  "map_text sub d =
     rbind (item d ''entries'') (\<lambda>v. rbind (row_list v) (\<lambda>entries.
     if entries = [] then Inr ''java.util.Map.<String, Object>of()''
     else rbind (mapM (entry_text sub) entries) (\<lambda>ts.
       Inr (''java.util.Map.<String, Object>ofEntries('' @ join '', '' ts @ '')''))))"

definition capability_text :: "renderer \<Rightarrow> (pyval \<Rightarrow> string result) \<Rightarrow> pydict \<Rightarrow> string result" where
  "capability_text R sub d =
     rbind (item d ''id'') (\<lambda>i.
     rbind (case i of PStr s \<Rightarrow> item (r_capabilities R) s | _ \<Rightarrow> Inl (KeyError ''capability'')) (\<lambda>c.
     rbind (row_fields c) (\<lambda>contract.
     rbind (item contract ''owner'') (\<lambda>owner.
     rbind (item contract ''method'') (\<lambda>meth.
     rbind (render_list sub d ''args'') (\<lambda>args.
     Inr (py_str owner @ ''.'' @ py_str meth @ ''('' @ args @ '')'')))))))"

definition expr_node :: "renderer \<Rightarrow> pyval list \<Rightarrow> (pyval \<Rightarrow> string result) \<Rightarrow> pyval \<Rightarrow> string result" where
  "expr_node R names sub v =
     rbind (row_fields v) (\<lambda>d.
     rbind (item d ''op'') (\<lambda>opn.
     if opn = PStr ''literal'' then literal_text d
     else if opn = PStr ''ref'' then rbind (item d ''name'') (\<lambda>n. Inr (py_str n))
     else if opn = PStr ''unary'' then
       rbind (item d ''operator'') (\<lambda>operator. rbind (sub_item sub d ''value'') (\<lambda>t. Inr (''('' @ py_str operator @ t @ '')'')))
     else if opn = PStr ''binary'' then binary_text R names sub d
     else if opn = PStr ''list'' then rbind (render_list sub d ''items'') (\<lambda>t. Inr (''java.util.List.of('' @ t @ '')''))
     else if opn = PStr ''map'' then map_text sub d
     else if opn = PStr ''call'' then
       rbind (item d ''function'') (\<lambda>f. rbind (render_list sub d ''args'') (\<lambda>args.
         case f of PStr s \<Rightarrow> Inr (''fn_'' @ s @ ''('' @ args @ '')'') | _ \<Rightarrow> Inl (TypeError ''can only concatenate str'')))
     else if opn = PStr ''capability'' then capability_text R sub d
     else if opn = PStr ''state_get'' then
       rbind (sub_item sub d ''key'') (\<lambda>k. rbind (sub_item sub d ''context'') (\<lambda>c. rbind (item d ''type'') (\<lambda>t.
         state_read t (''AuthoredStateModel.getState('' @ k @ '', '' @ c @ '')''))))
     else Inl (ValueError ''unsupported expression op'')))"

lemma sub_item_cong: "(\<And>x. map_of d k = Some x \<Longrightarrow> f x = g x) \<Longrightarrow> sub_item f d k = sub_item g d k"
  by (auto simp: sub_item_def intro: rbind_cong)

lemma render_list_cong:
  "(\<And>xs x. map_of d k = Some (PList xs) \<Longrightarrow> x \<in> set xs \<Longrightarrow> f x = g x) \<Longrightarrow> render_list f d k = render_list g d k"
  unfolding render_list_def by (intro rbind_cong refl mapM_cong) auto

lemma size_map_of_item_less: "map_of d k = Some (PList xs) \<Longrightarrow> x \<in> set xs \<Longrightarrow> size x < size (PDict d)"
  using size_map_of_less[of d k "PList xs"] size_mem_list_less[of x xs] by simp

lemma expr_node_cong [fundef_cong]:
  assumes "R = R'" "names = names'" "v = v'" and f: "\<And>x. size x < size v' \<Longrightarrow> f x = g x"
  shows "expr_node R names f v = expr_node R' names' g v'"
proof (cases v')
  case (PDict d)
  have sub: "sub_item f d k = sub_item g d k" for k
    using f size_map_of_less[of d k] PDict by (intro sub_item_cong) simp
  have args: "render_list f d k = render_list g d k" for k
    using f size_map_of_item_less[of d k] PDict by (intro render_list_cong) simp
  have "entry_text f x = entry_text g x" if e: "map_of d k = Some (PList xs)" "x \<in> set xs" for k xs x
  proof (cases x)
    case (PDict e)
    have "sub_item f e j = sub_item g e j" for j
      using f size_map_of_less[of e j] size_map_of_item_less[OF e] PDict \<open>v' = PDict d\<close> by (intro sub_item_cong) force
    then show ?thesis by (simp add: entry_text_def PDict row_fields_def)
  qed (simp_all add: entry_text_def row_fields_def)
  then have "map_text f d = map_text g d"
    unfolding map_text_def by (intro rbind_cong refl if_cong mapM_cong) auto
  with sub args assms(1-3) PDict show ?thesis
    by (simp add: expr_node_def binary_text_def capability_text_def row_fields_def cong del: if_weak_cong)
qed (auto simp: expr_node_def row_fields_def assms(3))

function render_expr :: "renderer \<Rightarrow> pyval list \<Rightarrow> pyval \<Rightarrow> string result" where
  "render_expr R names v = expr_node R names (\<lambda>x. render_expr R names x) v"
  by pat_completeness auto
termination by (relation "measure (\<lambda>(R, names, v). size v)") auto

declare render_expr.simps [simp del, code del]

lemma render_expr_code [code]: "render_expr R names v = expr_node R names (render_expr R names) v"
  by (rule render_expr.simps)

section \<open>Statements\<close>

record rstate =
  rs_counter :: nat
  rs_string_names :: "pyval list"

type_synonym rendered = "rstate \<times> string list"

definition unique :: "string \<Rightarrow> rstate \<Rightarrow> rstate \<times> string" where
  "unique stem st = (let n = Suc (rs_counter st) in (st\<lparr>rs_counter := n\<rparr>, ''__mmm_'' @ stem @ ''_'' @ show_nat n))"

definition render_field :: "renderer \<Rightarrow> rstate \<Rightarrow> pydict \<Rightarrow> string \<Rightarrow> string result" where
  "render_field R st d k = rbind (item d k) (render_expr R (rs_string_names st))"

definition render_let :: "renderer \<Rightarrow> string \<Rightarrow> rstate \<Rightarrow> pydict \<Rightarrow> rendered result" where
  "render_let R indent st d =
     rbind (item d ''type'') (\<lambda>kind. rbind (java_type kind) (\<lambda>t. rbind (item d ''name'') (\<lambda>name.
     rbind (render_field R st d ''value'') (\<lambda>e.
     Inr (if kind = PStr ''string'' then st\<lparr>rs_string_names := name # rs_string_names st\<rparr> else st,
          [indent @ t @ '' '' @ py_str name @ '' = '' @ e @ '';''])))))"

definition render_set :: "renderer \<Rightarrow> string \<Rightarrow> rstate \<Rightarrow> pydict \<Rightarrow> rendered result" where
  "render_set R indent st d =
     rbind (item d ''name'') (\<lambda>name. rbind (render_field R st d ''value'') (\<lambda>e.
     Inr (st, [indent @ py_str name @ '' = '' @ e @ '';''])))"

definition render_return :: "renderer \<Rightarrow> string \<Rightarrow> rstate \<Rightarrow> pydict \<Rightarrow> rendered result" where
  "render_return R indent st d =
     (if has_key d ''value'' \<and> dget d ''value'' \<noteq> PNone
      then rbind (render_field R st d ''value'') (\<lambda>e. Inr (st, [indent @ ''return '' @ e @ '';'']))
      else Inr (st, [indent @ ''return;'']))"

definition render_assert :: "renderer \<Rightarrow> string \<Rightarrow> rstate \<Rightarrow> pydict \<Rightarrow> rendered result" where
  "render_assert R indent st d =
     rbind (render_field R st d ''condition'') (\<lambda>c. rbind (item d ''message'') (\<lambda>m. rbind (string_expr_of m) (\<lambda>t.
     Inr (st, [indent @ ''if (!('' @ c @ '')) throw new IllegalStateException('' @ t @ '');'']))))"

definition render_if :: "renderer \<Rightarrow> (string \<Rightarrow> rstate \<Rightarrow> pyval \<Rightarrow> rendered result) \<Rightarrow> string \<Rightarrow> rstate \<Rightarrow> pydict \<Rightarrow> rendered result" where
  "render_if R blk indent st d =
     rbind (render_field R st d ''condition'') (\<lambda>c.
     rbind (item d ''then'') (\<lambda>t. rbind (blk (indent @ ''    '') st t) (\<lambda>(st1, ls1).
     rbind (item d ''else'') (\<lambda>e. rbind (blk (indent @ ''    '') st1 e) (\<lambda>(st2, ls2).
     Inr (st2, [indent @ ''if ('' @ c @ '') {''] @ ls1 @ [indent @ ''} else {''] @ ls2 @ [indent @ ''}'']))))))"

definition render_while :: "renderer \<Rightarrow> (string \<Rightarrow> rstate \<Rightarrow> pyval \<Rightarrow> rendered result) \<Rightarrow> string \<Rightarrow> rstate \<Rightarrow> pydict \<Rightarrow> rendered result" where
  "render_while R blk indent st d =
     (let (st1, counter) = unique ''loop'' st in
      rbind (render_field R st1 d ''condition'') (\<lambda>c.
      rbind (item d ''max_iterations'') (\<lambda>m. rbind (py_int m) (\<lambda>limit.
      rbind (item d ''body'') (\<lambda>b. rbind (blk (indent @ ''    '') st1 b) (\<lambda>(st2, ls).
      Inr (st2, [indent @ ''int '' @ counter @ '' = 0;'', indent @ ''while ('' @ c @ '') {'',
           indent @ ''    if ('' @ counter @ ''++ >= '' @ show_int limit @ '') throw new IllegalStateException(''
             @ quoted ''typed loop bound exceeded'' @ '');''] @ ls @ [indent @ ''}'']))))))) "

definition render_foreach :: "renderer \<Rightarrow> (string \<Rightarrow> rstate \<Rightarrow> pyval \<Rightarrow> rendered result) \<Rightarrow> string \<Rightarrow> rstate \<Rightarrow> pydict \<Rightarrow> rendered result" where
  "render_foreach R blk indent st d =
     (let (st1, raw_name) = unique ''item'' st in
      rbind (render_field R st1 d ''collection'') (\<lambda>c.
      rbind (item d ''type'') (\<lambda>kind. rbind (java_type kind) (\<lambda>t. rbind (item d ''name'') (\<lambda>name.
      rbind (unbox kind raw_name) (\<lambda>u.
      rbind (item d ''body'') (\<lambda>b. rbind (blk (indent @ ''    '') st1 b) (\<lambda>(st2, ls).
      Inr (st2, [indent @ ''for (Object '' @ raw_name @ '' : '' @ c @ '') {'',
           indent @ ''    '' @ t @ '' '' @ py_str name @ '' = '' @ u @ '';''] @ ls @ [indent @ ''}''])))))))))"

definition render_state_set :: "renderer \<Rightarrow> string \<Rightarrow> rstate \<Rightarrow> pydict \<Rightarrow> rendered result" where
  "render_state_set R indent st d =
     rbind (render_field R st d ''key'') (\<lambda>k. rbind (render_field R st d ''value'') (\<lambda>x.
     rbind (render_field R st d ''context'') (\<lambda>c.
     Inr (st, [indent @ ''AuthoredStateModel.setState('' @ k @ '', '' @ x @ '', '' @ c @ '');'']))))"

definition render_statement ::
    "renderer \<Rightarrow> (string \<Rightarrow> rstate \<Rightarrow> pyval \<Rightarrow> rendered result) \<Rightarrow> string \<Rightarrow> rstate \<Rightarrow> pyval \<Rightarrow> rendered result" where
  "render_statement R blk indent st v =
     rbind (row_fields v) (\<lambda>d.
     rbind (item d ''op'') (\<lambda>opn.
     if opn = PStr ''let'' then render_let R indent st d
     else if opn = PStr ''set'' then render_set R indent st d
     else if opn = PStr ''return'' then render_return R indent st d
     else if opn = PStr ''assert'' then render_assert R indent st d
     else if opn = PStr ''if'' then render_if R blk indent st d
     else if opn = PStr ''while'' then render_while R blk indent st d
     else if opn = PStr ''foreach'' then render_foreach R blk indent st d
     else if opn = PStr ''state_set'' then render_state_set R indent st d
     else if opn = PStr ''expr'' then rbind (render_field R st d ''value'') (\<lambda>e. Inr (st, [indent @ e @ '';'']))
     else Inl (ValueError ''unsupported statement op'')))"

definition render_step ::
    "renderer \<Rightarrow> (string \<Rightarrow> rstate \<Rightarrow> pyval \<Rightarrow> rendered result) \<Rightarrow> string \<Rightarrow> rendered \<Rightarrow> pyval \<Rightarrow> rendered result" where
  "render_step R blk indent acc v = (case acc of (st, ls) \<Rightarrow>
     rbind (render_statement R blk indent st v) (\<lambda>(st', ls'). Inr (st', ls @ ls')))"

definition render_body ::
    "renderer \<Rightarrow> (string \<Rightarrow> rstate \<Rightarrow> pyval \<Rightarrow> rendered result) \<Rightarrow> string \<Rightarrow> rstate \<Rightarrow> pyval \<Rightarrow> rendered result" where
  "render_body R blk indent st v = rbind (row_list v) (foldM (render_step R blk indent) (st, []))"

lemma render_statement_cong:
  assumes f: "\<And>i st x. size x < size v \<Longrightarrow> f i st x = g i st x"
  shows "render_statement R f indent st v = render_statement R g indent st v"
proof (cases v)
  case (PDict d)
  have "f i st x = g i st x" if "map_of d k = Some x" for i st k x
    using f size_map_of_less[OF that] PDict by simp
  then have "render_if R f indent st d = render_if R g indent st d" "render_while R f indent st d = render_while R g indent st d"
    "render_foreach R f indent st d = render_foreach R g indent st d"
    unfolding render_if_def render_while_def render_foreach_def Let_def
    by (auto intro!: rbind_cong split: prod.splits)
  then show ?thesis by (simp add: render_statement_def PDict row_fields_def cong del: if_weak_cong)
qed (simp_all add: render_statement_def row_fields_def)

lemma render_body_cong [fundef_cong]:
  assumes "R = R'" "indent = indent'" "st = st'" "v = v'" and f: "\<And>i st x. size x < size v' \<Longrightarrow> f i st x = g i st x"
  shows "render_body R f indent st v = render_body R' g indent' st' v'"
proof (cases v')
  case (PList xs)
  have "render_step R f indent acc x = render_step R g indent acc x" if "x \<in> set xs" for acc x
    using size_mem_list_less[OF that] f PList unfolding render_step_def
    by (cases acc) (auto intro!: arg_cong2[where f = rbind] render_statement_cong)
  then have "foldM (render_step R f indent) (st, []) xs = foldM (render_step R g indent) (st, []) xs"
    by (intro foldM_cong refl) simp
  then show ?thesis using assms(1-4) PList by (simp add: render_body_def row_list_def)
qed (auto simp: render_body_def row_list_def assms(4))

function render_block :: "renderer \<Rightarrow> string \<Rightarrow> rstate \<Rightarrow> pyval \<Rightarrow> rendered result" where
  "render_block R indent st v = render_body R (\<lambda>i s x. render_block R i s x) indent st v"
  by pat_completeness auto
termination by (relation "measure (\<lambda>(R, indent, st, v). size v)") auto

declare render_block.simps [simp del, code del]

lemma render_block_code [code]: "render_block R indent st v = render_body R (render_block R) indent st v"
  by (rule render_block.simps)

section \<open>Events\<close>

text \<open>\<open>json.dumps(value, ensure_ascii=True)\<close>.\<close>

definition ascii_escape :: "char \<Rightarrow> string" where
  "ascii_escape c = (let n = (of_char c :: nat) in
     if n > 126 then CHR 0x5C # ''u00'' @ [hex_digit (n div 16), hex_digit (n mod 16)] else json_escape c)"

definition lit :: "pyval \<Rightarrow> string" where
  "lit v = (case v of PStr s \<Rightarrow> quoted (concat (map ascii_escape s)) | _ \<Rightarrow> canonical_json v)"

definition permission_names :: "string list" where
  "permission_names = [''LEVEL_ALL'', ''LEVEL_MODERATORS'', ''LEVEL_MODERATORS'', ''LEVEL_GAMEMASTERS'', ''LEVEL_OWNERS'']"

definition permission_name :: "int \<Rightarrow> string result" where
  "permission_name p =
     (if 0 \<le> p \<and> p < 5 then Inr (permission_names ! nat p)
      else if - 5 \<le> p \<and> p < 0 then Inr (permission_names ! nat (p + 5))
      else Inl (IndexError ''tuple index out of range''))"

definition config_permission :: "pydict \<Rightarrow> pyval" where
  "config_permission config = (if has_key config ''permission_level'' then dget config ''permission_level'' else PInt 0)"

definition is_26 :: "string \<Rightarrow> bool" where
  "is_26 version \<longleftrightarrow> startswith version ''26.''"

definition render_action_command_registration :: "pydict \<Rightarrow> string \<Rightarrow> string \<Rightarrow> string list result" where
  "render_action_command_registration binding version indent =
     rbind (item binding ''config'') (\<lambda>c. rbind (row_fields c) (\<lambda>config.
     rbind (item config ''action'') (\<lambda>a. rbind (row_fields a) (\<lambda>action.
     rbind (item config ''literal'') (\<lambda>literal. rbind (item action ''id'') (\<lambda>aid.
     rbind (item action ''inputs'') (\<lambda>v. rbind (row_list v) (\<lambda>inputs.
     rbind (mapM (\<lambda>r. rbind (row_fields r) (\<lambda>row. item row ''name'')) inputs) (\<lambda>names.
     (let commands = (if is_26 version then ''net.minecraft.commands.Commands'' else ''net.minecraft.server.command.CommandManager'')
      in rbind (if is_26 version
                then rbind (py_int (config_permission config)) (\<lambda>p. rbind (permission_name p) (\<lambda>n.
                       Inr (commands @ ''.hasPermission('' @ commands @ ''.'' @ n @ '')'')))
                else Inr (''source -> source.hasPermissionLevel('' @ py_str (config_permission config) @ '')'')) (\<lambda>requirement.
         (let require_player = (if is_26 version then ''context.getSource().getPlayerOrException();''
                else ''context.getSource().getPlayerOrThrow();'');
              values = join '', '' (map (\<lambda>n. ''com.mojang.brigadier.arguments.StringArgumentType.getString(context, '' @ lit n @ '')'') names);
              tail = ''.executes(context -> { '' @ require_player @ '' return AuthoredActions.submitEncoded('' @ lit aid
                @ '', context.getSource(), java.util.List.of('' @ values @ '')); })'';
              full = foldr (\<lambda>n t. ''.then('' @ commands @ ''.argument('' @ lit n
                @ '', com.mojang.brigadier.arguments.StringArgumentType.word())'' @ t @ '')'') names tail
          in Inr [indent @ ''net.fabricmc.fabric.api.command.v2.CommandRegistrationCallback.EVENT.''
             @ ''register((dispatcher, registryAccess, environment) -> dispatcher.register(''
             @ commands @ ''.literal('' @ lit literal @ '').requires('' @ requirement @ '')'' @ full @ ''));'']))))))))))))"

definition simple_events :: "(string \<times> string \<times> string) list" where
  "simple_events = [
     (''server_started'', ''net.fabricmc.fabric.api.event.lifecycle.v1.ServerLifecycleEvents.SERVER_STARTED.register(server -> '', ''(server));''),
     (''server_stopping'', ''net.fabricmc.fabric.api.event.lifecycle.v1.ServerLifecycleEvents.SERVER_STOPPING.register(server -> '', ''(server));''),
     (''server_tick'', ''net.fabricmc.fabric.api.event.lifecycle.v1.ServerTickEvents.END_SERVER_TICK.register(server -> '', ''(server));''),
     (''player_join'', ''net.fabricmc.fabric.api.networking.v1.ServerPlayConnectionEvents.JOIN.register((handler, sender, server) -> '', ''(handler.player));''),
     (''player_disconnect'', ''net.fabricmc.fabric.api.networking.v1.ServerPlayConnectionEvents.DISCONNECT.register((handler, server) -> '', ''(handler.player));''),
     (''player_respawn'', ''net.fabricmc.fabric.api.entity.event.v1.ServerPlayerEvents.COPY_FROM.register((oldPlayer, newPlayer, alive) -> '',
        ''(oldPlayer, newPlayer, alive));'')]"

definition command_registration :: "renderer \<Rightarrow> string \<Rightarrow> pydict \<Rightarrow> string \<Rightarrow> string list result" where
  "command_registration R indent config call =
     rbind (item config ''literal'') (\<lambda>l.
     rbind (py_int (config_permission config)) (\<lambda>permission.
     (let literal = string_expr (py_str l);
          prefix = indent @ ''net.fabricmc.fabric.api.command.v2.CommandRegistrationCallback.EVENT.''
            @ ''register((dispatcher, registryAccess, environment) -> dispatcher.register('';
          run_it = ''.executes(context -> '' @ call @ ''(context.getSource()))));''
      in if is_26 (r_version R)
         then rbind (permission_name permission) (\<lambda>check.
           Inr [prefix @ ''net.minecraft.commands.Commands.literal('' @ literal
             @ '').requires(net.minecraft.commands.Commands.hasPermission(net.minecraft.commands.Commands.'' @ check @ ''))'' @ run_it])
         else Inr [prefix @ ''net.minecraft.server.command.CommandManager.literal('' @ literal
             @ '').requires(source -> source.hasPermissionLevel('' @ show_int permission @ ''))'' @ run_it])))"

definition event_registration :: "renderer \<Rightarrow> string \<Rightarrow> pydict \<Rightarrow> string list result" where
  "event_registration R indent binding =
     rbind (item binding ''event'') (\<lambda>e. rbind (item binding ''function'') (\<lambda>f.
     (let event = py_str e; call = ''fn_'' @ py_str f in
      case map_of simple_events event of
        Some (pre, post) \<Rightarrow> Inr [indent @ pre @ call @ post]
      | None \<Rightarrow>
          if event = ''command'' then
            rbind (item binding ''config'') (\<lambda>c. rbind (row_fields c) (\<lambda>config.
            if has_key config ''action'' then render_action_command_registration binding (r_version R) indent
            else command_registration R indent config call))
          else Inl (ValueError ''unsupported event binding''))))"

section \<open>The program\<close>

definition ind16 :: string where
  "ind16 = replicate 16 (CHR '' '')"

definition dispatch_argument :: "nat \<times> pydict \<Rightarrow> (string list \<times> string) result" where
  "dispatch_argument ip = (case ip of (i, param) \<Rightarrow>
     (let raw = ''__arg_'' @ show_nat i in
      rbind (item param ''type'') (\<lambda>k. rbind (item param ''name'') (\<lambda>n.
      rbind (default_check (py_str k) raw) (\<lambda>check. rbind (unbox (PStr (py_str k)) raw) (\<lambda>u.
      Inr ([ind16 @ ''Object '' @ raw @ '' = args.get('' @ quoted (py_str n) @ '');'',
            ind16 @ ''if (!('' @ check @ '')) throw new IllegalArgumentException('' @ quoted (''invalid type for '' @ py_str n) @ '');''], u)))))))"

definition dispatcher_case :: "pydict \<Rightarrow> string list result" where
  "dispatcher_case fn =
     rbind (item fn ''id'') (\<lambda>i. rbind (item fn ''parameters'') (\<lambda>p. rbind (row_list p) (\<lambda>ps. rbind (mapM row_fields ps) (\<lambda>params.
     rbind (mapM (\<lambda>d. item d ''name'') params) (\<lambda>names.
     rbind (mapM dispatch_argument (zip [0..<length params] params)) (\<lambda>args.
     rbind (item fn ''return_type'') (\<lambda>ret.
     (let f = py_str i;
          keys_test = (if names = [] then ind16 @ ''if (args == null || !args.isEmpty()) ''
            else ind16 @ ''if (args == null || args.size() != '' @ show_nat (length names) @ '' || !(''
              @ join '' && '' (map (\<lambda>n. ''args.containsKey('' @ quoted (py_str n) @ '')'') names) @ '')) '');
          call = ''fn_'' @ f @ ''('' @ join '', '' (map snd args) @ '')''
      in Inr ([replicate 12 (CHR '' '') @ ''case '' @ quoted f @ '': {'',
            keys_test @ ''throw new IllegalArgumentException('' @ quoted (''invalid arguments for '' @ f) @ '');'']
          @ concat (map fst args)
          @ (if ret = PStr ''void'' then [ind16 @ call @ '';'', ind16 @ ''return null;''] else [ind16 @ ''return '' @ call @ '';''])
          @ [replicate 12 (CHR '' '') @ ''}'']))))))))) "

definition render_parameter :: "pydict \<Rightarrow> string result" where
  "render_parameter param =
     rbind (item param ''type'') (\<lambda>k. rbind (java_type k) (\<lambda>t. rbind (item param ''name'') (\<lambda>n. Inr (t @ '' '' @ py_str n))))"

definition render_function :: "renderer \<Rightarrow> nat \<Rightarrow> pydict \<Rightarrow> (nat \<times> string list) result" where
  "render_function R counter fn =
     rbind (item fn ''parameters'') (\<lambda>p. rbind (row_list p) (\<lambda>ps. rbind (mapM row_fields ps) (\<lambda>params.
     rbind (mapM render_parameter params) (\<lambda>texts.
     rbind (item fn ''return_type'') (\<lambda>ret. rbind (java_type ret) (\<lambda>t. rbind (item fn ''id'') (\<lambda>i. rbind (item fn ''body'') (\<lambda>b.
     (let names = map (\<lambda>d. PStr (py_str (dget d ''name''))) (filter (\<lambda>d. dget d ''type'' = PStr ''string'') params)
      in rbind (render_block R (replicate 8 (CHR '' '')) \<lparr>rs_counter = counter, rs_string_names = names\<rparr> b) (\<lambda>(st, ls).
         Inr (rs_counter st,
           [''    private static '' @ t @ '' fn_'' @ py_str i @ ''('' @ join '', '' texts @ '') {''] @ ls @ [''    }'', []]))))))))))) "

definition program_head :: "string \<Rightarrow> string list" where
  "program_head package =
     (if package = [] then [] else [''package '' @ package @ '';'', []])
     @ [''// MMM:TYPED_PLAN_OWNER'',
        ''public final class AuthoredProgram {'',
        ''    private AuthoredProgram() {}'',
        [],
        ''    public static Object invoke(String function, java.util.Map<String, Object> args) {'',
        ''        if (function == null) throw new IllegalArgumentException('' @ quoted ''function is required'' @ '');'',
        ''        switch (function) {'']"

definition program_middle :: "string list" where
  "program_middle =
     [''            default: throw new IllegalArgumentException('' @ quoted ''unknown function: '' @ '' + function);'',
      ''        }'', ''    }'', [], ''    public static void initialize() {'']"

definition render_program :: "renderer \<Rightarrow> pydict \<Rightarrow> string \<Rightarrow> string result" where
  "render_program R plan package =
     rbind (item plan ''functions'') (\<lambda>v. rbind (row_list v) (\<lambda>fs. rbind (mapM row_fields fs) (\<lambda>functions.
     rbind (mapM dispatcher_case functions) (\<lambda>cases.
     rbind (item plan ''initialize'') (\<lambda>i.
     rbind (render_block R (replicate 8 (CHR '' '')) \<lparr>rs_counter = 0, rs_string_names = []\<rparr> i) (\<lambda>(st, init).
     rbind (row_list (pget plan ''event_bindings'')) (\<lambda>bs. rbind (mapM row_fields bs) (\<lambda>bindings.
     rbind (mapM (event_registration R (replicate 8 (CHR '' ''))) bindings) (\<lambda>events.
     rbind (foldM (\<lambda>(counter, ls) fn. rbind (render_function R counter fn) (\<lambda>(c, ls'). Inr (c, ls @ ls')))
       (rs_counter st, []) functions) (\<lambda>(_, bodies).
     Inr (join [CHR 0x0A] (program_head package @ concat cases @ program_middle @ init @ concat events
       @ [''    }'', []] @ bodies @ [''}'']) @ [CHR 0x0A]))))))))))) "

definition render_typed_plan_java ::
    "(string \<Rightarrow> bool) \<Rightarrow> (pyval \<Rightarrow> pyval result) \<Rightarrow> pyval \<Rightarrow> string \<Rightarrow> pydict option \<Rightarrow> string \<Rightarrow> string result" where
  "render_typed_plan_java re_ok platform plan package capabilities version =
     rbind (validate_typed_plan_ir re_ok platform plan capabilities) (\<lambda>validated.
     render_program \<lparr>r_functions = plan_rows validated ''functions'',
        r_capabilities = (case capabilities of None \<Rightarrow> [] | Some d \<Rightarrow> d), r_version = strip version\<rparr>
       validated (strip package))"

end
