(* ===== verification/Typed_Plan_Render.thy ===== *)
theory Typed_Plan_Render
  imports Typed_Plan_Properties Typed_Plan_Java
begin

text \<open>
  The checker and the Java renderer agree on the language: whatever \<open>_Validator\<close> accepts, \<open>_Renderer\<close> renders
  without an error. The proof follows the two recursions side by side, one lemma for each kind of node. The
  one gap, shown by an example, is an identifier that is not a string: the checker compares \<open>str(value)\<close>, the
  renderer concatenates the value itself.
\<close>

section \<open>Computations that succeed\<close>

definition succeeds :: "'a result \<Rightarrow> bool" where
  "succeeds r \<longleftrightarrow> (\<exists>x. r = Inr x)"

named_theorems succeeds_intros "introduction rules for succeeds"

lemma succeeds_Inr [succeeds_intros, simp]: "succeeds (Inr x)"
  by (simp add: succeeds_def)

lemma succeeds_Inl [simp]: "\<not> succeeds (Inl e)"
  by (simp add: succeeds_def)

lemma succeeds_rbind: "succeeds (rbind m f) \<longleftrightarrow> (\<exists>x. m = Inr x \<and> succeeds (f x))"
  by (cases m) simp_all

lemma succeeds_rbindI [succeeds_intros]: "succeeds m \<Longrightarrow> (\<And>x. m = Inr x \<Longrightarrow> succeeds (f x)) \<Longrightarrow> succeeds (rbind m f)"
  by (auto simp: succeeds_def)

lemma succeeds_pairI [succeeds_intros]: "(\<And>a b. p = (a, b) \<Longrightarrow> succeeds (f a b)) \<Longrightarrow> succeeds (case p of (a, b) \<Rightarrow> f a b)"
  by (cases p) simp

lemma succeeds_item [succeeds_intros]: "has_key d k \<Longrightarrow> succeeds (item d k)"
  by (auto simp: succeeds_def has_key_dget)

lemma succeeds_row_list [succeeds_intros]: "v = PList xs \<Longrightarrow> succeeds (row_list v)"
  by (auto simp: succeeds_def)

lemma succeeds_row_fields [succeeds_intros]: "v = PDict d \<Longrightarrow> succeeds (row_fields v)"
  by (auto simp: succeeds_def)

lemma succeeds_mapM [succeeds_intros]: "(\<And>x. x \<in> set xs \<Longrightarrow> succeeds (f x)) \<Longrightarrow> succeeds (mapM f xs)"
  unfolding succeeds_def by (rule mapM_all_Inr)

lemma mapM_each: "mapM f xs = Inr ys \<Longrightarrow> x \<in> set xs \<Longrightarrow> \<exists>y. f x = Inr y"
  by (auto simp: mapM_Inr_iff list_all2_conv_all_nth in_set_conv_nth)

lemma succeeds_foldM [succeeds_intros]: "(\<And>a x. x \<in> set xs \<Longrightarrow> succeeds (f a x)) \<Longrightarrow> succeeds (foldM f s xs)"
proof (induction xs arbitrary: s)
  case (Cons x xs)
  then have "succeeds (f s x)" by simp
  with Cons show ?case by (auto intro!: succeeds_rbindI)
qed simp

lemma item_has_key: "has_key d k \<Longrightarrow> item d k = Inr (dget d k)"
  by (simp add: has_key_dget)

lemma row_list_PList: "v = PList xs \<Longrightarrow> row_list v = Inr xs"
  by simp

lemma row_fields_PDict: "v = PDict d \<Longrightarrow> row_fields v = Inr d"
  by simp

lemmas reads = item_has_key row_list_PList row_fields_PDict

lemma succeeds_sub_item: "has_key d k \<Longrightarrow> succeeds (f (dget d k)) \<Longrightarrow> succeeds (sub_item f d k)"
  by (simp add: sub_item_def reads)

lemma succeeds_render_list:
  "has_key d k \<Longrightarrow> dget d k = PList xs \<Longrightarrow> (\<And>x. x \<in> set xs \<Longrightarrow> succeeds (f x)) \<Longrightarrow> succeeds (render_list f d k)"
  by (simp add: render_list_def reads) (intro succeeds_intros)

section \<open>String identifiers\<close>

definition id_string :: "pydict \<Rightarrow> bool" where
  "id_string d \<longleftrightarrow> (node_op d ''call'' \<longrightarrow> is_str (dget d ''function'')) \<and> (node_op d ''capability'' \<longrightarrow> is_str (dget d ''id''))"

definition string_ids :: "pyval \<Rightarrow> bool" where
  "string_ids v \<longleftrightarrow> list_all id_string (walk_nodes v)"

definition source_value :: "pyval \<Rightarrow> bool" where
  "source_value v \<longleftrightarrow> wf_value v \<and> string_ids v"

lemma source_value_dget: "source_value (PDict d) \<Longrightarrow> source_value (dget d k)"
proof -
  assume s: "source_value (PDict d)"
  have "string_ids (dget d k)"
  proof (cases "map_of d k")
    case None
    then show ?thesis by (simp add: string_ids_def dget_def)
  next
    case (Some v)
    then have "set (walk_nodes v) \<subseteq> set (walk_nodes (PDict d))" by (force dest: map_of_SomeD)
    with s Some show ?thesis by (auto simp: source_value_def string_ids_def dget_def list_all_iff)
  qed
  with s show ?thesis by (simp add: source_value_def del: wf_value.simps)
qed

lemma source_value_item: "source_value (PList xs) \<Longrightarrow> x \<in> set xs \<Longrightarrow> source_value x"
  by (auto simp: source_value_def string_ids_def list_all_iff)

lemma source_value_id: "source_value (PDict d) \<Longrightarrow> id_string d"
  by (simp add: source_value_def string_ids_def)

lemma source_value_wf: "source_value v \<Longrightarrow> wf_value v"
  by (simp add: source_value_def)

section \<open>Expressions\<close>

text \<open>The renderer reads the host contracts the checker has checked.\<close>

definition contract_known :: "renderer \<Rightarrow> string \<Rightarrow> bool" where
  "contract_known R c \<longleftrightarrow> has_key (r_capabilities R) c \<and>
     (\<exists>d. dget (r_capabilities R) c = PDict d \<and> has_key d ''owner'' \<and> has_key d ''method'')"

definition same_host :: "validator \<Rightarrow> renderer \<Rightarrow> bool" where
  "same_host V R \<longleftrightarrow> (\<forall>c. c \<in> set (keys (v_capabilities V)) \<longrightarrow> contract_known R c)"

lemma literal_renders:
  assumes "wf_value (PDict d)" "literal_type d = Inr t"
  shows "succeeds (literal_text d)"
proof -
  have keys: "has_key d ''type''" "has_key d ''value''" and ty: "type_of (dget d ''type'') False = Inr t"
    and chk: "literal_check t (dget d ''value'') = Inr ()"
    using assms(2) by (auto simp: literal_type_def check_keys_Inr)
  have "dget d ''type'' = PStr t" using type_of_PStr[OF _ ty] assms(1) by (simp del: wf_value.simps)
  moreover have "t \<in> set SCALAR_TYPES" using ty by (auto simp: type_of_def Let_def split: if_splits)
  ultimately show ?thesis using keys chk unfolding literal_text_def succeeds_rbind
    by (cases "dget d ''value''")
      (auto simp: SCALAR_TYPES_def literal_check_def has_key_dget string_expr_of_def double_text_def object_text_def split: if_splits)
qed

lemma state_read_scalar: "t \<in> set SCALAR_TYPES \<Longrightarrow> succeeds (state_read (PStr t) e)"
  by (auto simp: state_read_def SCALAR_TYPES_def)

text \<open>One node of an expression: the recursive calls succeed on every accepted child.\<close>

lemma entry_renders:
  assumes src: "source_value x" and run: "map_entry sub x = Inr cs"
    and sub: "\<And>y t cs. size y < size x \<Longrightarrow> source_value y \<Longrightarrow> sub y = Inr (t, cs) \<Longrightarrow> succeeds (rsub y)"
  shows "succeeds (entry_text rsub x)"
proof -
  obtain e k cs1 v cs2 where e: "x = PDict e" "has_key e ''key''" "has_key e ''value''"
    "sub (dget e ''key'') = Inr (k, cs1)" "sub (dget e ''value'') = Inr (v, cs2)"
    using run by (auto simp: map_entry_def check_keys_Inr)
  have "succeeds (rsub (dget e ''key''))" "succeeds (rsub (dget e ''value''))"
    using e sub[OF _ _ e(4)] sub[OF _ _ e(5)] source_value_dget[of e] size_dget_less[of e] src by auto
  with e show ?thesis by (auto simp: entry_text_def reads intro!: succeeds_intros succeeds_sub_item)
qed

lemma typed_args_sub: "typed_args sub args params = Inr cs \<Longrightarrow> length args = length params \<Longrightarrow> x \<in> set args \<Longrightarrow> \<exists>t c. sub x = Inr (t, c)"
proof -
  assume run: "typed_args sub args params = Inr cs" and len: "length args = length params" and x: "x \<in> set args"
  then obtain i where i: "i < length args" "x = args ! i" by (metis in_set_conv_nth)
  from run i len show ?thesis by (auto simp: typed_args_def mapM_Inr_iff list_all2_conv_all_nth)
qed

lemma expr_node_renders:
  assumes src: "source_value raw" and host: "same_host V R" and run: "expression_node V env sub raw = Inr (t, cs)"
    and sub: "\<And>y t cs. size y < size raw \<Longrightarrow> source_value y \<Longrightarrow> sub y = Inr (t, cs) \<Longrightarrow> succeeds (rsub y)"
  shows "succeeds (expr_node R names rsub raw)"
proof -
  obtain d where d: "raw = PDict d" using run by (auto simp: expression_node_def)
  have sd: "source_value (PDict d)" and wd: "wf_value (PDict d)" using src d source_value_wf by blast+
  have s1: "succeeds (sub_item rsub d k)" if "has_key d k" "\<exists>t cs. sub (dget d k) = Inr (t, cs)" for k
    using that sub source_value_dget[OF sd] size_dget_less[of d k] by (auto simp: d intro!: succeeds_sub_item)
  have item: "source_value x \<and> size x < size raw" if "dget d k = PList xs" "x \<in> set xs" for k xs x
    using that source_value_dget[OF sd, of k] size_dget_item_less[OF that(2,1)] by (auto simp: d intro: source_value_item)
  have s2: "succeeds (render_list rsub d k)" if "has_key d k" "dget d k = PList xs" "\<And>x. x \<in> set xs \<Longrightarrow> \<exists>t cs. sub x = Inr (t, cs)" for k xs
    using that item[OF that(2)] sub by (intro succeeds_render_list) blast+
  note run' = run[unfolded d expression_node_def as_map_def Let_def, simplified]
  have op: "has_key d ''op'' \<and> dget d ''op'' = PStr opn" if "node_op d opn" for opn
    using that by (auto simp: node_op_def dget_def has_key_map_of split: option.splits)
  consider (lit) "node_op d ''literal''" "literal_type d = Inr t"
    | (ref) "node_op d ''ref''" "expr_ref env d = Inr (t, cs)"
    | (un) "node_op d ''unary''" "expr_unary sub d = Inr (t, cs)"
    | (bin) "node_op d ''binary''" "expr_binary sub d = Inr (t, cs)"
    | (list) "node_op d ''list''" "expr_list sub d = Inr (t, cs)"
    | (map) "node_op d ''map''" "expr_map sub d = Inr (t, cs)"
    | (call) "node_op d ''call''" "expr_call (v_signatures V) sub d = Inr (t, cs)"
    | (cap) "node_op d ''capability''" "expr_capability (v_capabilities V) sub d = Inr (t, cs)"
    | (get) "node_op d ''state_get''" "expr_state_get sub d = Inr (t, cs)"
    using run' by (simp add: op_word[OF wd] split: if_splits)
  then show ?thesis unfolding d
  proof cases
    case lit
    then show "succeeds (expr_node R names rsub (PDict d))"
      using op[OF lit(1)] literal_renders[OF wd] by (simp add: expr_node_def reads)
  next
    case ref
    then show "succeeds (expr_node R names rsub (PDict d))"
      using op[OF ref(1)] by (auto simp: expr_node_def reads expr_ref_def check_keys_Inr intro!: succeeds_intros)
  next
    case un
    then show "succeeds (expr_node R names rsub (PDict d))"
      using op[OF un(1)] by (auto simp: expr_node_def reads expr_unary_def check_keys_Inr intro!: succeeds_intros s1)
  next
    case bin
    then show "succeeds (expr_node R names rsub (PDict d))"
      using op[OF bin(1)]
      by (auto simp: expr_node_def reads binary_text_def expr_binary_def check_keys_Inr intro!: succeeds_intros s1)
  next
    case list
    then show "succeeds (expr_node R names rsub (PDict d))"
      using op[OF list(1)]
      by (auto simp: expr_node_def reads expr_list_def check_keys_Inr mapM_Inr_iff list_all2_conv_all_nth in_set_conv_nth intro!: succeeds_intros s2)
  next
    case map
    obtain xs css where xs: "dget d ''entries'' = PList xs" "mapM (map_entry sub) xs = Inr css" "has_key d ''entries''"
      using map(2) by (auto simp: expr_map_def check_keys_Inr)
    have "succeeds (entry_text rsub x)" if x: "x \<in> set xs" for x
    proof -
      obtain c where c: "map_entry sub x = Inr c" using mapM_each[OF xs(2) x] by blast
      have *: "source_value x" "size x < size raw" using item[OF xs(1) x] by simp_all
      show ?thesis using *(1) c by (rule entry_renders) (use sub *(2) in auto)
    qed
    then show "succeeds (expr_node R names rsub (PDict d))"
      using op[OF map(1)] xs(1,3) by (auto simp: expr_node_def reads map_text_def intro!: succeeds_intros)
  next
    case call
    obtain params args c f where args: "dget d ''args'' = PList args" "length args = length params" "typed_args sub args params = Inr c"
      and keys: "has_key d ''function''" "has_key d ''args''"
      using call(2) by (auto simp: expr_call_def check_keys_Inr split: option.splits if_splits)
    have "succeeds (render_list rsub d ''args'')" using keys(2) args(1) typed_args_sub[OF args(3,2)] by (rule s2)
    moreover obtain f where "dget d ''function'' = PStr f" using source_value_id[OF sd] call(1) by (auto simp: id_string_def is_str_iff)
    ultimately show "succeeds (expr_node R names rsub (PDict d))"
      using op[OF call(1)] keys(1) by (auto simp: expr_node_def reads intro!: succeeds_intros)
  next
    case cap
    obtain contract args c where args: "dget d ''args'' = PList args" "length args = length (cc_parameters contract)"
      "typed_args sub args (cc_parameters contract) = Inr c" and keys: "has_key d ''id''" "has_key d ''args''"
      and i: "map_of (v_capabilities V) (py_str (dget d ''id'')) = Some contract"
      using cap(2) by (auto simp: expr_capability_def check_keys_Inr split: option.splits if_splits)
    have "succeeds (render_list rsub d ''args'')" using keys(2) args(1) typed_args_sub[OF args(3,2)] by (rule s2)
    moreover obtain s where s: "dget d ''id'' = PStr s" using source_value_id[OF sd] cap(1) by (auto simp: id_string_def is_str_iff)
    moreover have "s \<in> set (keys (v_capabilities V))" using i s by (force dest: map_of_SomeD)
    then obtain e where "has_key (r_capabilities R) s" "dget (r_capabilities R) s = PDict e" "has_key e ''owner''" "has_key e ''method''"
      using host by (auto simp: same_host_def contract_known_def)
    ultimately show "succeeds (expr_node R names rsub (PDict d))"
      using op[OF cap(1)] keys(1) by (auto simp: expr_node_def reads capability_text_def intro!: succeeds_intros)
  next
    case get
    have ty: "type_of (dget d ''type'') False = Inr t" and keys: "has_key d ''key''" "has_key d ''context''" "has_key d ''type''"
      and parts: "\<exists>t cs. sub (dget d ''key'') = Inr (t, cs)" "\<exists>t cs. sub (dget d ''context'') = Inr (t, cs)"
      using get(2) by (auto simp: expr_state_get_def check_keys_Inr split: if_splits)
    have "dget d ''type'' = PStr t" using type_of_PStr[OF _ ty] wd by (simp del: wf_value.simps)
    moreover have "t \<in> set SCALAR_TYPES" using ty by (auto simp: type_of_def Let_def split: if_splits)
    ultimately show "succeeds (expr_node R names rsub (PDict d))"
      using op[OF get(1)] keys by (auto simp: expr_node_def reads intro!: succeeds_intros s1 parts state_read_scalar)
  qed
qed

lemma expression_renders:
  "expression V env raw = Inr (t, cs) \<Longrightarrow> source_value raw \<Longrightarrow> same_host V R \<Longrightarrow> succeeds (render_expr R names raw)"
proof (induction V env raw arbitrary: t cs rule: expression.induct)
  case (1 V env raw)
  from "1.prems"(1) have "expression_node V env (expression V env) raw = Inr (t, cs)" by (simp add: expression.simps[of V env raw])
  then have "succeeds (expr_node R names (render_expr R names) raw)"
    by (rule expr_node_renders[OF "1.prems"(2,3)]) (use "1.IH" "1.prems"(3) in blast)
  then show ?case by (simp add: render_expr.simps[of R names raw])
qed

section \<open>Statements\<close>

lemma scalar_type: "wf_value v \<Longrightarrow> type_of v False = Inr t \<Longrightarrow> v = PStr t \<and> t \<in> set SCALAR_TYPES"
  using type_of_PStr[of v False t] by (auto simp: type_of_def Let_def split: if_splits)

lemma java_type_scalar: "t \<in> set SCALAR_TYPES \<Longrightarrow> succeeds (java_type (PStr t))"
  by (auto simp: java_type_def SCALAR_TYPES_def JAVA_TYPES_def)

lemma unbox_scalar: "t \<in> set SCALAR_TYPES \<Longrightarrow> succeeds (unbox (PStr t) e)"
  by (auto simp: unbox_def SCALAR_TYPES_def)

lemma statement_renders:
  assumes src: "source_value raw" and host: "same_host (bc_validator B) R" and run: "statement B blk env raw = Inr (env', r, cs)"
    and blk: "\<And>y env p i st. size y < size raw \<Longrightarrow> source_value y \<Longrightarrow> blk env y = Inr p \<Longrightarrow> succeeds (rblk i st y)"
  shows "succeeds (render_statement R rblk indent st raw)"
proof -
  obtain d where d: "raw = PDict d" using run by (auto simp: statement_def)
  have sd: "source_value (PDict d)" and wd: "wf_value (PDict d)" using src d source_value_wf by blast+
  have ex: "succeeds (render_field R st d k)" if "has_key d k" "\<exists>env t cs. typed_expr B env (dget d k) = Inr (t, cs)" for k st
    using that expression_renders[OF _ source_value_dget[OF sd] host] by (auto simp: render_field_def reads)
  have bl: "succeeds (rblk i st (dget d k))" if "\<exists>env p. blk env (dget d k) = Inr p" for k i st
    using that blk size_dget_less[of d k] source_value_dget[OF sd] by (auto simp: d)
  have ty: "succeeds (java_type (dget d k)) \<and> succeeds (unbox (dget d k) e)" if "\<exists>t. type_of (dget d k) False = Inr t" for k e
    using that scalar_type[of "dget d k"] wd java_type_scalar unbox_scalar by (auto simp del: wf_value.simps)
  have op: "has_key d ''op'' \<and> dget d ''op'' = PStr opn" if "node_op d opn" for opn
    using that by (auto simp: node_op_def dget_def has_key_map_of split: option.splits)
  note run' = run[unfolded d statement_def as_map_def Let_def, simplified]
  note parts = render_statement_def reads check_keys_Inr
  consider (let1) "node_op d ''let''" "stmt_let B env d = Inr (env', r, cs)"
    | (set1) "node_op d ''set''" "stmt_set B env d = Inr (env', r, cs)"
    | (return) "node_op d ''return''" "stmt_return B env d = Inr (env', r, cs)"
    | (assert) "node_op d ''assert''" "stmt_assert B env d = Inr (env', r, cs)"
    | (if1) "node_op d ''if''" "stmt_if B blk env d = Inr (env', r, cs)"
    | (while) "node_op d ''while''" "stmt_while B blk env d = Inr (env', r, cs)"
    | (foreach) "node_op d ''foreach''" "stmt_foreach B blk env d = Inr (env', r, cs)"
    | (state) "node_op d ''state_set''" "stmt_state_set B env d = Inr (env', r, cs)"
    | (expr) "node_op d ''expr''" "stmt_expr B env d = Inr (env', r, cs)"
    using run' by (simp add: op_word[OF wd] split: if_splits)
  then show ?thesis unfolding d
  proof cases
    case let1
    then show "succeeds (render_statement R rblk indent st (PDict d))"
      using op[OF let1(1)] ty[of "''type''"] by (auto simp: parts stmt_let_def render_let_def split: if_splits intro!: succeeds_intros ex)
  next
    case set1
    then show "succeeds (render_statement R rblk indent st (PDict d))"
      using op[OF set1(1)] by (auto simp: parts stmt_set_def render_set_def split: option.splits intro!: succeeds_intros ex) blast
  next
    case return
    then show "succeeds (render_statement R rblk indent st (PDict d))"
      using op[OF return(1)] by (auto simp: parts stmt_return_def render_return_def split: if_splits intro!: succeeds_intros ex)
  next
    case assert
    then show "succeeds (render_statement R rblk indent st (PDict d))"
      using op[OF assert(1)]
      by (auto simp: parts stmt_assert_def condition_def render_assert_def string_expr_of_def is_str_iff split: if_splits intro!: succeeds_intros ex)
  next
    case if1
    then show "succeeds (render_statement R rblk indent st (PDict d))"
      using op[OF if1(1)] by (auto simp: parts stmt_if_def condition_def render_if_def intro!: succeeds_intros ex bl)
  next
    case while
    then show "succeeds (render_statement R rblk indent st (PDict d))"
      using op[OF while(1)]
      by (auto simp: parts stmt_while_def condition_def render_while_def py_int_def split: pyval.splits intro!: succeeds_intros ex bl)
  next
    case foreach
    then show "succeeds (render_statement R rblk indent st (PDict d))"
      using op[OF foreach(1)] ty[of "''type''"]
      by (auto simp: parts stmt_foreach_def render_foreach_def split: if_splits intro!: succeeds_intros ex bl)
  next
    case state
    then show "succeeds (render_statement R rblk indent st (PDict d))"
      using op[OF state(1)] by (auto simp: parts stmt_state_set_def render_state_set_def split: if_splits intro!: succeeds_intros ex)
  next
    case expr
    then show "succeeds (render_statement R rblk indent st (PDict d))"
      using op[OF expr(1)] by (auto simp: parts stmt_expr_def intro!: succeeds_intros ex)
  qed
qed

lemma block_renders:
  "block B env raw = Inr p \<Longrightarrow> source_value raw \<Longrightarrow> same_host (bc_validator B) R \<Longrightarrow> succeeds (render_block R indent st raw)"
proof (induction B env raw arbitrary: p indent st rule: block.induct)
  case (1 B env raw)
  from "1.prems"(1) obtain xs env' where xs: "raw = PList xs"
    and run: "foldM (block_step B (block B)) (env, False, []) xs = Inr (env', p)"
    by (cases p) (auto simp: block.simps[of B env raw] block_body_def)
  have "succeeds (render_step R (render_block R) indent acc x)" if x: "x \<in> set xs" for acc x
  proof -
    obtain e r c b where "block_step B (block B) (e, r, c) x = Inr b" using foldM_each[OF run x] by (metis prod_cases3)
    then obtain f where "statement B (block B) e x = Inr f" by (auto simp: block_step_eq split: if_splits)
    then obtain e' r' c' where s: "statement B (block B) e x = Inr (e', r', c')" by (metis prod_cases3)
    have sx: "source_value x" using "1.prems"(2) x by (auto simp: xs intro: source_value_item)
    have "succeeds (render_statement R (render_block R) indent st x)" for st
      using sx "1.prems"(3) s
    proof (rule statement_renders)
      fix y env p i st assume "size y < size x" "source_value y" "block B env y = Inr p"
      then show "succeeds (render_block R i st y)"
        using "1.IH"[of y env p] size_mem_list_less[OF x] "1.prems"(3) by (simp add: xs)
    qed
    then show ?thesis unfolding render_step_def by (cases acc) (auto intro!: succeeds_intros)
  qed
  then show ?case by (simp add: render_block.simps[of R indent st "PList xs"] render_body_def xs reads) (intro succeeds_intros)
qed

section \<open>Functions\<close>

text \<open>A parameter row with a scalar type, as the checker leaves it.\<close>

definition param_row :: "pydict \<Rightarrow> bool" where
  "param_row d \<longleftrightarrow> has_key d ''name'' \<and> has_key d ''type'' \<and> (\<exists>t \<in> set SCALAR_TYPES. dget d ''type'' = PStr t)"

lemma param_rows:
  assumes "parameters v = Inr ps" "wf_value v"
  obtains rows where "v = PList (map PDict rows)" "list_all param_row rows"
proof (rule parameters_rows[OF assms(1)])
  fix xs assume xs: "v = PList xs"
    "\<And>x. x \<in> set xs \<Longrightarrow> \<exists>d n t. x = PDict d \<and> check_keys d [''name'', ''type''] [''name'', ''type''] = Inr () \<and>
       name_of (dget d ''name'') = Inr n \<and> type_of (dget d ''type'') False = Inr t"
  have each: "x = PDict (row_of x) \<and> param_row (row_of x)" if x: "x \<in> set xs" for x
  proof -
    obtain d n t where d: "x = PDict d" "check_keys d [''name'', ''type''] [''name'', ''type''] = Inr ()"
      "type_of (dget d ''type'') False = Inr t" using xs(2)[OF x] by blast
    have "wf_value x" using assms(2) x unfolding xs(1) by (rule wf_value_item)
    then have "wf_value (dget d ''type'')" by (simp add: d(1) del: wf_value.simps)
    from scalar_type[OF this d(3)] d show ?thesis by (auto simp: param_row_def row_of_def check_keys_Inr)
  qed
  show ?thesis
  proof (rule that)
    show "v = PList (map PDict (map row_of xs))" unfolding xs(1) using each by (simp add: map_idI)
    show "list_all param_row (map row_of xs)" using each by (simp add: list_all_iff)
  qed
qed

lemma mapM_row_fields: "mapM row_fields (map PDict rows) = Inr rows"
  by (induction rows) (simp_all add: reads)

lemma param_row_renders: "param_row d \<Longrightarrow> succeeds (render_parameter d)"
  using java_type_scalar by (auto simp: param_row_def render_parameter_def reads intro!: succeeds_intros)

lemma dispatch_argument_renders: "param_row d \<Longrightarrow> succeeds (dispatch_argument (i, d))"
proof -
  assume d: "param_row d"
  then obtain t where t: "dget d ''type'' = PStr t" "t \<in> set SCALAR_TYPES" by (auto simp: param_row_def)
  have "succeeds (default_check t e)" for e using t(2) by (auto simp: default_check_def boxed_type_def SCALAR_TYPES_def)
  with d t unbox_scalar[OF t(2)] show ?thesis
    by (auto simp: param_row_def dispatch_argument_def Let_def reads intro!: succeeds_intros)
qed

lemma return_type_renders: "wf_value v \<Longrightarrow> type_of v True = Inr t \<Longrightarrow> succeeds (java_type v)"
  using type_of_PStr[of v True t] by (auto simp: type_of_def Let_def java_type_def SCALAR_TYPES_def JAVA_TYPES_def split: if_splits)

lemma function_renders:
  assumes ok: "function_ok fn f" and src: "source_value (PDict fn)"
    and body: "block B env (dget fn ''body'') = Inr p" "same_host (bc_validator B) R"
  shows "succeeds (dispatcher_case fn)" "succeeds (render_function R counter fn)"
proof -
  obtain ps t where ps: "parameters (dget fn ''parameters'') = Inr ps" and t: "type_of (dget fn ''return_type'') True = Inr t"
    using ok by (auto simp: function_ok_def)
  have keys: "has_key fn ''id''" "has_key fn ''parameters''" "has_key fn ''return_type''" "has_key fn ''body''"
    using ok by (auto simp: function_ok_def check_keys_Inr function_fields_def)
  have wf: "wf_value (dget fn k)" for k using source_value_wf[OF source_value_dget[OF src]] .
  obtain rows where rows: "dget fn ''parameters'' = PList (map PDict rows)" "list_all param_row rows"
    using param_rows[OF ps wf] .
  have "succeeds (mapM (\<lambda>d. item d ''name'') rows)" "succeeds (mapM render_parameter rows)"
    "succeeds (mapM dispatch_argument (zip [0..<length rows] rows))"
    using rows(2) by (auto simp: list_all_iff param_row_def intro!: succeeds_intros dispatch_argument_renders param_row_renders dest!: set_zip_rightD)
  moreover have "succeeds (render_block R indent st (dget fn ''body''))" for indent st
    using block_renders[OF body(1) source_value_dget[OF src] body(2)] .
  ultimately show "succeeds (dispatcher_case fn)" "succeeds (render_function R counter fn)"
    using keys rows(1) return_type_renders[OF wf t]
    by (auto simp: dispatcher_case_def render_function_def reads mapM_row_fields Let_def intro!: succeeds_intros)
qed

section \<open>Event bindings\<close>

lemma permission_name_ok: "0 \<le> p \<Longrightarrow> p \<le> 4 \<Longrightarrow> succeeds (permission_name p)"
  by (simp add: permission_name_def)

text \<open>What a validated command configuration holds.\<close>

definition command_config :: "pydict \<Rightarrow> bool" where
  "command_config c \<longleftrightarrow> has_key c ''literal'' \<and> has_key c ''permission_level'' \<and>
     (\<exists>p. dget c ''permission_level'' = PInt p \<and> 0 \<le> p \<and> p \<le> 4)"

definition action_rows :: "pydict \<Rightarrow> bool" where
  "action_rows a \<longleftrightarrow> has_key a ''id'' \<and> has_key a ''inputs'' \<and>
     (\<exists>rows. dget a ''inputs'' = PList (map PDict rows) \<and> list_all (\<lambda>r. has_key r ''name'') rows)"

lemma action_input_row: "action_input names x = Inr ns \<Longrightarrow> \<exists>r. x = PDict r \<and> has_key r ''name''"
  by (auto simp: action_input_def dget_def has_key_map_of split: pyval.splits option.splits)

lemma validated_action_rows: "validate_action_contract v ps = Inr a \<Longrightarrow> action_rows a"
proof -
  assume run: "validate_action_contract v ps = Inr a"
  then obtain inputs names where a: "v = PDict a" "same_keys a [''id'', ''label'', ''inputs'']" "dget a ''inputs'' = PList inputs"
    and ins: "foldM action_input [] inputs = Inr names"
    by (auto simp: validate_action_contract_def split: pyval.splits if_splits)
  have each: "x = PDict (row_of x) \<and> has_key (row_of x) ''name''" if "x \<in> set inputs" for x
    using foldM_each[OF ins that] action_input_row by (fastforce simp: row_of_def)
  have "inputs = map PDict (map row_of inputs)" using each by (simp add: map_idI)
  moreover have "list_all (\<lambda>r. has_key r ''name'') (map row_of inputs)" using each by (simp add: list_all_iff)
  moreover have "has_key a ''id''" "has_key a ''inputs''" using a(2) by (auto simp: same_keys_def has_key_def)
  ultimately show ?thesis using a(3) unfolding action_rows_def by metis
qed

lemma command_renders: "command_config c \<Longrightarrow> succeeds (command_registration R indent c call)"
  using permission_name_ok
  by (auto simp: command_config_def command_registration_def config_permission_def py_int_def reads Let_def intro!: succeeds_intros)

lemma action_command_renders:
  assumes "command_config c" "has_key c ''action''" "dget c ''action'' = PDict a" "action_rows a"
    and "has_key b ''config''" "dget b ''config'' = PDict c"
  shows "succeeds (render_action_command_registration b version indent)"
proof -
  obtain rows where rows: "dget a ''inputs'' = PList (map PDict rows)" "list_all (\<lambda>r. has_key r ''name'') rows"
    and keys: "has_key a ''id''" "has_key a ''inputs''" using assms(4) by (auto simp: action_rows_def)
  have "succeeds (mapM (\<lambda>r. rbind (row_fields r) (\<lambda>row. item row ''name'')) (map PDict rows))"
    using rows(2) by (intro succeeds_mapM) (auto simp: list_all_iff reads)
  then show ?thesis using assms rows(1) keys permission_name_ok
    by (auto simp: render_action_command_registration_def command_config_def config_permission_def py_int_def reads Let_def
        intro!: succeeds_intros)
qed

lemma dget_update: "dget (AList.update k v d) j = (if j = k then v else dget d j)"
  by (simp add: dget_def update_conv)

lemma has_key_update: "has_key (AList.update k v d) j \<longleftrightarrow> j = k \<or> has_key d j"
  by (simp add: has_key_map_of update_conv)

lemma binding_config_command:
  assumes "binding_config ''command'' action v = Inr c"
  shows "command_config c \<and> (\<exists>raw. v = PDict raw \<and> (has_key c ''action'' \<longleftrightarrow> action \<noteq> None \<or> has_key raw ''action'')) \<and>
    (\<forall>a. action = Some a \<longrightarrow> dget c ''action'' = PDict a)"
proof -
  obtain raw where raw: "v = PDict raw" using assms by (auto simp: binding_config_def split: pyval.splits)
  obtain p where v: "v = PDict raw" "COMMAND_LITERAL_match (str_or_empty (dget raw ''literal''))" "0 \<le> p" "p \<le> 4"
    and c: "c = (case action of None \<Rightarrow> AList.update ''permission_level'' (PInt p) raw
        | Some a \<Rightarrow> AList.update ''action'' (PDict a) (AList.update ''permission_level'' (PInt p) raw))"
    using assms raw that that[of 0]
    by (cases "has_key raw ''permission_level''") (auto simp: binding_config_def Let_def split: pyval.splits if_splits)
  have "has_key raw ''literal''" using v(2)
    by (cases "map_of raw ''literal''") (auto simp: COMMAND_LITERAL_match_def str_or_empty_def dget_def has_key_map_of)
  then show ?thesis using v unfolding c command_config_def by (cases action) (auto simp: dget_update has_key_update)
qed

lemma event_binding_renders:
  assumes "event_binding sigs seen v = Inr (i, b)"
  shows "succeeds (event_registration R indent b)"
proof -
  obtain raw where raw: "v = PDict raw" using assms by (auto simp: event_binding_def split: pyval.splits)
  let ?e = "py_str (dget raw ''event'')" and ?c = "dget raw ''config''" and ?f = "py_str (dget raw ''function'')"
  note run = assms[unfolded event_binding_def raw Let_def, simplified]
  obtain contract where ev: "map_of EVENT_SIGNATURES ?e = Some contract" using run by (cases "map_of EVENT_SIGNATURES ?e") (auto split: if_splits)
  obtain action where act: "action_of_config ?e ?c = Inr action" using run ev by (auto split: if_splits)
  obtain actual where fn: "map_of sigs ?f = Some actual" using run ev act by (cases "map_of sigs ?f") (auto split: if_splits)
  obtain c where conf: "binding_config ?e action ?c = Inr c"
    and b: "b = [(''event'', PStr ?e), (''function'', PStr ?f), (''entry_point_index'', PInt i), (''config'', PDict c)]"
    using run ev act fn by (cases "dget raw ''entry_point_index''") (auto split: if_splits)
  have known: "?e \<in> set (keys EVENT_SIGNATURES)" using ev by (force dest: map_of_SomeD)
  have fields: "has_key b ''event''" "has_key b ''function''" "has_key b ''config''" "dget b ''event'' = PStr ?e" "dget b ''config'' = PDict c"
    by (simp_all add: b has_key_def dget_def)
  show ?thesis
  proof (cases "?e = ''command''")
    case True
    from binding_config_command conf True obtain cr where cc: "command_config c" "dget raw ''config'' = PDict cr"
      "has_key c ''action'' \<longleftrightarrow> action \<noteq> None \<or> has_key cr ''action''" "\<And>a. action = Some a \<Longrightarrow> dget c ''action'' = PDict a"
      by metis
    have "\<exists>a. action = Some a \<and> action_rows a" if "has_key c ''action''"
      using act that cc True validated_action_rows by (auto simp: action_of_config_def split: if_splits)
    then have "succeeds (render_action_command_registration b (r_version R) indent)" if "has_key c ''action''"
      using that cc(1,4) fields(3,5) by (auto intro: action_command_renders)
    then show ?thesis using fields True command_renders[OF cc(1)]
      by (auto simp: event_registration_def simple_events_def reads Let_def intro!: succeeds_intros)
  next
    case False
    then show ?thesis using fields known
      by (auto simp: event_registration_def EVENT_SIGNATURES_def EVENT_PARAMETERS_def simple_events_def reads Let_def intro!: succeeds_intros)
  qed
qed

section \<open>Plans\<close>

lemma contracts_host:
  assumes "capability_contracts re_ok capabilities = Inr caps"
    and "r_capabilities R = (case capabilities of None \<Rightarrow> [] | Some d \<Rightarrow> d)"
  shows "same_host \<lparr>v_signatures = sigs, v_capabilities = caps\<rparr> R"
proof -
  have l: "list_all2 (\<lambda>(c, raw) p. fst p = c \<and> succeeds (capability_contract_of re_ok raw)) (r_capabilities R) caps"
    using assms(1) unfolding capability_contracts_def mapM_Inr_iff assms(2)[symmetric] by (rule list_all2_mono) auto
  have contract: "contract_known R c" if "(c, raw) \<in> set (r_capabilities R)" for c raw
  proof -
    from that have c: "has_key (r_capabilities R) c" by (force simp: has_key_def)
    have "(c, dget (r_capabilities R) c) \<in> set (r_capabilities R)" using has_key_dget[OF c] by (rule map_of_SomeD)
    with l have "succeeds (capability_contract_of re_ok (dget (r_capabilities R) c))"
      by (auto simp: list_all2_conv_all_nth in_set_conv_nth split: prod.splits)
    with c show ?thesis
      by (auto simp: contract_known_def capability_contract_of_def succeeds_rbind check_keys_Inr split: pyval.splits)
  qed
  have "keys caps = keys (r_capabilities R)" using l by (induction rule: list_all2_induct) auto
  with contract show ?thesis by (force simp: same_host_def)
qed

lemma accepted_functions:
  assumes run: "check_plan caps plan = Inr (sigs, calls)" and src: "source_value (PDict plan)"
    and host: "same_host \<lparr>v_signatures = sigs, v_capabilities = caps\<rparr> R"
  obtains fs where "dget plan ''functions'' = PList (map PDict fs)" "has_key plan ''functions''" "has_key plan ''initialize''"
    "\<And>fn counter. fn \<in> set fs \<Longrightarrow> succeeds (dispatcher_case fn) \<and> succeeds (render_function R counter fn)"
    "\<And>indent st. succeeds (render_block R indent st (dget plan ''initialize''))"
proof -
  let ?V = "\<lparr>v_signatures = sigs, v_capabilities = caps\<rparr>"
  let ?B = "\<lparr>bc_validator = ?V, bc_return_type = ''void'', bc_initialize = True\<rparr>"
  from run obtain raws p where keys: "has_key plan ''functions''" "has_key plan ''initialize''"
    and raws: "dget plan ''functions'' = PList raws" and sigs: "foldM signature [] raws = Inr sigs"
    and calls: "mapM (check_function ?V) raws = Inr calls" and init: "block ?B [] (dget plan ''initialize'') = Inr p"
    unfolding check_plan_def by (auto simp: Let_def check_keys_Inr)
  have each: "x = PDict (row_of x) \<and> succeeds (dispatcher_case (row_of x)) \<and> succeeds (render_function R counter (row_of x))"
    if x: "x \<in> set raws" for x counter
  proof -
    obtain fn f where fn: "x = PDict fn" "function_ok fn f"
      using signatures_fold[OF sigs] x by (auto simp: list_all2_conv_all_nth in_set_conv_nth)
    obtain q where "check_function ?V x = Inr q" using mapM_each[OF calls x] by blast
    then obtain B env r where b: "block B env (dget fn ''body'') = Inr r" "bc_validator B = ?V"
      unfolding check_function_def fn(1) Let_def by (fastforce split: option.splits if_splits)
    have "source_value (PDict fn)" using source_value_dget[OF src, of "''functions''"] x fn(1) by (auto simp: raws intro: source_value_item)
    from function_renders[OF fn(2) this b(1)] b(2) host fn(1) show ?thesis by (simp add: row_of_def)
  qed
  show ?thesis
  proof (rule that[of "map row_of raws"])
    show "dget plan ''functions'' = PList (map PDict (map row_of raws))" unfolding raws using each by (simp add: map_idI)
    show "succeeds (dispatcher_case fn) \<and> succeeds (render_function R counter fn)" if "fn \<in> set (map row_of raws)" for fn counter
      using that each by auto
    show "succeeds (render_block R indent st (dget plan ''initialize''))" for indent st
      using block_renders[OF init source_value_dget[OF src]] host by simp
  qed (use keys in auto)
qed

text \<open>The normalized plan differs from the given one in its platform modules and event bindings only, and
  every binding of it renders.\<close>

lemma run_normalized:
  assumes "run platform caps (PDict plan) = Inr n"
  obtains bs where "\<And>k. k \<noteq> ''platform_modules'' \<Longrightarrow> k \<noteq> ''event_bindings'' \<Longrightarrow> dget n k = dget plan k \<and> (has_key n k \<longleftrightarrow> has_key plan k)"
    and "pget n ''event_bindings'' = PList (map PDict bs)" "\<And>b R indent. b \<in> set bs \<Longrightarrow> succeeds (event_registration R indent b)"
proof -
  obtain q :: "signatures \<times> (string \<times> string list) list" and n1 where m: "(if has_key plan ''platform_modules''
       then rbind (platform (dget plan ''platform_modules'')) (\<lambda>m. Inr (AList.update ''platform_modules'' m plan)) else Inr plan) = Inr n1"
    and n: "(if has_key plan ''event_bindings''
       then rbind (validate_event_bindings (dget plan ''event_bindings'') (fst q)) (\<lambda>bs.
            let n2 = AList.update ''event_bindings'' (PList bs) n1 in rbind (action_bindings n2) (\<lambda>_. Inr n2))
       else Inr n1) = Inr n"
    using assms unfolding run_def as_map_Inr case_prod_unfold rbind_eq_Inr pyval.inject by blast
  define sigs where "sigs = fst q"
  note n = n[folded sigs_def]
  have n1: "n1 = plan \<or> (\<exists>m. n1 = AList.update ''platform_modules'' m plan)" using m by (auto split: if_splits)
  show thesis
  proof (cases "has_key plan ''event_bindings''")
    case False
    then have "n = n1" using n by simp
    moreover from this n1 False have "\<not> has_key n ''event_bindings''" by (auto simp: has_key_update)
    ultimately show thesis using n1
      by (intro that[of "[]"]) (auto simp: dget_update has_key_update pget_def has_key_map_of)
  next
    case True
    then obtain bs where bs: "validate_event_bindings (dget plan ''event_bindings'') sigs = Inr bs"
      and n2: "n = AList.update ''event_bindings'' (PList bs) n1"
      using n by (auto simp: Let_def)
    have "list_all (\<lambda>x. \<exists>b i seen. x = PDict b \<and> event_binding sigs seen (fst i) = Inr (snd i, b)) bs"
    proof (cases "dget plan ''event_bindings''")
      case (PList rows)
      then obtain seen where "foldM (\<lambda>(seen, acc) raw. rbind (event_binding sigs seen raw) (\<lambda>(i, b). Inr (i # seen, acc @ [PDict b]))) ([], []) rows = Inr (seen, bs)"
        using bs by (auto simp: validate_event_bindings_def)
      then have "(\<lambda>st. list_all (\<lambda>x. \<exists>b i seen. x = PDict b \<and> event_binding sigs seen (fst i) = Inr (snd i, b)) (snd st)) (seen, bs)"
        by (rule foldM_invariant) (auto, force)
      then show ?thesis by simp
    qed (use bs in \<open>auto simp: validate_event_bindings_def\<close>)
    then have each: "x = PDict (row_of x) \<and> succeeds (event_registration R indent (row_of x))" if "x \<in> set bs" for x R indent
      using that event_binding_renders by (fastforce simp: list_all_iff row_of_def)
    show thesis
    proof (rule that[of "map row_of bs"])
      show "dget n k = dget plan k \<and> (has_key n k \<longleftrightarrow> has_key plan k)" if "k \<noteq> ''platform_modules''" "k \<noteq> ''event_bindings''" for k
        using that n1 by (auto simp: n2 dget_update has_key_update)
      have "bs = map PDict (map row_of bs)" using each by (simp add: map_idI)
      then show "pget n ''event_bindings'' = PList (map PDict (map row_of bs))" by (simp add: n2 pget_def update_conv)
    qed (use each in auto)
  qed
qed

text \<open>C35. The checker and the Java backend agree: whenever \<open>validate_typed_plan_ir\<close> accepts a plan whose call
  targets and capability identifiers are strings, \<open>render_typed_plan_java\<close> produces a program for it; no
  branch of the renderer raises.\<close>

theorem validated_plan_renders:
  assumes "validate_typed_plan_ir re_ok platform (PDict plan) capabilities = Inr normalized"
    and "wf_value (PDict plan)" and "string_ids (PDict plan)"
  shows "\<exists>text. render_typed_plan_java re_ok platform (PDict plan) package capabilities version = Inr text"
proof -
  let ?R = "\<lparr>r_functions = plan_rows normalized ''functions'', r_capabilities = (case capabilities of None \<Rightarrow> [] | Some d \<Rightarrow> d), r_version = strip version\<rparr>"
  obtain caps sigs calls where caps: "capability_contracts re_ok capabilities = Inr caps"
    and chk: "check_plan caps plan = Inr (sigs, calls)" by (rule validated_checked[OF assms(1)])
  have run: "run platform caps (PDict plan) = Inr normalized" using assms(1) caps by (simp add: validate_typed_plan_ir_def)
  have host: "same_host \<lparr>v_signatures = sigs, v_capabilities = caps\<rparr> ?R" by (rule contracts_host[OF caps]) simp
  have src: "source_value (PDict plan)" using assms(2,3) by (simp add: source_value_def)
  obtain fs where fs: "dget plan ''functions'' = PList (map PDict fs)" "has_key plan ''functions''" "has_key plan ''initialize''"
    "\<And>fn counter. fn \<in> set fs \<Longrightarrow> succeeds (dispatcher_case fn) \<and> succeeds (render_function ?R counter fn)"
    "\<And>indent st. succeeds (render_block ?R indent st (dget plan ''initialize''))"
    by (rule accepted_functions[OF chk src host]) blast
  obtain bs where n: "\<And>k. k \<noteq> ''platform_modules'' \<Longrightarrow> k \<noteq> ''event_bindings'' \<Longrightarrow> dget normalized k = dget plan k \<and> (has_key normalized k \<longleftrightarrow> has_key plan k)"
    and bs: "pget normalized ''event_bindings'' = PList (map PDict bs)" "\<And>b R indent. b \<in> set bs \<Longrightarrow> succeeds (event_registration R indent b)"
    by (rule run_normalized[OF run]) blast
  have "succeeds (render_program ?R normalized (strip package))"
    unfolding render_program_def using fs n bs
    by (auto simp: reads mapM_row_fields intro!: succeeds_intros)
  then show ?thesis using assms(1) by (simp add: render_typed_plan_java_def succeeds_def)
qed

theorem validated_plan_renders_witness:
  "\<exists>text. render_typed_plan_java (\<lambda>_. True) Inr (PDict sample_plan) ''demo'' (Some talk_capabilities) ''1.21.1'' = Inr text"
proof -
  have ids: "string_ids (PDict sample_plan)" by code_simp
  show ?thesis by (rule sample_plan_accepted) (rule validated_plan_renders[OF _ sample_plan_wf ids])
qed

section \<open>Where the two disagree\<close>

text \<open>A function named \<open>True\<close>, called by the JSON value \<open>true\<close>.\<close>

definition bool_target_plan :: pydict where
  "bool_target_plan = plan_node [function_node ''True'' [] ''void'' []]
     [stmt_node ''expr'' (PDict [(''op'', PStr ''call''), (''function'', PBool True), (''args'', PList [])])] []"

text \<open>The restriction to string identifiers is needed: the checker accepts a call whose target is the JSON
  value \<open>true\<close> when a function is named \<open>True\<close>, and the renderer then raises \<open>TypeError\<close>.\<close>

theorem bool_call_target_not_rendered:
  "\<not> isl (validate_typed_plan_ir (\<lambda>_. True) Inr (PDict bool_target_plan) None) \<and>
   render_typed_plan_java (\<lambda>_. True) Inr (PDict bool_target_plan) ''demo'' None ''1.21.1'' = Inl (TypeError ''can only concatenate str'')"
  by code_simp

text \<open>Accepted expressions whose Java text does not mean what the checker assumes. A void call may be bound to an
  \<open>object\<close> local; a negated negative literal is two minus signs; equality of two \<open>foreach\<close> variables of type string
  compares references, which differ because string literals are rendered as new objects; any expression is a
  statement; an object literal may exceed 32 bits.\<close>

definition void_plan :: pydict where
  "void_plan = plan_node [function_node ''f'' [] ''void'' []]
     [PDict [(''op'', PStr ''let''), (''name'', PStr ''x''), (''type'', PStr ''object''), (''value'', call_node ''f'' [])]] []"

definition plain_renderer :: renderer where
  "plain_renderer = \<lparr>r_functions = [], r_capabilities = [], r_version = ''1.21.1''\<rparr>"

definition empty_validator :: validator where
  "empty_validator = \<lparr>v_signatures = [], v_capabilities = []\<rparr>"

lemma void_call_bound_to_object:
  "\<not> isl (validate_typed_plan_ir (\<lambda>_. True) Inr (PDict void_plan) None) \<and>
   map_sum id snd (render_block plain_renderer [] \<lparr>rs_counter = 0, rs_string_names = []\<rparr> (dget void_plan ''initialize''))
     = Inr [''Object x = fn_f();''] \<and>
   map_sum id (hd \<circ> snd) (render_function plain_renderer 0 (row_of (function_node ''f'' [] ''void'' []))) = Inr ''    private static void fn_f() {''"
  by code_simp

lemma negated_negative_literal:
  "expression empty_validator [] (PDict [(''op'', PStr ''unary''), (''operator'', PStr ''-''), (''value'', lit_node ''int'' (PInt (- 5)))])
     = Inr (''int'', []) \<and>
   render_expr plain_renderer [] (PDict [(''op'', PStr ''unary''), (''operator'', PStr ''-''), (''value'', lit_node ''int'' (PInt (- 5)))])
     = Inr ''(--5)''"
  by code_simp

definition foreach_node :: "string \<Rightarrow> pyval list \<Rightarrow> pyval" where
  "foreach_node n body = PDict [(''op'', PStr ''foreach''), (''name'', PStr n), (''type'', PStr ''string''),
     (''collection'', PDict [(''op'', PStr ''list''), (''items'', PList [lit_node ''string'' (PStr ''x'')])]), (''body'', PList body)]"

definition foreach_strings :: pyval where
  "foreach_strings = PList [foreach_node ''a'' [foreach_node ''b'' [PDict [(''op'', PStr ''let''), (''name'', PStr ''same''),
     (''type'', PStr ''boolean''), (''value'', PDict [(''op'', PStr ''binary''), (''operator'', PStr ''==''),
        (''left'', ref_node ''a''), (''right'', ref_node ''b'')])]]]]"

lemma foreach_string_equality:
  "block \<lparr>bc_validator = empty_validator, bc_return_type = ''void'', bc_initialize = True\<rparr> [] foreach_strings = Inr (False, []) \<and>
   map_sum id (\<lambda>r. snd r ! 4) (render_block plain_renderer [] \<lparr>rs_counter = 0, rs_string_names = []\<rparr> foreach_strings)
     = Inr ''        boolean same = (a == b);''"
  by code_simp

lemma literal_statement:
  "block \<lparr>bc_validator = empty_validator, bc_return_type = ''void'', bc_initialize = True\<rparr> [] (PList [stmt_node ''expr'' (lit_node ''int'' (PInt 1))])
     = Inr (False, []) \<and>
   map_sum id snd (render_block plain_renderer [] \<lparr>rs_counter = 0, rs_string_names = []\<rparr> (PList [stmt_node ''expr'' (lit_node ''int'' (PInt 1))]))
     = Inr [''1;'']"
  by code_simp

lemma object_literal_too_wide:
  "expression empty_validator [] (lit_node ''object'' (PInt 99999999999)) = Inr (''object'', []) \<and>
   render_expr plain_renderer [] (lit_node ''object'' (PInt 99999999999)) = Inr (''Integer.valueOf('' @ show_int 99999999999 @ '')'')"
  by (simp add: expression.simps expression_node_def literal_type_def lit_node_def as_map_def dget_def check_keys_def has_key_def
      str_or_empty_def type_of_def SCALAR_TYPES_def literal_check_def Let_def
      render_expr.simps expr_node_def row_fields_def item_def literal_text_def object_text_def)

end
