(* ===== verification/Model_Locks.thy ===== *)
theory Model_Locks
  imports Transition_System Py_Json
begin

text \<open>
  The locks of the model runtime (\<^verbatim>\<open>model_concurrency.py\<close>): the read-write lock of the GPU with its upgrades from
  shared to exclusive access, and the gate that bounds concurrent callers. A method runs under its condition's
  lock, which only \<open>wait\<close> gives up; so a method is a sequence of atomic pieces, cut at its waits. Each piece is a
  function on the lock, and a thread that waits keeps its local variables in its phase. Waking a thread is always
  possible (\<open>wait\<close> has a timeout, and may wake for no reason); the loop then tests its condition again.
\<close>

datatype lock_error = RuntimeError string

definition count_of :: "(nat \<times> int) list \<Rightarrow> nat \<Rightarrow> int" where
  "count_of d t = (case map_of d t of None \<Rightarrow> 0 | Some n \<Rightarrow> n)"

section \<open>The read-write lock\<close>

record rwlock =
  rw_writer :: "nat option"
  rw_depth :: int
  rw_readers :: "(nat \<times> int) list"
  rw_suspended :: "(nat \<times> int) list"
  rw_waiting :: int

datatype phase = Running | AwaitWrite int | AwaitRead

definition new_rwlock :: rwlock where
  "new_rwlock = \<lparr>rw_writer = None, rw_depth = 0, rw_readers = [], rw_suspended = [], rw_waiting = 0\<rparr>"

definition write_free :: "rwlock \<Rightarrow> bool" where
  "write_free L \<longleftrightarrow> rw_writer L = None \<and> rw_readers L = []"

definition read_free :: "rwlock \<Rightarrow> bool" where
  "read_free L \<longleftrightarrow> rw_writer L = None \<and> \<not> 0 < rw_waiting L"

text \<open>The end of \<open>acquire\<close> once the lock is free, with its \<open>finally\<close>.\<close>

definition take_write :: "nat \<Rightarrow> int \<Rightarrow> rwlock \<Rightarrow> rwlock" where
  "take_write t suspended L = L\<lparr>rw_writer := Some t, rw_depth := 1,
     rw_suspended := (if suspended \<noteq> 0 then AList.update t (count_of (rw_suspended L) t + suspended) (rw_suspended L) else rw_suspended L),
     rw_waiting := rw_waiting L - 1\<rparr>"

text \<open>The loop of \<open>acquire\<close>: it takes the lock or waits.\<close>

definition retry_acquire_write :: "nat \<Rightarrow> int \<Rightarrow> rwlock \<Rightarrow> rwlock \<times> phase" where
  "retry_acquire_write t suspended L = (if write_free L then (take_write t suspended L, Running) else (L, AwaitWrite suspended))"

definition acquire_write :: "nat \<Rightarrow> rwlock \<Rightarrow> rwlock \<times> phase" where
  "acquire_write t L =
     (if rw_writer L = Some t then (L\<lparr>rw_depth := rw_depth L + 1\<rparr>, Running)
      else (let suspended = count_of (rw_readers L) t in
        retry_acquire_write t suspended (L\<lparr>rw_readers := AList.delete t (rw_readers L), rw_waiting := rw_waiting L + 1\<rparr>)))"

definition add_reads :: "nat \<Rightarrow> int \<Rightarrow> rwlock \<Rightarrow> rwlock" where
  "add_reads t n L = (if n \<noteq> 0 then L\<lparr>rw_readers := AList.update t (count_of (rw_readers L) t + n) (rw_readers L)\<rparr> else L)"

text \<open>An exception of the wait leaves \<open>acquire\<close>: the suspended reads come back.\<close>

definition abort_write :: "nat \<Rightarrow> int \<Rightarrow> rwlock \<Rightarrow> rwlock" where
  "abort_write t suspended L = add_reads t suspended (L\<lparr>rw_waiting := rw_waiting L - 1\<rparr>)"

definition release_write :: "nat \<Rightarrow> rwlock \<Rightarrow> lock_error + rwlock" where
  "release_write t L =
     (if rw_writer L \<noteq> Some t \<or> rw_depth L \<le> 0 then Inl (RuntimeError ''cannot release unowned GPU write lock'')
      else if rw_depth L - 1 \<noteq> 0 then Inr (L\<lparr>rw_depth := rw_depth L - 1\<rparr>)
      else Inr (add_reads t (count_of (rw_suspended L) t)
        (L\<lparr>rw_depth := 0, rw_writer := None, rw_suspended := AList.delete t (rw_suspended L)\<rparr>)))"

definition retry_acquire_read :: "nat \<Rightarrow> rwlock \<Rightarrow> rwlock \<times> phase" where
  "retry_acquire_read t L = (if read_free L then (add_reads t 1 L, Running) else (L, AwaitRead))"

definition acquire_read :: "nat \<Rightarrow> rwlock \<Rightarrow> rwlock \<times> phase" where
  "acquire_read t L = (if rw_writer L = Some t then (add_reads t 1 L, Running) else retry_acquire_read t L)"

definition release_read :: "nat \<Rightarrow> rwlock \<Rightarrow> lock_error + rwlock" where
  "release_read t L =
     (let count = count_of (rw_readers L) t in
      if count \<le> 0 then Inl (RuntimeError ''cannot release unowned GPU read lock'')
      else if count = 1 then Inr (L\<lparr>rw_readers := AList.delete t (rw_readers L)\<rparr>)
      else Inr (L\<lparr>rw_readers := AList.update t (count - 1) (rw_readers L)\<rparr>))"

section \<open>Threads and the lock\<close>

record lock_system =
  ls_lock :: rwlock
  ls_phase :: "nat \<Rightarrow> phase"

text \<open>The atomic pieces: four calls, waking a thread that waits, and the exception that ends its wait.\<close>

datatype lock_action = Acquire | Release | AcquireRead | ReleaseRead | Wake | Expire

definition settle_lock :: "nat \<Rightarrow> rwlock \<times> phase \<Rightarrow> lock_system \<Rightarrow> lock_system" where
  "settle_lock t r S = \<lparr>ls_lock = fst r, ls_phase = (ls_phase S)(t := snd r)\<rparr>"

definition when_released :: "lock_error + rwlock \<Rightarrow> lock_system \<Rightarrow> lock_system option" where
  "when_released r S = (case r of Inl _ \<Rightarrow> None | Inr L \<Rightarrow> Some (S\<lparr>ls_lock := L\<rparr>))"

text \<open>None where the piece is not possible; a call that raises changes nothing.\<close>

definition lock_exec :: "lock_action \<Rightarrow> nat \<Rightarrow> lock_system \<Rightarrow> lock_system option" where
  "lock_exec a t S = (case ls_phase S t of
     Running \<Rightarrow> (case a of
         Acquire \<Rightarrow> Some (settle_lock t (acquire_write t (ls_lock S)) S)
       | AcquireRead \<Rightarrow> Some (settle_lock t (acquire_read t (ls_lock S)) S)
       | Release \<Rightarrow> when_released (release_write t (ls_lock S)) S
       | ReleaseRead \<Rightarrow> when_released (release_read t (ls_lock S)) S
       | _ \<Rightarrow> None)
   | AwaitWrite n \<Rightarrow> (case a of
         Wake \<Rightarrow> Some (settle_lock t (retry_acquire_write t n (ls_lock S)) S)
       | Expire \<Rightarrow> Some (settle_lock t (abort_write t n (ls_lock S), Running) S)
       | _ \<Rightarrow> None)
   | AwaitRead \<Rightarrow> (case a of
         Wake \<Rightarrow> Some (settle_lock t (retry_acquire_read t (ls_lock S)) S)
       | Expire \<Rightarrow> Some (settle_lock t (ls_lock S, Running) S)
       | _ \<Rightarrow> None))"

definition lock_step :: "lock_system \<Rightarrow> lock_system \<Rightarrow> bool" where
  "lock_step S S' \<longleftrightarrow> (\<exists>a t. lock_exec a t S = Some S')"

definition lock_start :: "lock_system \<Rightarrow> bool" where
  "lock_start S \<longleftrightarrow> S = \<lparr>ls_lock = new_rwlock, ls_phase = (\<lambda>_. Running)\<rparr>"

section \<open>The capacity gate\<close>

text \<open>The capacity is asked for at every test, so it is an argument.\<close>

definition gate_capacity :: "int \<Rightarrow> int" where
  "gate_capacity capacity = max 1 capacity"

definition acquire_slot :: "int \<Rightarrow> nat \<Rightarrow> (nat \<times> int) list \<Rightarrow> (nat \<times> int) list option" where
  "acquire_slot capacity t owners =
     (let depth = count_of owners t in
      if depth \<noteq> 0 then Some (AList.update t (depth + 1) owners)
      else if gate_capacity capacity \<le> int (length owners) then None
      else Some (AList.update t 1 owners))"

definition release_slot :: "nat \<Rightarrow> (nat \<times> int) list \<Rightarrow> lock_error + (nat \<times> int) list" where
  "release_slot t owners =
     (let depth = count_of owners t in
      if depth \<le> 0 then Inl (RuntimeError ''cannot release unowned llama inference slot'')
      else if depth = 1 then Inr (AList.delete t owners)
      else Inr (AList.update t (depth - 1) owners))"

definition active_llama_parallelism :: "(string \<Rightarrow> string option) \<Rightarrow> int" where
  "active_llama_parallelism env =
     (let raw = strip (case env ''MMM_LLAMA_ACTIVE_PARALLEL'' of None \<Rightarrow> ''1'' | Some s \<Rightarrow> s) in
      case parse_int raw of None \<Rightarrow> 1 | Some n \<Rightarrow> max 1 n)"

text \<open>A caller that finds no slot waits; being woken, it tries again with the capacity of that moment.\<close>

inductive gate_step :: "int \<Rightarrow> (nat \<times> int) list \<Rightarrow> (nat \<times> int) list \<Rightarrow> bool" for c where
  slot_taken: "capacity \<le> c \<Longrightarrow> acquire_slot capacity t owners = Some owners' \<Longrightarrow> gate_step c owners owners'"
| slot_released: "release_slot t owners = Inr owners' \<Longrightarrow> gate_step c owners owners'"

inductive_cases gate_stepE: "gate_step c owners owners'"

end
