(* ===== verification/Artifact_Graph.thy ===== *)
theory Artifact_Graph
  imports Complex_Main Artifact_Job Model_Locks "HOL-Library.Product_Lexorder"
begin

text \<open>
  The executor of artifact jobs (\<^verbatim>\<open>artifact_graph_executor.py\<close>): the checks before a run, the bounded pool of
  generation workers and the pool of validation workers, and the event loop of \<open>execute_artifact_graph\<close>, which
  keeps for every job the number of producers not yet validated and a heap of the jobs that may start. What the
  workers do is a parameter of a run: every \<open>wait\<close> of the loop is answered by an event with the futures
  that finished, in the order the loop meets them, with their results, the clock and the leases of that moment.
\<close>

datatype graph_error =
    ArtifactGraphError string
  | VersionContextError string
  | PortFault pyerr
  | WorkerFault pyerr

section \<open>The host\<close>

text \<open>The entry \<open>resolved_version_context\<close> of the execution context: absent, a snapshot object with its
  identifier and Minecraft version, or a dictionary that \<open>ResolvedVersionContext.from_dict\<close> reads.\<close>

datatype version_entry = NoVersion | VersionObject string string | VersionDict pyval

record artifact_template =
  at_inputs :: "(string \<times> string) list"
  at_outputs :: "string list"

record role_config =
  rc_exclusive_gpu :: pyval
  rc_provider :: pyval
  rc_adapter :: pyval

text \<open>The surroundings: version contexts, templates, the environment, the router's configuration of the role
  \<open>coder\<close>, the file system, the validator of the context, \<open>_wire_validated_java_startup\<close> and, for
  a graph of one job, its execution in the calling thread with the ports it leaves.\<close>

record graph_host =
  gh_version :: version_entry
  gh_from_dict :: "pyval \<Rightarrow> graph_error + string \<times> string"
  gh_template :: "string \<Rightarrow> graph_error + artifact_template"
  gh_env :: "string \<Rightarrow> string option"
  gh_cpu_count :: "int option"
  gh_role :: "role_config option"
  gh_base_dir :: "string option"
  gh_absolute :: "string \<Rightarrow> bool"
  gh_join :: "string \<Rightarrow> string \<Rightarrow> string"
  gh_exists :: "string \<Rightarrow> bool"
  gh_validator :: "(ArtifactJob \<Rightarrow> pydict \<Rightarrow> graph_error + pyval) option"
  gh_wire :: "ArtifactJob list \<Rightarrow> pydict list \<Rightarrow> graph_error + unit"
  gh_execute_one :: "ArtifactJob \<Rightarrow> PortRegistry \<Rightarrow> (graph_error + pydict) \<times> PortRegistry"

section \<open>Version contexts\<close>

definition resolved_version :: "graph_host \<Rightarrow> graph_error + string \<times> string" where
  "resolved_version h = (case gh_version h of
     NoVersion \<Rightarrow> Inl (VersionContextError ''VERSION_CONTEXT_REQUIRED'')
   | VersionObject cid mc \<Rightarrow> Inr (cid, mc)
   | VersionDict raw \<Rightarrow> gh_from_dict h raw)"

definition assert_version :: "string \<Rightarrow> pyval \<Rightarrow> graph_error + unit" where
  "assert_version cid v = require (v = PStr cid) (VersionContextError ''VERSION_CONTEXT_MISMATCH'')"

definition execution_context :: "graph_host \<Rightarrow> ArtifactJob \<Rightarrow> graph_error + string" where
  "execution_context h j =
     rbind (resolved_version h) (\<lambda>(cid, minecraft).
     rbind (assert_version cid (PStr (aj_context_id j))) (\<lambda>_.
     let actual = dget (aj_deterministic_inputs j) ''minecraft_version''
     in if actual \<noteq> PNone \<and> actual \<noteq> PStr minecraft then Inl (VersionContextError ''HOST_FACT_OVERRIDE'') else Inr cid))"

text \<open>The binding of the registry reads the entry with \<open>from_dict\<close>, whatever it is: an object is refused.\<close>

definition bind_version :: "graph_host \<Rightarrow> PortRegistry \<Rightarrow> graph_error + PortRegistry" where
  "bind_version h reg = (case gh_version h of
     NoVersion \<Rightarrow> Inr reg
   | VersionObject _ _ \<Rightarrow> Inl (VersionContextError ''INVALID_VERSION_CONTEXT'')
   | VersionDict raw \<Rightarrow> if \<not> truthy raw then Inr reg
       else rbind (gh_from_dict h raw) (\<lambda>(cid, _).
         case bind_context cid reg of Inl e \<Rightarrow> Inl (PortFault e) | Inr reg' \<Rightarrow> Inr reg'))"

section \<open>The graph\<close>

definition produce_port :: "string \<Rightarrow> producers \<Rightarrow> string \<Rightarrow> graph_error + producers" where
  "produce_port job_id ps port = (case map_of ps port of
     Some prior \<Rightarrow> if prior \<noteq> job_id
       then Inl (ArtifactGraphError (''ARTIFACT_DUPLICATE_PRODUCER: '' @ repr_str port @ '' is produced by '' @ repr_str prior @
         '' and '' @ repr_str job_id))
       else Inr (AList.update port job_id ps)
   | None \<Rightarrow> Inr (AList.update port job_id ps))"

definition producer_index :: "ArtifactJob list \<Rightarrow> graph_error + producers" where
  "producer_index jobs = foldM (\<lambda>ps j. foldM (produce_port (aj_job_id j)) ps (aj_produces j)) [] jobs"

text \<open>One output of a Java producer: the path its specification declares.\<close>

definition java_output :: "string \<Rightarrow> pydict \<Rightarrow> (string \<times> string) list \<Rightarrow> string \<times> string \<Rightarrow> graph_error + (string \<times> string) list" where
  "java_output job_id spec paths out = (case out of (name, kind) \<Rightarrow>
     if kind \<noteq> ''code_fragment'' then Inr paths
     else (case dget spec ''target_path'' of
         PStr path \<Rightarrow> if endswith path ''.java'' then Inr (AList.update name path paths)
           else Inl (ArtifactGraphError (''ARTIFACT_JAVA_SOURCE_PATH_MISSING: '' @ job_id))
       | _ \<Rightarrow> Inl (ArtifactGraphError (''ARTIFACT_JAVA_SOURCE_PATH_MISSING: '' @ job_id))))"

definition java_ports_of :: "graph_host \<Rightarrow> (string \<times> string) list \<Rightarrow> ArtifactJob \<Rightarrow> graph_error + (string \<times> string) list" where
  "java_ports_of h paths j =
     (if aj_executor_type j \<noteq> PYTHON_GENERATOR \<or> aj_canonical_leaf j = [] \<or> aj_produces j = [] then Inr paths
      else (case dget (aj_deterministic_inputs j) ''_canonical_inputs'' of
        PDict inputs \<Rightarrow> rbind (gh_template h (aj_canonical_leaf j)) (\<lambda>m.
          if length (aj_produces j) \<noteq> length (at_outputs m)
          then Inl (ArtifactGraphError (''ARTIFACT_GENERATOR_OUTPUT_PORT_ARITY: '' @ aj_job_id j @ '' expected='' @
            show_nat (length (at_outputs m)) @ '' actual='' @ show_nat (length (aj_produces j))))
          else (case find (\<lambda>(_, kind). kind = ''specification'') (at_inputs m) of
            None \<Rightarrow> Inr paths
          | Some (port, _) \<Rightarrow> (case map_of inputs port of
              Some (PDict spec) \<Rightarrow> if dget spec ''language'' \<noteq> PStr ''java'' then Inr paths
                else foldM (java_output (aj_job_id j) spec) paths (zip (aj_produces j) (at_outputs m))
            | _ \<Rightarrow> Inr paths)))
      | _ \<Rightarrow> Inr paths))"

definition declared_java_source_ports :: "graph_host \<Rightarrow> ArtifactJob list \<Rightarrow> graph_error + (string \<times> string) list" where
  "declared_java_source_ports h jobs = foldM (java_ports_of h) [] jobs"

definition missing_external :: "producers \<Rightarrow> PortRegistry \<Rightarrow> ArtifactJob list \<Rightarrow> pydict" where
  "missing_external ps reg jobs =
     fold (\<lambda>j d. let missing = filter (\<lambda>name. map_of ps name = None \<and> \<not> has_port name reg) (aj_requires j)
       in if missing = [] then d else AList.update (aj_job_id j) (PList (map PStr missing)) d) jobs []"

definition job_order :: "ArtifactJob list \<Rightarrow> string \<Rightarrow> nat" where
  "job_order jobs i = length (takeWhile (\<lambda>j. aj_job_id j \<noteq> i) jobs)"

definition by_id :: "ArtifactJob list \<Rightarrow> string \<Rightarrow> ArtifactJob option" where
  "by_id jobs i = find (\<lambda>j. aj_job_id j = i) jobs"

definition required_producers :: "producers \<Rightarrow> ArtifactJob \<Rightarrow> string list" where
  "required_producers ps j = fromkeys (List.map_filter (map_of ps) (aj_requires j))"

definition graph_dependents :: "producers \<Rightarrow> ArtifactJob list \<Rightarrow> string \<Rightarrow> string list" where
  "graph_dependents ps jobs i =
     sort_key (job_order jobs) (map aj_job_id (filter (\<lambda>j. i \<in> set (required_producers ps j)) jobs))"

section \<open>Parallelism\<close>

definition configured_positive_int :: "(string \<Rightarrow> string option) \<Rightarrow> string \<Rightarrow> int \<Rightarrow> graph_error + int" where
  "configured_positive_int env name fallback =
     (let raw = strip (case env name of None \<Rightarrow> [] | Some s \<Rightarrow> s);
          bad = Inl (ArtifactGraphError (name @ '' must be a positive integer''))
      in if raw = [] then Inr fallback
         else (case parse_int raw of None \<Rightarrow> bad | Some v \<Rightarrow> if v < 1 then bad else Inr v))"

definition parallelism :: "graph_host \<Rightarrow> int \<Rightarrow> graph_error + int" where
  "parallelism h job_count =
     (let cpus = (case gh_cpu_count h of None \<Rightarrow> 2 | Some n \<Rightarrow> if n = 0 then 2 else n)
      in rbind (configured_positive_int (gh_env h) ''MMM_ARTIFACT_MAX_WORKERS'' (min 8 (max 2 cpus))) (\<lambda>n. Inr (min job_count n)))"

definition router_owns_native_model :: "graph_host \<Rightarrow> bool" where
  "router_owns_native_model h = (case gh_role h of
     None \<Rightarrow> False
   | Some c \<Rightarrow> truthy (rc_exclusive_gpu c) \<and> py_str (rc_provider c) = ''local'' \<and>
       py_str (rc_adapter c) \<in> set [''llama_cpp'', ''vllm''])"

definition router_native_model_parallelism :: "graph_host \<Rightarrow> int" where
  "router_native_model_parallelism h = (if \<not> router_owns_native_model h then 1 else active_llama_parallelism (gh_env h))"

definition generation_parallelism :: "graph_host \<Rightarrow> int \<Rightarrow> graph_error + int" where
  "generation_parallelism h job_count =
     rbind (parallelism h job_count) (\<lambda>workers.
       Inr (max 1 (if router_owns_native_model h then min workers (router_native_model_parallelism h) else workers)))"

definition validation_parallelism :: "graph_host \<Rightarrow> int \<Rightarrow> int \<Rightarrow> graph_error + int" where
  "validation_parallelism h job_count generation_workers =
     rbind (configured_positive_int (gh_env h) ''MMM_ARTIFACT_VALIDATION_WORKERS'' (min 4 (max 1 generation_workers)))
       (\<lambda>n. Inr (min job_count n))"

section \<open>Validation of one artifact\<close>

definition materialized_path :: "graph_host \<Rightarrow> string \<Rightarrow> string" where
  "materialized_path h path = (case gh_base_dir h of
     Some base \<Rightarrow> if \<not> gh_absolute h path \<and> (gh_exists h (gh_join h base path) \<or> \<not> gh_exists h path) then gh_join h base path else path
   | None \<Rightarrow> path)"

definition validation_verdict :: "ArtifactJob \<Rightarrow> pyval \<Rightarrow> graph_error + unit" where
  "validation_verdict j v = (case v of
     PBool b \<Rightarrow> require b (ArtifactGraphError (''ARTIFACT_VALIDATION_FAILED: '' @ repr_str (aj_job_id j)))
   | PDict d \<Rightarrow> (let status = dget d ''status'' in
       if is_list status \<or> is_mapping status then Inl (WorkerFault (TypeError ''unhashable type''))
       else require (status \<in> set [PNone, PStr ''PASS''])
         (ArtifactGraphError (''ARTIFACT_VALIDATION_FAILED: '' @ repr_str (aj_job_id j) @ '' returned '' @ py_repr status)))
   | _ \<Rightarrow> Inr ())"

definition validate_completed_job :: "graph_host \<Rightarrow> PortRegistry \<Rightarrow> ArtifactJob \<Rightarrow> pydict \<Rightarrow> graph_error + unit" where
  "validate_completed_job h reg j receipt =
     rbind (execution_context h j) (\<lambda>cid.
     rbind (assert_version cid (dget receipt ''context_id'')) (\<lambda>_.
     rbind (require (dget receipt ''status'' = PStr ''PASS'')
       (ArtifactGraphError (''ARTIFACT_JOB_FAILED: '' @ repr_str (aj_job_id j) @ '' returned '' @ py_repr (dget receipt ''status'')))) (\<lambda>_.
     let missing = filter (\<lambda>name. \<not> has_port name reg) (aj_produces j) in
     rbind (require (missing = [])
       (ArtifactGraphError (''ARTIFACT_OUTPUT_PORT_MISSING: '' @ repr_str (aj_job_id j) @ '' did not publish '' @
         py_repr (PList (map PStr missing))))) (\<lambda>_.
     rbind (case dget receipt ''materialization'' of
         PDict m \<Rightarrow> (let raw = dget m ''path''; path = materialized_path h (py_str raw)
           in require (truthy raw \<longrightarrow> gh_exists h path)
             (ArtifactGraphError (''ARTIFACT_OUTPUT_MISSING: '' @ repr_str (aj_job_id j) @ '' materialized '' @ path @
               '' but it does not exist'')))
       | _ \<Rightarrow> Inr ()) (\<lambda>_.
     (case gh_validator h of
         None \<Rightarrow> Inr ()
       | Some validator \<Rightarrow> rbind (validator j receipt) (validation_verdict j)))))))"

section \<open>The event loop\<close>

text \<open>The variables of the loop. A future is a number; \<open>gr_budgets\<close> are the futures that own a lease
  (\<open>future_deadlines\<close>); the heap is kept as a sorted list.\<close>

record graph_state =
  gr_ready :: "(nat \<times> string) list"
  gr_pending :: "string list"
  gr_generation :: "(nat \<times> ArtifactJob) list"
  gr_validation :: "(nat \<times> ArtifactJob \<times> pydict) list"
  gr_budgets :: "nat list"
  gr_results :: "(string \<times> pydict) list"
  gr_validated :: "string list"
  gr_indegree :: "(string \<times> int) list"
  gr_next :: nat

record graph_plan =
  gp_jobs :: "ArtifactJob list"
  gp_producers :: producers
  gp_workers :: int

text \<open>What a finished future holds: a generation worker's receipt or exception; for a validation worker the
  ports it saw, unless an exception of its lease kept it from running.\<close>

record report =
  rp_receipt :: "graph_error + pydict"
  rp_registry :: PortRegistry
  rp_abort :: "graph_error option"

record wait_event =
  we_done :: "(nat \<times> report) list"
  we_now :: rat
  we_deadline :: "nat \<Rightarrow> rat"
  we_registry :: PortRegistry

primrec submit_loop :: "ArtifactJob list \<Rightarrow> (nat \<times> string) list \<Rightarrow> int \<Rightarrow> graph_state \<Rightarrow> graph_state" where
  "submit_loop jobs [] slots st = st\<lparr>gr_ready := []\<rparr>"
| "submit_loop jobs (e # heap) slots st =
     (if slots \<le> 0 then st\<lparr>gr_ready := e # heap\<rparr>
      else if snd e \<notin> set (gr_pending st) then submit_loop jobs heap slots st
      else (case by_id jobs (snd e) of
         None \<Rightarrow> submit_loop jobs heap slots st
       | Some job \<Rightarrow> submit_loop jobs heap (slots - 1)
           (st\<lparr>gr_pending := removeAll (snd e) (gr_pending st), gr_generation := gr_generation st @ [(gr_next st, job)],
              gr_budgets := gr_budgets st @ [gr_next st], gr_next := Suc (gr_next st)\<rparr>)))"

definition submit_ready :: "graph_plan \<Rightarrow> graph_state \<Rightarrow> graph_state" where
  "submit_ready p st = submit_loop (gp_jobs p) (gr_ready st) (gp_workers p - int (length (gr_generation st))) st"

definition initial_graph :: "graph_plan \<Rightarrow> graph_state" where
  "initial_graph p =
     (let jobs = gp_jobs p; indegree = map (\<lambda>j. (aj_job_id j, int (length (required_producers (gp_producers p) j)))) jobs
      in submit_ready p
        \<lparr>gr_ready = sort (map (\<lambda>j. (job_order jobs (aj_job_id j), aj_job_id j)) (filter (\<lambda>j. deg_of indegree (aj_job_id j) = 0) jobs)),
         gr_pending = map aj_job_id jobs, gr_generation = [], gr_validation = [], gr_budgets = [], gr_results = [],
         gr_validated = [], gr_indegree = indegree, gr_next = 0\<rparr>)"

definition blocked_jobs :: "graph_plan \<Rightarrow> PortRegistry \<Rightarrow> graph_state \<Rightarrow> pydict" where
  "blocked_jobs p reg st =
     map (\<lambda>i. (i, PList (map PStr (filter (\<lambda>name. case map_of (gp_producers p) name of
           None \<Rightarrow> \<not> has_port name reg | Some producer \<Rightarrow> producer \<notin> set (gr_validated st))
         (case by_id (gp_jobs p) i of None \<Rightarrow> [] | Some j \<Rightarrow> aj_requires j)))))
       (sort_key (job_order (gp_jobs p)) (gr_pending st))"

text \<open>One finished future. An exception carries the state it leaves.\<close>

definition complete_one :: "graph_host \<Rightarrow> graph_state \<times> string list \<Rightarrow> nat \<times> report \<Rightarrow>
    (graph_state \<times> graph_error) + (graph_state \<times> string list)" where
  "complete_one h acc fr = (case (acc, fr) of ((st0, newly), (future, rp)) \<Rightarrow>
     (let st = st0\<lparr>gr_budgets := removeAll future (gr_budgets st0)\<rparr> in
      case map_of (gr_generation st) future of
        Some job \<Rightarrow> (let st' = st\<lparr>gr_generation := AList.delete future (gr_generation st)\<rparr> in
          case rp_receipt rp of
            Inl e \<Rightarrow> Inl (st', e)
          | Inr receipt \<Rightarrow> Inr (st'\<lparr>gr_validation := gr_validation st' @ [(gr_next st', job, receipt)],
              gr_budgets := gr_budgets st' @ [gr_next st'], gr_next := Suc (gr_next st')\<rparr>, newly))
      | None \<Rightarrow> (case map_of (gr_validation st) future of
          None \<Rightarrow> Inl (st, WorkerFault (KeyError ''future''))
        | Some (job, receipt) \<Rightarrow> (let st' = st\<lparr>gr_validation := AList.delete future (gr_validation st)\<rparr> in
            case (case rp_abort rp of Some e \<Rightarrow> Inl e | None \<Rightarrow> validate_completed_job h (rp_registry rp) job receipt) of
              Inl e \<Rightarrow> Inl (st', e)
            | Inr _ \<Rightarrow> Inr (st'\<lparr>gr_validated := List.insert (aj_job_id job) (gr_validated st'),
                gr_results := AList.update (aj_job_id job) receipt (gr_results st')\<rparr>, newly @ [aj_job_id job])))))"

definition release_one :: "ArtifactJob list \<Rightarrow> graph_state \<Rightarrow> string \<Rightarrow> (graph_state \<times> graph_error) + graph_state" where
  "release_one jobs st d =
     (let v = deg_of (gr_indegree st) d - 1; st' = st\<lparr>gr_indegree := AList.update d v (gr_indegree st)\<rparr>
      in if v < 0 then Inl (st', ArtifactGraphError (''ARTIFACT_GRAPH_INDEGREE_CORRUPT: '' @ d))
         else Inr (if v = 0 then st'\<lparr>gr_ready := insort (job_order jobs d, d) (gr_ready st')\<rparr> else st'))"

definition release_dependents :: "graph_plan \<Rightarrow> graph_state \<Rightarrow> string \<Rightarrow> (graph_state \<times> graph_error) + graph_state" where
  "release_dependents p st i = foldM (release_one (gp_jobs p)) st (graph_dependents (gp_producers p) (gp_jobs p) i)"

definition active_futures :: "graph_state \<Rightarrow> nat list" where
  "active_futures st = map fst (gr_generation st) @ map fst (gr_validation st)"

definition owner_of :: "graph_state \<Rightarrow> nat \<Rightarrow> string" where
  "owner_of st f = (case map_of (gr_generation st) f of Some j \<Rightarrow> aj_job_id j
     | None \<Rightarrow> (case map_of (gr_validation st) f of Some (j, _) \<Rightarrow> aj_job_id j | None \<Rightarrow> []))"

text \<open>A turn of the loop with the answer of its \<open>wait\<close>.\<close>

definition graph_turn :: "graph_host \<Rightarrow> graph_plan \<Rightarrow> graph_state \<Rightarrow> wait_event \<Rightarrow> (graph_state \<times> graph_error) + graph_state" where
  "graph_turn h p st ev =
     (if we_done ev = [] then
        (let expired = filter (\<lambda>f. we_deadline ev f \<le> we_now ev) (active_futures st) in
         if expired = [] then Inr st
         else Inl (st, ArtifactGraphError (''ARTIFACT_GRAPH_WORK_TIMEOUT: '' @ py_repr (PList (map (PStr \<circ> owner_of st) expired)))))
      else rbind (foldM (complete_one h) (st, []) (we_done ev)) (\<lambda>(st1, newly).
        rbind (foldM (release_dependents p) st1 (sort_key (job_order (gp_jobs p)) newly)) (\<lambda>st2. Inr (submit_ready p st2))))"

text \<open>The loop over the answers of its waits. An exception leaves through \<open>finally\<close>, which cancels every lease
  still held; \<open>Unfinished\<close> is a run whose next \<open>wait\<close> has not returned.\<close>

datatype graph_outcome = Finished graph_state | Failed graph_error "nat list" | Unfinished graph_state

fun graph_loop :: "graph_host \<Rightarrow> graph_plan \<Rightarrow> PortRegistry \<Rightarrow> graph_state \<Rightarrow> wait_event list \<Rightarrow> graph_outcome" where
  "graph_loop h p reg st evs =
     (if gr_pending st = [] \<and> gr_generation st = [] \<and> gr_validation st = [] then Finished st
      else if gr_generation st = [] \<and> gr_validation st = []
        then Failed (ArtifactGraphError (''ARTIFACT_GRAPH_DEADLOCK: '' @ py_repr (PDict (blocked_jobs p reg st)))) (gr_budgets st)
      else (case evs of
          [] \<Rightarrow> Unfinished st
        | ev # rest \<Rightarrow> (case graph_turn h p st ev of
            Inl (st', e) \<Rightarrow> Failed e (gr_budgets st')
          | Inr st' \<Rightarrow> graph_loop h p (we_registry ev) st' rest)))"

declare graph_loop.simps [simp del]

section \<open>The whole run\<close>

record graph_receipt =
  gx_completed :: "string list"
  gx_receipts :: "pydict list"
  gx_ports :: "(string \<times> TypedPort) list"

text \<open>The answer with status \<open>PASS\<close>; or the exception with the futures whose leases were cancelled; or no answer yet.\<close>

datatype graph_answer = Answered graph_receipt | Raised graph_error "nat list" | NoAnswer graph_state

definition answer_of :: "graph_error + graph_receipt \<Rightarrow> graph_answer" where
  "answer_of r = (case r of Inl e \<Rightarrow> Raised e [] | Inr g \<Rightarrow> Answered g)"

definition graph_preflight :: "graph_host \<Rightarrow> PortRegistry option \<Rightarrow> ArtifactJob list \<Rightarrow> graph_error + PortRegistry" where
  "graph_preflight h given jobs =
     rbind (mapM (execution_context h) jobs) (\<lambda>_.
     rbind (require (distinct (job_ids jobs)) (ArtifactGraphError ''ARTIFACT_DUPLICATE_JOB_ID'')) (\<lambda>_.
     bind_version h (case given of None \<Rightarrow> new_registry | Some reg \<Rightarrow> reg)))"

definition graph_producers :: "graph_host \<Rightarrow> PortRegistry \<Rightarrow> ArtifactJob list \<Rightarrow> graph_error + producers" where
  "graph_producers h reg jobs =
     rbind (producer_index jobs) (\<lambda>ps.
     rbind (declared_java_source_ports h jobs) (\<lambda>_.
     rbind (require (missing_external ps reg jobs = [])
       (ArtifactGraphError (''ARTIFACT_GRAPH_MISSING_PRODUCER: '' @ py_repr (PDict (missing_external ps reg jobs))))) (\<lambda>_.
     Inr ps)))"

definition run_single :: "graph_host \<Rightarrow> PortRegistry \<Rightarrow> ArtifactJob \<Rightarrow> graph_error + graph_receipt" where
  "run_single h reg job = (case gh_execute_one h job reg of (result, reg') \<Rightarrow>
     rbind result (\<lambda>receipt.
     rbind (validate_completed_job h reg' job receipt) (\<lambda>_.
     rbind (gh_wire h [job] [receipt]) (\<lambda>_.
     Inr \<lparr>gx_completed = [aj_job_id job], gx_receipts = [receipt], gx_ports = all_ports reg'\<rparr>))))"

definition graph_workers :: "graph_host \<Rightarrow> ArtifactJob list \<Rightarrow> graph_error + int" where
  "graph_workers h jobs =
     rbind (generation_parallelism h (int (length jobs))) (\<lambda>workers.
     rbind (validation_parallelism h (int (length jobs)) workers) (\<lambda>_. Inr workers))"

definition graph_receipts :: "ArtifactJob list \<Rightarrow> (string \<times> pydict) list \<Rightarrow> graph_error + pydict list" where
  "graph_receipts jobs results = mapM (\<lambda>j. case map_of results (aj_job_id j) of
     None \<Rightarrow> Inl (WorkerFault (KeyError (aj_job_id j))) | Some r \<Rightarrow> Inr r) jobs"

text \<open>\<open>last_reg\<close> is the registry when the answer is built.\<close>

definition execute_artifact_graph :: "graph_host \<Rightarrow> PortRegistry option \<Rightarrow> ArtifactJob list \<Rightarrow> wait_event list \<Rightarrow> PortRegistry \<Rightarrow> graph_answer" where
  "execute_artifact_graph h given jobs evs last_reg =
     (case graph_preflight h given jobs of
        Inl e \<Rightarrow> Raised e []
      | Inr reg \<Rightarrow>
        if jobs = [] then Answered \<lparr>gx_completed = [], gx_receipts = [], gx_ports = all_ports reg\<rparr>
        else (case graph_producers h reg jobs of
          Inl e \<Rightarrow> Raised e []
        | Inr ps \<Rightarrow>
          if length jobs = 1 then answer_of (run_single h reg (hd jobs))
          else (case graph_workers h jobs of
            Inl e \<Rightarrow> Raised e []
          | Inr workers \<Rightarrow>
            (let p = \<lparr>gp_jobs = jobs, gp_producers = ps, gp_workers = workers\<rparr> in
             case graph_loop h p reg (initial_graph p) evs of
               Unfinished st \<Rightarrow> NoAnswer st
             | Failed e cancelled \<Rightarrow> Raised e cancelled
             | Finished st \<Rightarrow> answer_of (rbind (graph_receipts jobs (gr_results st)) (\<lambda>receipts.
                 rbind (gh_wire h jobs receipts) (\<lambda>_.
                 Inr \<lparr>gx_completed = job_ids jobs, gx_receipts = receipts, gx_ports = all_ports last_reg\<rparr>)))))))"

end
