(* ===== verification/Assoc_Lists.thy ===== *)
theory Assoc_Lists
  imports MMM_Prelude "HOL-Library.AList"
begin

text \<open>
  Dictionaries as association lists with distinct keys: what \<open>pop\<close> takes out of them.
\<close>

lemma delete_split:
  assumes "map_of g f = Some v" "distinct (map fst g)"
  obtains xs ys where "g = xs @ (f, v) # ys" "AList.delete f g = xs @ ys"
proof -
  from assms(1) obtain xs ys where g: "g = xs @ (f, v) # ys" by (meson map_of_SomeD split_list)
  with assms(2) have "f \<notin> set (map fst xs)" "f \<notin> set (map fst ys)" by auto
  then have "filter (\<lambda>(k, _). f \<noteq> k) xs = xs" "filter (\<lambda>(k, _). f \<noteq> k) ys = ys" by (force simp: filter_id_conv)+
  then have "AList.delete f g = xs @ ys" unfolding g by (simp add: AList.delete_eq)
  with g that show ?thesis by blast
qed

lemma length_delete_le: "length (AList.delete f g) \<le> length g"
  by (simp add: AList.delete_eq)

lemma length_delete_less: "map_of g f = Some v \<Longrightarrow> length (AList.delete f g) < length g"
  by (induction g) (auto simp: AList.delete_eq less_Suc_eq_le split: if_splits)

end
