(* ===== verification/Artifact_Graph_Invariant.thy ===== *)
theory Artifact_Graph_Invariant
  imports Artifact_Graph Artifact_Job_Properties Assoc_Lists
begin

text \<open>
  The event loop of the artifact graph as an instance of Kahn's algorithm: the jobs whose validation has been
  counted are the emitted nodes; the heap, the jobs in generation and in validation are the ready ones. Every
  piece of a turn keeps the invariant \<open>graph_ok\<close>, and the releases never fail.
\<close>

section \<open>The graph\<close>

definition graph_nodes :: "ArtifactJob list \<Rightarrow> string set" where
  "graph_nodes jobs = (if distinct (job_ids jobs) then set (job_ids jobs) else {})"

definition graph_deps :: "producers \<Rightarrow> ArtifactJob list \<Rightarrow> string \<Rightarrow> string list" where
  "graph_deps ps jobs k = (case by_id jobs k of None \<Rightarrow> [] | Some j \<Rightarrow> required_producers ps j)"

lemma by_id_SomeD: "by_id jobs i = Some j \<Longrightarrow> j \<in> set jobs \<and> aj_job_id j = i"
  by (auto simp: by_id_def find_Some_iff)

lemma by_id_member: "distinct (job_ids jobs) \<Longrightarrow> j \<in> set jobs \<Longrightarrow> by_id jobs (aj_job_id j) = Some j"
  by (induction jobs) (auto simp: by_id_def job_ids_def)

lemma by_id_node: "i \<in> graph_nodes jobs \<Longrightarrow> \<exists>j. by_id jobs i = Some j"
  using by_id_member by (fastforce simp: graph_nodes_def job_ids_def split: if_splits)

lemma distinct_required_producers [simp]: "distinct (required_producers ps j)"
  by (simp add: required_producers_def)

lemma set_required_producers:
  "i \<in> set (required_producers ps j) \<longleftrightarrow> (\<exists>port \<in> set (aj_requires j). map_of ps port = Some i)"
  by (force simp: required_producers_def List.map_filter_def)

lemma graph_dependents_iff:
  assumes "distinct (job_ids jobs)"
  shows "k \<in> set (graph_dependents ps jobs n) \<longleftrightarrow> k \<in> set (job_ids jobs) \<and> n \<in> set (graph_deps ps jobs k)"
proof -
  have "n \<in> set (graph_deps ps jobs (aj_job_id j)) \<longleftrightarrow> n \<in> set (required_producers ps j)" if "j \<in> set jobs" for j
    using by_id_member[OF assms that] by (simp add: graph_deps_def)
  then show ?thesis by (auto simp: graph_dependents_def job_ids_def)
qed

lemma distinct_graph_dependents: "distinct (job_ids jobs) \<Longrightarrow> distinct (graph_dependents ps jobs n)"
  by (simp add: graph_dependents_def job_ids_def distinct_map_filter)

interpretation art_graph: kahn_graph "graph_nodes jobs" "graph_deps ps jobs" "graph_dependents ps jobs" for ps jobs
proof unfold_locales
  show "finite (graph_nodes jobs)" by (simp add: graph_nodes_def)
  fix n k assume n: "n \<in> graph_nodes jobs"
  then have d: "distinct (job_ids jobs)" by (simp add: graph_nodes_def split: if_splits)
  show "set (graph_dependents ps jobs n) \<subseteq> graph_nodes jobs" using d graph_dependents_iff[OF d] by (auto simp: graph_nodes_def)
  assume k: "k \<in> graph_nodes jobs"
  have "distinct (graph_deps ps jobs k)" by (simp add: graph_deps_def split: option.split)
  then show "count_list (graph_dependents ps jobs n) k = count_list (graph_deps ps jobs k) n"
    using k d distinct_graph_dependents[OF d] graph_dependents_iff[OF d, of k ps n] by (simp add: count_distinct graph_nodes_def)
qed

lemma kahn_inv_mset: "mset r = mset r' \<Longrightarrow> kahn_inv nodes deps deg r acc = kahn_inv nodes deps deg r' acc"
proof -
  assume m: "mset r = mset r'"
  then have "set r = set r'" by (rule mset_eq_setD)
  moreover have "distinct r = distinct r'" using m by (rule mset_eq_imp_distinct_iff)
  ultimately show ?thesis by (simp add: kahn_inv_def)
qed

section \<open>The invariant\<close>

definition working :: "graph_state \<Rightarrow> string list" where
  "working st = map (aj_job_id \<circ> snd) (gr_generation st) @ map (aj_job_id \<circ> fst \<circ> snd) (gr_validation st)"

definition working_jobs :: "graph_state \<Rightarrow> ArtifactJob set" where
  "working_jobs st = snd ` set (gr_generation st) \<union> fst ` snd ` set (gr_validation st)"

definition futures_ok :: "graph_state \<Rightarrow> bool" where
  "futures_ok st \<longleftrightarrow> distinct (active_futures st) \<and> (\<forall>f \<in> set (active_futures st). f < gr_next st) \<and>
     set (gr_budgets st) = set (active_futures st)"

text \<open>\<open>newly\<close> are the jobs validated in this turn whose dependents are not released yet.\<close>

definition graph_ok :: "graph_plan \<Rightarrow> string list \<Rightarrow> string list \<Rightarrow> graph_state \<Rightarrow> bool" where
  "graph_ok p newly acc st \<longleftrightarrow>
     kahn_inv (graph_nodes (gp_jobs p)) (graph_deps (gp_producers p) (gp_jobs p)) (deg_of (gr_indegree st))
       (map snd (gr_ready st) @ working st @ newly) acc \<and>
     set (gr_pending st) = graph_nodes (gp_jobs p) - set (working st @ newly @ acc) \<and>
     set (gr_validated st) = set (newly @ acc) \<and> set (keys (gr_results st)) = set (newly @ acc) \<and>
     (\<forall>j \<in> working_jobs st. by_id (gp_jobs p) (aj_job_id j) = Some j) \<and>
     futures_ok st \<and> int (length (gr_generation st)) \<le> gp_workers p"

lemma graph_ok_kahn:
  assumes "graph_ok p newly acc st" "mset r = mset (map snd (gr_ready st) @ working st @ newly)"
  shows "kahn_inv (graph_nodes (gp_jobs p)) (graph_deps (gp_producers p) (gp_jobs p)) (deg_of (gr_indegree st)) r acc"
  unfolding kahn_inv_mset[OF assms(2)] using assms(1) by (simp add: graph_ok_def)

lemma futures_ok_new:
  assumes "futures_ok st" "gr_next s = Suc (gr_next st)" "mset (active_futures s) = add_mset (gr_next st) (mset (active_futures st))"
    and "set (gr_budgets s) = insert (gr_next st) (set (gr_budgets st))"
  shows "futures_ok s"
proof -
  have set: "set (active_futures s) = insert (gr_next st) (set (active_futures st))"
    using assms(3) by (metis set_mset_add_mset_insert set_mset_mset)
  have "distinct (gr_next st # active_futures st)" using assms(1) by (auto simp: futures_ok_def)
  then have "distinct (active_futures s)" using mset_eq_imp_distinct_iff[of "gr_next st # active_futures st" "active_futures s"] assms(3) by simp
  with set assms show ?thesis by (auto simp: futures_ok_def)
qed

lemma submit_loop_ok:
  assumes "graph_ok p [] acc (st\<lparr>gr_ready := heap\<rparr>)" "slots = gp_workers p - int (length (gr_generation st))"
    and "st' = submit_loop (gp_jobs p) heap slots st"
  shows "graph_ok p [] acc st' \<and> (gr_ready st' = [] \<or> gp_workers p \<le> int (length (gr_generation st')))"
  using assms
proof (induction heap arbitrary: st slots)
  case Nil
  then show ?case by simp
next
  case (Cons e heap)
  show ?case
  proof (cases "slots \<le> 0")
    case True
    with Cons.prems show ?thesis by simp
  next
    case False
    let ?i = "snd e"
    have k: "kahn_inv (graph_nodes (gp_jobs p)) (graph_deps (gp_producers p) (gp_jobs p)) (deg_of (gr_indegree st))
       (?i # map snd heap @ working st) acc"
      using Cons.prems(1) by (simp add: graph_ok_def working_def)
    then have i: "?i \<in> graph_nodes (gp_jobs p)" "?i \<notin> set (working st)" "?i \<notin> set acc" by (auto simp: kahn_inv_def)
    then obtain j where j: "by_id (gp_jobs p) ?i = Some j" using by_id_node by blast
    have pend: "?i \<in> set (gr_pending st)" using Cons.prems(1) i by (simp add: graph_ok_def working_def)
    define s where "s = st\<lparr>gr_pending := removeAll ?i (gr_pending st), gr_generation := gr_generation st @ [(gr_next st, j)],
              gr_budgets := gr_budgets st @ [gr_next st], gr_next := Suc (gr_next st)\<rparr>"
    have ji: "aj_job_id j = ?i" using by_id_SomeD[OF j] by simp
    have w: "mset (working s) = add_mset ?i (mset (working st))" by (simp add: s_def working_def ji)
    then have ws: "set (working s) = insert ?i (set (working st))" by (metis set_mset_add_mset_insert set_mset_mset)
    have "kahn_inv (graph_nodes (gp_jobs p)) (graph_deps (gp_producers p) (gp_jobs p)) (deg_of (gr_indegree s)) (map snd heap @ working s @ []) acc"
      using k kahn_inv_mset[of "?i # map snd heap @ working st" "map snd heap @ working s"] w by (simp add: s_def)
    moreover have "futures_ok s"
      by (rule futures_ok_new[of "st\<lparr>gr_ready := e # heap\<rparr>"]) (use Cons.prems(1) in \<open>auto simp: graph_ok_def s_def active_futures_def\<close>)
    moreover have "int (length (gr_generation s)) \<le> gp_workers p" using False Cons.prems(2) by (simp add: s_def)
    ultimately have "graph_ok p [] acc (s\<lparr>gr_ready := heap\<rparr>)"
      using Cons.prems(1) ws j ji unfolding graph_ok_def by (auto simp: s_def working_def working_jobs_def futures_ok_def active_futures_def)
    moreover have "st' = submit_loop (gp_jobs p) heap (slots - 1) s" using Cons.prems(3) False pend j by (simp add: s_def)
    moreover have "slots - 1 = gp_workers p - int (length (gr_generation s))" using Cons.prems(2) by (simp add: s_def)
    ultimately show ?thesis using Cons.IH[of s "slots - 1"] by blast
  qed
qed

lemma submit_ready_ok:
  "graph_ok p [] acc st \<Longrightarrow> graph_ok p [] acc (submit_ready p st) \<and>
     (gr_ready (submit_ready p st) = [] \<or> gp_workers p \<le> int (length (gr_generation (submit_ready p st))))"
  using submit_loop_ok[where st = st and heap = "gr_ready st" and st' = "submit_ready p st"] by (simp add: submit_ready_def)

section \<open>Completions\<close>

lemma futures_ok_drop:
  assumes "futures_ok st" "gr_next s = gr_next st" "mset (active_futures st) = add_mset f (mset (active_futures s))"
    and "gr_budgets s = removeAll f (gr_budgets st)"
  shows "futures_ok s" "set (active_futures s) = set (active_futures st) - {f}"
proof -
  have "distinct (f # active_futures s)" using assms(1,3) mset_eq_imp_distinct_iff[of "active_futures st" "f # active_futures s"]
    by (simp add: futures_ok_def)
  moreover have "set (active_futures st) = insert f (set (active_futures s))" using assms(3) by (metis set_mset_add_mset_insert set_mset_mset)
  ultimately show "futures_ok s" "set (active_futures s) = set (active_futures st) - {f}" using assms by (auto simp: futures_ok_def)
qed

text \<open>The state without a future, as \<open>complete_one\<close> leaves it before it looks at the result.\<close>

definition without_future :: "nat \<Rightarrow> graph_state \<Rightarrow> graph_state" where
  "without_future f st = st\<lparr>gr_budgets := removeAll f (gr_budgets st),
     gr_generation := (if map_of (gr_generation st) f = None then gr_generation st else AList.delete f (gr_generation st)),
     gr_validation := (if map_of (gr_generation st) f = None then AList.delete f (gr_validation st) else gr_validation st)\<rparr>"

lemma generation_dropped:
  assumes ok: "futures_ok st" and f: "map_of (gr_generation st) f = Some job"
  shows "futures_ok (without_future f st)" "set (active_futures (without_future f st)) = set (active_futures st) - {f}"
    and "mset (working st) = add_mset (aj_job_id job) (mset (working (without_future f st)))"
    and "length (gr_generation st) = Suc (length (gr_generation (without_future f st)))"
    and "working_jobs st = insert job (working_jobs (without_future f st))"
proof -
  have "distinct (keys (gr_generation st))" using ok by (simp add: futures_ok_def active_futures_def)
  from delete_split[OF f this] obtain xs ys where
    g: "gr_generation st = xs @ (f, job) # ys" "AList.delete f (gr_generation st) = xs @ ys" by blast
  have "mset (active_futures st) = add_mset f (mset (active_futures (without_future f st)))"
    using f g by (simp add: active_futures_def without_future_def)
  from futures_ok_drop[OF ok _ this]
  show "futures_ok (without_future f st)" "set (active_futures (without_future f st)) = set (active_futures st) - {f}"
    by (simp_all add: without_future_def)
  show "mset (working st) = add_mset (aj_job_id job) (mset (working (without_future f st)))"
    "length (gr_generation st) = Suc (length (gr_generation (without_future f st)))"
    "working_jobs st = insert job (working_jobs (without_future f st))"
    using f g by (auto simp: working_def working_jobs_def without_future_def)
qed

lemma validation_dropped:
  assumes ok: "futures_ok st" and n: "map_of (gr_generation st) f = None" and f: "map_of (gr_validation st) f = Some (job, receipt)"
  shows "futures_ok (without_future f st)" "set (active_futures (without_future f st)) = set (active_futures st) - {f}"
    and "mset (working st) = add_mset (aj_job_id job) (mset (working (without_future f st)))"
    and "working_jobs st = insert job (working_jobs (without_future f st))"
proof -
  have "distinct (keys (gr_validation st))" using ok by (simp add: futures_ok_def active_futures_def)
  from delete_split[OF f this] obtain xs ys where
    g: "gr_validation st = xs @ (f, job, receipt) # ys" "AList.delete f (gr_validation st) = xs @ ys" by blast
  have "mset (active_futures st) = add_mset f (mset (active_futures (without_future f st)))"
    using n g by (simp add: active_futures_def without_future_def)
  from futures_ok_drop[OF ok _ this]
  show "futures_ok (without_future f st)" "set (active_futures (without_future f st)) = set (active_futures st) - {f}"
    by (simp_all add: without_future_def)
  show "mset (working st) = add_mset (aj_job_id job) (mset (working (without_future f st)))"
    "working_jobs st = insert job (working_jobs (without_future f st))"
    using n g by (auto simp: working_def working_jobs_def without_future_def)
qed

definition validation_result :: "graph_host \<Rightarrow> report \<Rightarrow> ArtifactJob \<Rightarrow> pydict \<Rightarrow> graph_error + unit" where
  "validation_result h rp job receipt = (case rp_abort rp of Some e \<Rightarrow> Inl e | None \<Rightarrow> validate_completed_job h (rp_registry rp) job receipt)"

definition enter_validation :: "ArtifactJob \<Rightarrow> pydict \<Rightarrow> graph_state \<Rightarrow> graph_state" where
  "enter_validation job receipt st = st\<lparr>gr_validation := gr_validation st @ [(gr_next st, job, receipt)],
     gr_budgets := gr_budgets st @ [gr_next st], gr_next := Suc (gr_next st)\<rparr>"

definition record_result :: "ArtifactJob \<Rightarrow> pydict \<Rightarrow> graph_state \<Rightarrow> graph_state" where
  "record_result job receipt st = st\<lparr>gr_validated := List.insert (aj_job_id job) (gr_validated st),
     gr_results := AList.update (aj_job_id job) receipt (gr_results st)\<rparr>"

lemma complete_one_cases:
  "complete_one h (st, newly) (f, rp) = (case map_of (gr_generation st) f of
     Some job \<Rightarrow> (case rp_receipt rp of
       Inl e \<Rightarrow> Inl (without_future f st, e)
     | Inr receipt \<Rightarrow> Inr (enter_validation job receipt (without_future f st), newly))
   | None \<Rightarrow> (case map_of (gr_validation st) f of
       None \<Rightarrow> Inl (st\<lparr>gr_budgets := removeAll f (gr_budgets st)\<rparr>, WorkerFault (KeyError ''future''))
     | Some (job, receipt) \<Rightarrow> (case validation_result h rp job receipt of
         Inl e \<Rightarrow> Inl (without_future f st, e)
       | Inr _ \<Rightarrow> Inr (record_result job receipt (without_future f st), newly @ [aj_job_id job]))))"
  by (simp add: complete_one_def without_future_def validation_result_def enter_validation_def record_result_def Let_def
      split: option.split sum.split prod.split)

lemma without_future_fields [simp]:
  "gr_ready (without_future f st) = gr_ready st" "gr_pending (without_future f st) = gr_pending st"
  "gr_validated (without_future f st) = gr_validated st" "gr_results (without_future f st) = gr_results st"
  "gr_indegree (without_future f st) = gr_indegree st" "gr_next (without_future f st) = gr_next st"
  by (simp_all add: without_future_def)

lemma generation_done_ok:
  assumes ok: "graph_ok p newly acc st" and f: "map_of (gr_generation st) f = Some job"
  shows "graph_ok p newly acc (enter_validation job receipt (without_future f st))"
    and "set (active_futures st) - {f} \<subseteq> set (active_futures (enter_validation job receipt (without_future f st)))"
proof -
  let ?s = "enter_validation job receipt (without_future f st)"
  have fut: "futures_ok st" using ok by (simp add: graph_ok_def)
  note drop = generation_dropped[OF fut f]
  have new: "futures_ok ?s"
    by (rule futures_ok_new[OF drop(1)]) (simp_all add: enter_validation_def active_futures_def)
  have work: "mset (working ?s) = mset (working st)" using drop(3) by (simp add: enter_validation_def working_def)
  then have works: "set (working ?s) = set (working st)" by (rule mset_eq_setD)
  have "kahn_inv (graph_nodes (gp_jobs p)) (graph_deps (gp_producers p) (gp_jobs p)) (deg_of (gr_indegree ?s))
      (map snd (gr_ready ?s) @ working ?s @ newly) acc"
  proof -
    have "mset (map snd (gr_ready st) @ working ?s @ newly) = mset (map snd (gr_ready st) @ working st @ newly)" using work by simp
    from graph_ok_kahn[OF ok this] show ?thesis by (simp add: enter_validation_def)
  qed
  moreover have "working_jobs ?s = working_jobs st" using drop(5) by (simp add: working_jobs_def enter_validation_def)
  moreover have "int (length (gr_generation ?s)) \<le> gp_workers p" using ok drop(4) by (simp add: graph_ok_def enter_validation_def)
  ultimately show "graph_ok p newly acc ?s" using ok works new by (simp add: graph_ok_def enter_validation_def)
  show "set (active_futures st) - {f} \<subseteq> set (active_futures ?s)" using drop(2) by (auto simp: enter_validation_def active_futures_def)
qed

lemma validation_done_ok:
  assumes ok: "graph_ok p newly acc st" and n: "map_of (gr_generation st) f = None" and f: "map_of (gr_validation st) f = Some (job, receipt)"
  shows "graph_ok p (newly @ [aj_job_id job]) acc (record_result job receipt (without_future f st))"
    and "set (active_futures st) - {f} \<subseteq> set (active_futures (record_result job receipt (without_future f st)))"
proof -
  let ?s = "record_result job receipt (without_future f st)"
  have fut: "futures_ok st" using ok by (simp add: graph_ok_def)
  note drop = validation_dropped[OF fut n f]
  have same: "active_futures ?s = active_futures (without_future f st)" "working ?s = working (without_future f st)"
    by (simp_all add: record_result_def active_futures_def working_def)
  have new: "futures_ok ?s" using drop(1) same by (simp add: futures_ok_def record_result_def)
  have works: "set (working st) = insert (aj_job_id job) (set (working ?s))"
    using drop(3) same(2) by (metis set_mset_add_mset_insert set_mset_mset)
  have "kahn_inv (graph_nodes (gp_jobs p)) (graph_deps (gp_producers p) (gp_jobs p)) (deg_of (gr_indegree ?s))
      (map snd (gr_ready ?s) @ working ?s @ newly @ [aj_job_id job]) acc"
  proof -
    have "mset (map snd (gr_ready st) @ working ?s @ newly @ [aj_job_id job]) = mset (map snd (gr_ready st) @ working st @ newly)"
      using drop(3) same(2) by simp
    from graph_ok_kahn[OF ok this] show ?thesis by (simp add: record_result_def)
  qed
  moreover have "working_jobs ?s \<subseteq> working_jobs st" using drop(4) by (auto simp: working_jobs_def record_result_def)
  moreover have "set (keys (gr_results ?s)) = insert (aj_job_id job) (set (newly @ acc))"
    using ok set_keys_AList_update[of "aj_job_id job" receipt "gr_results st"] by (simp add: graph_ok_def record_result_def)
  moreover have "set (gr_pending ?s) = graph_nodes (gp_jobs p) - set (working ?s @ (newly @ [aj_job_id job]) @ acc)"
    using ok works by (auto simp: graph_ok_def record_result_def)
  moreover have "set (gr_validated ?s) = set ((newly @ [aj_job_id job]) @ acc)" using ok by (auto simp: graph_ok_def record_result_def)
  moreover have "int (length (gr_generation ?s)) \<le> gp_workers p" using ok n by (simp add: graph_ok_def record_result_def without_future_def)
  ultimately show "graph_ok p (newly @ [aj_job_id job]) acc ?s" using ok new unfolding graph_ok_def by auto
  show "set (active_futures st) - {f} \<subseteq> set (active_futures ?s)" using drop(2) same(1) by simp
qed

lemma active_future_cases:
  assumes "f \<in> set (active_futures st)"
  obtains job where "map_of (gr_generation st) f = Some job"
  | job receipt where "map_of (gr_generation st) f = None" "map_of (gr_validation st) f = Some (job, receipt)"
proof -
  have "map_of (gr_generation st) f \<noteq> None \<or> map_of (gr_validation st) f \<noteq> None"
    using assms by (auto simp: active_futures_def map_of_eq_None_iff)
  then show ?thesis using that by (cases "map_of (gr_generation st) f") auto
qed

text \<open>All the futures of an event: the invariant, or a failure that leaves no lease without its future.\<close>

lemma complete_all_ok:
  assumes "graph_ok p newly acc st" "distinct (map fst ds)" "set (map fst ds) \<subseteq> set (active_futures st)"
  shows "case foldM (complete_one h) (st, newly) ds of
      Inl (s, e) \<Rightarrow> set (gr_budgets s) = set (active_futures s) \<and> set (active_futures st) - set (map fst ds) \<subseteq> set (active_futures s)
    | Inr (s, newly') \<Rightarrow> graph_ok p newly' acc s"
  using assms
proof (induction ds arbitrary: st newly)
  case Nil
  then show ?case by simp
next
  case (Cons d ds)
  obtain f rp where d: "d = (f, rp)" by (rule prod.exhaust)
  have fut: "futures_ok st" using Cons.prems(1) by (simp add: graph_ok_def)
  have rest: "set (map fst ds) \<subseteq> set (active_futures st) - {f}" using Cons.prems(2,3) d by auto
  from Cons.prems(3) d have "f \<in> set (active_futures st)" by simp
  then show ?case
  proof (cases rule: active_future_cases)
    case (1 job)
    note drop = generation_dropped[OF fut 1]
    show ?thesis
    proof (cases "rp_receipt rp")
      case (Inl e)
      then show ?thesis using 1 drop(1,2) by (auto simp: d complete_one_cases futures_ok_def)
    next
      case (Inr receipt)
      note done_ok = generation_done_ok[OF Cons.prems(1) 1, of receipt]
      from Cons.IH[OF done_ok(1) _ subset_trans[OF rest done_ok(2)]] done_ok(2) Cons.prems(2) show ?thesis
        using 1 Inr by (auto simp: d complete_one_cases split: sum.splits)
    qed
  next
    case (2 job receipt)
    note drop = validation_dropped[OF fut 2]
    show ?thesis
    proof (cases "validation_result h rp job receipt")
      case (Inl e)
      then show ?thesis using 2 drop(1,2) by (auto simp: d complete_one_cases futures_ok_def)
    next
      case (Inr u)
      note done_ok = validation_done_ok[OF Cons.prems(1) 2]
      from Cons.IH[OF done_ok(1) _ subset_trans[OF rest done_ok(2)]] done_ok(2) Cons.prems(2) show ?thesis
        using 2 Inr by (auto simp: d complete_one_cases split: sum.splits)
    qed
  qed
qed

section \<open>Releases\<close>

text \<open>The loop over the dependents is \<open>relax\<close> with a heap, while no counter runs below zero.\<close>

definition push_all :: "ArtifactJob list \<Rightarrow> string list \<Rightarrow> (nat \<times> string) list \<Rightarrow> (nat \<times> string) list" where
  "push_all jobs ds heap = fold (\<lambda>d. insort (job_order jobs d, d)) ds heap"

lemma mset_push_all: "mset (map snd (push_all jobs ds heap)) = mset ds + mset (map snd heap)"
  by (induction ds arbitrary: heap) (simp_all add: push_all_def)

lemma release_relax:
  assumes "\<And>k. int (count_list ds k) \<le> deg_of (gr_indegree st) k" "relax ds (gr_indegree st) ready = (deg, ready @ zs)"
  shows "foldM (release_one jobs) st ds = Inr (st\<lparr>gr_indegree := deg, gr_ready := push_all jobs zs (gr_ready st)\<rparr>)"
  using assms
proof (induction ds arbitrary: st ready zs)
  case Nil
  then show ?case by (simp add: push_all_def)
next
  case (Cons d ds)
  let ?v = "deg_of (gr_indegree st) d - 1"
  define st' where "st' = st\<lparr>gr_indegree := AList.update d ?v (gr_indegree st),
    gr_ready := (if ?v = 0 then insort (job_order jobs d, d) (gr_ready st) else gr_ready st)\<rparr>"
  have v: "0 \<le> ?v" using Cons.prems(1)[of d] by simp
  then have one: "release_one jobs st d = Inr st'" by (simp add: release_one_def Let_def st'_def)
  have le: "int (count_list ds k) \<le> deg_of (gr_indegree st') k" for k
    using Cons.prems(1)[of k] by (simp add: st'_def deg_of_def update_conv split: if_splits)
  let ?ready = "if ?v = 0 then ready @ [d] else ready"
  have "relax ds (gr_indegree st') ?ready = (deg, ready @ zs)" using Cons.prems(2) by (simp add: st'_def Let_def)
  moreover have "snd (relax ds (gr_indegree st') ?ready) = ?ready @ snd (relax ds (gr_indegree st') [])"
    by (subst relax_append) simp
  ultimately obtain ys where ys: "relax ds (gr_indegree st') ?ready = (deg, ?ready @ ys)" "zs = (if ?v = 0 then d # ys else ys)"
    by (auto split: if_splits)
  from Cons.IH[OF le ys(1)] one show ?case by (simp add: st'_def ys(2) push_all_def)
qed

lemma release_dependents_ok:
  assumes ok: "graph_ok p (n # newly) acc st"
  obtains st' where "release_dependents p st n = Inr st'" "graph_ok p newly (acc @ [n]) st'" "gr_generation st' = gr_generation st"
    "gr_validation st' = gr_validation st"
proof -
  let ?N = "graph_nodes (gp_jobs p)" and ?D = "graph_deps (gp_producers p) (gp_jobs p)"
  let ?out = "graph_dependents (gp_producers p) (gp_jobs p) n" and ?r = "n # map snd (gr_ready st) @ working st @ newly"
  have k: "kahn_inv ?N ?D (deg_of (gr_indegree st)) ?r acc" by (rule graph_ok_kahn[OF ok]) simp
  have n: "n \<in> ?N" "n \<notin> set acc" and dr: "distinct ?r" using k by (auto simp: kahn_inv_def)
  obtain deg r where relax: "relax ?out (gr_indegree st) [] = (deg, r)" by (rule prod.exhaust)
  note le = art_graph.out_le_deg[OF k n]
  from relax_spec[OF relax le] have deg: "\<And>k. deg_of deg k = deg_of (gr_indegree st) k - int (count_list ?out k)"
    and r: "distinct r" "set r = {k \<in> set ?out. deg_of (gr_indegree st) k = int (count_list ?out k)}" by auto
  define st' where "st' = st\<lparr>gr_indegree := deg, gr_ready := push_all (gp_jobs p) r (gr_ready st)\<rparr>"
  have run: "release_dependents p st n = Inr st'"
    using release_relax[OF le, of "[]" deg r] relax by (simp add: release_dependents_def st'_def)
  have m: "mset (map snd (gr_ready st') @ working st' @ newly) = mset (r @ map snd (gr_ready st) @ working st @ newly)"
    using mset_push_all[of "gp_jobs p" r "gr_ready st"] by (simp add: st'_def working_def)
  have fresh: "x \<notin> set ?r" if "x \<in> set r" for x
    using that art_graph.fresh[OF k, of n x] by (simp add: r(2))
  have "kahn_inv ?N ?D (deg_of deg) (r @ map snd (gr_ready st) @ working st @ newly) (acc @ [n])"
  proof (rule art_graph.step[OF k _ deg r(2)])
    show "n \<in> set ?r" by simp
    show "set (r @ map snd (gr_ready st) @ working st @ newly) = set ?r - {n} \<union> set r" using dr by auto
    show "distinct (r @ map snd (gr_ready st) @ working st @ newly)" using dr r(1) fresh by auto
  qed
  then have "kahn_inv ?N ?D (deg_of (gr_indegree st')) (map snd (gr_ready st') @ working st' @ newly) (acc @ [n])"
    unfolding kahn_inv_mset[OF m] by (simp add: st'_def)
  then have "graph_ok p newly (acc @ [n]) st'"
    using ok by (simp add: graph_ok_def st'_def working_def working_jobs_def futures_ok_def active_futures_def)
  with run that show ?thesis by (simp add: st'_def)
qed

lemma release_all_ok:
  "graph_ok p newly acc st \<Longrightarrow> \<exists>st' acc'. foldM (release_dependents p) st newly = Inr st' \<and> graph_ok p [] acc' st'"
proof (induction newly arbitrary: acc st)
  case (Cons n newly)
  from release_dependents_ok[OF Cons.prems] obtain st' where
    st': "release_dependents p st n = Inr st'" "graph_ok p newly (acc @ [n]) st'" by blast
  from Cons.IH[OF st'(2)] st'(1) show ?case by simp
qed auto

lemma graph_ok_sort: "graph_ok p newly acc st \<Longrightarrow> mset newly' = mset newly \<Longrightarrow> graph_ok p newly' acc st"
proof -
  assume ok: "graph_ok p newly acc st" and m: "mset newly' = mset newly"
  then have "set newly' = set newly" by (metis mset_eq_setD)
  moreover have "mset (map snd (gr_ready st) @ working st @ newly') = mset (map snd (gr_ready st) @ working st @ newly)" using m by simp
  from graph_ok_kahn[OF ok this] have "kahn_inv (graph_nodes (gp_jobs p)) (graph_deps (gp_producers p) (gp_jobs p)) (deg_of (gr_indegree st))
       (map snd (gr_ready st) @ working st @ newly') acc" .
  ultimately show ?thesis using ok unfolding graph_ok_def by simp
qed

section \<open>Turns and runs\<close>

text \<open>What \<open>wait\<close> promises: the finished futures are among those it was given, each once.\<close>

definition event_ok :: "graph_state \<Rightarrow> wait_event \<Rightarrow> bool" where
  "event_ok st ev \<longleftrightarrow> distinct (map fst (we_done ev)) \<and> set (map fst (we_done ev)) \<subseteq> set (active_futures st)"

definition turn_ok :: "graph_plan \<Rightarrow> graph_state \<Rightarrow> bool" where
  "turn_ok p st \<longleftrightarrow> (\<exists>acc. graph_ok p [] acc st) \<and> (gr_ready st = [] \<or> gp_workers p \<le> int (length (gr_generation st)))"

lemma graph_turn_ok:
  assumes "turn_ok p st" "event_ok st ev"
  shows "case graph_turn h p st ev of
      Inl (s, e) \<Rightarrow> set (gr_budgets s) = set (active_futures s) \<and> set (active_futures st) - set (map fst (we_done ev)) \<subseteq> set (active_futures s)
    | Inr s \<Rightarrow> turn_ok p s"
proof (cases "we_done ev = []")
  case True
  then show ?thesis using assms(1) by (auto simp: graph_turn_def Let_def turn_ok_def graph_ok_def futures_ok_def)
next
  case False
  from assms(1) obtain acc where ok: "graph_ok p [] acc st" by (auto simp: turn_ok_def)
  note all = complete_all_ok[OF ok, of "we_done ev" h] assms(2)[unfolded event_ok_def]
  show ?thesis
  proof (cases "foldM (complete_one h) (st, []) (we_done ev)")
    case (Inl a)
    with False all show ?thesis by (auto simp: graph_turn_def)
  next
    case (Inr a)
    obtain s newly where a: "a = (s, newly)" by (rule prod.exhaust)
    have "graph_ok p newly acc s" using all Inr a by auto
    from graph_ok_sort[OF this mset_sort] release_all_ok obtain s' acc' where
      s': "foldM (release_dependents p) s (sort_key (job_order (gp_jobs p)) newly) = Inr s'" "graph_ok p [] acc' s'" by blast
    with False Inr a submit_ready_ok[OF s'(2)] show ?thesis by (auto simp: graph_turn_def turn_ok_def)
  qed
qed

text \<open>A turn that raises reports a lease that ran out, or the failure of a finished worker: the counters never run below zero.\<close>

definition reports_fault :: "graph_host \<Rightarrow> wait_event \<Rightarrow> graph_error \<Rightarrow> bool" where
  "reports_fault h ev e \<longleftrightarrow> (\<exists>(f, rp) \<in> set (we_done ev). rp_receipt rp = Inl e \<or> (\<exists>job receipt. validation_result h rp job receipt = Inl e))"

lemma complete_all_fault:
  assumes "graph_ok p newly acc st" "distinct (map fst ds)" "set (map fst ds) \<subseteq> set (active_futures st)"
    and "foldM (complete_one h) (st, newly) ds = Inl (s, e)"
  shows "\<exists>(f, rp) \<in> set ds. rp_receipt rp = Inl e \<or> (\<exists>job receipt. validation_result h rp job receipt = Inl e)"
  using assms
proof (induction ds arbitrary: st newly)
  case (Cons d ds)
  obtain f rp where d: "d = (f, rp)" by (rule prod.exhaust)
  have rest: "set (map fst ds) \<subseteq> set (active_futures st) - {f}" using Cons.prems(2,3) d by auto
  from Cons.prems(3) d have "f \<in> set (active_futures st)" by simp
  then show ?case
  proof (cases rule: active_future_cases)
    case (1 job)
    show ?thesis
    proof (cases "rp_receipt rp")
      case (Inl e')
      then show ?thesis using Cons.prems(4) 1 by (simp add: d complete_one_cases)
    next
      case (Inr receipt)
      note done_ok = generation_done_ok[OF Cons.prems(1) 1, of receipt]
      have "foldM (complete_one h) (enter_validation job receipt (without_future f st), newly) ds = Inl (s, e)"
        using Cons.prems(4) 1 Inr by (simp add: d complete_one_cases)
      with Cons.IH[OF done_ok(1)] rest done_ok(2) Cons.prems(2) show ?thesis by auto
    qed
  next
    case (2 job receipt)
    show ?thesis
    proof (cases "validation_result h rp job receipt")
      case (Inl e')
      then show ?thesis using Cons.prems(4) 2 by (auto simp: d complete_one_cases)
    next
      case (Inr u)
      note done_ok = validation_done_ok[OF Cons.prems(1) 2]
      have "foldM (complete_one h) (record_result job receipt (without_future f st), newly @ [aj_job_id job]) ds = Inl (s, e)"
        using Cons.prems(4) 2 Inr by (simp add: d complete_one_cases)
      with Cons.IH[OF done_ok(1)] rest done_ok(2) Cons.prems(2) show ?thesis by auto
    qed
  qed
qed simp

lemma graph_turn_fault:
  assumes "turn_ok p st" "event_ok st ev" "graph_turn h p st ev = Inl (s, e)"
  shows "(we_done ev = [] \<and> (\<exists>f \<in> set (active_futures st). we_deadline ev f \<le> we_now ev)) \<or> reports_fault h ev e"
proof (cases "we_done ev = []")
  case True
  then show ?thesis using assms(3) by (auto simp: graph_turn_def Let_def filter_empty_conv split: if_splits)
next
  case False
  from assms(1) obtain acc where ok: "graph_ok p [] acc st" by (auto simp: turn_ok_def)
  have ev: "distinct (map fst (we_done ev))" "set (map fst (we_done ev)) \<subseteq> set (active_futures st)" using assms(2) by (auto simp: event_ok_def)
  show ?thesis
  proof (cases "foldM (complete_one h) (st, []) (we_done ev)")
    case (Inl a)
    with False assms(3) have "foldM (complete_one h) (st, []) (we_done ev) = Inl (s, e)" by (simp add: graph_turn_def)
    from complete_all_fault[OF ok ev this] show ?thesis by (simp add: reports_fault_def)
  next
    case (Inr a)
    obtain s1 newly where a: "a = (s1, newly)" by (rule prod.exhaust)
    have "graph_ok p newly acc s1" using complete_all_ok[OF ok ev, of h] Inr a by simp
    from graph_ok_sort[OF this mset_sort] release_all_ok obtain s' where
      "foldM (release_dependents p) s1 (sort_key (job_order (gp_jobs p)) newly) = Inr s'" by blast
    with False Inr a assms(3) show ?thesis by (simp add: graph_turn_def)
  qed
qed

inductive graph_step :: "graph_host \<Rightarrow> graph_plan \<Rightarrow> graph_state \<Rightarrow> graph_state \<Rightarrow> bool" for h p where
  turn: "active_futures st \<noteq> [] \<Longrightarrow> event_ok st ev \<Longrightarrow> graph_turn h p st ev = Inr st' \<Longrightarrow> graph_step h p st st'"

inductive_cases graph_stepE: "graph_step h p st st'"

lemma graph_step_ok: "turn_ok p st \<Longrightarrow> graph_step h p st st' \<Longrightarrow> turn_ok p st'"
proof (erule graph_stepE)
  fix ev assume "turn_ok p st" "event_ok st ev" "graph_turn h p st ev = Inr st'"
  then show "turn_ok p st'" using graph_turn_ok[of p st ev h] by simp
qed

definition plan_ok :: "graph_plan \<Rightarrow> bool" where
  "plan_ok p \<longleftrightarrow> distinct (job_ids (gp_jobs p)) \<and> producer_index (gp_jobs p) = Inr (gp_producers p) \<and> 1 \<le> gp_workers p"

lemma produce_port_fold:
  assumes "foldM (produce_port i) ps names = Inr ps'"
  shows "map_of ps' port = (if port \<in> set names then Some i else map_of ps port) \<and>
    (port \<in> set names \<longrightarrow> map_of ps port = None \<or> map_of ps port = Some i)"
  using assms
proof (induction names arbitrary: ps)
  case (Cons n names)
  then obtain ps1 where ps1: "produce_port i ps n = Inr ps1" and rest: "foldM (produce_port i) ps1 names = Inr ps'" by auto
  have "ps1 = AList.update n i ps" "map_of ps n = None \<or> map_of ps n = Some i"
    using ps1 by (auto simp: produce_port_def split: option.splits if_splits)
  with Cons.IH[OF rest] show ?case by (auto simp: update_conv split: if_splits)
qed simp

lemma producer_index_iff:
  assumes "producer_index jobs = Inr ps"
  shows "map_of ps port = Some i \<longleftrightarrow> (\<exists>j \<in> set jobs. aj_job_id j = i \<and> port \<in> set (aj_produces j))"
proof -
  have "foldM (\<lambda>ps j. foldM (produce_port (aj_job_id j)) ps (aj_produces j)) ps0 jobs = Inr ps1 \<Longrightarrow>
    map_of ps1 port = Some i \<longleftrightarrow> map_of ps0 port = Some i \<or> (\<exists>j \<in> set jobs. aj_job_id j = i \<and> port \<in> set (aj_produces j))" for ps0 ps1
  proof (induction jobs arbitrary: ps0)
    case (Cons j jobs)
    then obtain ps2 where ps2: "foldM (produce_port (aj_job_id j)) ps0 (aj_produces j) = Inr ps2"
      and rest: "foldM (\<lambda>ps j. foldM (produce_port (aj_job_id j)) ps (aj_produces j)) ps2 jobs = Inr ps1" by auto
    from Cons.IH[OF rest] produce_port_fold[OF ps2, of port] show ?case by auto
  qed simp
  from this[of "[]" ps] assms show ?thesis by (simp add: producer_index_def)
qed

lemma graph_deps_nodes:
  assumes "plan_ok p"
  shows "set (graph_deps (gp_producers p) (gp_jobs p) k) \<subseteq> graph_nodes (gp_jobs p)"
proof -
  have "producer_index (gp_jobs p) = Inr (gp_producers p)" "distinct (job_ids (gp_jobs p))" using assms by (auto simp: plan_ok_def)
  then show ?thesis using producer_index_iff[of "gp_jobs p" "gp_producers p"]
    by (auto simp: graph_deps_def graph_nodes_def job_ids_def set_required_producers split: option.splits)
qed

lemma initial_graph_ok:
  assumes "plan_ok p"
  shows "turn_ok p (initial_graph p)"
proof -
  let ?jobs = "gp_jobs p" and ?ps = "gp_producers p"
  let ?deg = "map (\<lambda>j. (aj_job_id j, int (length (required_producers ?ps j)))) ?jobs"
  let ?first = "filter (\<lambda>j. deg_of ?deg (aj_job_id j) = 0) ?jobs"
  let ?ready = "sort (map (\<lambda>j. (job_order ?jobs (aj_job_id j), aj_job_id j)) ?first)"
  let ?st = "\<lparr>gr_ready = ?ready, gr_pending = map aj_job_id ?jobs, gr_generation = [], gr_validation = [], gr_budgets = [],
      gr_results = [], gr_validated = [], gr_indegree = ?deg, gr_next = 0\<rparr>"
  have d: "distinct (job_ids ?jobs)" and w: "1 \<le> gp_workers p" using assms by (auto simp: plan_ok_def)
  then have nodes: "graph_nodes ?jobs = set (map aj_job_id ?jobs)" by (simp add: graph_nodes_def job_ids_def)
  have deg: "deg_of ?deg k = (if k \<in> graph_nodes ?jobs then int (length (graph_deps ?ps ?jobs k)) else 0)" for k
  proof (cases "k \<in> graph_nodes ?jobs")
    case True
    then obtain j where j: "j \<in> set ?jobs" "aj_job_id j = k" unfolding nodes by auto
    then have "map_of ?deg k = Some (int (length (required_producers ?ps j)))"
      using d by (intro map_of_is_SomeI) (auto simp: job_ids_def comp_def)
    moreover have "by_id ?jobs k = Some j" using by_id_member[OF d j(1)] j(2) by simp
    ultimately show ?thesis using True by (simp add: deg_of_def graph_deps_def)
  next
    case False
    then have "map_of ?deg k = None" unfolding nodes by (auto simp: map_of_eq_None_iff)
    with False show ?thesis by (simp add: deg_of_def)
  qed
  have ready: "mset (map snd ?ready) = mset (map aj_job_id ?first)"
    by (metis (no_types, lifting) List.map.compositionality comp_def map_eq_conv mset_map mset_sort snd_conv)
  have "kahn_inv (graph_nodes ?jobs) (graph_deps ?ps ?jobs) (deg_of ?deg) (map aj_job_id ?first) []"
  proof (rule art_graph.initial)
    show "distinct (map aj_job_id ?first)" using d by (simp add: job_ids_def distinct_map_filter)
    show "set (map aj_job_id ?first) = {k \<in> graph_nodes ?jobs. graph_deps ?ps ?jobs k = []}"
      using deg by (auto simp: nodes)
  qed (rule deg)
  then have "kahn_inv (graph_nodes ?jobs) (graph_deps ?ps ?jobs) (deg_of ?deg) (map snd ?ready) []" unfolding kahn_inv_mset[OF ready] .
  then have "graph_ok p [] [] ?st"
    using w nodes by (simp add: graph_ok_def working_def working_jobs_def futures_ok_def active_futures_def)
  from submit_ready_ok[OF this] show ?thesis by (auto simp: turn_ok_def initial_graph_def Let_def)
qed

interpretation graph_runs: invariant_system "\<lambda>st. plan_ok p \<and> st = initial_graph p" "graph_step h p" "turn_ok p" for h p
  by unfold_locales (auto intro: initial_graph_ok graph_step_ok)

end
