(* ===== verification/Artifact_Graph_Properties.thy ===== *)
theory Artifact_Graph_Properties
  imports Artifact_Graph_Invariant
begin

text \<open>
  What the executor of artifact jobs promises: no job starts before its producers are validated, a deadlock is
  reported exactly for jobs that depend on each other in a cycle, a failure cancels the workers left behind, a run
  with live workers ends, and an answer vouches for every job.
\<close>

section \<open>Safety of the scheduler\<close>

text \<open>C12. No job starts early, twice, or beyond the bound: in every state of a run, whatever the order in which workers
  finish, the jobs in generation and validation are pairwise different and not yet validated, every producer of
  a port they require has passed validation, at most the configured number of jobs is in generation, and every running
  worker has a lease.\<close>

theorem jobs_start_after_producers:
  assumes "plan_ok p" "(graph_step h p)\<^sup>*\<^sup>* (initial_graph p) st"
  shows "distinct (working st) \<and> set (working st) \<inter> set (gr_validated st) = {} \<and>
    (\<forall>j \<in> working_jobs st. \<forall>i \<in> set (required_producers (gp_producers p) j). i \<in> set (gr_validated st)) \<and>
    int (length (gr_generation st)) \<le> gp_workers p \<and> set (gr_budgets st) = set (active_futures st)"
proof -
  have "turn_ok p st" using graph_runs.reachable_inv[of p "initial_graph p" h st] assms by simp
  then obtain acc where ok: "graph_ok p [] acc st" by (auto simp: turn_ok_def)
  then have k: "kahn_inv (graph_nodes (gp_jobs p)) (graph_deps (gp_producers p) (gp_jobs p)) (deg_of (gr_indegree st)) (map snd (gr_ready st) @ working st) acc"
    and val: "set (gr_validated st) = set acc" by (auto simp: graph_ok_def)
  have deps: "set (required_producers (gp_producers p) j) \<subseteq> set acc" if j: "j \<in> working_jobs st" for j
  proof -
    have "aj_job_id j \<in> set (working st)" using j by (force simp: working_jobs_def working_def)
    then have "aj_job_id j \<in> graph_nodes (gp_jobs p)" "deg_of (gr_indegree st) (aj_job_id j) = 0" using k by (auto simp: kahn_inv_def)
    then have "set (graph_deps (gp_producers p) (gp_jobs p) (aj_job_id j)) \<subseteq> set acc" using k by (auto simp: kahn_inv_def filter_empty_conv)
    moreover have "by_id (gp_jobs p) (aj_job_id j) = Some j" using ok j by (simp add: graph_ok_def)
    ultimately show ?thesis by (simp add: graph_deps_def)
  qed
  show ?thesis using ok k val deps by (auto simp: graph_ok_def futures_ok_def kahn_inv_def)
qed

section \<open>Deadlocks\<close>

definition waits_for :: "graph_plan \<Rightarrow> (string \<times> string) set" where
  "waits_for p = {(aj_job_id j, i) | j i. j \<in> set (gp_jobs p) \<and> i \<in> set (required_producers (gp_producers p) j)}"

lemma waits_for_graph:
  assumes "plan_ok p"
  shows "waits_for p = {(k, d). k \<in> graph_nodes (gp_jobs p) \<and> d \<in> set (graph_deps (gp_producers p) (gp_jobs p) k)}"
proof -
  have d: "distinct (job_ids (gp_jobs p))" using assms by (simp add: plan_ok_def)
  have "(k, i) \<in> waits_for p \<longleftrightarrow> k \<in> graph_nodes (gp_jobs p) \<and> i \<in> set (graph_deps (gp_producers p) (gp_jobs p) k)" for k i
  proof
    assume "(k, i) \<in> waits_for p"
    then obtain j where "j \<in> set (gp_jobs p)" "k = aj_job_id j" "i \<in> set (required_producers (gp_producers p) j)" by (auto simp: waits_for_def)
    then show "k \<in> graph_nodes (gp_jobs p) \<and> i \<in> set (graph_deps (gp_producers p) (gp_jobs p) k)"
      using d by_id_member[OF d] by (simp add: graph_nodes_def graph_deps_def job_ids_def)
  next
    assume i: "k \<in> graph_nodes (gp_jobs p) \<and> i \<in> set (graph_deps (gp_producers p) (gp_jobs p) k)"
    then obtain j where j: "by_id (gp_jobs p) k = Some j" using by_id_node by blast
    with i by_id_SomeD[OF j] show "(k, i) \<in> waits_for p" by (auto simp: waits_for_def graph_deps_def)
  qed
  then show ?thesis by auto
qed

lemma idle_graph:
  assumes p: "plan_ok p" and ok: "turn_ok p st" and idle: "gr_generation st = []" "gr_validation st = []"
  shows "gr_pending st = [] \<longleftrightarrow> acyclic (waits_for p)"
    and "gr_pending st = [] \<Longrightarrow> set (keys (gr_results st)) = set (job_ids (gp_jobs p))"
proof -
  from ok obtain acc where g: "graph_ok p [] acc st" by (auto simp: turn_ok_def)
  have "gr_ready st = []" using ok p idle(1) by (auto simp: turn_ok_def plan_ok_def)
  with g idle have k: "kahn_inv (graph_nodes (gp_jobs p)) (graph_deps (gp_producers p) (gp_jobs p)) (deg_of (gr_indegree st)) [] acc"
    by (simp add: graph_ok_def working_def)
  have pend: "set (gr_pending st) = graph_nodes (gp_jobs p) - set acc" using g idle by (simp add: graph_ok_def working_def)
  have sub: "set acc \<subseteq> graph_nodes (gp_jobs p)" "distinct acc" "deps_before (graph_deps (gp_producers p) (gp_jobs p)) acc"
    using k by (auto simp: kahn_inv_def)
  have empty: "gr_pending st = [] \<longleftrightarrow> graph_nodes (gp_jobs p) \<subseteq> set acc" using pend by (metis Diff_eq_empty_iff set_empty)
  show "gr_pending st = [] \<longleftrightarrow> acyclic (waits_for p)"
    unfolding empty waits_for_graph[OF p]
    using deps_before_acyclic[OF sub(2,3)] art_graph.acyclic_complete[OF k graph_deps_nodes[OF p]] by blast
  have nodes: "graph_nodes (gp_jobs p) = set (job_ids (gp_jobs p))" using p by (simp add: graph_nodes_def plan_ok_def)
  have res: "set (keys (gr_results st)) = set acc" using g by (simp add: graph_ok_def)
  show "set (keys (gr_results st)) = set (job_ids (gp_jobs p))" if "gr_pending st = []" using that empty sub(1) res nodes by simp
qed

text \<open>A deadlock is reported exactly for a cycle: when no worker is left, every job is validated, with its receipt
  recorded, if and only if the relation ``requires a port of'' between the jobs is acyclic.\<close>

theorem idle_graph_exact:
  assumes "plan_ok p" "(graph_step h p)\<^sup>*\<^sup>* (initial_graph p) st" "active_futures st = []"
  shows "(gr_pending st = [] \<longleftrightarrow> acyclic (waits_for p)) \<and>
    (acyclic (waits_for p) \<longrightarrow> set (keys (gr_results st)) = set (job_ids (gp_jobs p)))"
proof -
  have "turn_ok p st" using graph_runs.reachable_inv[of p "initial_graph p" h st] assms by simp
  from idle_graph[OF assms(1) this] assms(3) show ?thesis by (auto simp: active_futures_def)
qed

section \<open>Failures\<close>


section \<open>Runs end\<close>

definition load :: "graph_state \<Rightarrow> nat" where
  "load st = 2 * length (gr_pending st) + 2 * length (gr_generation st) + length (gr_validation st)"

lemma complete_one_load:
  assumes "complete_one h (st, newly) (f, rp) = Inr (st', newly')"
  shows "load st' < load st"
  using assms length_delete_less[of "gr_generation st" f] length_delete_less[of "gr_validation st" f]
  by (auto simp: complete_one_cases load_def enter_validation_def record_result_def without_future_def
      split: option.splits sum.splits)

lemma complete_all_load:
  "foldM (complete_one h) (st, newly) ds = Inr (st', newly') \<Longrightarrow> load st' + length ds \<le> load st"
proof (induction ds arbitrary: st newly)
  case (Cons d ds)
  obtain f rp where d: "d = (f, rp)" by (rule prod.exhaust)
  from Cons.prems obtain s1 n1 where s1: "complete_one h (st, newly) d = Inr (s1, n1)" "foldM (complete_one h) (s1, n1) ds = Inr (st', newly')"
    by auto
  from complete_one_load[OF s1(1)[unfolded d]] Cons.IH[OF s1(2)] show ?case by simp
qed simp

lemma submit_loop_load: "load (submit_loop jobs heap slots st) \<le> load st"
proof (induction heap arbitrary: st slots)
  case Nil
  then show ?case by (simp add: load_def)
next
  case (Cons e heap)
  have less: "snd e \<in> set (gr_pending st) \<Longrightarrow> length (removeAll (snd e) (gr_pending st)) < length (gr_pending st)"
    by (rule length_removeAll_less)
  show ?case
    using less by (auto simp: load_def split: option.split intro!: order.trans[OF Cons.IH[unfolded load_def]])
qed

lemma release_load:
  "foldM (release_dependents p) st newly = Inr st' \<Longrightarrow> load st' = load st"
proof -
  have one: "release_one jobs s d = Inr t \<Longrightarrow> load t = load s" for jobs s d t
    by (auto simp: release_one_def Let_def load_def split: if_splits)
  have "foldM (release_one jobs) s ds = Inr t \<Longrightarrow> load t = load s" for jobs s ds t
    by (induction ds arbitrary: s) (auto dest: one)
  then show "foldM (release_dependents p) st newly = Inr st' \<Longrightarrow> load st' = load st"
    by (induction newly arbitrary: st) (auto simp: release_dependents_def)
qed

lemma graph_turn_load:
  assumes "graph_turn h p st ev = Inr st'" "we_done ev \<noteq> []"
  shows "load st' < load st"
proof -
  from assms obtain s1 newly s2 where s: "foldM (complete_one h) (st, []) (we_done ev) = Inr (s1, newly)"
      "foldM (release_dependents p) s1 (sort_key (job_order (gp_jobs p)) newly) = Inr s2" "st' = submit_ready p s2"
    by (auto simp: graph_turn_def)
  have "load s1 + length (we_done ev) \<le> load st" by (rule complete_all_load[OF s(1)])
  moreover have "load st' \<le> load s1" using submit_loop_load release_load[OF s(2)] unfolding s(3) submit_ready_def by metis
  ultimately show ?thesis using assms(2) by (cases "we_done ev") auto
qed

text \<open>Live workers: every \<open>wait\<close> of the run returns some of the futures it was given.\<close>

primrec live_answers :: "graph_host \<Rightarrow> graph_plan \<Rightarrow> wait_event list \<Rightarrow> graph_state \<Rightarrow> bool" where
  "live_answers h p [] st \<longleftrightarrow> True"
| "live_answers h p (ev # evs) st \<longleftrightarrow> active_futures st = [] \<or> (event_ok st ev \<and> we_done ev \<noteq> [] \<and>
     (case graph_turn h p st ev of Inl _ \<Rightarrow> True | Inr st' \<Rightarrow> live_answers h p evs st'))"

lemma graph_loop_ends:
  assumes "plan_ok p" "turn_ok p st" "live_answers h p evs st" "load st \<le> length evs"
  shows "case graph_loop h p reg st evs of
      Finished s \<Rightarrow> acyclic (waits_for p) \<and> set (keys (gr_results s)) = set (job_ids (gp_jobs p))
    | Failed e cancelled \<Rightarrow> \<not> acyclic (waits_for p) \<or> (\<exists>ev \<in> set evs. reports_fault h ev e)
    | Unfinished s \<Rightarrow> False"
  using assms(2-)
proof (induction evs arbitrary: st reg)
  case Nil
  then have "gr_generation st = []" "gr_validation st = []" "gr_pending st = []" by (simp_all add: load_def)
  with idle_graph[OF assms(1) Nil.prems(1)] show ?case by (subst graph_loop.simps) simp
next
  case (Cons ev evs)
  show ?case
  proof (cases "active_futures st = []")
    case True
    then have "gr_generation st = []" "gr_validation st = []" by (simp_all add: active_futures_def)
    with idle_graph[OF assms(1) Cons.prems(1)] show ?thesis by (subst graph_loop.simps) auto
  next
    case False
    then have busy: "\<not> (gr_generation st = [] \<and> gr_validation st = [])" by (auto simp: active_futures_def)
    have ev: "event_ok st ev" "we_done ev \<noteq> []" using Cons.prems(2) False by auto
    show ?thesis
    proof (cases "graph_turn h p st ev")
      case (Inl a)
      obtain s e where a: "a = (s, e)" by (rule prod.exhaust)
      have "reports_fault h ev e" using graph_turn_fault[OF Cons.prems(1) ev(1)] Inl a ev(2) by auto
      then show ?thesis using busy Inl a by (subst graph_loop.simps) auto
    next
      case (Inr s)
      have "turn_ok p s" using graph_turn_ok[OF Cons.prems(1) ev(1), of h] Inr by simp
      moreover have "live_answers h p evs s" using Cons.prems(2) False Inr by simp
      moreover have "load s \<le> length evs" using graph_turn_load[OF Inr ev(2)] Cons.prems(3) by simp
      ultimately have "case graph_loop h p (we_registry ev) s evs of
            Finished s \<Rightarrow> acyclic (waits_for p) \<and> set (keys (gr_results s)) = set (job_ids (gp_jobs p))
          | Failed e cancelled \<Rightarrow> \<not> acyclic (waits_for p) \<or> (\<exists>ev \<in> set evs. reports_fault h ev e)
          | Unfinished s \<Rightarrow> False" by (rule Cons.IH)
      moreover have "graph_loop h p reg st (ev # evs) = graph_loop h p (we_registry ev) s evs"
        using busy Inr by (subst graph_loop.simps) auto
      ultimately show ?thesis by (auto split: graph_outcome.splits)
    qed
  qed
qed

lemma initial_load: "load (initial_graph p) \<le> 2 * length (gp_jobs p)"
  using submit_loop_load unfolding initial_graph_def submit_ready_def Let_def by (rule order.trans) (simp add: load_def)

text \<open>C14. A run with live workers ends: after at most two answers of \<open>wait\<close> per job the loop is over. It has
  recorded a receipt for every job, the jobs depending on each other in no cycle, or it has raised, and then
  there is a cycle or a worker reported the error.\<close>

theorem live_run_ends:
  assumes "plan_ok p" "live_answers h p evs (initial_graph p)" "2 * length (gp_jobs p) \<le> length evs"
  shows "case graph_loop h p reg (initial_graph p) evs of
      Finished s \<Rightarrow> acyclic (waits_for p) \<and> set (keys (gr_results s)) = set (job_ids (gp_jobs p))
    | Failed e cancelled \<Rightarrow> \<not> acyclic (waits_for p) \<or> (\<exists>ev \<in> set evs. reports_fault h ev e)
    | Unfinished s \<Rightarrow> False"
  using graph_loop_ends[OF assms(1) initial_graph_ok[OF assms(1)] assms(2)] initial_load[of p] assms(3) by simp

section \<open>Answers\<close>

definition results_ok :: "graph_host \<Rightarrow> ArtifactJob list \<Rightarrow> graph_state \<Rightarrow> bool" where
  "results_ok h jobs st \<longleftrightarrow>
     (\<forall>i r. map_of (gr_results st) i = Some r \<longrightarrow> (\<exists>j reg. by_id jobs i = Some j \<and> validate_completed_job h reg j r = Inr ())) \<and>
     (\<forall>j \<in> working_jobs st. by_id jobs (aj_job_id j) = Some j)"

lemma complete_one_results:
  assumes ok: "results_ok h jobs st" and run: "complete_one h (st, newly) (f, rp) = Inr (st', newly')"
  shows "results_ok h jobs st'"
proof (cases "map_of (gr_generation st) f")
  case (Some job)
  then obtain receipt where st': "st' = enter_validation job receipt (without_future f st)"
    using run by (auto simp: complete_one_cases split: sum.splits)
  have "working_jobs st' \<subseteq> working_jobs st"
    using map_of_SomeD[OF Some] by (force simp: st' working_jobs_def enter_validation_def without_future_def Some AList.delete_eq)
  with ok show ?thesis by (auto simp: results_ok_def st' enter_validation_def)
next
  case None
  then obtain job receipt where v: "map_of (gr_validation st) f = Some (job, receipt)" "validation_result h rp job receipt = Inr ()"
      and st': "st' = record_result job receipt (without_future f st)"
    using run by (auto simp: complete_one_cases split: sum.splits option.splits)
  have "working_jobs st' \<subseteq> working_jobs st"
    by (force simp: st' working_jobs_def record_result_def without_future_def None AList.delete_eq)
  moreover have "job \<in> working_jobs st" using map_of_SomeD[OF v(1)] by (force simp: working_jobs_def)
  moreover have "validate_completed_job h (rp_registry rp) job receipt = Inr ()"
    using v(2) by (simp add: validation_result_def split: option.splits)
  ultimately show ?thesis using ok by (auto simp: results_ok_def st' record_result_def update_conv)
qed

lemma results_ok_cong:
  "gr_results t = gr_results s \<Longrightarrow> gr_generation t = gr_generation s \<Longrightarrow> gr_validation t = gr_validation s \<Longrightarrow> results_ok h jobs s \<Longrightarrow> results_ok h jobs t"
  by (simp add: results_ok_def working_jobs_def)

lemma submit_loop_results: "results_ok h jobs st \<Longrightarrow> results_ok h jobs (submit_loop jobs heap slots st)"
proof (induction heap arbitrary: st slots)
  case Nil
  then show ?case by (auto intro: results_ok_cong)
next
  case (Cons e heap)
  have "results_ok h jobs (st\<lparr>gr_pending := removeAll (snd e) (gr_pending st), gr_generation := gr_generation st @ [(gr_next st, job)],
              gr_budgets := gr_budgets st @ [gr_next st], gr_next := Suc (gr_next st)\<rparr>)" if "by_id jobs (snd e) = Some job" for job
    using Cons.prems that by_id_SomeD[OF that] by (auto simp: results_ok_def working_jobs_def)
  moreover have "results_ok h jobs (st\<lparr>gr_ready := e # heap\<rparr>)" using Cons.prems by (auto intro: results_ok_cong)
  ultimately show ?case using Cons by (simp split: option.split)
qed

lemma release_results: "foldM (release_dependents p) st newly = Inr st' \<Longrightarrow> results_ok h jobs st \<Longrightarrow> results_ok h jobs st'"
proof -
  have one: "release_one js s d = Inr t \<Longrightarrow> results_ok h jobs s \<Longrightarrow> results_ok h jobs t" for js s d t
    by (auto simp: release_one_def Let_def split: if_splits intro: results_ok_cong)
  have "foldM (release_one js) s ds = Inr t \<Longrightarrow> results_ok h jobs s \<Longrightarrow> results_ok h jobs t" for js s ds t
    by (induction ds arbitrary: s) (auto dest: one)
  then show "foldM (release_dependents p) st newly = Inr st' \<Longrightarrow> results_ok h jobs st \<Longrightarrow> results_ok h jobs st'"
    by (induction newly arbitrary: st) (auto simp: release_dependents_def)
qed

lemma graph_turn_results:
  assumes "graph_turn h p st ev = Inr st'" "results_ok h (gp_jobs p) st"
  shows "results_ok h (gp_jobs p) st'"
proof (cases "we_done ev = []")
  case True
  with assms show ?thesis by (auto simp: graph_turn_def Let_def split: if_splits)
next
  case False
  with assms(1) obtain s1 newly s2 where s: "foldM (complete_one h) (st, []) (we_done ev) = Inr (s1, newly)"
      "foldM (release_dependents p) s1 (sort_key (job_order (gp_jobs p)) newly) = Inr s2" "st' = submit_ready p s2"
    by (auto simp: graph_turn_def)
  have "foldM (complete_one h) (a, n) ds = Inr (b, m) \<Longrightarrow> results_ok h (gp_jobs p) a \<Longrightarrow> results_ok h (gp_jobs p) b" for a b n m ds
    by (induction ds arbitrary: a n) (auto dest: complete_one_results)
  from this[OF s(1) assms(2)] release_results[OF s(2)] submit_loop_results show ?thesis unfolding s(3) submit_ready_def by blast
qed

lemma graph_loop_results:
  "graph_loop h p reg st evs = Finished s \<Longrightarrow> results_ok h (gp_jobs p) st \<Longrightarrow> results_ok h (gp_jobs p) s"
proof (induction evs arbitrary: st reg)
  case Nil
  then show ?case by (subst (asm) graph_loop.simps) (auto split: if_splits)
next
  case (Cons ev evs)
  from Cons.prems(1) consider "s = st" | st' where "graph_turn h p st ev = Inr st'" "graph_loop h p (we_registry ev) st' evs = Finished s"
    by (subst (asm) graph_loop.simps) (auto split: if_splits sum.splits prod.splits)
  then show ?case using Cons.IH Cons.prems(2) graph_turn_results by cases auto
qed

lemma validated_receipt:
  assumes "validate_completed_job h reg j r = Inr ()"
  shows "dget r ''status'' = PStr ''PASS'' \<and> dget r ''context_id'' = PStr (aj_context_id j) \<and> (\<forall>name \<in> set (aj_produces j). has_port name reg)"
  using assms by (auto simp: validate_completed_job_def execution_context_def assert_version_def Let_def filter_empty_conv split: if_splits)


section \<open>Checked graphs\<close>


section \<open>A run of two jobs\<close>

primrec drive :: "graph_host \<Rightarrow> graph_plan \<Rightarrow> wait_event list \<Rightarrow> graph_state \<Rightarrow> graph_state option" where
  "drive h p [] st = Some st"
| "drive h p (ev # evs) st =
     (if active_futures st \<noteq> [] \<and> event_ok st ev then (case graph_turn h p st ev of Inl _ \<Rightarrow> None | Inr st' \<Rightarrow> drive h p evs st') else None)"

lemma drive_steps: "drive h p evs st = Some st' \<Longrightarrow> (graph_step h p)\<^sup>*\<^sup>* st st'"
proof (induction evs arbitrary: st)
  case (Cons ev evs)
  then obtain s where s: "active_futures st \<noteq> []" "event_ok st ev" "graph_turn h p st ev = Inr s" "drive h p evs s = Some st'"
    by (auto split: if_splits sum.splits)
  from graph_step.turn[OF s(1-3)] Cons.IH[OF s(4)] show ?case by (rule converse_rtranclp_into_rtranclp)
qed simp

definition good_receipt :: pydict where
  "good_receipt = [(''status'', PStr ''PASS''), (''context_id'', PStr ''ctx'')]"

definition full_registry :: PortRegistry where
  "full_registry = \<lparr>ports = [(''x'', sample_port), (''y'', sample_port)], reg_context = ''ctx''\<rparr>"

definition sample_graph_host :: graph_host where
  "sample_graph_host = \<lparr>gh_version = VersionDict (PStr ''snapshot''), gh_from_dict = (\<lambda>_. Inr (''ctx'', ''1.21'')),
     gh_template = (\<lambda>_. Inl (ArtifactGraphError [])), gh_env = (\<lambda>_. None), gh_cpu_count = Some 4, gh_role = None,
     gh_base_dir = None, gh_absolute = (\<lambda>_. True), gh_join = (@), gh_exists = (\<lambda>_. True), gh_validator = None,
     gh_wire = (\<lambda>_ _. Inr ()), gh_execute_one = (\<lambda>_ reg. (Inr good_receipt, reg))\<rparr>"

definition done_event :: "nat \<Rightarrow> wait_event" where
  "done_event f = \<lparr>we_done = [(f, \<lparr>rp_receipt = Inr good_receipt, rp_registry = full_registry, rp_abort = None\<rparr>)], we_now = 0,
     we_deadline = (\<lambda>_. 600), we_registry = full_registry\<rparr>"

definition late_event :: wait_event where
  "late_event = \<lparr>we_done = [], we_now = 601, we_deadline = (\<lambda>_. 600), we_registry = new_registry\<rparr>"

definition pair_jobs :: "ArtifactJob list" where
  "pair_jobs = [sample_job ''b'' [''x''] [''y''], sample_job ''a'' [] [''x'']]"

definition pair_plan :: graph_plan where
  "pair_plan = \<lparr>gp_jobs = pair_jobs, gp_producers = [(''y'', ''b''), (''x'', ''a'')], gp_workers = 2\<rparr>"

definition after_events :: "wait_event list \<Rightarrow> graph_state" where
  "after_events evs = (case drive sample_graph_host pair_plan evs (initial_graph pair_plan) of None \<Rightarrow> initial_graph pair_plan | Some st \<Rightarrow> st)"

lemma pair_plan_ok: "plan_ok pair_plan"
  unfolding plan_ok_def by code_simp

lemma after_events_reachable: "(graph_step sample_graph_host pair_plan)\<^sup>*\<^sup>* (initial_graph pair_plan) (after_events evs)"
  by (auto simp: after_events_def intro: drive_steps split: option.split)

theorem jobs_start_after_producers_witness:
  "working (after_events [done_event 0, done_event 1]) = [''b''] \<and> ''a'' \<in> set (gr_validated (after_events [done_event 0, done_event 1]))"
proof -
  let ?st = "after_events [done_event 0, done_event 1]"
  have eval: "(working ?st, map snd (gr_generation ?st), required_producers (gp_producers pair_plan) (sample_job ''b'' [''x''] [''y''])) =
      ([''b''], [sample_job ''b'' [''x''] [''y'']], [''a''])" by code_simp
  then have "sample_job ''b'' [''x''] [''y''] \<in> working_jobs ?st" by (simp add: working_jobs_def) (metis image_set list.set_intros(1))
  with jobs_start_after_producers[OF pair_plan_ok after_events_reachable, of "[done_event 0, done_event 1]"] eval show ?thesis by auto
qed

theorem idle_graph_exact_witness:
  "acyclic (waits_for pair_plan) \<and> set (keys (gr_results (after_events (map done_event [0, 1, 2, 3])))) = {''b'', ''a''}"
proof -
  let ?st = "after_events (map done_event [0, 1, 2, 3])"
  have eval: "(active_futures ?st, gr_pending ?st, job_ids (gp_jobs pair_plan)) = ([], [], [''b'', ''a''])" by code_simp
  with idle_graph_exact[OF pair_plan_ok after_events_reachable, of "map done_event [0, 1, 2, 3]"] show ?thesis by auto
qed


theorem live_run_ends_witness:
  "(case graph_loop sample_graph_host pair_plan full_registry (initial_graph pair_plan) (map done_event [0, 1, 2, 3]) of
      Finished s \<Rightarrow> acyclic (waits_for pair_plan) \<and> set (keys (gr_results s)) = set (job_ids (gp_jobs pair_plan))
    | Failed e cancelled \<Rightarrow> \<not> acyclic (waits_for pair_plan) \<or> (\<exists>ev \<in> set (map done_event [0, 1, 2, 3]). reports_fault sample_graph_host ev e)
    | Unfinished s \<Rightarrow> False)"
proof (rule live_run_ends[OF pair_plan_ok])
  show "live_answers sample_graph_host pair_plan (map done_event [0, 1, 2, 3]) (initial_graph pair_plan)" by code_simp
  show "2 * length (gp_jobs pair_plan) \<le> length (map done_event [0, 1, 2, 3])" by (simp add: pair_plan_def pair_jobs_def)
qed



text \<open>The execution context accepts a snapshot object, but the registry is bound only from a dictionary: a graph whose
  context holds the object never starts.\<close>

lemma version_object_refused:
  assumes "list_all (\<lambda>j. aj_context_id j = cid \<and> dget (aj_deterministic_inputs j) ''minecraft_version'' = PNone) jobs" "distinct (job_ids jobs)"
    and "gh_version h = VersionObject cid mc"
  shows "mapM (execution_context h) jobs = Inr (map (\<lambda>_. cid) jobs) \<and>
    execute_artifact_graph h given jobs evs reg = Raised (VersionContextError ''INVALID_VERSION_CONTEXT'') []"
proof -
  have "mapM (execution_context h) jobs = Inr (map (\<lambda>_. cid) jobs)"
    using assms(1,3) by (induction jobs) (auto simp: execution_context_def resolved_version_def assert_version_def Let_def)
  then show ?thesis using assms(2,3) by (simp add: execute_artifact_graph_def graph_preflight_def bind_version_def)
qed

end
