(* ===== verification/Deadline_Executor.thy ===== *)
theory Deadline_Executor
  imports Py_Float "HOL-Library.Product_Lexorder" "HOL-Library.Multiset" "HOL-Library.AList"
begin

text \<open>
  Deadline-aware parallel execution (\<^verbatim>\<open>deadline_executor.py\<close>): a bounded window of submitted work items, each with
  a lease, drained as the workers finish. The items, their results and exceptions are type parameters; an event answers
  one \<open>wait\<close> with the futures that finished, the clock after it and the leases of that moment. A future is named by
  the sequence number of its task. The consumer takes every result; the callbacks do not raise.
\<close>

section \<open>Tasks\<close>

record 'i active_task =
  tk_sequence :: nat
  tk_item :: 'i
  tk_submitted_at :: rat

record 'i pool_state =
  px_source :: "'i list"
  px_sequence :: nat
  px_exhausted :: bool
  px_active :: "(nat \<times> 'i active_task) list"

datatype ('i, 'x) exec_error = ParallelExecutionTimeout 'i rat | ParallelTaskError 'i 'x | PassedThrough 'x | UnknownFuture

text \<open>A finished future: a result, an \<open>Exception\<close>, or one of the exceptions that pass every handler.\<close>

datatype ('r, 'x) future_result = Returned 'r | RaisedException 'x | RaisedBase 'x

record ('r, 'x) completion =
  ce_done :: "(nat \<times> ('r, 'x) future_result) list"
  ce_now :: rat
  ce_deadline :: "nat \<Rightarrow> rat"

text \<open>What the caller sees, in order: the calls of \<open>on_result\<close> and \<open>on_error\<close> and the pairs the generator yields.\<close>

datatype 'x fault = TimedOut rat | Cause 'x

datatype ('i, 'r, 'x) emission = OnResult 'i 'r | Yield 'i 'r | OnError 'i "'x fault"

text \<open>\<open>clock\<close> is the time of each submission.\<close>

record ('i, 'k) executor =
  cx_workers :: nat
  cx_sort_key :: "('i \<Rightarrow> 'k) option"
  cx_on_result :: bool
  cx_on_error :: bool
  cx_clock :: "nat \<Rightarrow> rat"

definition resolve_worker_count :: "nat option \<Rightarrow> int \<Rightarrow> nat" where
  "resolve_worker_count total_units max_workers =
     (let workers = nat (max 1 max_workers) in case total_units of None \<Rightarrow> workers | Some n \<Rightarrow> min workers n)"

section \<open>Submission\<close>

definition submit_next :: "(nat \<Rightarrow> rat) \<Rightarrow> 'i pool_state \<Rightarrow> bool \<times> 'i pool_state" where
  "submit_next clock st =
     (if px_exhausted st then (False, st)
      else (case px_source st of
        [] \<Rightarrow> (False, st\<lparr>px_exhausted := True\<rparr>)
      | item # rest \<Rightarrow> (True, st\<lparr>px_source := rest, px_sequence := Suc (px_sequence st),
          px_active := px_active st @ [(px_sequence st,
            \<lparr>tk_sequence = px_sequence st, tk_item = item, tk_submitted_at = clock (px_sequence st)\<rparr>)]\<rparr>)))"

function fill_active_slots :: "(nat \<Rightarrow> rat) \<Rightarrow> nat \<Rightarrow> 'i pool_state \<Rightarrow> 'i pool_state" where
  "fill_active_slots clock workers st =
     (if length (px_active st) < workers
      then (case submit_next clock st of (submitted, st') \<Rightarrow> if submitted then fill_active_slots clock workers st' else st')
      else st)"
  by pat_completeness auto
termination
  by (relation "measure (\<lambda>(_, _, st). length (px_source st))") (auto simp: submit_next_def split: if_splits list.splits)

declare fill_active_slots.simps [simp del]

section \<open>Draining\<close>

definition next_completed_batch :: "'i pool_state \<Rightarrow> ('r, 'x) completion \<Rightarrow> ('i, 'x) exec_error + (nat \<times> ('r, 'x) future_result) list" where
  "next_completed_batch st ev =
     (if ce_done ev \<noteq> [] then Inr (ce_done ev)
      else if list_all (\<lambda>(f, _). ce_now ev < ce_deadline ev f) (px_active st) then Inr []
      else (case sort_key (\<lambda>(f, m). (ce_deadline ev f, tk_sequence m)) (px_active st) of
          [] \<Rightarrow> Inr []
        | (f, expired) # _ \<Rightarrow> Inl (ParallelExecutionTimeout (tk_item expired)
            (max 0 (double_round (ce_now ev - tk_submitted_at expired))))))"

text \<open>The order in which one batch is handled; every future of it is active.\<close>

definition completion_order :: "('i, 'k::linorder) executor \<Rightarrow> 'i pool_state \<Rightarrow> (nat \<times> ('r, 'x) future_result) list \<Rightarrow> (nat \<times> ('r, 'x) future_result) list" where
  "completion_order cx st batch = (case cx_sort_key cx of
     None \<Rightarrow> sort_key fst batch
   | Some k \<Rightarrow> sort_key (\<lambda>(f, _). (k (tk_item (the (map_of (px_active st) f))), f)) batch)"

definition handle_one :: "('i, 'k) executor \<Rightarrow> 'i pool_state \<times> ('i, 'r, 'x) emission list \<Rightarrow> nat \<times> ('r, 'x) future_result \<Rightarrow>
    ('i pool_state \<times> ('i, 'r, 'x) emission list \<times> ('i, 'x) exec_error) + ('i pool_state \<times> ('i, 'r, 'x) emission list)" where
  "handle_one cx acc fr = (case (acc, fr) of ((st, outs), (f, result)) \<Rightarrow>
     (case map_of (px_active st) f of
       None \<Rightarrow> Inl (st, outs, UnknownFuture)
     | Some m \<Rightarrow> (let st' = st\<lparr>px_active := AList.delete f (px_active st)\<rparr>; item = tk_item m in
         case result of
           Returned v \<Rightarrow> Inr (st', outs @ (if cx_on_result cx then [OnResult item v] else []) @ [Yield item v])
         | RaisedException x \<Rightarrow> if cx_on_error cx then Inr (st', outs @ [OnError item (Cause x)])
             else Inl (st', outs, ParallelTaskError item x)
         | RaisedBase x \<Rightarrow> Inl (st', outs, PassedThrough x))))"

text \<open>The end of a run: all items settled; a timeout reported to \<open>on_error\<close>; or an exception. The last
  two hold the state in which \<open>_shutdown_pool\<close> cancels the lease of every active task.\<close>

datatype ('i, 'r, 'x) drained =
    Exhausted "('i, 'r, 'x) emission list"
  | RoundOver "('i, 'r, 'x) emission list" "'i pool_state"
  | Failed "('i, 'r, 'x) emission list" "('i, 'x) exec_error" "'i pool_state"
  | Waiting "('i, 'r, 'x) emission list" "'i pool_state"

definition shutdown_cancels :: "'i pool_state \<Rightarrow> nat list" where
  "shutdown_cancels st = map fst (px_active st)"

definition drain_turn :: "('i, 'k::linorder) executor \<Rightarrow> 'i pool_state \<times> ('i, 'r, 'x) emission list \<Rightarrow> (nat \<times> ('r, 'x) future_result) list \<Rightarrow>
    ('i pool_state \<times> ('i, 'r, 'x) emission list \<times> ('i, 'x) exec_error) + ('i pool_state \<times> ('i, 'r, 'x) emission list)" where
  "drain_turn cx acc batch =
     (if list_ex (\<lambda>(f, _). map_of (px_active (fst acc)) f = None) batch then Inl (fst acc, snd acc, UnknownFuture)
      else rbind (foldM (handle_one cx) acc (completion_order cx (fst acc) batch)) (\<lambda>(st, outs).
        Inr (fill_active_slots (cx_clock cx) (cx_workers cx) st, outs)))"

fun drain_active_tasks :: "('i, 'k::linorder) executor \<Rightarrow> 'i pool_state \<Rightarrow> ('i, 'r, 'x) emission list \<Rightarrow> ('r, 'x) completion list \<Rightarrow> ('i, 'r, 'x) drained" where
  "drain_active_tasks cx st outs evs =
     (if px_active st = [] then Exhausted outs
      else (case evs of
        [] \<Rightarrow> Waiting outs st
      | ev # rest \<Rightarrow> (case next_completed_batch st ev of
          Inl err \<Rightarrow> (case err of
              ParallelExecutionTimeout item elapsed \<Rightarrow> if cx_on_error cx then RoundOver (outs @ [OnError item (TimedOut elapsed)]) st else Failed outs err st
            | _ \<Rightarrow> Failed outs err st)
        | Inr batch \<Rightarrow> (case drain_turn cx (st, outs) batch of
            Inl (st', outs', err) \<Rightarrow> Failed outs' err st'
          | Inr (st', outs') \<Rightarrow> drain_active_tasks cx st' outs' rest))))"

declare drain_active_tasks.simps [simp del]

text \<open>\<open>sized\<close>: the items know their number.\<close>

definition iter_completed_with_deadlines :: "('i, 'k::linorder) executor \<Rightarrow> bool \<Rightarrow> int \<Rightarrow> 'i list \<Rightarrow> ('r, 'x) completion list \<Rightarrow> ('i, 'r, 'x) drained" where
  "iter_completed_with_deadlines cx sized max_workers items evs =
     (if sized \<and> items = [] then Exhausted []
      else (let cx' = cx\<lparr>cx_workers := resolve_worker_count (if sized then Some (length items) else None) max_workers\<rparr> in
        drain_active_tasks cx' (fill_active_slots (cx_clock cx') (cx_workers cx')
          \<lparr>px_source = items, px_sequence = 0, px_exhausted = False, px_active = []\<rparr>) [] evs))"

definition collect_completed_with_deadlines :: "('i, 'r, 'x) drained \<Rightarrow> ('i \<times> 'r) list" where
  "collect_completed_with_deadlines d = (case d of
     Exhausted outs \<Rightarrow> List.map_filter (\<lambda>e. case e of Yield i r \<Rightarrow> Some (i, r) | _ \<Rightarrow> None) outs
   | RoundOver outs _ \<Rightarrow> List.map_filter (\<lambda>e. case e of Yield i r \<Rightarrow> Some (i, r) | _ \<Rightarrow> None) outs
   | _ \<Rightarrow> [])"

end
