(* ===== verification/Deadline_Executor_Properties.thy ===== *)
theory Deadline_Executor_Properties
  imports Deadline_Executor Assoc_Lists
begin

text \<open>
  The executor loses no work: at every moment the items settled towards the caller, the active ones and the ones not
  submitted yet are together the items it was given, each as often; the window stays within the bound and is full while
  items are left. With live workers every run ends.
\<close>

definition settled :: "('i, 'r, 'x) emission list \<Rightarrow> 'i multiset" where
  "settled outs = mset (List.map_filter (\<lambda>e. case e of OnResult _ _ \<Rightarrow> None | Yield i _ \<Rightarrow> Some i | OnError i _ \<Rightarrow> Some i) outs)"

definition remaining :: "'i pool_state \<Rightarrow> 'i multiset" where
  "remaining st = mset (map (tk_item \<circ> snd) (px_active st)) + mset (px_source st)"

definition pool_ok :: "nat \<Rightarrow> 'i pool_state \<Rightarrow> bool" where
  "pool_ok w st \<longleftrightarrow> distinct (map fst (px_active st)) \<and> list_all (\<lambda>f. f < px_sequence st) (map fst (px_active st)) \<and>
     length (px_active st) \<le> w \<and> (px_exhausted st \<longrightarrow> px_source st = [])"

definition window_full :: "nat \<Rightarrow> 'i pool_state \<Rightarrow> bool" where
  "window_full w st \<longleftrightarrow> px_source st = [] \<or> length (px_active st) = w"

lemma settled_simps [simp]:
  "settled [] = {#}" "settled (xs @ ys) = settled xs + settled ys" "settled (OnResult i r # xs) = settled xs"
  "settled (Yield i r # xs) = add_mset i (settled xs)" "settled (OnError i e # xs) = add_mset i (settled xs)"
  by (simp_all add: settled_def List.map_filter_def)

section \<open>Submission\<close>

lemma submit_next_ok:
  assumes "submit_next clock st = (submitted, st')" "pool_ok w st" "length (px_active st) < w"
  shows "pool_ok w st'" "remaining st' = remaining st" "\<not> submitted \<Longrightarrow> px_source st' = []"
proof -
  have "list_all (\<lambda>f. f < px_sequence st) (map fst (px_active st))" using assms(2) by (simp add: pool_ok_def)
  then have old: "f < px_sequence st" if "(f, m) \<in> set (px_active st)" for f m using that by (force simp: list_all_iff)
  show "pool_ok w st'" "remaining st' = remaining st" "\<not> submitted \<Longrightarrow> px_source st' = []"
    using assms old by (force simp: submit_next_def pool_ok_def remaining_def less_Suc_eq list_all_iff split: if_splits list.splits)+
qed

lemma fill_ok:
  assumes "pool_ok w st"
  shows "pool_ok w (fill_active_slots clock w st) \<and> remaining (fill_active_slots clock w st) = remaining st \<and>
    window_full w (fill_active_slots clock w st)"
  using assms
proof (induction clock w st rule: fill_active_slots.induct)
  case (1 clock w st)
  show ?case
  proof (cases "length (px_active st) < w")
    case True
    obtain submitted st' where s: "submit_next clock st = (submitted, st')" by (rule prod.exhaust)
    note ok = submit_next_ok[OF s "1.prems" True]
    show ?thesis
    proof (cases submitted)
      case sub: True
      then have "fill_active_slots clock w st = fill_active_slots clock w st'" using True s by (subst fill_active_slots.simps) simp
      then show ?thesis using "1.IH"[OF True s[symmetric] sub ok(1)] ok(2) by simp
    next
      case False
      then have "fill_active_slots clock w st = st'" using True s by (subst fill_active_slots.simps) simp
      then show ?thesis using ok False by (simp add: window_full_def)
    qed
  next
    case False
    then have "fill_active_slots clock w st = st" by (subst fill_active_slots.simps) simp
    then show ?thesis using "1.prems" False by (simp add: window_full_def pool_ok_def)
  qed
qed

section \<open>Draining\<close>

lemma delete_active:
  assumes "map_of (px_active st) f = Some m" "pool_ok w st"
  defines "st' \<equiv> st\<lparr>px_active := AList.delete f (px_active st)\<rparr>"
  shows "pool_ok w st'" "remaining st = add_mset (tk_item m) (remaining st')"
proof -
  have d: "distinct (map fst (px_active st))" using assms(2) by (simp add: pool_ok_def)
  from delete_split[OF assms(1) d] obtain xs ys where
    g: "px_active st = xs @ (f, m) # ys" "AList.delete f (px_active st) = xs @ ys" by blast
  show "pool_ok w st'" "remaining st = add_mset (tk_item m) (remaining st')"
    using assms(2) unfolding st'_def pool_ok_def remaining_def g(2) by (auto simp: g(1))
qed

lemma handle_one_ok:
  assumes "pool_ok w st"
  shows "case handle_one cx (st, outs) fr of
      Inl (st', outs', err) \<Rightarrow> settled outs' + remaining st' \<subseteq># settled outs + remaining st
    | Inr (st', outs') \<Rightarrow> pool_ok w st' \<and> settled outs' + remaining st' = settled outs + remaining st \<and> size (remaining st') < size (remaining st)"
proof -
  obtain f result where fr: "fr = (f, result)" by (rule prod.exhaust)
  show ?thesis
  proof (cases "map_of (px_active st) f")
    case None
    then show ?thesis by (simp add: handle_one_def fr)
  next
    case (Some m)
    note del = delete_active[OF Some assms]
    show ?thesis using Some del by (cases result) (auto simp: handle_one_def fr Let_def)
  qed
qed

lemma handle_all_ok:
  assumes "pool_ok w st"
  shows "case foldM (handle_one cx) (st, outs) batch of
      Inl (st', outs', err) \<Rightarrow> settled outs' + remaining st' \<subseteq># settled outs + remaining st
    | Inr (st', outs') \<Rightarrow> pool_ok w st' \<and> settled outs' + remaining st' = settled outs + remaining st \<and>
        size (remaining st') + length batch \<le> size (remaining st)"
  using assms
proof (induction batch arbitrary: st outs)
  case (Cons fr batch)
  note one = handle_one_ok[OF Cons.prems, where cx = cx and outs = outs and fr = fr]
  show ?case
  proof (cases "handle_one cx (st, outs) fr")
    case (Inl a)
    with one show ?thesis by auto
  next
    case (Inr a)
    obtain s o1 where a: "a = (s, o1)" by (rule prod.exhaust)
    with one Inr have s: "pool_ok w s" "settled o1 + remaining s = settled outs + remaining st" "size (remaining s) < size (remaining st)" by auto
    from Cons.IH[OF s(1), of o1] s(2,3) Inr a show ?thesis by (auto split: sum.splits)
  qed
qed simp

lemma length_completion_order [simp]: "length (completion_order cx st batch) = length batch"
  by (simp add: completion_order_def split: option.split)

lemma drain_turn_ok:
  assumes "pool_ok (cx_workers cx) st"
  shows "case drain_turn cx (st, outs) batch of
      Inl (st', outs', err) \<Rightarrow> settled outs' + remaining st' \<subseteq># settled outs + remaining st
    | Inr (st', outs') \<Rightarrow> pool_ok (cx_workers cx) st' \<and> window_full (cx_workers cx) st' \<and>
        settled outs' + remaining st' = settled outs + remaining st \<and> size (remaining st') + length batch \<le> size (remaining st)"
proof (cases "list_ex (\<lambda>(f, _). map_of (px_active st) f = None) batch")
  case True
  then show ?thesis by (simp add: drain_turn_def)
next
  case False
  note all = handle_all_ok[OF assms, where cx = cx and outs = outs and batch = "completion_order cx st batch"]
  show ?thesis
  proof (cases "foldM (handle_one cx) (st, outs) (completion_order cx st batch)")
    case (Inl a)
    with all False show ?thesis by (auto simp: drain_turn_def)
  next
    case (Inr a)
    obtain s o1 where a: "a = (s, o1)" by (rule prod.exhaust)
    with all Inr have s: "pool_ok (cx_workers cx) s" "settled o1 + remaining s = settled outs + remaining st"
      "size (remaining s) + length batch \<le> size (remaining st)" by auto
    from fill_ok[OF s(1), of "cx_clock cx"] s(2,3) Inr a False show ?thesis by (auto simp: drain_turn_def)
  qed
qed

lemma batch_timeout:
  assumes "next_completed_batch st ev = Inl err"
  shows "\<exists>f m. (f, m) \<in> set (px_active st) \<and> (\<exists>elapsed. err = ParallelExecutionTimeout (tk_item m) elapsed) \<and> ce_done ev = [] \<and>
    ce_deadline ev f \<le> ce_now ev \<and> (\<forall>(g, _) \<in> set (px_active st). ce_deadline ev f \<le> ce_deadline ev g)"
proof -
  let ?key = "\<lambda>(f, m). (ce_deadline ev f, tk_sequence m)" and ?xs = "px_active st"
  from assms obtain f m rest where hd: "sort_key ?key ?xs = (f, m) # rest" and err: "err = ParallelExecutionTimeout (tk_item m) (max 0 (double_round (ce_now ev - tk_submitted_at m)))"
    and late: "\<not> list_all (\<lambda>(f, _). ce_now ev < ce_deadline ev f) ?xs" and d: "ce_done ev = []"
    by (auto simp: next_completed_batch_def split: if_splits list.splits)
  have set: "set ?xs = insert (f, m) (set rest)" using hd by (metis list.simps(15) set_sort)
  have "sorted (map ?key ((f, m) # rest))" unfolding hd[symmetric] by (rule sorted_sort_key)
  then have "\<forall>x \<in> set rest. ?key (f, m) \<le> ?key x" by simp
  then have least: "\<forall>(g, n) \<in> set ?xs. ce_deadline ev f \<le> ce_deadline ev g" unfolding set by (auto simp: less_eq_prod_def)
  have "ce_deadline ev f \<le> ce_now ev" using late least by (fastforce simp: list_all_iff)
  with set err d least show ?thesis by blast
qed

lemma drain_conserves:
  assumes "pool_ok (cx_workers cx) st" "window_full (cx_workers cx) st" "0 < cx_workers cx" "settled outs + remaining st = items"
  shows "case drain_active_tasks cx st outs evs of
      Exhausted outs' \<Rightarrow> settled outs' = items
    | RoundOver outs' st' \<Rightarrow> \<exists>before i elapsed. outs' = before @ [OnError i (TimedOut elapsed)] \<and> settled before + remaining st' = items \<and>
        i \<in> (tk_item \<circ> snd) ` set (px_active st')
    | Failed outs' err st' \<Rightarrow> settled outs' + remaining st' \<subseteq># items
    | Waiting outs' st' \<Rightarrow> settled outs' + remaining st' = items \<and> length (px_active st') \<le> cx_workers cx \<and> window_full (cx_workers cx) st'"
  using assms(1,2,4)
proof (induction evs arbitrary: st outs)
  case Nil
  show ?case
  proof (cases "px_active st = []")
    case True
    then have "px_source st = []" using Nil.prems(2) assms(3) by (simp add: window_full_def)
    with True Nil.prems(3) show ?thesis by (subst drain_active_tasks.simps) (simp add: remaining_def)
  next
    case False
    with Nil.prems show ?thesis by (subst drain_active_tasks.simps) (simp add: pool_ok_def)
  qed
next
  case (Cons ev evs)
  show ?case
  proof (cases "px_active st = []")
    case True
    then have "px_source st = []" using Cons.prems(2) assms(3) by (simp add: window_full_def)
    with True Cons.prems(3) show ?thesis by (subst drain_active_tasks.simps) (simp add: remaining_def)
  next
    case False
    show ?thesis
    proof (cases "next_completed_batch st ev")
      case (Inl err)
      from batch_timeout[OF Inl] obtain f m elapsed where m: "(f, m) \<in> set (px_active st)" "err = ParallelExecutionTimeout (tk_item m) elapsed" by blast
      then have "tk_item m \<in> (tk_item \<circ> snd) ` set (px_active st)" by force
      with Inl m(2) False Cons.prems(3) show ?thesis by (subst drain_active_tasks.simps) auto
    next
      case (Inr batch)
      note turn = drain_turn_ok[OF Cons.prems(1), of outs batch]
      show ?thesis
      proof (cases "drain_turn cx (st, outs) batch")
        case (Inl a)
        obtain s o1 err where "a = (s, o1, err)" by (metis prod.exhaust)
        with Inl Inr turn False Cons.prems(3) show ?thesis by (subst drain_active_tasks.simps) auto
      next
        case r: (Inr a)
        obtain s o1 where a: "a = (s, o1)" by (rule prod.exhaust)
        with turn r have s: "pool_ok (cx_workers cx) s" "window_full (cx_workers cx) s" "settled o1 + remaining s = items"
          using Cons.prems(3) by auto
        have "drain_active_tasks cx st outs (ev # evs) = drain_active_tasks cx s o1 evs"
          using Inr r a False by (subst drain_active_tasks.simps) simp
        then show ?thesis using Cons.IH[OF s] by simp
      qed
    qed
  qed
qed

lemma resolved_workers: "items \<noteq> [] \<or> \<not> sized \<Longrightarrow> 0 < resolve_worker_count (if sized then Some (length items) else None) max_workers"
  by (auto simp: resolve_worker_count_def Let_def)

text \<open>C17. No work is lost or done twice in the eyes of the caller. However the workers finish: a run that ends has yielded or
  reported every item exactly as often as it was given; when a timeout is reported the run ends with one more report, for
  an active item, and what was settled before it, the active and the unsubmitted items are together the given ones;
  an exception leaves no item settled that is still active; and while the run waits, at most the resolved number
  of items is active, and exactly that number while items are left to submit.\<close>

theorem executor_conserves_items:
  "case iter_completed_with_deadlines cx sized max_workers items evs of
      Exhausted outs \<Rightarrow> settled outs = mset items
    | RoundOver outs st \<Rightarrow> \<exists>before i elapsed. outs = before @ [OnError i (TimedOut elapsed)] \<and> settled before + remaining st = mset items \<and>
        i \<in> (tk_item \<circ> snd) ` set (px_active st)
    | Failed outs err st \<Rightarrow> settled outs + remaining st \<subseteq># mset items
    | Waiting outs st \<Rightarrow> settled outs + remaining st = mset items \<and>
        length (px_active st) \<le> resolve_worker_count (if sized then Some (length items) else None) max_workers \<and>
        window_full (resolve_worker_count (if sized then Some (length items) else None) max_workers) st"
proof (cases "sized \<and> items = []")
  case True
  then show ?thesis by (simp add: iter_completed_with_deadlines_def)
next
  case False
  define w where "w = resolve_worker_count (if sized then Some (length items) else None) max_workers"
  let ?cx = "cx\<lparr>cx_workers := w\<rparr>" and ?st = "\<lparr>px_source = items, px_sequence = 0, px_exhausted = False, px_active = []\<rparr>"
  let ?fill = "fill_active_slots (cx_clock cx) w ?st"
  have run: "iter_completed_with_deadlines cx sized max_workers items evs = drain_active_tasks ?cx ?fill [] evs"
    unfolding iter_completed_with_deadlines_def Let_def if_not_P[OF False] w_def[symmetric] by simp
  have "pool_ok w ?st" by (simp add: pool_ok_def)
  from fill_ok[OF this, of "cx_clock cx"] have fill: "pool_ok w ?fill" "window_full w ?fill" "remaining ?fill = mset items"
    by (simp_all add: remaining_def)
  have "0 < w" using False resolved_workers unfolding w_def by blast
  have W: "cx_workers ?cx = w" by simp
  have all: "settled [] + remaining ?fill = mset items" by (simp add: fill(3))
  from drain_conserves[where cx = ?cx, unfolded W, OF fill(1,2) \<open>0 < w\<close> all] show ?thesis
    unfolding run w_def[symmetric] .
qed

section \<open>Timeouts and progress\<close>

text \<open>Live workers: every \<open>wait\<close> returns some of the active futures.\<close>

primrec live_completions :: "('i, 'k::linorder) executor \<Rightarrow> ('r, 'x) completion list \<Rightarrow> 'i pool_state \<Rightarrow> ('i, 'r, 'x) emission list \<Rightarrow> bool" where
  "live_completions cx [] st outs \<longleftrightarrow> True"
| "live_completions cx (ev # evs) st outs \<longleftrightarrow> ce_done ev \<noteq> [] \<and>
     (case drain_turn cx (st, outs) (ce_done ev) of Inl _ \<Rightarrow> True | Inr (st', outs') \<Rightarrow> live_completions cx evs st' outs')"

lemma live_drain_ends:
  assumes "pool_ok (cx_workers cx) st" "live_completions cx evs st outs" "size (remaining st) \<le> length evs"
  shows "case drain_active_tasks cx st outs evs of Waiting outs' st' \<Rightarrow> False | RoundOver outs' st' \<Rightarrow> False | _ \<Rightarrow> True"
  using assms
proof (induction evs arbitrary: st outs)
  case Nil
  then have "px_active st = []" by (simp add: remaining_def)
  then show ?case by (subst drain_active_tasks.simps) simp
next
  case (Cons ev evs)
  show ?case
  proof (cases "px_active st = []")
    case True
    then show ?thesis by (subst drain_active_tasks.simps) simp
  next
    case False
    have batch: "next_completed_batch st ev = Inr (ce_done ev)" using Cons.prems(2) by (simp add: next_completed_batch_def)
    note turn = drain_turn_ok[OF Cons.prems(1), of outs "ce_done ev"]
    show ?thesis
    proof (cases "drain_turn cx (st, outs) (ce_done ev)")
      case (Inl a)
      then show ?thesis using batch False by (subst drain_active_tasks.simps) (auto split: prod.split)
    next
      case (Inr a)
      obtain s o1 where a: "a = (s, o1)" by (rule prod.exhaust)
      have "1 \<le> length (ce_done ev)" using Cons.prems(2) by (cases "ce_done ev") auto
      moreover have "size (remaining s) + length (ce_done ev) \<le> size (remaining st)" using turn Inr a by simp
      ultimately have "size (remaining s) \<le> length evs" using Cons.prems(3) by simp
      moreover have "live_completions cx evs s o1" "pool_ok (cx_workers cx) s" using Cons.prems(2) Inr a turn by auto
      moreover have "drain_active_tasks cx st outs (ev # evs) = drain_active_tasks cx s o1 evs"
        using batch Inr a False by (subst drain_active_tasks.simps) simp
      ultimately show ?thesis using Cons.IH[of s o1] by simp
    qed
  qed
qed

end
