(* ===== verification/Execution_Budget.thy ===== *)
theory Execution_Budget
  imports Transition_System Artifact_Ports Py_Float
begin

text \<open>
  The leases of model-backed work (\<^verbatim>\<open>model_concurrency.py\<close>): a budget has a deadline, an owner above it, a
  cancellation flag and a lock. Budgets are objects shared between threads, so they live in a store and are named
  by their position; a context holds the innermost one. Deadlines are finite floating-point numbers, kept as rationals;
  additions and subtractions round.

  Publication is a protocol between threads: a publisher takes the locks of all its owners from the outermost one,
  looks at their flags and publishes; a scheduler sets a flag under the lock. Its steps are cut where another thread can
  run. The locks are reentrant, so each thread has a stack of frames.
\<close>

record ModelExecutionBudget =
  mb_deadline :: rat
  mb_parent :: "nat option"
  mb_cancelled :: bool
  mb_lock :: "(nat \<times> nat) option"

type_synonym budgets = "ModelExecutionBudget list"

datatype budget_error = BudgetFault pyerr | ModelExecutionDeadlineExceeded string

text \<open>A new budget belongs to the current context.\<close>

definition new_budget :: "rat \<Rightarrow> nat option \<Rightarrow> budgets \<Rightarrow> budgets" where
  "new_budget deadline ctx bs = bs @ [\<lparr>mb_deadline = deadline, mb_parent = ctx, mb_cancelled = False, mb_lock = None\<rparr>]"

text \<open>The loop \<open>while budget is not None\<close>: a budget is created after its parent, so the number of budgets
  bounds it.\<close>

primrec owner_chain :: "nat \<Rightarrow> budgets \<Rightarrow> nat option \<Rightarrow> nat list" where
  "owner_chain 0 bs b = []"
| "owner_chain (Suc n) bs b = (case b of None \<Rightarrow> [] | Some i \<Rightarrow> i # owner_chain n bs (mb_parent (bs ! i)))"

definition owners :: "budgets \<Rightarrow> nat option \<Rightarrow> nat list" where
  "owners bs ctx = owner_chain (length bs) bs ctx"

definition check_cancelled :: "budgets \<Rightarrow> nat option \<Rightarrow> budget_error + unit" where
  "check_cancelled bs ctx = (case raise_if_model_execution_cancelled (map (\<lambda>i. mb_cancelled (bs ! i)) (owners bs ctx)) of
     Inl e \<Rightarrow> Inl (BudgetFault e) | Inr u \<Rightarrow> Inr u)"

section \<open>Deadlines\<close>

definition current_model_execution_deadline :: "budgets \<Rightarrow> nat option \<Rightarrow> rat option" where
  "current_model_execution_deadline bs ctx = map_option (\<lambda>i. mb_deadline (bs ! i)) ctx"

definition remaining_model_execution_seconds :: "budgets \<Rightarrow> nat option \<Rightarrow> rat option \<Rightarrow> rat \<Rightarrow> budget_error + rat option" where
  "remaining_model_execution_seconds bs ctx given now =
     rbind (check_cancelled bs ctx) (\<lambda>_.
       let deadline = (case given of None \<Rightarrow> current_model_execution_deadline bs ctx | Some d \<Rightarrow> Some d)
       in Inr (map_option (\<lambda>d. max 0 (double_round (d - now))) deadline))"

text \<open>The window of a refresh is None where the float is not finite.\<close>

definition refresh_model_execution_deadline :: "budgets \<Rightarrow> nat option \<Rightarrow> rat option \<Rightarrow> rat \<Rightarrow> budget_error + rat option \<times> budgets" where
  "refresh_model_execution_deadline bs ctx window now = (case current_model_execution_deadline bs ctx of
     None \<Rightarrow> Inr (None, bs)
   | Some existing \<Rightarrow> (case window of
       None \<Rightarrow> Inl (BudgetFault (ValueError ''minimum_remaining_seconds must be a positive finite number''))
     | Some w \<Rightarrow> if w \<le> 0 then Inl (BudgetFault (ValueError ''minimum_remaining_seconds must be a positive finite number''))
         else (let refreshed = max existing (double_round (now + w)) in
           rbind (check_cancelled bs ctx) (\<lambda>_.
             Inr (Some refreshed, fold (\<lambda>i s. s[i := (s ! i)\<lparr>mb_deadline := max (mb_deadline (s ! i)) refreshed\<rparr>]) (owners bs ctx) bs)))))"

text \<open>Entering \<open>bind_model_execution_deadline\<close> with budget \<open>b\<close>: the new context and its deadline. The
  deadline is stored before the cancellation check; on its exception the old context returns.\<close>

definition bind_model_execution_deadline :: "budgets \<Rightarrow> nat option \<Rightarrow> nat \<Rightarrow> budgets \<times> (budget_error + nat option \<times> rat)" where
  "bind_model_execution_deadline bs ctx b =
     (let requested = mb_deadline (bs ! b);
          effective = (case current_model_execution_deadline bs ctx of None \<Rightarrow> requested | Some existing \<Rightarrow> min existing requested);
          bs' = bs[b := (bs ! b)\<lparr>mb_deadline := effective\<rparr>]
      in (bs', rbind (check_cancelled bs' (Some b)) (\<lambda>_. Inr (Some b, effective))))"

text \<open>\<open>_condition_wait\<close>: the budgets and the clock before the wait and after it.\<close>

definition condition_wait :: "budgets \<Rightarrow> rat \<Rightarrow> budgets \<Rightarrow> rat \<Rightarrow> nat option \<Rightarrow> budget_error + unit" where
  "condition_wait bs now bs' now' ctx =
     rbind (remaining_model_execution_seconds bs ctx None now) (\<lambda>remaining. case remaining of
       None \<Rightarrow> Inr ()
     | Some r \<Rightarrow> if r \<le> 0
         then Inl (ModelExecutionDeadlineExceeded ''model execution deadline expired while waiting for shared model capacity'')
         else rbind (remaining_model_execution_seconds bs' ctx None now') (\<lambda>left.
           if left = Some 0
           then Inl (ModelExecutionDeadlineExceeded ''model execution deadline expired while waiting for shared model capacity'')
           else Inr ()))"

section \<open>Publication\<close>

text \<open>The reentrant lock of a budget: its owner and depth. None where a thread has to wait.\<close>

definition acquire_publication :: "nat \<Rightarrow> nat \<Rightarrow> budgets \<Rightarrow> budgets option" where
  "acquire_publication t i bs = (case mb_lock (bs ! i) of
     None \<Rightarrow> Some (bs[i := (bs ! i)\<lparr>mb_lock := Some (t, 1)\<rparr>])
   | Some (owner, n) \<Rightarrow> if owner = t then Some (bs[i := (bs ! i)\<lparr>mb_lock := Some (t, Suc n)\<rparr>]) else None)"

definition release_publication :: "nat \<Rightarrow> budgets \<Rightarrow> budgets" where
  "release_publication i bs = bs[i := (bs ! i)\<lparr>mb_lock := (case mb_lock (bs ! i) of
     None \<Rightarrow> None | Some (owner, n) \<Rightarrow> if n \<le> 1 then None else Some (owner, n - 1))\<rparr>]"

text \<open>Where a thread is. \<open>Entering taken todo\<close>: the locks it has, the last one first, and those it still
  takes, the outermost first; \<open>Leaving\<close>: the locks it still gives back.\<close>

datatype frame = Entering "nat list" "nat list" | Publishing "nat list" | Leaving "nat list" | Cancelling nat | Setting nat

record publication =
  pb_budgets :: budgets
  pb_frames :: "nat \<Rightarrow> frame list"

definition put_frames :: "nat \<Rightarrow> frame list \<Rightarrow> publication \<Rightarrow> publication" where
  "put_frames t fs S = S\<lparr>pb_frames := (pb_frames S)(t := fs)\<rparr>"

definition may_call :: "frame list \<Rightarrow> bool" where
  "may_call fs \<longleftrightarrow> (case fs of [] \<Rightarrow> True | f # _ \<Rightarrow> (case f of Publishing _ \<Rightarrow> True | _ \<Rightarrow> False))"

text \<open>The next step of a thread inside \<open>model_execution_publication\<close> or \<open>cancel\<close>.\<close>

definition advance :: "nat \<Rightarrow> publication \<Rightarrow> publication option" where
  "advance t S = (case pb_frames S t of
     [] \<Rightarrow> None
   | f # fs \<Rightarrow> (case f of
       Entering taken (i # todo) \<Rightarrow> map_option (\<lambda>bs. put_frames t (Entering (i # taken) todo # fs) (S\<lparr>pb_budgets := bs\<rparr>))
         (acquire_publication t i (pb_budgets S))
     | Entering taken [] \<Rightarrow> (case raise_if_model_execution_cancelled (map (\<lambda>i. mb_cancelled (pb_budgets S ! i)) taken) of
         Inl _ \<Rightarrow> Some (put_frames t (Leaving taken # fs) S)
       | Inr _ \<Rightarrow> Some (put_frames t (Publishing taken # fs) S))
     | Publishing taken \<Rightarrow> Some (put_frames t (Leaving taken # fs) S)
     | Leaving [] \<Rightarrow> Some (put_frames t fs S)
     | Leaving (i # held) \<Rightarrow> Some (put_frames t (Leaving held # fs) (S\<lparr>pb_budgets := release_publication i (pb_budgets S)\<rparr>))
     | Cancelling i \<Rightarrow> map_option (\<lambda>bs. put_frames t (Setting i # fs) (S\<lparr>pb_budgets := bs\<rparr>)) (acquire_publication t i (pb_budgets S))
     | Setting i \<Rightarrow> Some (put_frames t (Leaving [i] # fs)
         (S\<lparr>pb_budgets := (pb_budgets S)[i := (pb_budgets S ! i)\<lparr>mb_cancelled := True\<rparr>]\<rparr>))))"

definition known :: "publication \<Rightarrow> nat option \<Rightarrow> bool" where
  "known S ctx \<longleftrightarrow> (case ctx of None \<Rightarrow> True | Some i \<Rightarrow> i < length (pb_budgets S))"

text \<open>Between two steps any thread may create a budget, move a deadline, call \<open>model_execution_publication\<close> in some
  context, call \<open>cancel\<close>, or go on.\<close>

inductive publication_step :: "publication \<Rightarrow> publication \<Rightarrow> bool" where
  create: "known S ctx \<Longrightarrow> publication_step S (S\<lparr>pb_budgets := new_budget d ctx (pb_budgets S)\<rparr>)"
| renew: "i < length (pb_budgets S) \<Longrightarrow>
    publication_step S (S\<lparr>pb_budgets := (pb_budgets S)[i := (pb_budgets S ! i)\<lparr>mb_deadline := d\<rparr>]\<rparr>)"
| publish: "known S ctx \<Longrightarrow> may_call (pb_frames S t) \<Longrightarrow>
    publication_step S (put_frames t (Entering [] (rev (owners (pb_budgets S) ctx)) # pb_frames S t) S)"
| cancel: "i < length (pb_budgets S) \<Longrightarrow> may_call (pb_frames S t) \<Longrightarrow>
    publication_step S (put_frames t (Cancelling i # pb_frames S t) S)"
| advance: "advance t S = Some S' \<Longrightarrow> publication_step S S'"

inductive_cases publication_stepE: "publication_step S S'"

definition publication_start :: "publication \<Rightarrow> bool" where
  "publication_start S \<longleftrightarrow> pb_budgets S = [] \<and> (\<forall>t. pb_frames S t = [])"

end
