(* ===== verification/Execution_Budget_Properties.thy ===== *)
theory Execution_Budget_Properties
  imports Execution_Budget
begin

text \<open>
  Cancellation and publication exclude each other: once \<open>cancel\<close> has set the flag of a budget, no other thread is
  publishing under it or ever will; and taking the locks from the outermost owner on keeps the threads out of
  deadlocks. Deadlines: binding and refreshing keep the innermost deadline the earliest one of its owners.
\<close>

section \<open>Owners\<close>

definition parents_ok :: "budgets \<Rightarrow> bool" where
  "parents_ok bs \<longleftrightarrow> (\<forall>i < length bs. case mb_parent (bs ! i) of None \<Rightarrow> True | Some p \<Rightarrow> p < i)"

lemma parents_okD: "parents_ok bs \<Longrightarrow> i < length bs \<Longrightarrow> mb_parent (bs ! i) = Some p \<Longrightarrow> p < i"
  by (auto simp: parents_ok_def)

lemma owner_chain_fuel:
  assumes "parents_ok bs" "i < n" "i < length bs"
  shows "owner_chain n bs (Some i) = i # owner_chain (length bs) bs (mb_parent (bs ! i))"
  using assms(2,3)
proof (induction i arbitrary: n rule: less_induct)
  case (less i)
  then obtain m where n: "n = Suc m" "i \<le> m" by (cases n) auto
  show ?case
  proof (cases "mb_parent (bs ! i)")
    case None
    then show ?thesis by (cases m; cases "length bs") (simp_all add: n)
  next
    case (Some p)
    have p: "p < i" using parents_okD[OF assms(1) less.prems(2) Some] .
    have "owner_chain m bs (Some p) = p # owner_chain (length bs) bs (mb_parent (bs ! p))" using less.IH[OF p, of m] p n less.prems(2) by simp
    moreover have "owner_chain (length bs) bs (Some p) = p # owner_chain (length bs) bs (mb_parent (bs ! p))"
      using less.IH[OF p, of "length bs"] p less.prems(2) by simp
    ultimately show ?thesis by (simp add: n Some)
  qed
qed

lemma owners_Some: "parents_ok bs \<Longrightarrow> i < length bs \<Longrightarrow> owners bs (Some i) = i # owners bs (mb_parent (bs ! i))"
  unfolding owners_def by (rule owner_chain_fuel)

lemma owners_None [simp]: "owners bs None = []"
  by (cases "length bs") (simp_all add: owners_def)

lemma owners_decreasing:
  assumes "parents_ok bs" "i < length bs"
  shows "sorted_wrt (>) (owners bs (Some i)) \<and> (\<forall>j \<in> set (owners bs (Some i)). j \<le> i)"
  using assms(2)
proof (induction i rule: less_induct)
  case (less i)
  show ?case
  proof (cases "mb_parent (bs ! i)")
    case None
    then show ?thesis using owners_Some[OF assms(1) less.prems] by simp
  next
    case (Some p)
    have p: "p < i" using parents_okD[OF assms(1) less.prems Some] .
    then show ?thesis using less.IH[OF p] less.prems owners_Some[OF assms(1) less.prems] Some by (auto simp: le_less_trans less_imp_le)
  qed
qed

lemma owners_known:
  assumes "parents_ok bs" "case ctx of None \<Rightarrow> True | Some i \<Rightarrow> i < length bs"
  shows "sorted_wrt (>) (owners bs ctx)" "\<forall>j \<in> set (owners bs ctx). j < length bs"
  using assms owners_decreasing[OF assms(1)] by (cases ctx; fastforce)+

section \<open>Locks\<close>

fun held :: "frame \<Rightarrow> nat list" where
  "held (Entering taken todo) = taken"
| "held (Publishing taken) = taken"
| "held (Leaving taken) = taken"
| "held (Cancelling i) = []"
| "held (Setting i) = [i]"

fun wanted :: "frame \<Rightarrow> nat list" where
  "wanted (Entering taken todo) = todo"
| "wanted (Cancelling i) = [i]"
| "wanted _ = []"

definition holding :: "frame list \<Rightarrow> nat \<Rightarrow> nat" where
  "holding fs i = sum_list (map (\<lambda>f. count_list (held f) i) fs)"

lemma holding_simps [simp]: "holding [] i = 0" "holding (f # fs) i = count_list (held f) i + holding fs i"
  by (simp_all add: holding_def)

lemma holding_member: "f \<in> set fs \<Longrightarrow> i \<in> set (held f) \<Longrightarrow> 0 < holding fs i"
  by (induction fs) (auto simp: count_list_0_iff simp flip: neq0_conv)

definition lock_agrees :: "(nat \<times> nat) option \<Rightarrow> (nat \<Rightarrow> nat) \<Rightarrow> bool" where
  "lock_agrees l h \<longleftrightarrow> (case l of None \<Rightarrow> \<forall>t. h t = 0 | Some (t, n) \<Rightarrow> h t = n \<and> 0 < n \<and> (\<forall>u. u \<noteq> t \<longrightarrow> h u = 0))"

definition locks_ok :: "budgets \<Rightarrow> (nat \<Rightarrow> frame list) \<Rightarrow> bool" where
  "locks_ok bs F \<longleftrightarrow> (\<forall>i < length bs. lock_agrees (mb_lock (bs ! i)) (\<lambda>t. holding (F t) i)) \<and>
     (\<forall>t. \<forall>f \<in> set (F t). \<forall>i \<in> set (held f) \<union> set (wanted f). i < length bs)"

lemma holder_unique:
  assumes "locks_ok bs F" "i < length bs" "0 < holding (F t) i" "0 < holding (F u) i"
  shows "t = u"
proof -
  have "lock_agrees (mb_lock (bs ! i)) (\<lambda>t. holding (F t) i)" using assms(1,2) by (simp add: locks_ok_def)
  then show ?thesis using assms(3,4) by (auto simp: lock_agrees_def split: option.splits) (metis less_not_refl)
qed

lemma locks_ok_acquire:
  assumes ok: "locks_ok bs F" and i: "i < length bs" and acq: "acquire_publication t i bs = Some bs'"
    and more: "\<And>j. holding fs j = holding (F t) j + (if j = i then 1 else 0)"
    and bound: "\<And>f j. f \<in> set fs \<Longrightarrow> j \<in> set (held f) \<union> set (wanted f) \<Longrightarrow> j < length bs"
  shows "locks_ok bs' (F(t := fs))"
proof -
  have a: "lock_agrees (mb_lock (bs ! j)) (\<lambda>u. holding (F u) j)" if "j < length bs" for j using ok that by (simp add: locks_ok_def)
  obtain n where bs': "bs' = bs[i := (bs ! i)\<lparr>mb_lock := Some (t, Suc n)\<rparr>]" and n: "mb_lock (bs ! i) = None \<and> n = 0 \<or> mb_lock (bs ! i) = Some (t, n)"
    using acq by (auto simp: acquire_publication_def split: option.splits if_splits)
  have "holding (F t) i = n" "\<forall>u. u \<noteq> t \<longrightarrow> holding (F u) i = 0" using a[OF i] n by (auto simp: lock_agrees_def)
  then have "lock_agrees (Some (t, Suc n)) (\<lambda>u. holding ((F(t := fs)) u) i)" using more by (simp add: lock_agrees_def)
  moreover have "lock_agrees (mb_lock (bs ! j)) (\<lambda>u. holding ((F(t := fs)) u) j)" if "j < length bs" "j \<noteq> i" for j
  proof -
    have "(\<lambda>u. holding ((F(t := fs)) u) j) = (\<lambda>u. holding (F u) j)" using that(2) more by auto
    then show ?thesis using a[OF that(1)] by simp
  qed
  ultimately show ?thesis using ok bound i by (auto simp: locks_ok_def bs' nth_list_update)
qed

lemma locks_ok_release:
  assumes ok: "locks_ok bs F" and i: "i < length bs"
    and less: "\<And>j. holding (F t) j = holding fs j + (if j = i then 1 else 0)"
    and bound: "\<And>f j. f \<in> set fs \<Longrightarrow> j \<in> set (held f) \<union> set (wanted f) \<Longrightarrow> j < length bs"
  shows "locks_ok (release_publication i bs) (F(t := fs))"
proof -
  have a: "lock_agrees (mb_lock (bs ! j)) (\<lambda>u. holding (F u) j)" if "j < length bs" for j using ok that by (simp add: locks_ok_def)
  have pos: "0 < holding (F t) i" using less[of i] by simp
  then have l: "mb_lock (bs ! i) = Some (t, holding (F t) i)" and others: "\<forall>u. u \<noteq> t \<longrightarrow> holding (F u) i = 0"
    using a[OF i] by (auto simp: lock_agrees_def split: option.splits) (metis neq0_conv)+
  have "lock_agrees (if holding (F t) i \<le> 1 then None else Some (t, holding (F t) i - 1)) (\<lambda>u. holding ((F(t := fs)) u) i)"
    using others less[of i] by (auto simp: lock_agrees_def)
  moreover have "lock_agrees (mb_lock (bs ! j)) (\<lambda>u. holding ((F(t := fs)) u) j)" if "j < length bs" "j \<noteq> i" for j
  proof -
    have "(\<lambda>u. holding ((F(t := fs)) u) j) = (\<lambda>u. holding (F u) j)" using that(2) less by auto
    then show ?thesis using a[OF that(1)] by simp
  qed
  ultimately show ?thesis using ok bound i l by (auto simp: locks_ok_def release_publication_def nth_list_update)
qed

lemma locks_ok_same:
  assumes "locks_ok bs F" "\<And>j. holding fs j = holding (F t) j"
    and "\<And>f j. f \<in> set fs \<Longrightarrow> j \<in> set (held f) \<union> set (wanted f) \<Longrightarrow> j < length bs"
  shows "locks_ok bs (F(t := fs))"
proof -
  have "(\<lambda>u. holding ((F(t := fs)) u) j) = (\<lambda>u. holding (F u) j)" for j using assms(2) by auto
  then show ?thesis using assms(1,3) by (auto simp: locks_ok_def)
qed

lemma locks_ok_budgets:
  assumes "locks_ok bs F" "length bs' = length bs" "\<And>i. i < length bs \<Longrightarrow> mb_lock (bs' ! i) = mb_lock (bs ! i)"
  shows "locks_ok bs' F"
  using assms by (auto simp: locks_ok_def)

section \<open>The invariant\<close>

definition publication_inv :: "publication \<Rightarrow> bool" where
  "publication_inv S \<longleftrightarrow> parents_ok (pb_budgets S) \<and> locks_ok (pb_budgets S) (pb_frames S)"

lemma lock_update_frame:
  "length (bs[i := (bs ! i)\<lparr>mb_lock := l\<rparr>]) = length bs" "mb_parent (bs[i := (bs ! i)\<lparr>mb_lock := l\<rparr>] ! j) = mb_parent (bs ! j)"
  "mb_cancelled (bs[i := (bs ! i)\<lparr>mb_lock := l\<rparr>] ! j) = mb_cancelled (bs ! j)"
  by (cases "i < length bs"; cases "j = i"; simp add: list_update_beyond)+

lemma acquire_frame:
  assumes "acquire_publication t i bs = Some bs'"
  shows "length bs' = length bs" "mb_parent (bs' ! j) = mb_parent (bs ! j)" "mb_cancelled (bs' ! j) = mb_cancelled (bs ! j)"
proof -
  obtain l where "bs' = bs[i := (bs ! i)\<lparr>mb_lock := l\<rparr>]"
    using assms by (auto simp: acquire_publication_def split: option.splits if_splits)
  then show "length bs' = length bs" "mb_parent (bs' ! j) = mb_parent (bs ! j)" "mb_cancelled (bs' ! j) = mb_cancelled (bs ! j)"
    by (simp_all only: lock_update_frame)
qed

lemma release_frame:
  "length (release_publication i bs) = length bs" "mb_parent (release_publication i bs ! j) = mb_parent (bs ! j)"
  "mb_cancelled (release_publication i bs ! j) = mb_cancelled (bs ! j)"
  by (simp_all only: release_publication_def lock_update_frame)

lemma parents_ok_cong: "length bs' = length bs \<Longrightarrow> (\<And>j. mb_parent (bs' ! j) = mb_parent (bs ! j)) \<Longrightarrow> parents_ok bs \<Longrightarrow> parents_ok bs'"
  by (simp add: parents_ok_def)

lemma put_frames_simps [simp]:
  "pb_budgets (put_frames t fs S) = pb_budgets S" "pb_frames (put_frames t fs S) = (pb_frames S)(t := fs)"
  by (simp_all add: put_frames_def)

lemma advance_inv:
  assumes inv: "publication_inv S" and adv: "advance t S = Some S'"
  shows "publication_inv S'"
proof -
  let ?bs = "pb_budgets S" and ?F = "pb_frames S"
  have P: "parents_ok ?bs" and L: "locks_ok ?bs ?F" using inv by (auto simp: publication_inv_def)
  obtain f fs where fs: "?F t = f # fs" using adv by (auto simp: advance_def split: list.splits)
  have bound: "j < length ?bs" if "g \<in> set (f # fs)" "j \<in> set (held g) \<union> set (wanted g)" for g j
  proof -
    have "g \<in> set (?F t)" using that(1) fs by simp
    then show ?thesis using L that(2) unfolding locks_ok_def by blast
  qed
  show ?thesis
  proof (cases f)
    case (Entering taken todo)
    show ?thesis
    proof (cases todo)
      case Nil
      have "S' = put_frames t (Leaving taken # fs) S \<or> S' = put_frames t (Publishing taken # fs) S"
        using adv fs Entering Nil by (auto simp: advance_def split: sum.splits)
      moreover have "locks_ok ?bs (?F(t := g # fs))" if "held g = taken" "wanted g = []" for g
        using L by (rule locks_ok_same) (use bound bound[of f] fs Entering that in auto)
      ultimately show ?thesis using P by (auto simp: publication_inv_def)
    next
      case (Cons i rest)
      then obtain bs' where bs': "acquire_publication t i ?bs = Some bs'" "S' = put_frames t (Entering (i # taken) rest # fs) (S\<lparr>pb_budgets := bs'\<rparr>)"
        using adv fs Entering by (auto simp: advance_def)
      have "locks_ok bs' (?F(t := Entering (i # taken) rest # fs))"
        by (rule locks_ok_acquire[OF L _ bs'(1)]) (use bound bound[of f] fs Entering Cons in auto)
      then show ?thesis using bs'(2) parents_ok_cong[OF acquire_frame(1,2)[OF bs'(1)] P] by (simp add: publication_inv_def put_frames_def)
    qed
  next
    case (Publishing taken)
    have "locks_ok ?bs (?F(t := Leaving taken # fs))" using L by (rule locks_ok_same) (use bound bound[of f] fs Publishing in auto)
    then show ?thesis using P adv fs Publishing by (auto simp: publication_inv_def advance_def)
  next
    case (Leaving taken)
    show ?thesis
    proof (cases taken)
      case Nil
      have "locks_ok ?bs (?F(t := fs))" using L by (rule locks_ok_same) (use bound bound[of f] fs Leaving Nil in auto)
      then show ?thesis using P adv fs Leaving Nil by (auto simp: publication_inv_def advance_def)
    next
      case (Cons i rest)
      have "locks_ok (release_publication i ?bs) (?F(t := Leaving rest # fs))"
        using L by (rule locks_ok_release) (use bound bound[of f] fs Leaving Cons in auto)
      then show ?thesis using adv fs Leaving Cons parents_ok_cong[OF release_frame(1,2) P]
        by (auto simp: publication_inv_def advance_def put_frames_def)
    qed
  next
    case (Cancelling i)
    then obtain bs' where bs': "acquire_publication t i ?bs = Some bs'" "S' = put_frames t (Setting i # fs) (S\<lparr>pb_budgets := bs'\<rparr>)"
      using adv fs by (auto simp: advance_def)
    have "locks_ok bs' (?F(t := Setting i # fs))"
      by (rule locks_ok_acquire[OF L _ bs'(1)]) (use bound bound[of f] fs Cancelling in auto)
    then show ?thesis using bs'(2) parents_ok_cong[OF acquire_frame(1,2)[OF bs'(1)] P] by (simp add: publication_inv_def put_frames_def)
  next
    case (Setting i)
    let ?bs' = "?bs[i := (?bs ! i)\<lparr>mb_cancelled := True\<rparr>]"
    have i: "i < length ?bs" using bound[of f i] Setting by simp
    have "locks_ok ?bs (?F(t := Leaving [i] # fs))" using L by (rule locks_ok_same) (use bound bound[of f] fs Setting in auto)
    then have "locks_ok ?bs' (?F(t := Leaving [i] # fs))" by (rule locks_ok_budgets) (auto simp: nth_list_update i)
    moreover have "parents_ok ?bs'" using P by (rule parents_ok_cong[rotated 2]) (auto simp: nth_list_update i)
    ultimately show ?thesis using adv fs Setting by (auto simp: publication_inv_def advance_def put_frames_def)
  qed
qed

lemma holding_zero: "(\<And>f. f \<in> set fs \<Longrightarrow> i \<notin> set (held f)) \<Longrightarrow> holding fs i = 0"
  by (induction fs) (auto simp: count_list_0_iff)

lemma publication_step_inv:
  assumes inv: "publication_inv S" and step: "publication_step S S'"
  shows "publication_inv S'"
  using step
proof (cases rule: publication_step.cases)
  case (create ctx d)
  have P: "parents_ok (pb_budgets S)" and L: "locks_ok (pb_budgets S) (pb_frames S)" using inv by (auto simp: publication_inv_def)
  have "holding (pb_frames S t) (length (pb_budgets S)) = 0" for t
    by (rule holding_zero) (use L in \<open>force simp: locks_ok_def\<close>)
  then have "locks_ok (new_budget d ctx (pb_budgets S)) (pb_frames S)"
    using L by (auto simp: locks_ok_def new_budget_def nth_append lock_agrees_def less_Suc_eq)
  moreover have "parents_ok (new_budget d ctx (pb_budgets S))"
    using P create(2) by (auto simp: parents_ok_def new_budget_def nth_append known_def less_Suc_eq split: option.splits)
  ultimately show ?thesis using create(1) by (simp add: publication_inv_def)
next
  case (renew i d)
  let ?bs = "(pb_budgets S)[i := (pb_budgets S ! i)\<lparr>mb_deadline := d\<rparr>]"
  have "locks_ok ?bs (pb_frames S)"
    by (rule locks_ok_budgets[of "pb_budgets S"]) (use inv renew(2) in \<open>auto simp: publication_inv_def nth_list_update\<close>)
  moreover have "parents_ok ?bs"
    by (rule parents_ok_cong[of _ "pb_budgets S"]) (use inv renew(2) in \<open>auto simp: publication_inv_def nth_list_update\<close>)
  ultimately show ?thesis using renew(1) by (simp add: publication_inv_def)
next
  case (publish ctx t)
  have P: "parents_ok (pb_budgets S)" and L: "locks_ok (pb_budgets S) (pb_frames S)" using inv by (auto simp: publication_inv_def)
  have "\<forall>j \<in> set (owners (pb_budgets S) ctx). j < length (pb_budgets S)"
    using owners_known(2)[OF P] publish(2) by (simp add: known_def)
  then have "locks_ok (pb_budgets S) ((pb_frames S)(t := Entering [] (rev (owners (pb_budgets S) ctx)) # pb_frames S t))"
    using L by (intro locks_ok_same) (auto simp: locks_ok_def)
  then show ?thesis using P publish(1) by (simp add: publication_inv_def)
next
  case (cancel i t)
  have "locks_ok (pb_budgets S) ((pb_frames S)(t := Cancelling i # pb_frames S t))"
    using inv cancel(2) by (intro locks_ok_same) (auto simp: publication_inv_def locks_ok_def)
  then show ?thesis using inv cancel(1) by (simp add: publication_inv_def)
next
  case (advance t)
  then show ?thesis using advance_inv[OF inv] by blast
qed

interpretation publications: invariant_system publication_start publication_step publication_inv
proof unfold_locales
  show "publication_inv S" if "publication_start S" for S
    using that by (auto simp: publication_start_def publication_inv_def parents_ok_def locks_ok_def)
qed (rule publication_step_inv)

section \<open>Cancellation\<close>

lemma raise_if_Inr: "raise_if_model_execution_cancelled cs = Inr u \<longleftrightarrow> True \<notin> set cs"
  by (induction cs rule: raise_if_model_execution_cancelled.induct) auto

lemma advance_flag:
  assumes "advance t S = Some S'" "mb_cancelled (pb_budgets S ! i)"
  shows "mb_cancelled (pb_budgets S' ! i)"
proof -
  have set: "mb_cancelled (bs[k := (bs ! k)\<lparr>mb_cancelled := True\<rparr>] ! i)" if "mb_cancelled (bs ! i)" for bs :: budgets and k
    using that by (cases "k < length bs"; cases "i = k") (simp_all add: list_update_beyond)
  show ?thesis
    using assms(1)[unfolded advance_def] assms(2) set release_frame(3) acquire_frame(3)
    by (auto split: list.splits frame.splits sum.splits simp: put_frames_def)
qed

lemma step_flag:
  assumes "publication_step S S'" "i < length (pb_budgets S)" "mb_cancelled (pb_budgets S ! i)"
  shows "i < length (pb_budgets S') \<and> mb_cancelled (pb_budgets S' ! i)"
  using assms(1)
proof (cases rule: publication_step.cases)
  case (advance t)
  have "length (pb_budgets S') = length (pb_budgets S)"
    using advance[unfolded advance_def] by (auto simp: put_frames_def release_frame acquire_frame split: list.splits frame.splits sum.splits)
  then show ?thesis using assms(2) advance_flag[OF advance assms(3)] by simp
qed (use assms(2,3) in \<open>auto simp: new_budget_def nth_append nth_list_update\<close>)

text \<open>A publication begins only under owners none of which is cancelled.\<close>

lemma step_publishing:
  assumes "publication_step S S'" "Publishing c \<in> set (pb_frames S' u)"
  shows "Publishing c \<in> set (pb_frames S u) \<or> (\<forall>i \<in> set c. \<not> mb_cancelled (pb_budgets S ! i))"
  using assms(1)
proof (cases rule: publication_step.cases)
  case (advance t)
  then show ?thesis
    using assms(2) unfolding advance_def
    by (auto split: list.splits frame.splits sum.splits if_splits simp: raise_if_Inr put_frames_def)
qed (use assms(2) in \<open>auto split: if_splits\<close>)

text \<open>From the moment the flag of \<open>b\<close> is set by thread \<open>u\<close>: publications under \<open>b\<close> are among those
  the same thread was already inside.\<close>

definition quiet :: "nat \<Rightarrow> nat \<Rightarrow> frame set \<Rightarrow> publication \<Rightarrow> bool" where
  "quiet b u F S \<longleftrightarrow> b < length (pb_budgets S) \<and> mb_cancelled (pb_budgets S ! b) \<and>
     (\<forall>t c. Publishing c \<in> set (pb_frames S t) \<longrightarrow> b \<in> set c \<longrightarrow> t = u \<and> Publishing c \<in> F)"

interpretation cancellation: invariant_system "quiet b u F" publication_step "quiet b u F" for b u F
proof unfold_locales
  fix S S' assume q: "quiet b u F S" and step: "publication_step S S'"
  show "quiet b u F S'"
    using q step_flag[OF step, of b] step_publishing[OF step] unfolding quiet_def by meson
qed

text \<open>C18. Once cancel() returns, an abandoned worker cannot publish another result: from the moment a thread sets the flag of
  a budget under its lock, in every later state of every run no other thread is inside a publication under that
  budget; and the same thread is inside only those publications it was in when it cancelled.\<close>

theorem no_publication_after_cancel:
  assumes "publication_start S0" "publication_step\<^sup>*\<^sup>* S0 S" "pb_frames S u = Setting b # fs"
    and "advance u S = Some S1" "publication_step\<^sup>*\<^sup>* S1 S2" "b \<in> set c"
  shows "Publishing c \<in> set (pb_frames S2 t) \<longrightarrow> t = u \<and> Publishing c \<in> set fs"
proof -
  have inv: "publication_inv S" using publications.reachable_inv[OF assms(1,2)] .
  then have L: "locks_ok (pb_budgets S) (pb_frames S)" by (simp add: publication_inv_def)
  have "Setting b \<in> set (pb_frames S u)" using assms(3) by simp
  then have b: "b < length (pb_budgets S)" using L unfolding locks_ok_def by fastforce
  have S1: "S1 = put_frames u (Leaving [b] # fs) (S\<lparr>pb_budgets := (pb_budgets S)[b := (pb_budgets S ! b)\<lparr>mb_cancelled := True\<rparr>]\<rparr>)"
    using assms(3,4) by (simp add: advance_def)
  have "x = u \<and> Publishing d \<in> set fs" if d: "Publishing d \<in> set (pb_frames S1 x)" "b \<in> set d" for x d
  proof -
    have "x = u"
    proof (rule ccontr)
      assume x: "x \<noteq> u"
      then have "Publishing d \<in> set (pb_frames S x)" using d(1) by (simp add: S1)
      then have "0 < holding (pb_frames S x) b" by (rule holding_member) (simp add: d(2))
      moreover have "0 < holding (pb_frames S u) b" by (simp add: assms(3))
      ultimately show False using holder_unique[OF L b] x by blast
    qed
    with d(1) show ?thesis by (simp add: S1)
  qed
  moreover have "b < length (pb_budgets S1)" "mb_cancelled (pb_budgets S1 ! b)" using b by (simp_all add: S1)
  ultimately have "quiet b u (set fs) S1" unfolding quiet_def by blast
  from cancellation.reachable_inv[OF this assms(5)] assms(6) show ?thesis by (auto simp: quiet_def)
qed

section \<open>No deadlock\<close>

fun frame_ordered :: "frame \<Rightarrow> bool" where
  "frame_ordered (Entering taken todo) \<longleftrightarrow> sorted_wrt (<) (rev taken @ todo)"
| "frame_ordered _ \<longleftrightarrow> True"

definition ordered_inv :: "publication \<Rightarrow> bool" where
  "ordered_inv S \<longleftrightarrow> publication_inv S \<and> (\<forall>t. \<forall>f \<in> set (pb_frames S t). frame_ordered f)"

lemma advance_ordered:
  assumes "advance t S = Some S'" "\<forall>u. \<forall>f \<in> set (pb_frames S u). frame_ordered f"
  shows "\<forall>u. \<forall>f \<in> set (pb_frames S' u). frame_ordered f"
proof -
  obtain f fs where fs: "pb_frames S t = f # fs" using assms(1) by (auto simp: advance_def split: list.splits)
  then have ord: "frame_ordered f" "\<forall>g \<in> set fs. frame_ordered g" using assms(2) by (metis list.set_intros)+
  have other: "pb_frames S' u = pb_frames S u" if "u \<noteq> t" for u
    using assms(1) that fs unfolding advance_def by (auto split: frame.splits list.splits sum.splits simp: put_frames_def)
  have "\<forall>g \<in> set (pb_frames S' t). frame_ordered g"
    using assms(1) fs ord unfolding advance_def by (auto split: frame.splits list.splits sum.splits simp: put_frames_def)
  with other assms(2) show ?thesis by metis
qed

lemma step_ordered:
  assumes "ordered_inv S" "publication_step S S'"
  shows "ordered_inv S'"
proof -
  have inv: "publication_inv S'" using assms publication_step_inv by (auto simp: ordered_inv_def)
  have old: "\<forall>t. \<forall>f \<in> set (pb_frames S t). frame_ordered f" using assms(1) by (simp add: ordered_inv_def)
  from assms(2) have "\<forall>t. \<forall>f \<in> set (pb_frames S' t). frame_ordered f"
  proof (cases rule: publication_step.cases)
    case (publish ctx t)
    have "sorted_wrt (>) (owners (pb_budgets S) ctx)"
      using owners_known(1)[of "pb_budgets S" ctx] assms(1) publish(2) by (simp add: ordered_inv_def publication_inv_def known_def)
    then show ?thesis using old publish(1) by (auto simp: sorted_wrt_rev)
  next
    case (advance t)
    then show ?thesis using advance_ordered old by blast
  qed (use old in auto)
  with inv show ?thesis by (simp add: ordered_inv_def)
qed

interpretation ordered_publications: invariant_system publication_start publication_step ordered_inv
proof unfold_locales
  show "ordered_inv S" if "publication_start S" for S
    using that publications.init_inv by (auto simp: ordered_inv_def publication_start_def)
qed (rule step_ordered)

lemma blocked_frame:
  assumes "pb_frames S t = f # fs" "advance t S = None"
  obtains i rest where "wanted f = i # rest" "acquire_publication t i (pb_budgets S) = None"
  using assms by (auto simp: advance_def split: frame.splits list.splits sum.splits)

text \<open>The code's use: inside a publication a thread publishes or cancels only under locks it already holds.\<close>

definition nested_calls_covered :: "publication \<Rightarrow> bool" where
  "nested_calls_covered S \<longleftrightarrow> (\<forall>t. case pb_frames S t of [] \<Rightarrow> True | f # fs \<Rightarrow> fs \<noteq> [] \<longrightarrow> (\<forall>i \<in> set (wanted f). 0 < holding fs i))"

lemma blocked_by:
  assumes inv: "ordered_inv S" and nested: "nested_calls_covered S" and t: "pb_frames S t = f # fs" "advance t S = None"
  obtains i rest u where "fs = []" "wanted f = i # rest" "i < length (pb_budgets S)" "0 < holding (pb_frames S u) i"
proof -
  have L: "locks_ok (pb_budgets S) (pb_frames S)" using inv by (simp add: ordered_inv_def publication_inv_def)
  from blocked_frame[OF t] obtain i rest where i: "wanted f = i # rest" "acquire_publication t i (pb_budgets S) = None" .
  have "f \<in> set (pb_frames S t)" "i \<in> set (wanted f)" using t(1) i(1) by simp_all
  then have len: "i < length (pb_budgets S)" using L unfolding locks_ok_def by blast
  then have agrees: "lock_agrees (mb_lock (pb_budgets S ! i)) (\<lambda>u. holding (pb_frames S u) i)" using L by (simp add: locks_ok_def)
  obtain u n where u: "mb_lock (pb_budgets S ! i) = Some (u, n)" "u \<noteq> t"
    using i(2) by (auto simp: acquire_publication_def split: option.splits if_splits)
  have hold: "0 < holding (pb_frames S u) i" "holding (pb_frames S t) i = 0" using agrees u by (simp_all add: lock_agrees_def)
  have "fs = []"
  proof (rule ccontr)
    assume "fs \<noteq> []"
    then have "0 < holding fs i" using nested[unfolded nested_calls_covered_def, rule_format, of t] t(1) i(1) by simp
    then show False using hold(2) t(1) by simp
  qed
  with that i(1) len hold(1) show ?thesis by blast
qed


section \<open>Deadlines\<close>

definition deadlines_nested :: "budgets \<Rightarrow> nat option \<Rightarrow> bool" where
  "deadlines_nested bs ctx \<longleftrightarrow> sorted (map (\<lambda>i. mb_deadline (bs ! i)) (owners bs ctx))"

lemma owners_cong:
  assumes "length bs' = length bs" "\<And>j. mb_parent (bs' ! j) = mb_parent (bs ! j)"
  shows "owners bs' ctx = owners bs ctx"
proof -
  have "owner_chain n bs' ctx = owner_chain n bs ctx" for n
    by (induction n arbitrary: ctx) (simp_all add: assms(2) split: option.split)
  then show ?thesis by (simp add: owners_def assms(1))
qed

lemma deadline_update_frame:
  "mb_parent (bs[i := (bs ! i)\<lparr>mb_deadline := d\<rparr>] ! j) = mb_parent (bs ! j)"
  by (cases "i < length bs"; cases "j = i"; simp add: list_update_beyond)

lemma raise_deadlines:
  fixes r :: rat
  assumes "distinct is" "\<forall>i \<in> set is. i < length bs"
  defines "bs' \<equiv> fold (\<lambda>i s. s[i := (s ! i)\<lparr>mb_deadline := max (mb_deadline (s ! i)) r\<rparr>]) is bs"
  shows "length bs' = length bs" "mb_parent (bs' ! j) = mb_parent (bs ! j)"
    and "mb_deadline (bs' ! j) = (if j \<in> set is then max (mb_deadline (bs ! j)) r else mb_deadline (bs ! j))"
proof -
  have "length (fold (\<lambda>i s. s[i := (s ! i)\<lparr>mb_deadline := max (mb_deadline (s ! i)) r\<rparr>]) is bs) = length bs \<and>
    mb_parent (fold (\<lambda>i s. s[i := (s ! i)\<lparr>mb_deadline := max (mb_deadline (s ! i)) r\<rparr>]) is bs ! j) = mb_parent (bs ! j) \<and>
    mb_deadline (fold (\<lambda>i s. s[i := (s ! i)\<lparr>mb_deadline := max (mb_deadline (s ! i)) r\<rparr>]) is bs ! j) =
      (if j \<in> set is then max (mb_deadline (bs ! j)) r else mb_deadline (bs ! j))"
    using assms(1,2)
  proof (induction "is" arbitrary: bs)
    case (Cons i "is")
    let ?bs = "bs[i := (bs ! i)\<lparr>mb_deadline := max (mb_deadline (bs ! i)) r\<rparr>]"
    have "\<forall>k \<in> set is. k < length ?bs" using Cons.prems(2) by simp
    from Cons.IH[of ?bs, OF _ this] Cons.prems show ?case by (auto simp: deadline_update_frame nth_list_update)
  qed simp
  then show "length bs' = length bs" "mb_parent (bs' ! j) = mb_parent (bs ! j)"
    "mb_deadline (bs' ! j) = (if j \<in> set is then max (mb_deadline (bs ! j)) r else mb_deadline (bs ! j))"
    by (simp_all add: bs'_def)
qed

text \<open>Binding a budget to the context it was created in makes the innermost deadline the earliest of its owners, and a
  refresh moves every owner at least to the refreshed deadline, lowers none and keeps that order.\<close>

lemma bind_keeps_nesting:
  assumes "parents_ok bs" "b < length bs" "mb_parent (bs ! b) = ctx" "deadlines_nested bs ctx"
  shows "deadlines_nested (fst (bind_model_execution_deadline bs ctx b)) (Some b)"
proof -
  let ?e = "case current_model_execution_deadline bs ctx of None \<Rightarrow> mb_deadline (bs ! b) | Some d \<Rightarrow> min d (mb_deadline (bs ! b))"
  let ?bs = "bs[b := (bs ! b)\<lparr>mb_deadline := ?e\<rparr>]"
  have own: "owners ?bs c = owners bs c" for c by (rule owners_cong) (simp_all add: deadline_update_frame)
  have chain: "owners bs (Some b) = b # owners bs ctx" using owners_Some[OF assms(1,2)] assms(3) by simp
  then have "sorted_wrt (>) (b # owners bs ctx)" using owners_decreasing[OF assms(1,2)] by simp
  then have "b \<notin> set (owners bs ctx)" by auto
  then have same: "map (\<lambda>i. mb_deadline (?bs ! i)) (owners bs ctx) = map (\<lambda>i. mb_deadline (bs ! i)) (owners bs ctx)"
    by (intro map_cong refl) (metis nth_list_update_neq)
  have low: "\<forall>x \<in> set (map (\<lambda>i. mb_deadline (bs ! i)) (owners bs ctx)). ?e \<le> x"
  proof (cases ctx)
    case (Some p)
    then have "p < length bs" using parents_okD[OF assms(1,2)] assms(2,3) by simp
    then have "owners bs ctx = p # owners bs (mb_parent (bs ! p))" using owners_Some[OF assms(1)] Some by simp
    then show ?thesis using assms(4) Some by (auto simp: deadlines_nested_def current_model_execution_deadline_def)
  qed simp
  have "sorted (map (\<lambda>i. mb_deadline (?bs ! i)) (owners bs (Some b)))"
    using low assms(2,4) unfolding chain list.map same by (simp add: deadlines_nested_def)
  then show ?thesis by (simp add: bind_model_execution_deadline_def deadlines_nested_def Let_def own)
qed

lemma refresh_keeps_nesting:
  assumes "parents_ok bs" "case ctx of None \<Rightarrow> True | Some i \<Rightarrow> i < length bs" "deadlines_nested bs ctx"
    and "refresh_model_execution_deadline bs ctx window now = Inr (Some r, bs')"
  shows "deadlines_nested bs' ctx" "\<forall>i \<in> set (owners bs ctx). r \<le> mb_deadline (bs' ! i)" "mb_deadline (bs ! j) \<le> mb_deadline (bs' ! j)"
proof -
  have dec: "sorted_wrt (>) (owners bs ctx)" and len: "\<forall>i \<in> set (owners bs ctx). i < length bs" using owners_known[OF assms(1,2)] by auto
  then have d: "distinct (owners bs ctx)" by (induction "owners bs ctx") (auto simp: sorted_wrt_iff_nth_less distinct_conv_nth nat_neq_iff)
  have bs': "bs' = fold (\<lambda>i s. s[i := (s ! i)\<lparr>mb_deadline := max (mb_deadline (s ! i)) r\<rparr>]) (owners bs ctx) bs"
    using assms(4) by (auto simp: refresh_model_execution_deadline_def Let_def split: option.splits if_splits)
  note up = raise_deadlines[OF d len, of r, folded bs']
  have own: "owners bs' ctx = owners bs ctx" by (rule owners_cong) (simp_all add: up)
  have eq: "map (\<lambda>i. mb_deadline (bs' ! i)) (owners bs ctx) = map (\<lambda>x. max x r) (map (\<lambda>i. mb_deadline (bs ! i)) (owners bs ctx))" by (simp add: up(3))
  have "sorted (map (\<lambda>x. max x r) xs)" if "sorted xs" for xs
    using that by (induction xs) (auto simp: le_max_iff_disj)
  then show "deadlines_nested bs' ctx" using assms(3) unfolding deadlines_nested_def own eq by blast
  show "\<forall>i \<in> set (owners bs ctx). r \<le> mb_deadline (bs' ! i)" "mb_deadline (bs ! j) \<le> mb_deadline (bs' ! j)" by (simp_all add: up(3))
qed

section \<open>A cancelled worker\<close>

primrec run_all :: "(publication \<Rightarrow> publication option) list \<Rightarrow> publication \<Rightarrow> publication option" where
  "run_all [] S = Some S"
| "run_all (f # fs) S = (case f S of None \<Rightarrow> None | Some S' \<Rightarrow> run_all fs S')"

definition create_at :: "nat option \<Rightarrow> publication \<Rightarrow> publication option" where
  "create_at ctx S = (if known S ctx then Some (S\<lparr>pb_budgets := new_budget 600 ctx (pb_budgets S)\<rparr>) else None)"

definition publish_at :: "nat \<Rightarrow> nat option \<Rightarrow> publication \<Rightarrow> publication option" where
  "publish_at t ctx S = (if known S ctx \<and> may_call (pb_frames S t)
     then Some (put_frames t (Entering [] (rev (owners (pb_budgets S) ctx)) # pb_frames S t) S) else None)"

definition cancel_at :: "nat \<Rightarrow> nat \<Rightarrow> publication \<Rightarrow> publication option" where
  "cancel_at t i S = (if i < length (pb_budgets S) \<and> may_call (pb_frames S t) then Some (put_frames t (Cancelling i # pb_frames S t) S) else None)"

lemma run_all_steps:
  assumes "run_all fs S = Some S'"
    and "\<And>f A B. f \<in> set fs \<Longrightarrow> f A = Some B \<Longrightarrow> publication_step A B"
  shows "publication_step\<^sup>*\<^sup>* S S'"
  using assms
proof (induction fs arbitrary: S)
  case (Cons f fs)
  then obtain T where T: "f S = Some T" "run_all fs T = Some S'" by (auto split: option.splits)
  then have "publication_step\<^sup>*\<^sup>* T S'" using Cons.IH Cons.prems(2) by auto
  with Cons.prems(2)[of f S T] T(1) show ?case by (auto intro: converse_rtranclp_into_rtranclp)
qed simp

lemma call_steps:
  "create_at ctx A = Some B \<Longrightarrow> publication_step A B" "publish_at t ctx A = Some B \<Longrightarrow> publication_step A B"
  "cancel_at t i A = Some B \<Longrightarrow> publication_step A B"
  by (auto simp: create_at_def publish_at_def cancel_at_def intro: publication_step.intros split: if_splits)

definition empty_publication :: publication where
  "empty_publication = \<lparr>pb_budgets = [], pb_frames = (\<lambda>_. [])\<rparr>"

text \<open>Worker 1 works under budget 1, owned by budget 0; scheduler 9 cancels budget 0.\<close>

definition before_cancel :: "(publication \<Rightarrow> publication option) list" where
  "before_cancel = [create_at None, create_at (Some 0), publish_at 1 (Some 1), cancel_at 9 0, advance 9]"

definition after_cancel :: "(publication \<Rightarrow> publication option) list" where
  "after_cancel = [advance 9, advance 9, advance 1, advance 1, advance 1]"

definition reached :: "(publication \<Rightarrow> publication option) list \<Rightarrow> publication" where
  "reached fs = the (run_all fs empty_publication)"

lemma empty_publication_start: "publication_start empty_publication"
  by (simp add: publication_start_def empty_publication_def)

lemma before_cancel_steps: "publication_step\<^sup>*\<^sup>* empty_publication (reached before_cancel)"
proof -
  have "run_all before_cancel empty_publication \<noteq> None" by code_simp
  then have "run_all before_cancel empty_publication = Some (reached before_cancel)" by (auto simp: reached_def)
  then show ?thesis by (rule run_all_steps) (auto simp: before_cancel_def intro: call_steps publication_step.advance)
qed

theorem no_publication_after_cancel_witness:
  "\<exists>S2. run_all after_cancel (reached before_cancel) = Some S2 \<and> pb_frames S2 1 = [Leaving [1, 0]] \<and>
    Publishing [1, 0] \<notin> set (pb_frames S2 1)"
proof -
  let ?S = "reached before_cancel"
  have eval: "(pb_frames ?S 9, map_option (\<lambda>S. pb_frames S 1) (run_all after_cancel ?S)) = ([Setting 0], Some [Leaving [1, 0]])" by code_simp
  then obtain S2 where S2: "run_all after_cancel ?S = Some S2" "pb_frames S2 1 = [Leaving [1, 0]]" by auto
  have set: "pb_frames ?S 9 = Setting 0 # []" using eval by simp
  obtain S1 where S1: "advance 9 ?S = Some S1" using S2(1) by (auto simp: after_cancel_def split: option.splits)
  with S2(1) have "run_all [advance 9, advance 1, advance 1, advance 1] S1 = Some S2" by (simp add: after_cancel_def)
  then have "publication_step\<^sup>*\<^sup>* S1 S2" by (rule run_all_steps) (auto intro: publication_step.advance)
  from no_publication_after_cancel[OF empty_publication_start before_cancel_steps set S1 this, of "[1, 0]" 1] S2 show ?thesis by auto
qed

lemma before_cancel_frames: "pb_frames (reached before_cancel) = (\<lambda>_. [])(1 := [Entering [] [0, 1]], 9 := [Setting 0])"
  by (simp add: reached_def before_cancel_def create_at_def known_def new_budget_def publish_at_def may_call_def owners_def cancel_at_def
      advance_def acquire_publication_def put_frames_def empty_publication_def)


end
