(* ===== verification/Model_Lock_Properties.thy ===== *)
theory Model_Lock_Properties
  imports Model_Locks Assoc_Lists
begin

text \<open>
  What the locks guarantee over all interleavings: writers exclude every other thread as long as no upgrade
  expires, an upgrade keeps the read depth of its thread, a free lock admits a waiting thread, and the gate never
  admits more callers than its capacity.
\<close>

section \<open>Counts\<close>

lemma count_update [simp]: "count_of (AList.update t n d) u = (if u = t then n else count_of d u)"
  by (simp add: count_of_def)

lemma count_delete [simp]: "count_of (AList.delete t d) u = (if u = t then 0 else count_of d u)"
  by (simp add: count_of_def delete_conv')

text \<open>The threads a dictionary counts; every count is positive.\<close>

definition held :: "(nat \<times> int) list \<Rightarrow> nat set" where
  "held d = dom (map_of d)"

lemma held_simps [simp]: "held [] = {}" "held (AList.update t n d) = insert t (held d)" "held (AList.delete t d) = held d - {t}"
  by (auto simp: held_def delete_conv' split: if_splits)

lemma held_empty: "held d = {} \<longleftrightarrow> d = []"
  by (cases d) (auto simp: held_def)

lemma count_absent: "t \<notin> held d \<Longrightarrow> count_of d t = 0"
  by (simp add: count_of_def held_def domIff)

definition counted :: "(nat \<times> int) list \<Rightarrow> bool" where
  "counted d \<longleftrightarrow> distinct (keys d) \<and> (\<forall>t \<in> held d. 0 < count_of d t)"

lemma counted_Nil [simp]: "counted []"
  by (simp add: counted_def)

lemma counted_single [simp]: "held [(t, n)] = {t}" "counted [(t, n)] \<longleftrightarrow> 0 < n"
  by (auto simp: counted_def held_def count_of_def split: if_splits)

lemma count_single [simp]: "count_of [(t, n)] u = (if u = t then n else 0)" "count_of [] u = 0"
  by (simp_all add: count_of_def)

lemma deleted_last: "AList.delete t d = [] \<Longrightarrow> held d \<subseteq> {t} \<and> (u \<noteq> t \<longrightarrow> count_of d u = 0)"
  using held_simps(3)[of t d] count_delete[of t d u] by auto

lemma counted_update: "counted d \<Longrightarrow> 0 < n \<Longrightarrow> counted (AList.update t n d)"
  by (auto simp: counted_def)

lemma counted_delete: "counted d \<Longrightarrow> counted (AList.delete t d)"
  by (auto simp: counted_def distinct_delete)

lemma counted_nonneg: "counted d \<Longrightarrow> 0 \<le> count_of d t"
  by (cases "t \<in> held d") (auto simp: counted_def count_absent less_imp_le)

lemma counted_zero: "counted d \<Longrightarrow> count_of d t = 0 \<longleftrightarrow> t \<notin> held d"
  by (auto simp: counted_def count_absent)

section \<open>The invariant of the lock\<close>

definition waiting_writers :: "lock_system \<Rightarrow> nat set" where
  "waiting_writers S = {t. \<exists>n. ls_phase S t = AwaitWrite n}"

definition lock_inv :: "lock_system \<Rightarrow> bool" where
  "lock_inv S \<longleftrightarrow> (let L = ls_lock S in
     finite (waiting_writers S) \<and> rw_waiting L = int (card (waiting_writers S)) \<and>
     counted (rw_readers L) \<and> counted (rw_suspended L) \<and>
     (\<forall>t n. ls_phase S t = AwaitWrite n \<longrightarrow> 0 \<le> n \<and> t \<notin> held (rw_readers L)) \<and>
     (case rw_writer L of None \<Rightarrow> rw_depth L = 0 \<and> rw_suspended L = []
      | Some w \<Rightarrow> 0 < rw_depth L \<and> held (rw_suspended L) \<subseteq> {w} \<and> ls_phase S w = Running))"

definition exclusive :: "lock_system \<Rightarrow> bool" where
  "exclusive S \<longleftrightarrow> (\<forall>w. rw_writer (ls_lock S) = Some w \<longrightarrow> held (rw_readers (ls_lock S)) \<subseteq> {w})"

lemma settle_sel [simp]: "ls_lock (settle_lock t r S) = fst r" "ls_phase (settle_lock t r S) = (ls_phase S)(t := snd r)"
  by (simp_all add: settle_lock_def)

lemma waiting_settle:
  "waiting_writers (settle_lock t r S) = (case snd r of AwaitWrite n \<Rightarrow> insert t (waiting_writers S) | _ \<Rightarrow> waiting_writers S - {t})"
  by (auto simp: waiting_writers_def split: phase.splits)

lemma waiting_member: "t \<in> waiting_writers S \<longleftrightarrow> (\<exists>n. ls_phase S t = AwaitWrite n)"
  by (simp add: waiting_writers_def)

lemma enter_wait_inv:
  assumes "lock_inv S" "ls_phase S t = Running" "rw_writer (ls_lock S) \<noteq> Some t"
  shows "lock_inv (settle_lock t ((ls_lock S)\<lparr>rw_readers := AList.delete t (rw_readers (ls_lock S)), rw_waiting := rw_waiting (ls_lock S) + 1\<rparr>,
    AwaitWrite (count_of (rw_readers (ls_lock S)) t)) S)"
proof -
  have "t \<notin> waiting_writers S" using assms(2) by (simp add: waiting_member)
  then show ?thesis using assms unfolding lock_inv_def Let_def
    by (auto simp: waiting_settle counted_delete counted_nonneg split: option.splits)
qed

lemma retry_write_inv:
  assumes "lock_inv S" "ls_phase S t = AwaitWrite n"
  shows "lock_inv (settle_lock t (retry_acquire_write t n (ls_lock S)) S)"
proof (cases "write_free (ls_lock S)")
  case True
  let ?L = "ls_lock S"
  have t: "t \<in> waiting_writers S" using assms(2) by (simp add: waiting_member)
  have "card (waiting_writers S - {t}) = card (waiting_writers S) - 1" "0 < card (waiting_writers S)"
    using t assms(1) by (auto simp: lock_inv_def Let_def card_gt_0_iff)
  moreover have "rw_suspended ?L = []" "rw_readers ?L = []" "rw_writer ?L = None" "n \<noteq> 0 \<longrightarrow> 0 < n"
    using True assms by (auto simp: write_free_def lock_inv_def Let_def order_less_le)
  ultimately show ?thesis using assms True unfolding lock_inv_def Let_def
    by (auto simp: waiting_settle retry_acquire_write_def take_write_def counted_update count_of_def of_nat_diff)
next
  case False
  then have "settle_lock t (retry_acquire_write t n (ls_lock S)) S = S" using assms(2) by (simp add: retry_acquire_write_def settle_lock_def fun_upd_idem)
  then show ?thesis using assms(1) by simp
qed

lemma settle_twice: "settle_lock t r (settle_lock t q S) = settle_lock t r S"
  by (simp add: settle_lock_def)

lemma acquire_write_inv:
  assumes "lock_inv S" "ls_phase S t = Running"
  shows "lock_inv (settle_lock t (acquire_write t (ls_lock S)) S)"
proof (cases "rw_writer (ls_lock S) = Some t")
  case True
  have "t \<notin> waiting_writers S" using assms(2) by (simp add: waiting_member)
  then show ?thesis using True assms unfolding lock_inv_def Let_def by (auto simp: acquire_write_def waiting_settle)
next
  case False
  note inv = enter_wait_inv[OF assms False]
  from retry_write_inv[OF inv, of t "count_of (rw_readers (ls_lock S)) t"] False show ?thesis
    by (simp add: acquire_write_def settle_twice)
qed

lemma add_reads_sel [simp]:
  "rw_writer (add_reads t n L) = rw_writer L" "rw_depth (add_reads t n L) = rw_depth L" "rw_suspended (add_reads t n L) = rw_suspended L"
  "rw_waiting (add_reads t n L) = rw_waiting L" "held (rw_readers (add_reads t n L)) = (if n = 0 then held (rw_readers L) else insert t (held (rw_readers L)))"
  by (simp_all add: add_reads_def)

lemma add_reads_counted: "counted (rw_readers L) \<Longrightarrow> 0 \<le> n \<Longrightarrow> counted (rw_readers (add_reads t n L))"
  using counted_nonneg[of "rw_readers L" t] by (auto simp: add_reads_def intro!: counted_update)

lemma abort_write_inv:
  assumes "lock_inv S" "ls_phase S t = AwaitWrite n"
  shows "lock_inv (settle_lock t (abort_write t n (ls_lock S), Running) S)"
proof -
  have t: "t \<in> waiting_writers S" using assms(2) by (simp add: waiting_member)
  have "card (waiting_writers S - {t}) = card (waiting_writers S) - 1" "0 < card (waiting_writers S)"
    using t assms(1) by (auto simp: lock_inv_def Let_def card_gt_0_iff)
  then show ?thesis using assms unfolding lock_inv_def Let_def
    by (auto simp: waiting_settle abort_write_def add_reads_counted of_nat_diff split: option.splits)
qed

lemma read_inv:
  assumes "lock_inv S" "\<not> (\<exists>n. ls_phase S t = AwaitWrite n)"
  shows "lock_inv (settle_lock t (add_reads t 1 (ls_lock S), Running) S)" "ph \<in> {AwaitRead, Running} \<Longrightarrow> ls_phase S t = AwaitRead \<or> rw_writer (ls_lock S) \<noteq> Some t \<Longrightarrow>
    lock_inv (settle_lock t (ls_lock S, ph) S)"
proof -
  have "t \<notin> waiting_writers S" using assms(2) by (simp add: waiting_member)
  then show "lock_inv (settle_lock t (add_reads t 1 (ls_lock S), Running) S)" "ph \<in> {AwaitRead, Running} \<Longrightarrow> ls_phase S t = AwaitRead \<or> rw_writer (ls_lock S) \<noteq> Some t \<Longrightarrow>
    lock_inv (settle_lock t (ls_lock S, ph) S)"
    using assms unfolding lock_inv_def Let_def by (auto simp: waiting_settle add_reads_counted split: option.splits)
qed

lemma waiting_lock [simp]: "waiting_writers (S\<lparr>ls_lock := L\<rparr>) = waiting_writers S"
  by (simp add: waiting_writers_def)

lemma release_write_inv:
  assumes "lock_inv S" "ls_phase S t = Running" "release_write t (ls_lock S) = Inr L"
  shows "lock_inv (S\<lparr>ls_lock := L\<rparr>)"
proof -
  have owner: "rw_writer (ls_lock S) = Some t" using assms(3) by (auto simp: release_write_def split: if_splits)
  have "held (AList.delete t (rw_suspended (ls_lock S))) = {}" using assms(1) owner by (auto simp: lock_inv_def Let_def)
  then have gone: "AList.delete t (rw_suspended (ls_lock S)) = []" unfolding held_empty .
  have "0 \<le> count_of (rw_suspended (ls_lock S)) t" using assms(1) by (auto simp: lock_inv_def Let_def counted_nonneg)
  then show ?thesis using assms owner gone unfolding lock_inv_def Let_def
    by (auto simp: release_write_def add_reads_counted split: if_splits)
qed

lemma release_read_inv:
  assumes "lock_inv S" "ls_phase S t = Running" "release_read t (ls_lock S) = Inr L"
  shows "lock_inv (S\<lparr>ls_lock := L\<rparr>)"
  using assms unfolding lock_inv_def Let_def
  by (auto simp: release_read_def Let_def counted_delete counted_update split: if_splits option.splits)

lemma lock_exec_inv:
  assumes "lock_inv S" "lock_exec a t S = Some S'"
  shows "lock_inv S'"
proof (cases "ls_phase S t")
  case Running
  then show ?thesis using assms read_inv[OF assms(1), of t] acquire_write_inv[OF assms(1) Running]
      release_write_inv[OF assms(1) Running] release_read_inv[OF assms(1) Running]
    by (auto simp: lock_exec_def when_released_def acquire_read_def retry_acquire_read_def split: lock_action.splits sum.splits if_splits)
next
  case (AwaitWrite n)
  then show ?thesis using assms retry_write_inv[OF assms(1) AwaitWrite] abort_write_inv[OF assms(1) AwaitWrite]
    by (auto simp: lock_exec_def split: lock_action.splits)
next
  case AwaitRead
  then show ?thesis using assms read_inv[OF assms(1), of t]
    by (auto simp: lock_exec_def retry_acquire_read_def split: lock_action.splits if_splits)
qed

lemma lock_start_inv: "lock_start S \<Longrightarrow> lock_inv S \<and> exclusive S"
  by (simp add: lock_start_def lock_inv_def exclusive_def new_rwlock_def waiting_writers_def)

interpretation rw_system: invariant_system lock_start lock_step lock_inv
  by unfold_locales (auto simp: lock_start_inv lock_step_def intro: lock_exec_inv)

section \<open>Exclusion\<close>

text \<open>An upgrade expires when a thread that had read access gives up waiting for the write lock.\<close>

definition upgrade_expires :: "lock_action \<Rightarrow> nat \<Rightarrow> lock_system \<Rightarrow> bool" where
  "upgrade_expires a t S \<longleftrightarrow> a = Expire \<and> (case ls_phase S t of AwaitWrite n \<Rightarrow> n \<noteq> 0 | _ \<Rightarrow> False)"

definition calm_step :: "lock_system \<Rightarrow> lock_system \<Rightarrow> bool" where
  "calm_step S S' \<longleftrightarrow> (\<exists>a t. lock_exec a t S = Some S' \<and> \<not> upgrade_expires a t S)"

lemma retry_write_exclusive: "exclusive S \<Longrightarrow> exclusive (settle_lock t (retry_acquire_write t n (ls_lock S)) S)"
  by (auto simp: exclusive_def retry_acquire_write_def take_write_def write_free_def)

lemma release_read_held: "release_read t L = Inr L' \<Longrightarrow> held (rw_readers L') \<subseteq> held (rw_readers L) \<and> rw_writer L' = rw_writer L"
  using count_absent[of t "rw_readers L"] by (cases "t \<in> held (rw_readers L)") (auto simp: release_read_def Let_def split: if_splits)

lemma exec_exclusive:
  assumes "exclusive S" "lock_exec a t S = Some S'" "\<not> upgrade_expires a t S"
  shows "exclusive S'"
proof (cases "ls_phase S t")
  case Running
  have "exclusive (settle_lock t (acquire_write t (ls_lock S)) S)"
    using assms(1) by (auto simp: exclusive_def acquire_write_def retry_acquire_write_def take_write_def write_free_def Let_def dest: deleted_last)
  then show ?thesis using assms Running
    by (auto simp: lock_exec_def when_released_def exclusive_def acquire_read_def retry_acquire_read_def read_free_def release_write_def
        dest!: release_read_held split: lock_action.splits sum.splits if_splits) blast+
next
  case (AwaitWrite n)
  then show ?thesis using assms retry_write_exclusive[OF assms(1), of t n]
    by (auto simp: lock_exec_def upgrade_expires_def abort_write_def exclusive_def split: lock_action.splits)
next
  case AwaitRead
  then show ?thesis using assms
    by (auto simp: lock_exec_def retry_acquire_read_def read_free_def exclusive_def split: lock_action.splits if_splits)
qed

interpretation calm_system: invariant_system lock_start calm_step "\<lambda>S. lock_inv S \<and> exclusive S"
  by unfold_locales (auto simp: lock_start_inv calm_step_def intro: lock_exec_inv exec_exclusive)


section \<open>Read depth\<close>

definition read_depth :: "lock_system \<Rightarrow> nat \<Rightarrow> int" where
  "read_depth S t = count_of (rw_readers (ls_lock S)) t + count_of (rw_suspended (ls_lock S)) t +
     (case ls_phase S t of AwaitWrite n \<Rightarrow> n | _ \<Rightarrow> 0)"

text \<open>What a piece adds to the read depth of its thread.\<close>

definition read_change :: "lock_action \<Rightarrow> nat \<Rightarrow> lock_system \<Rightarrow> int" where
  "read_change a t S =
     (if a = ReleaseRead then - 1
      else if a = AcquireRead \<and> (rw_writer (ls_lock S) = Some t \<or> read_free (ls_lock S)) then 1
      else if a = Wake \<and> ls_phase S t = AwaitRead \<and> read_free (ls_lock S) then 1 else 0)"

lemma count_add_reads [simp]: "count_of (rw_readers (add_reads t n L)) u = count_of (rw_readers L) u + (if u = t then n else 0)"
  by (simp add: add_reads_def)

lemma read_depth_changes:
  assumes "lock_inv S" "lock_exec a t S = Some S'"
  shows "read_depth S' u = read_depth S u + (if u = t then read_change a t S else 0)"
proof -
  have none: "rw_writer (ls_lock S) = None \<Longrightarrow> rw_suspended (ls_lock S) = []" using assms(1) by (simp add: lock_inv_def Let_def)
  have own: "count_of (rw_readers (ls_lock S)) t = 0" if "ls_phase S t = AwaitWrite n" for n
    using assms(1) that by (auto simp: lock_inv_def Let_def count_absent)
  show ?thesis using assms(2) none own
    by (cases "ls_phase S t"; cases a)
      (auto simp: lock_exec_def read_depth_def read_change_def when_released_def acquire_write_def retry_acquire_write_def take_write_def write_free_def
        abort_write_def acquire_read_def retry_acquire_read_def release_write_def release_read_def Let_def
        dest!: deleted_last split: if_splits)
qed

text \<open>Upgrades keep the shared scope: whatever happens to the write lock, the read depth of a thread, counting reads it
  has suspended to wait for the write lock, is changed by its own read calls only, by exactly one each.\<close>

theorem upgrade_keeps_read_depth:
  assumes "lock_start S0" and "lock_step\<^sup>*\<^sup>* S0 S" and "lock_exec a t S = Some S'"
  shows "read_depth S' u = read_depth S u + (if u = t then read_change a t S else 0)"
  using read_depth_changes[OF rw_system.reachable_inv[OF assms(1,2)] assms(3)] .

section \<open>Progress\<close>

text \<open>A free lock admits a waiting thread: in every reachable state in which no thread holds the lock and some thread
  waits, some waiting thread gets what it waits for when it wakes.\<close>

theorem free_lock_admits:
  assumes "lock_start S0" and "lock_step\<^sup>*\<^sup>* S0 S" and "rw_writer (ls_lock S) = None" and "rw_readers (ls_lock S) = []"
    and "ls_phase S t \<noteq> Running"
  shows "\<exists>u S'. ls_phase S u \<noteq> Running \<and> lock_exec Wake u S = Some S' \<and> ls_phase S' u = Running"
proof (cases "waiting_writers S = {}")
  case True
  have "rw_waiting (ls_lock S) = 0" using rw_system.reachable_inv[OF assms(1,2)] True by (simp add: lock_inv_def Let_def)
  moreover have "ls_phase S t = AwaitRead" using True assms(5) by (cases "ls_phase S t") (auto simp: waiting_writers_def)
  ultimately show ?thesis using assms(3) by (intro exI[of _ t]) (simp add: lock_exec_def retry_acquire_read_def read_free_def)
next
  case False
  then obtain u n where "ls_phase S u = AwaitWrite n" by (auto simp: waiting_writers_def)
  then show ?thesis using assms(3,4) by (intro exI[of _ u]) (simp add: lock_exec_def retry_acquire_write_def write_free_def)
qed

section \<open>Sample runs\<close>

primrec lock_run :: "(lock_action \<times> nat) list \<Rightarrow> lock_system \<Rightarrow> lock_system option" where
  "lock_run [] S = Some S"
| "lock_run (x # xs) S = (case lock_exec (fst x) (snd x) S of None \<Rightarrow> None | Some S' \<Rightarrow> lock_run xs S')"

primrec calm_run :: "(lock_action \<times> nat) list \<Rightarrow> lock_system \<Rightarrow> bool" where
  "calm_run [] S \<longleftrightarrow> True"
| "calm_run (x # xs) S \<longleftrightarrow> \<not> upgrade_expires (fst x) (snd x) S \<and>
     (case lock_exec (fst x) (snd x) S of None \<Rightarrow> False | Some S' \<Rightarrow> calm_run xs S')"

lemma lock_run_steps: "lock_run xs S = Some S' \<Longrightarrow> lock_step\<^sup>*\<^sup>* S S'"
proof (induction xs arbitrary: S)
  case (Cons x xs)
  then obtain U where U: "lock_exec (fst x) (snd x) S = Some U" "lock_run xs U = Some S'" by (auto split: option.splits)
  then have "lock_step S U" by (auto simp: lock_step_def)
  then show ?case using Cons.IH[OF U(2)] by (rule converse_rtranclp_into_rtranclp)
qed simp

lemma calm_run_steps: "lock_run xs S = Some S' \<Longrightarrow> calm_run xs S \<Longrightarrow> calm_step\<^sup>*\<^sup>* S S'"
proof (induction xs arbitrary: S)
  case (Cons x xs)
  then obtain U where U: "lock_exec (fst x) (snd x) S = Some U" "lock_run xs U = Some S'" "calm_run xs U"
      "\<not> upgrade_expires (fst x) (snd x) S"
    by (auto split: option.splits)
  then have "calm_step S U" by (auto simp: calm_step_def)
  then show ?case using Cons.IH[OF U(2,3)] by (rule converse_rtranclp_into_rtranclp)
qed simp

definition start_system :: lock_system where
  "start_system = \<lparr>ls_lock = new_rwlock, ls_phase = (\<lambda>_. Running)\<rparr>"

lemma start_system_start: "lock_start start_system"
  by (simp add: lock_start_def start_system_def)

text \<open>Two readers; the first upgrades and waits, the second leaves, the first wakes as the writer.\<close>

definition upgrade_run :: "(lock_action \<times> nat) list" where
  "upgrade_run = [(AcquireRead, 1), (AcquireRead, 3), (Acquire, 1), (ReleaseRead, 3), (Wake, 1)]"

definition after_run :: "(lock_action \<times> nat) list \<Rightarrow> lock_system" where
  "after_run xs = (case lock_run xs start_system of None \<Rightarrow> start_system | Some S \<Rightarrow> S)"

lemma upgrade_run_eval:
  "(lock_run upgrade_run start_system \<noteq> None, calm_run upgrade_run start_system, ls_lock (after_run upgrade_run)) =
   (True, True, \<lparr>rw_writer = Some 1, rw_depth = 1, rw_readers = [], rw_suspended = [(1, 1)], rw_waiting = 0\<rparr>)"
  by code_simp

lemma after_run_reached: "lock_run xs start_system \<noteq> None \<Longrightarrow> lock_run xs start_system = Some (after_run xs)"
  by (auto simp: after_run_def)


theorem upgrade_keeps_read_depth_witness:
  "\<exists>S'. lock_exec Release 1 (after_run upgrade_run) = Some S' \<and> read_depth S' 1 = read_depth (after_run upgrade_run) 1"
proof -
  note eval = upgrade_run_eval[unfolded prod.inject]
  have run: "lock_step\<^sup>*\<^sup>* start_system (after_run upgrade_run)"
    using lock_run_steps[OF after_run_reached, of upgrade_run] eval by simp
  have "lock_exec Release 1 (after_run upgrade_run) \<noteq> None" by code_simp
  then obtain S' where S': "lock_exec Release 1 (after_run upgrade_run) = Some S'" by blast
  from upgrade_keeps_read_depth[OF start_system_start run S', of 1] S' show ?thesis by (simp add: read_change_def)
qed

definition queue_run :: "(lock_action \<times> nat) list" where
  "queue_run = [(Acquire, 1), (AcquireRead, 2), (Acquire, 3), (Release, 1)]"

theorem free_lock_admits_witness:
  "\<exists>u S'. lock_exec Wake u (after_run queue_run) = Some S' \<and> ls_phase S' u = Running"
proof -
  have eval: "(lock_run queue_run start_system \<noteq> None, rw_writer (ls_lock (after_run queue_run)), rw_readers (ls_lock (after_run queue_run)),
      ls_phase (after_run queue_run) 2) = (True, None, [], AwaitRead)" by code_simp
  have run: "lock_step\<^sup>*\<^sup>* start_system (after_run queue_run)"
    using lock_run_steps[OF after_run_reached, of queue_run] eval by simp
  have "rw_writer (ls_lock (after_run queue_run)) = None" "rw_readers (ls_lock (after_run queue_run)) = []" "ls_phase (after_run queue_run) 2 \<noteq> Running"
    using eval by simp_all
  from free_lock_admits[OF start_system_start run this] show ?thesis by blast
qed

text \<open>An expired upgrade breaks exclusion: the reads come back although another thread has the write lock by now.\<close>

lemma expired_upgrade_breaks_exclusion:
  "\<exists>S. lock_step\<^sup>*\<^sup>* start_system S \<and> rw_writer (ls_lock S) = Some 2 \<and> rw_readers (ls_lock S) = [(1, 1)]"
proof -
  define xs :: "(lock_action \<times> nat) list" where
    "xs = [(AcquireRead, 1), (AcquireRead, 3), (Acquire, 1), (Acquire, 2), (ReleaseRead, 3), (Wake, 2), (Expire, 1)]"
  have "(lock_run xs start_system \<noteq> None, rw_writer (ls_lock (after_run xs)), rw_readers (ls_lock (after_run xs))) = (True, Some 2, [(1, 1)])"
    unfolding xs_def by code_simp
  then show ?thesis using lock_run_steps[OF after_run_reached, of xs] by auto
qed

text \<open>A reader that asks for read access again while a writer waits never gets it, and neither does the writer: waking
  changes nothing.\<close>

lemma nested_read_deadlock:
  "\<exists>S. lock_step\<^sup>*\<^sup>* start_system S \<and> ls_phase S 1 = AwaitRead \<and> ls_phase S 2 = AwaitWrite 0 \<and>
     (\<forall>u S'. lock_exec Wake u S = Some S' \<longrightarrow> S' = S)"
proof -
  define xs :: "(lock_action \<times> nat) list" where "xs = [(AcquireRead, 1), (Acquire, 2), (AcquireRead, 1)]"
  have eval: "(lock_run xs start_system \<noteq> None, ls_lock (after_run xs), ls_phase (after_run xs) 1, ls_phase (after_run xs) 2) =
     (True, \<lparr>rw_writer = None, rw_depth = 0, rw_readers = [(1, 1)], rw_suspended = [], rw_waiting = 1\<rparr>, AwaitRead, AwaitWrite 0)"
    unfolding xs_def by code_simp
  then have run: "lock_step\<^sup>*\<^sup>* start_system (after_run xs)" using lock_run_steps[OF after_run_reached, of xs] by simp
  have "S' = after_run xs" if "lock_exec Wake u (after_run xs) = Some S'" for u S'
  proof -
    have lock: "ls_lock (after_run xs) = \<lparr>rw_writer = None, rw_depth = 0, rw_readers = [(1, 1)], rw_suspended = [], rw_waiting = 1\<rparr>"
      using eval by simp
    show ?thesis using that
      by (cases "ls_phase (after_run xs) u")
        (auto simp: lock_exec_def retry_acquire_write_def retry_acquire_read_def write_free_def read_free_def lock settle_lock_def fun_upd_idem
          intro!: lock_system.equality)
  qed
  with run eval show ?thesis by (intro exI[of _ "after_run xs"]) simp
qed

section \<open>The gate\<close>

lemma length_update: "length (AList.update t n d) = (if t \<in> held d then length d else Suc (length d))"
proof -
  have "length (keys (AList.update t n d)) = (if t \<in> set (keys d) then length d else Suc (length d))" by (simp add: keys_AList_update)
  then show ?thesis by (simp add: held_def dom_map_of_conv_image_fst)
qed

lemma gate_step_bounded:
  assumes "gate_step c owners owners'" "counted owners \<and> int (length owners) \<le> gate_capacity c"
  shows "counted owners' \<and> int (length owners') \<le> gate_capacity c"
  using assms
proof (cases rule: gate_step.cases)
  case (slot_taken capacity t)
  then show ?thesis using assms(2) counted_nonneg[of owners t] counted_zero[of owners t]
    by (auto simp: acquire_slot_def Let_def gate_capacity_def length_update counted_update split: if_splits)
next
  case (slot_released t)
  then show ?thesis using assms(2) counted_zero[of owners t] length_delete_le[of t owners]
    by (auto simp: release_slot_def Let_def length_update counted_update counted_delete split: if_splits)
qed

interpretation gate_system: invariant_system "\<lambda>owners. owners = []" "gate_step c" "\<lambda>owners. counted owners \<and> int (length owners) \<le> gate_capacity c"
  for c
  by unfold_locales (auto simp: gate_capacity_def dest: gate_step_bounded)

text \<open>C21. The gate bounds its callers: when every capacity it was given is at most \<open>c\<close>, at most \<open>max 1 c\<close> threads hold a slot,
  whatever the order of calls; a thread that holds one enters again at any capacity, and a thread without one gets in
  exactly when fewer hold slots than the capacity allows.\<close>

theorem gate_bounds_callers:
  assumes "(gate_step c)\<^sup>*\<^sup>* [] owners"
  shows "int (length owners) \<le> max 1 c \<and>
    (acquire_slot capacity t owners \<noteq> None \<longleftrightarrow> t \<in> held owners \<or> int (length owners) < max 1 capacity)"
proof -
  have inv: "counted owners \<and> int (length owners) \<le> gate_capacity c" using gate_system.reachable_inv[OF refl assms] .
  then show ?thesis using counted_zero[of owners t] by (auto simp: acquire_slot_def Let_def gate_capacity_def)
qed

theorem gate_bounds_callers_witness:
  "acquire_slot 2 3 [(1, 2), (2, 1)] = None \<and> acquire_slot 0 1 [(1, 2), (2, 1)] \<noteq> None"
proof -
  have eval: "(acquire_slot 2 1 [], acquire_slot 2 2 [(1, 1)], acquire_slot 2 1 [(1, 1), (2, 1)]) =
      (Some [(1, 1)], Some [(1, 1), (2, 1)], Some [(1, 2), (2, 1)])" by code_simp
  have "gate_step 2 [] [(1, 1)]" "gate_step 2 [(1, 1)] [(1, 1), (2, 1)]" "gate_step 2 [(1, 1), (2, 1)] [(1, 2), (2, 1)]"
    using eval by (auto intro!: slot_taken[of 2])
  then have "(gate_step 2)\<^sup>*\<^sup>* [] [(1, 2), (2, 1)]" 
    by (blast intro: rtranclp.rtrancl_into_rtrancl r_into_rtranclp)
  from gate_bounds_callers[OF this, of 2 3] gate_bounds_callers[OF this, of 0 1] show ?thesis by (auto simp: held_def)
qed

end
