(* ===== verification/Spec2Isabelle.thy ===== *)
theory Spec2Isabelle
  imports Proof_Level Ledger_Receipts Scheduler_Properties Work_Plan_Properties Artifact_Job_Properties Typed_Plan_Render
    Json_Stream_Properties Evidence_Properties Approval Artifact_Graph_Properties Deadline_Executor_Properties
    Execution_Budget_Properties Model_Lock_Properties
begin

text \<open>
  \<^bold>\<open>Verification of the production core of M.M.M. (Make Minecraft Mode).\<close>

  M.M.M. turns an approved proposal for a Minecraft mod into a built and tested JAR. A proposal names the platform,
  the evidence it rests on and the modules to build; it is validated, hashed and approved by its hash. Its modules are
  ordered and cut into work nodes; a durable ledger records the state of every node; a scheduler hands nodes to
  workers and admits only as many as the machine can hold; a node counts as done only with a receipt whose
  evidence is checked when it is written and again whenever it is read. The content of a node is either a graph of
  artifact jobs that hand typed ports to each other, or a typed plan: a small program written by a language model,
  checked by the host and rendered as Java. All paths below are under \<^verbatim>\<open>src/minecraft_mod_ai/\<close>.

  \<^bold>\<open>The model of Python.\<close> \<open>MMM_Prelude\<close>: JSON-like values (\<open>pyval\<close>), exceptions as values
  (\<open>pyerr\<close>, \<open>'a result\<close>), dictionaries as association lists in insertion order, \<open>str\<close>, \<open>repr\<close>, \<open>strip\<close> and case
  mapping on code points below U+0100. \<open>Py_Json\<close>: \<open>canonical_json\<close> of \<^verbatim>\<open>spec.py\<close>, \<open>int()\<close>, digests. \<open>Py_Float\<close>:
  conversion of integers to binary64 and the shortest \<open>repr\<close>. What is not code of the repository is a parameter:
  the record \<open>runtime\<close> (SHA-256, \<open>json.loads\<close>, the digest of byte code), \<open>re_ok\<close> (\<open>re.compile\<close> succeeds), \<open>env\<close> (the
  environment variables), the clock \<open>now\<close>. Parts of the repository that read files are parameters too:
  \<open>platform\<close> (\<open>validate_platform_modules\<close>) and \<open>spec_input\<close> (\<open>canonical_specification_input\<close>).

  \<^bold>\<open>Canonical JSON\<close> (\<open>Utf8\<close>, \<open>Json_Stream\<close>, \<open>Json_Stream_Text\<close>, \<open>Json_Stream_Fuel\<close>, \<open>Json_Stream_Properties\<close>;
  \<^verbatim>\<open>json_stream.py\<close>): the serializer that yields fragments, the digest over them and the parser of UTF-8 chunks, over
  full Unicode. The parser inverts the serializer for every cut into chunks, ends on every input, and the hash
  binds the value.

  \<^bold>\<open>Evidence\<close> (\<open>Evidence_Catalog\<close>, \<open>Evidence_Properties\<close>; \<^verbatim>\<open>knowledge.py\<close>): the catalogue of official sources, the search over
  it and the trust check, which accepts exactly unaltered records of the catalogue; the selection for a target always
  succeeds and is trusted.

  \<^bold>\<open>Proposals and approval\<close> (\<open>Py_Text\<close>, \<open>Target_Contract\<close>, \<open>Platform_Lock\<close>, \<open>Mod_Spec\<close>, \<open>Complete_Spec\<close>, \<open>Approval\<close>,
  \<open>Spec_Samples\<close>; \<^verbatim>\<open>target_contract.py\<close>, \<^verbatim>\<open>spec.py\<close>, \<^verbatim>\<open>complete_spec.py\<close>): regular expressions as functions on strings, the
  semantics of target versions and mappings, the platform lock with its receipt, the base proposal and the complete
  proposal with validation, canonical hash and approval. The locale \<open>approval_gate\<close> is what both proposals promise:
  an approved proposal stays valid, and the recorded hash determines its content unless SHA-256 collides. Records
  are typed like the data classes; a field is a value where the code tests its type. The record \<open>complete_host\<close> holds
  the checks of other modules and \<open>Proposal.from_dict\<close>, which stores values of any type.

  \<^bold>\<open>Proof levels\<close> (\<open>Proof_Level\<close>, \<^verbatim>\<open>proof_level.py\<close>): the levels of evidence for reused code, their legal
  transitions and receipts. No run reaches a level that allows reuse without an attested license and a pinned
  commit.

  \<^bold>\<open>Artifact ports and jobs\<close> (\<open>Immutable_Table\<close>, \<open>Artifact_Ports\<close>, \<open>Artifact_Job\<close>, \<open>Artifact_Job_Properties\<close>;
  \<^verbatim>\<open>artifact_ports.py\<close>, \<^verbatim>\<open>artifact_job.py\<close>): the write-once port registry is an interpretation of the locale
  \<open>immutable_table\<close>; serialized jobs round-trip; the graph check accepts exactly the acyclic, fully supplied job
  lists.

  \<^bold>\<open>Running artifact jobs\<close> (\<open>Artifact_Graph\<close>, \<open>Artifact_Graph_Invariant\<close>, \<open>Artifact_Graph_Properties\<close>;
  \<^verbatim>\<open>artifact_graph_executor.py\<close>): the checks before a run, the validation of one artifact and the event loop with its heap,
  counters, two pools and leases. Every \<open>wait\<close> is answered by an event, so that a statement over all lists of events
  covers every order in which workers finish. The loop is an interpretation of \<open>kahn_graph\<close>: no job starts before its
  producers are validated, a deadlock is reported exactly for a cycle, a failure cancels the workers left behind, a run
  with live workers ends after at most two events per job, and an answer vouches for every job. The record \<open>graph_host\<close>
  holds the version contexts, the templates, the file system and \<open>_wire_validated_java_startup\<close>.

  \<^bold>\<open>Parallel work with deadlines\<close> (\<open>Deadline_Executor\<close>, \<open>Deadline_Executor_Properties\<close>; \<^verbatim>\<open>deadline_executor.py\<close>): the bounded
  window of submitted items and its draining. No item is lost or settled twice, the window stays full, and live workers
  end every run.

  \<^bold>\<open>Locks and leases\<close> (\<open>Model_Locks\<close>, \<open>Model_Lock_Properties\<close>, \<open>Execution_Budget\<close>, \<open>Execution_Budget_Properties\<close>;
  \<^verbatim>\<open>model_concurrency.py\<close>): the read-write lock of the GPU and the capacity gate as atomic pieces cut at their waits;
  budgets in a store with their deadlines and owners; publication against cancellation as steps of threads with
  reentrant locks. A writer is alone unless an upgrade is abandoned, the gate keeps its bound, once \<open>cancel\<close> has set
  the flag no other thread publishes under that budget, and taking the locks from the outermost owner never deadlocks.
  A deadline refresh keeps the innermost deadline the earliest.

  \<^bold>\<open>Completion evidence\<close> (\<open>Verifier_Receipts\<close>, \<^verbatim>\<open>verifier_receipt_truth_contract.py\<close>): what a receipt must hold
  for its stage, and when a stored receipt may be reused.

  \<^bold>\<open>The ledger\<close> (\<open>Work_Ledger\<close>, \<open>Ledger_Tasks\<close>, \<open>Ledger_Sync\<close>, \<open>Ledger_Checkpoints\<close>; \<^verbatim>\<open>work_graph.py\<close>,
  \<^verbatim>\<open>work_graph_receipt_read.py\<close>): the SQLite tables are the record \<open>ledger\<close>, every transaction is a function on it, an
  operation that reads outside its transaction is two functions. \<open>Transition_System\<close> and \<open>Ledger_Steps\<close> give the step
  relation of interleaved transactions; \<open>Ledger_Invariant\<close> and \<open>Ledger_Properties\<close> show the invariant, \<open>Ledger_Fencing\<close> that
  lost claims never publish and that an acyclic ledger makes progress, \<open>Ledger_Receipts\<close> that successes are backed
  by verified receipts.

  \<^bold>\<open>The scheduler\<close> (\<open>Scheduler\<close>, \<open>Scheduler_Properties\<close>; \<^verbatim>\<open>scheduler_parallel_safety_contract.py\<close>,
  \<^verbatim>\<open>scheduler_claim_fencing_contract.py\<close>): admission by lanes, lease renewal, fenced publication.

  \<^bold>\<open>The planner\<close> (\<open>Backend_Contract\<close>, \<open>Kahn\<close>, \<open>Module_Order\<close>, \<open>Module_Shards\<close>, \<open>Module_Shards_Proofs\<close>,
  \<open>Shard_Properties\<close>, \<open>Production_Routing\<close>, \<open>Work_Plan\<close>, \<open>Validated_Routing\<close>, \<open>Work_Plan_Properties\<close>; \<^verbatim>\<open>platform_backend_contract.py\<close>,
  \<^verbatim>\<open>scale_policy.py\<close>, \<^verbatim>\<open>production_routing_contract.py\<close>, \<^verbatim>\<open>work_graph.py\<close>): routing tables and routes, resource
  policy, topological order, sharding and the assembly of the plan. Kahn's algorithm is the locale \<open>kahn_graph\<close>,
  interpreted on the modules, on the shard groups, on the check of the artifact jobs and on their execution. The planner always builds a plan for a
  validated proposal, bound to its hash; the ledger accepts the plan, and in no reachable ledger is the release started
  before every other node has succeeded. The records \<open>planner\<close> and \<open>routing_host\<close> hold the code the planner calls
  outside the model.

  \<^bold>\<open>Typed plans\<close> (\<open>Typed_Plan_IR\<close>, \<open>Typed_Plan_Block\<close>, \<open>Typed_Events\<close>, \<open>Typed_Plan_Check\<close>, \<open>Typed_Plan_Queries\<close>,
  \<open>Typed_Plan_Java\<close>; \<^verbatim>\<open>typed_plan_ir.py\<close>, \<^verbatim>\<open>typed_event_ir.py\<close>, \<^verbatim>\<open>typed_action_contract.py\<close>, \<^verbatim>\<open>typed_plan_java.py\<close>,
  \<^verbatim>\<open>typed_action_java.py\<close>, \<^verbatim>\<open>typed_host_capabilities.py\<close>): the checker, the queries over a plan and the Java renderer.
  \<open>Typed_Plan_Walk\<close>, \<open>Typed_Plan_Flow\<close>, \<open>Typed_Plan_Calls\<close> and \<open>Typed_Plan_Properties\<close> show that an accepted plan has no
  recursion and no dangling reference; \<open>Typed_Plan_Render\<close> that it always renders, and where the two sides
  disagree.

  \<^bold>\<open>Bounds and fuel.\<close> Every loop of the model terminates by a measure, with four exceptions. The search for the
  shortest decimal of a float tries the 17 digits that identify every binary64 number. The stream parser has the
  fuel \<open>stream_fuel\<close>, two steps for each byte of its input; it is shown that it never runs out. The walk over the owners of a
  budget has the number of budgets as fuel, enough because a budget is created after its owner. The two event loops run as
  long as they are given events; it is shown how many events end them.

  \<^bold>\<open>Not modelled.\<close> The orchestrator, model servers, retrieval, platform discovery, language servers, generators,
  front ends and archive inspection: they are external processes, networks, files and templates. The dialogues that
  author a typed plan are not modelled; what they produce is checked by the modelled checker. Installers that patch
  one module into another at import time are not modelled; the model is the patched behaviour.
\<close>

end
